(* ===== verification/Prelude.thy ===== *)
theory Prelude
  imports Complex_Main "HOL-Library.AList" "HOL-Library.List_Lexorder" "HOL-Library.Char_ord"
    "HOL-Library.Product_Lexorder" "HOL-Library.Multiset"
begin

section \<open>Shared types, automation and lemmas\<close>

text \<open>
  What every component shares: Go maps as association lists in their (arbitrary) iteration
  order, error lists of which the first one counts, strings as byte lists, clock arithmetic,
  and the choice of a best element by a strict order, which is how the dispatcher picks a
  robot. The choice is stated once as the locale \<open>chooser\<close>.
\<close>

named_theorems frame \<open>what an operation leaves alone\<close>

named_theorems effect \<open>what an operation does to the maps of the engine\<close>

subsection \<open>Go maps\<close>

text \<open>
  A Go map is an association list with distinct keys. Its order is the order in which a
  \<open>range\<close> loop visits the entries, which Go leaves open: the list of a state is one of the
  possible orders, and the results that must not depend on it are proved not to.
\<close>

type_synonym ('k, 'v) gomap = "('k \<times> 'v) list"

abbreviation go_get :: "('k, 'v) gomap \<Rightarrow> 'k \<Rightarrow> 'v option" where
  "go_get \<equiv> map_of"

abbreviation go_put :: "'k \<Rightarrow> 'v \<Rightarrow> ('k, 'v) gomap \<Rightarrow> ('k, 'v) gomap" where
  "go_put \<equiv> AList.update"

abbreviation go_del :: "'k \<Rightarrow> ('k, 'v) gomap \<Rightarrow> ('k, 'v) gomap" where
  "go_del \<equiv> AList.delete"

abbreviation go_keys :: "('k, 'v) gomap \<Rightarrow> 'k list" where
  "go_keys \<equiv> map fst"

abbreviation go_vals :: "('k, 'v) gomap \<Rightarrow> 'v list" where
  "go_vals \<equiv> map snd"

definition go_wf :: "('v \<Rightarrow> 'k) \<Rightarrow> ('k, 'v) gomap \<Rightarrow> bool" where
  "go_wf key m \<longleftrightarrow> distinct (go_keys m) \<and> (\<forall>(k, v) \<in> set m. key v = k)"

text \<open>A Go set (a map to the empty struct) is a list of its elements.\<close>

definition go_add :: "'a \<Rightarrow> 'a list \<Rightarrow> 'a list" where
  "go_add x xs = (if x \<in> set xs then xs else xs @ [x])"

declare update_conv' [simp]
declare delete_conv' [simp]

lemma go_get_key: "go_get m k = Some v \<Longrightarrow> k \<in> set (go_keys m)"
  by (force dest: map_of_SomeD)

lemma go_get_None: "go_get m k = None \<longleftrightarrow> k \<notin> set (go_keys m)"
  by (simp add: map_of_eq_None_iff)

lemma set_go_add [simp]: "set (go_add x xs) = insert x (set xs)"
  by (auto simp: go_add_def)

lemma distinct_go_add [simp]: "distinct (go_add x xs) \<longleftrightarrow> distinct xs"
  by (auto simp: go_add_def)

lemma go_wf_Nil [simp]: "go_wf key []"
  by (simp add: go_wf_def)

lemma go_wf_distinct: "go_wf key m \<Longrightarrow> distinct (go_keys m)"
  by (simp add: go_wf_def)

lemma go_wf_key: "go_wf key m \<Longrightarrow> go_get m k = Some v \<Longrightarrow> key v = k"
  by (auto simp: go_wf_def dest: map_of_SomeD)

lemma go_wf_mem: "go_wf key m \<Longrightarrow> (k, v) \<in> set m \<longleftrightarrow> go_get m k = Some v"
  by (auto simp: go_wf_def dest: map_of_SomeD)

lemma go_wf_vals: "go_wf key m \<Longrightarrow> v \<in> set (go_vals m) \<longleftrightarrow> go_get m (key v) = Some v"
  by (force simp: go_wf_def dest: map_of_SomeD)

lemma go_wf_vals_ex: "go_wf key m \<Longrightarrow> v \<in> set (go_vals m) \<longleftrightarrow> (\<exists>k. go_get m k = Some v)"
  by (metis go_wf_key go_wf_vals)

lemma go_wf_put:
  assumes "go_wf key m" and "key v = k"
  shows "go_wf key (go_put k v m)"
proof -
  have d: "distinct (go_keys (go_put k v m))"
    using assms(1) by (intro distinct_update) (simp add: go_wf_def)
  have "\<forall>(k', v') \<in> set (go_put k v m). key v' = k'"
  proof clarify
    fix k' v' assume "(k', v') \<in> set (go_put k v m)"
    with d have "go_get (go_put k v m) k' = Some v'" by (simp only: map_of_eq_Some_iff)
    then show "key v' = k'"
      using assms by (auto split: if_splits dest: go_wf_key)
  qed
  with d show ?thesis by (simp add: go_wf_def)
qed

lemma go_wf_del: "go_wf key m \<Longrightarrow> go_wf key (go_del k m)"
  using distinct_delete [of m k] by (auto simp: go_wf_def AList.delete_eq)

lemma go_keys_put: "go_get m k = Some v' \<Longrightarrow> go_keys (go_put k v m) = go_keys m"
  by (simp add: update_keys map_of_eq_Some_iff) (metis domI dom_map_of_conv_image_fst list.set_map)

lemma go_wf_vals_distinct:
  assumes "go_wf key m"
  shows "distinct (map key (go_vals m))"
proof -
  have "map key (go_vals m) = go_keys m"
    using assms by (induction m) (auto simp: go_wf_def)
  then show ?thesis using go_wf_distinct [OF assms] by (simp only:)
qed

lemma go_wf_put_vals:
  "go_wf key m \<Longrightarrow> key v = k \<Longrightarrow>
    x \<in> set (go_vals (go_put k v m)) \<longleftrightarrow> x = v \<or> (x \<in> set (go_vals m) \<and> key x \<noteq> k)"
  by (simp only: go_wf_vals [OF go_wf_put] go_wf_vals update_conv' fun_upd_apply) auto

lemma map_upds_key:
  "distinct (map key xs) \<Longrightarrow> x \<in> set xs \<Longrightarrow> (m(map key xs [\<mapsto>] map f xs)) (key x) = Some (f x)"
proof (induction xs arbitrary: m)
  case (Cons y ys)
  show ?case
  proof (cases "x = y")
    case True
    then show ?thesis using Cons.prems by (simp add: map_upds_apply_nontin)
  next
    case False
    then show ?thesis using Cons by (auto simp: image_iff)
  qed
qed simp

subsection \<open>Errors\<close>

text \<open>The first error of a list of outcomes: the result of \<open>recordPersistOutcome\<close>.\<close>

fun firstErr :: "'e option list \<Rightarrow> 'e option" where
  "firstErr [] = None"
| "firstErr (Some x # es) = Some x"
| "firstErr (None # es) = firstErr es"

lemma firstErr_None: "firstErr es = None \<longleftrightarrow> (\<forall>x \<in> set es. x = None)"
  by (induction es rule: firstErr.induct) auto

subsection \<open>Strings\<close>

text \<open>
  A Go string is a list of bytes. \<open>strings.TrimSpace\<close> drops the white space of Unicode in its
  UTF-8 form; \<open>dropSpace\<close> drops one such character from the front.
\<close>

definition asciiSpace :: "char \<Rightarrow> bool" where
  "asciiSpace c \<longleftrightarrow> c \<in> {CHR 0x09, CHR 0x0A, CHR 0x0B, CHR 0x0C, CHR 0x0D, CHR 0x20}"

definition space2 :: "char \<Rightarrow> char \<Rightarrow> bool" where
  "space2 a b \<longleftrightarrow> a = CHR 0xC2 \<and> (b = CHR 0x85 \<or> b = CHR 0xA0)"

definition space3 :: "char \<Rightarrow> char \<Rightarrow> char \<Rightarrow> bool" where
  "space3 a b c \<longleftrightarrow>
     (a = CHR 0xE1 \<and> b = CHR 0x9A \<and> c = CHR 0x80)
   \<or> (a = CHR 0xE2 \<and> b = CHR 0x80 \<and>
       (c \<in> {CHR 0x80, CHR 0x81, CHR 0x82, CHR 0x83, CHR 0x84, CHR 0x85, CHR 0x86, CHR 0x87,
             CHR 0x88, CHR 0x89, CHR 0x8A, CHR 0xA8, CHR 0xA9, CHR 0xAF}))
   \<or> (a = CHR 0xE2 \<and> b = CHR 0x81 \<and> c = CHR 0x9F)
   \<or> (a = CHR 0xE3 \<and> b = CHR 0x80 \<and> c = CHR 0x80)"

definition dropSpace :: "string \<Rightarrow> string option" where
  "dropSpace s = (case s of [] \<Rightarrow> None
     | a # t \<Rightarrow> if asciiSpace a then Some t else
        (case t of [] \<Rightarrow> None
         | b # u \<Rightarrow> if space2 a b then Some u else
            (case u of [] \<Rightarrow> None
             | c # v \<Rightarrow> if space3 a b c then Some v else None)))"

lemma dropSpace_length: "dropSpace s = Some t \<Longrightarrow> length t < length s"
  by (auto simp: dropSpace_def split: list.splits if_splits)

text \<open>\<open>isBlank s\<close> is \<open>strings.TrimSpace(s) == ""\<close>: nothing but white space.\<close>

function isBlank :: "string \<Rightarrow> bool" where
  "isBlank s = (case dropSpace s of None \<Rightarrow> s = [] | Some t \<Rightarrow> isBlank t)"
  by pat_completeness auto
termination
  by (relation "measure length") (auto dest: dropSpace_length)

declare isBlank.simps [simp del]

lemma isBlank_Nil [simp]: "isBlank []"
  by (simp add: isBlank.simps dropSpace_def)

subsection \<open>Time\<close>

text \<open>
  An instant is the number of nanoseconds since the Unix epoch and a duration a number of
  nanoseconds. \<open>time.Time.Sub\<close> saturates at the ends of the signed 64-bit range. The zero
  \<open>time.Time\<close> ("never") is \<open>None\<close>.
\<close>

type_synonym instant = int
type_synonym duration = int

definition nanosecond :: duration where "nanosecond = 1"
definition millisecond :: duration where "millisecond = 1000000"
definition second :: duration where "second = 1000000000"
definition minute :: duration where "minute = 60 * second"
definition hour :: duration where "hour = 60 * minute"

definition maxDuration :: duration where "maxDuration = 2 ^ 63 - 1"
definition minDuration :: duration where "minDuration = - (2 ^ 63)"

definition time_sub :: "instant \<Rightarrow> instant \<Rightarrow> duration" where
  "time_sub a b = max minDuration (min maxDuration (a - b))"

definition unixMilli :: "instant \<Rightarrow> int" where
  "unixMilli t = t div millisecond"

definition milliseconds :: "duration \<Rightarrow> int" where
  "milliseconds d = sgn d * (\<bar>d\<bar> div millisecond)"

lemma time_sub_exact: "\<bar>a - b\<bar> < 2 ^ 63 \<Longrightarrow> time_sub a b = a - b"
  by (auto simp: time_sub_def maxDuration_def minDuration_def)

lemma time_sub_self [simp]: "time_sub a a = 0"
  by (simp add: time_sub_def maxDuration_def minDuration_def)

lemma unixMilli_mono: "a \<le> b \<Longrightarrow> unixMilli a \<le> unixMilli b"
  by (simp add: unixMilli_def millisecond_def zdiv_mono1)

subsection \<open>Sorting\<close>

text \<open>
  \<open>sort.Slice\<close> is not stable, so it is modelled by a sort only where the keys of the elements
  are distinct; there the result does not depend on the order of the input.
\<close>

lemma sort_key_unique:
  assumes "mset xs = mset ys" and "inj_on f (set xs)"
  shows "sort_key f xs = sort_key f ys"
proof -
  have "mset xs = mset (sort_key f ys)" using assms(1) by simp
  then show ?thesis
    using assms(2) by (intro sort_key_inj_key_eq) auto
qed

lemma inj_on_of_distinct: "distinct (map f xs) \<Longrightarrow> inj_on f (set xs)"
  by (simp add: distinct_map)

subsection \<open>The best element of a collection\<close>

text \<open>
  The loop that keeps the best candidate seen so far: \<open>better r than\<close> decides between two
  candidates, and any candidate is better than none.
\<close>

fun pickBest :: "('a \<Rightarrow> 'a \<Rightarrow> bool) \<Rightarrow> ('a \<Rightarrow> bool) \<Rightarrow> 'a list \<Rightarrow> 'a option \<Rightarrow> 'a option" where
  "pickBest better ok [] best = best"
| "pickBest better ok (r # rs) best =
     (if ok r \<and> (case best of None \<Rightarrow> True | Some b \<Rightarrow> better r b)
      then pickBest better ok rs (Some r) else pickBest better ok rs best)"

lemma pickBest_None:
  "pickBest better ok rs None = None \<longleftrightarrow> (\<forall>r \<in> set rs. \<not> ok r)"
proof -
  have some: "pickBest better ok rs (Some b) \<noteq> None" for rs b
    by (induction rs arbitrary: b) auto
  show ?thesis by (induction rs) (auto simp: some)
qed

locale chooser =
  fixes better :: "'a \<Rightarrow> 'a \<Rightarrow> bool"
    and key :: "'a \<Rightarrow> 'k"
  assumes irrefl: "\<not> better x x"
    and trans: "better x y \<Longrightarrow> better y z \<Longrightarrow> better x z"
    and total: "key x \<noteq> key y \<Longrightarrow> better x y \<or> better y x"
begin

lemma asym: "better x y \<Longrightarrow> \<not> better y x"
  using irrefl trans by blast

lemma pick_Some:
  assumes "pickBest better ok rs (Some b) = Some c"
    and "distinct (map key (b # rs))"
  shows "(c = b \<or> c \<in> set rs \<and> ok c) \<and> (\<forall>r \<in> set rs. ok r \<longrightarrow> r = c \<or> better c r)
    \<and> (b = c \<or> better c b)"
  using assms
proof (induction rs arbitrary: b)
  case Nil
  then show ?case by simp
next
  case (Cons r rs)
  show ?case
  proof (cases "ok r \<and> better r b")
    case True
    then have "pickBest better ok rs (Some r) = Some c" using Cons.prems by simp
    then show ?thesis
      using Cons.IH [of r] Cons.prems(2) True trans by auto
  next
    case False
    then have p: "pickBest better ok rs (Some b) = Some c" using Cons.prems(1) by auto
    have "key r \<noteq> key b" using Cons.prems(2) by auto
    then have "ok r \<Longrightarrow> better b r" using False total by blast
    then show ?thesis
      using Cons.IH [OF p] Cons.prems(2) trans by auto
  qed
qed

lemma pick_best:
  assumes "pickBest better ok rs None = Some c" and "distinct (map key rs)"
  shows "c \<in> set rs \<and> ok c \<and> (\<forall>r \<in> set rs. ok r \<longrightarrow> r = c \<or> better c r)"
  using assms
proof (induction rs)
  case Nil
  then show ?case by simp
next
  case (Cons r rs)
  show ?case
  proof (cases "ok r")
    case True
    then have "pickBest better ok rs (Some r) = Some c" using Cons.prems by simp
    from pick_Some [OF this] Cons.prems(2) True show ?thesis by auto
  next
    case False
    with Cons show ?thesis by auto
  qed
qed

text \<open>The choice is the least element and so does not depend on the order of the collection.\<close>

lemma pick_order:
  assumes "set rs = set rs'" and "distinct (map key rs)" and "distinct (map key rs')"
  shows "pickBest better ok rs None = pickBest better ok rs' None"
proof (cases "pickBest better ok rs None")
  case None
  then show ?thesis using assms(1) by (metis pickBest_None)
next
  case (Some c)
  then have "\<exists>d. pickBest better ok rs' None = Some d"
    using assms(1) by (metis option.exhaust pickBest_None option.distinct(1))
  then obtain d where d: "pickBest better ok rs' None = Some d" by blast
  have "c = d \<or> better c d" "d = c \<or> better d c"
    using pick_best [OF Some assms(2)] pick_best [OF d assms(3)] assms(1) by auto
  then show ?thesis using Some d asym by auto
qed

lemma pick_iff:
  assumes "distinct (map key rs)"
  shows "pickBest better ok rs None = Some c \<longleftrightarrow>
    c \<in> set rs \<and> ok c \<and> (\<forall>r \<in> set rs. ok r \<longrightarrow> r = c \<or> better c r)"
proof
  assume r: "c \<in> set rs \<and> ok c \<and> (\<forall>r \<in> set rs. ok r \<longrightarrow> r = c \<or> better c r)"
  then obtain d where d: "pickBest better ok rs None = Some d"
    by (metis option.exhaust pickBest_None)
  have "d = c" using pick_best [OF d assms] r asym by metis
  then show "pickBest better ok rs None = Some c" using d by simp
qed (use pick_best assms in blast)

end

end
