(* ===== verification/Model.thy ===== *)
theory Model
  imports Prelude
begin

section \<open>The data model of the dispatcher\<close>

text \<open>
  The types of \<open>src/src/dispatcher/dispatcher.go\<close> (jobs, robots, statuses, errors) and the
  settings of the optional behaviours. Go's \<open>int\<close> and \<open>int64\<close> fields are integers: they hold
  priorities, counters and milliseconds, which the code only compares and counts up.
\<close>

subsection \<open>Jobs\<close>

datatype JobStatus =
    StatusPending | StatusBlocked | StatusAssigned | StatusDone | StatusFailed
  | StatusUnreachable | StatusUnknown | StatusCancelled

text \<open>The wire form of a status, and \<open>ValidStatus\<close>, which reads one.\<close>

fun statusText :: "JobStatus \<Rightarrow> string" where
  "statusText StatusPending = ''pending''"
| "statusText StatusBlocked = ''blocked''"
| "statusText StatusAssigned = ''assigned''"
| "statusText StatusDone = ''done''"
| "statusText StatusFailed = ''failed''"
| "statusText StatusUnreachable = ''unreachable''"
| "statusText StatusUnknown = ''unknown''"
| "statusText StatusCancelled = ''cancelled''"

definition allStatuses :: "JobStatus list" where
  "allStatuses = [StatusPending, StatusBlocked, StatusAssigned, StatusDone, StatusFailed,
     StatusUnreachable, StatusUnknown, StatusCancelled]"

definition statusOf :: "string \<Rightarrow> JobStatus option" where
  "statusOf s = find (\<lambda>st. statusText st = s) allStatuses"

definition ValidStatus :: "string \<Rightarrow> bool" where
  "ValidStatus s \<longleftrightarrow> s \<in> set (map statusText allStatuses)"

record job =
  job_ID :: string
  job_Priority :: int
  job_RequiredTool :: string
  job_Location :: string
  job_DependsOn :: "string list"
  job_Status :: JobStatus
  job_AssignedRobot :: string
  job_DedupKey :: string
  job_SubmittedAtMs :: int
  job_AssignedAtMs :: int
  job_CompletedAtMs :: int
  job_Attempt :: int
  job_seq :: int

text \<open>The states of a job that waits in the queue, and of one a robot may be executing.\<close>

definition waiting :: "JobStatus \<Rightarrow> bool" where
  "waiting s \<longleftrightarrow> s = StatusPending \<or> s = StatusBlocked \<or> s = StatusUnreachable"

definition inFlight :: "JobStatus \<Rightarrow> bool" where
  "inFlight s \<longleftrightarrow> s = StatusAssigned \<or> s = StatusUnknown"

datatype SubmitResult = SubmitCreated | SubmitDuplicate | SubmitRetried

subsection \<open>Robots\<close>

record robot =
  rob_ID :: string
  rob_Location :: string
  rob_Tool :: string
  rob_Available :: bool
  rob_Load :: int
  rob_StopCapable :: bool
  rob_selfReportedUnavailable :: bool
  rob_LastHeartbeat :: "instant option"

text \<open>A partial registration: a field left out is \<open>None\<close> (a nil pointer).\<close>

record RobotUpdate =
  upd_ID :: string
  upd_Location :: "string option"
  upd_Tool :: "string option"
  upd_Available :: "bool option"
  upd_StopCapable :: "bool option"

record Assignment =
  asg_JobID :: string
  asg_RobotID :: string

record JobRecord =
  rec_Job :: job
  rec_Seq :: int

definition jobRecord :: "job \<Rightarrow> JobRecord" where
  "jobRecord j = \<lparr>rec_Job = j, rec_Seq = job_seq j\<rparr>"

lemma jobRecord_sel [simp]: "rec_Job (jobRecord j) = j" "rec_Seq (jobRecord j) = job_seq j"
  by (simp_all add: jobRecord_def)

subsection \<open>Errors\<close>

text \<open>
  The sentinel errors of the package with what the code formats into the message. A write of the
  store fails with a text; a nil pointer that the code would dereference is \<open>NilDereference\<close>.
\<close>

type_synonym serror = string

datatype invalidReason =
    EmptyID
  | EmptyDependency string
  | SelfDependency string
  | RepeatedDependency string string
  | DependencyCycle string "string list"

datatype engError =
    ErrJobExists string
  | ErrUnknownDep string string
  | ErrUnknownJob string
  | ErrUnknownRobot string
  | ErrJobNotAssigned string JobStatus
  | ErrJobInFlight string JobStatus
  | ErrJobFinished string JobStatus
  | ErrRobotMismatch string string string
  | ErrRobotBusy string JobStatus string
  | ErrAttemptMismatch string int int
  | ErrInvalidJob invalidReason
  | ErrReplanOff
  | ErrNoStopRequest string
  | ErrNoArchive
  | ErrStore serror
  | NilDereference

subsection \<open>Settings\<close>

text \<open>
  A \<open>float64\<close> of the configuration is a finite number (a rational) or one of the three
  special values.
\<close>

datatype float64 = Fin rat | PosInf | NegInf | NaN

record LocationConfig =
  loc_Enabled :: bool
  loc_Costs :: "(string, (string, float64) gomap) gomap"

definition noLocation :: LocationConfig where
  "noLocation = \<lparr>loc_Enabled = False, loc_Costs = []\<rparr>"

record ReplanConfig =
  rp_Enabled :: bool
  rp_OnStale :: bool
  rp_OnFault :: bool
  rp_StopAckTimeout :: duration
  rp_AllowUnconfirmed :: bool

definition noReplan :: ReplanConfig where
  "noReplan = \<lparr>rp_Enabled = False, rp_OnStale = False, rp_OnFault = False,
     rp_StopAckTimeout = 0, rp_AllowUnconfirmed = False\<rparr>"

datatype unconfirmedPolicy = UnconfirmedSkip | UnconfirmedAllow | UnconfirmedOther string

record ToolConfirmConfig =
  tc_Enabled :: bool
  tc_TTL :: duration
  tc_OnUnconfirmed :: unconfirmedPolicy

record toolSeen =
  seen_tool :: string
  seen_at :: instant

record toolConfirmation =
  tcf_cfg :: ToolConfirmConfig
  tcf_seen :: "(string, toolSeen) gomap"

definition noToolConfirmation :: toolConfirmation where
  "noToolConfirmation =
     \<lparr>tcf_cfg = \<lparr>tc_Enabled = False, tc_TTL = 0, tc_OnUnconfirmed = UnconfirmedOther []\<rparr>,
      tcf_seen = []\<rparr>"

record stopRequest =
  stp_robotID :: string
  stp_attempt :: int
  stp_at :: instant
  stp_timeoutAt :: instant
  stp_expired :: bool

record IntervalConfig =
  iv_Enabled :: bool
  iv_LowPercentile :: int
  iv_HighPercentile :: int
  iv_MinSamples :: int

record ETAConfig =
  eta_Enabled :: bool
  eta_DefaultDuration :: duration
  eta_Window :: int
  eta_Interval :: IntervalConfig

definition noETA :: ETAConfig where
  "noETA = \<lparr>eta_Enabled = False, eta_DefaultDuration = 0, eta_Window = 0,
     eta_Interval = \<lparr>iv_Enabled = False, iv_LowPercentile = 0, iv_HighPercentile = 0,
       iv_MinSamples = 0\<rparr>\<rparr>"

subsection \<open>Lemmas\<close>

lemma statusText_inj: "statusText s = statusText t \<longleftrightarrow> s = t"
  by (cases s; cases t) simp_all

lemma allStatuses_all: "s \<in> set allStatuses"
  by (cases s) (simp_all add: allStatuses_def)

lemma statusOf_statusText [simp]: "statusOf (statusText s) = Some s"
  by (cases s) (simp_all add: statusOf_def allStatuses_def)

lemma statusOf_Some: "statusOf t = Some s \<Longrightarrow> statusText s = t"
  by (auto simp: statusOf_def find_Some_iff)

lemma ValidStatus_iff: "ValidStatus t \<longleftrightarrow> (\<exists>s. statusOf t = Some s)"
  using allStatuses_all statusOf_Some by (force simp: ValidStatus_def)

lemma waiting_simps [simp]:
  "waiting StatusPending" "waiting StatusBlocked" "waiting StatusUnreachable"
  "\<not> waiting StatusAssigned" "\<not> waiting StatusDone" "\<not> waiting StatusFailed"
  "\<not> waiting StatusUnknown" "\<not> waiting StatusCancelled"
  by (simp_all add: waiting_def)

lemma inFlight_simps [simp]:
  "inFlight StatusAssigned" "inFlight StatusUnknown"
  "\<not> inFlight StatusPending" "\<not> inFlight StatusBlocked" "\<not> inFlight StatusUnreachable"
  "\<not> inFlight StatusDone" "\<not> inFlight StatusFailed" "\<not> inFlight StatusCancelled"
  by (simp_all add: inFlight_def)

end
