(* ===== verification/Store.thy ===== *)
theory Store
  imports Model
begin

section \<open>The persistence boundary\<close>

text \<open>
  The interfaces \<open>Store\<close>, \<open>BatchStore\<close>, \<open>RobotDeleter\<close> and \<open>ArchiveStore\<close> of
  \<open>src/src/dispatcher\<close>. A value of a Go interface is the state of the implementation together
  with its methods; an optional interface (\<open>e.store.(BatchStore)\<close>) is an optional field. A method
  returns the new state and the error, if any. The contract the engine relies on is stated as
  locales, and the lemmas its proofs need are proved from the contract alone.
\<close>

record 's store_value =
  sv_state :: 's
  sv_SaveJob :: "'s \<Rightarrow> JobRecord \<Rightarrow> 's \<times> serror option"
  sv_SaveRobot :: "'s \<Rightarrow> robot \<Rightarrow> 's \<times> serror option"
  sv_LoadAll :: "'s \<Rightarrow> serror + (JobRecord list \<times> robot list)"
  sv_SaveBatch :: "('s \<Rightarrow> JobRecord list \<Rightarrow> robot list \<Rightarrow> 's \<times> serror option) option"
  sv_DeleteRobot :: "('s \<Rightarrow> string \<Rightarrow> 's \<times> serror option) option"
  sv_ArchiveJobs :: "('s \<Rightarrow> string list \<Rightarrow> int \<Rightarrow> 's \<times> serror option) option"
  sv_LoadArchived :: "('s \<Rightarrow> int \<Rightarrow> int \<Rightarrow> serror + (JobRecord list \<times> int)) option"

text \<open>
  \<open>saveEach\<close> is the fallback of \<open>commitBatchLocked\<close> for a store without transactions: every
  record is tried and the first error is kept.
\<close>

fun saveRobots :: "'s store_value \<Rightarrow> robot list \<Rightarrow> serror option \<Rightarrow> 's store_value \<times> serror option" where
  "saveRobots sv [] first = (sv, first)"
| "saveRobots sv (r # rs) first =
     (let (s, err) = sv_SaveRobot sv (sv_state sv) r
      in saveRobots (sv\<lparr>sv_state := s\<rparr>) rs (firstErr [first, err]))"

fun saveJobs :: "'s store_value \<Rightarrow> JobRecord list \<Rightarrow> serror option \<Rightarrow> 's store_value \<times> serror option" where
  "saveJobs sv [] first = (sv, first)"
| "saveJobs sv (j # js) first =
     (let (s, err) = sv_SaveJob sv (sv_state sv) j
      in saveJobs (sv\<lparr>sv_state := s\<rparr>) js (firstErr [first, err]))"

definition storeBatch ::
  "'s store_value \<Rightarrow> JobRecord list \<Rightarrow> robot list \<Rightarrow> 's store_value \<times> serror option" where
  "storeBatch sv js rs =
     (case sv_SaveBatch sv of
        Some f \<Rightarrow> (let (s, err) = f (sv_state sv) js rs in (sv\<lparr>sv_state := s\<rparr>, err))
      | None \<Rightarrow> (let (sv1, first) = saveRobots sv rs None in saveJobs sv1 js first))"

subsection \<open>The contract\<close>

text \<open>
  What a store durably holds is seen through two views: the record of a live job and of a robot.
  A write that reports no error is durable, one that reports an error changed nothing, and no
  write touches another record. A batch is all or nothing.
\<close>

locale durable_store =
  fixes save_job :: "'s \<Rightarrow> JobRecord \<Rightarrow> 's \<times> serror option"
    and save_robot :: "'s \<Rightarrow> robot \<Rightarrow> 's \<times> serror option"
    and job_view :: "'s \<Rightarrow> string \<Rightarrow> JobRecord option"
    and robot_view :: "'s \<Rightarrow> string \<Rightarrow> robot option"
    and jform :: "JobRecord \<Rightarrow> JobRecord"
    and rform :: "robot \<Rightarrow> robot"
  assumes job_ok: "save_job s r = (s', None) \<Longrightarrow>
      job_view s' = (job_view s)(job_ID (rec_Job r) \<mapsto> jform r) \<and> robot_view s' = robot_view s"
    and job_err: "save_job s r = (s', Some x) \<Longrightarrow>
      job_view s' = job_view s \<and> robot_view s' = robot_view s"
    and robot_ok: "save_robot s b = (s', None) \<Longrightarrow>
      robot_view s' = (robot_view s)(rob_ID b \<mapsto> rform b) \<and> job_view s' = job_view s"
    and robot_err: "save_robot s b = (s', Some x) \<Longrightarrow>
      job_view s' = job_view s \<and> robot_view s' = robot_view s"
begin

lemma job_view_save_job:
  "job_view (fst (save_job s r)) =
     (if snd (save_job s r) = None then (job_view s)(job_ID (rec_Job r) \<mapsto> jform r) else job_view s)"
  using job_ok [of s r] job_err [of s r] by (cases "save_job s r"; cases "snd (save_job s r)") auto

lemma robot_view_save_job: "robot_view (fst (save_job s r)) = robot_view s"
  using job_ok [of s r] job_err [of s r] by (cases "save_job s r"; cases "snd (save_job s r)") auto

lemma robot_view_save_robot:
  "robot_view (fst (save_robot s b)) =
     (if snd (save_robot s b) = None then (robot_view s)(rob_ID b \<mapsto> rform b) else robot_view s)"
  using robot_ok [of s b] robot_err [of s b]
  by (cases "save_robot s b"; cases "snd (save_robot s b)") auto

lemma job_view_save_robot: "job_view (fst (save_robot s b)) = job_view s"
  using robot_ok [of s b] robot_err [of s b]
  by (cases "save_robot s b"; cases "snd (save_robot s b)") auto

lemmas views = job_view_save_job robot_view_save_job robot_view_save_robot job_view_save_robot

end

locale batch_store = durable_store +
  fixes save_batch :: "'a \<Rightarrow> JobRecord list \<Rightarrow> robot list \<Rightarrow> 'a \<times> serror option"
  assumes batch_ok: "save_batch s js rs = (s', None) \<Longrightarrow>
      job_view s' = (job_view s)(map (\<lambda>r. job_ID (rec_Job r)) js [\<mapsto>] map jform js)
    \<and> robot_view s' = (robot_view s)(map rob_ID rs [\<mapsto>] map rform rs)"
    and batch_err: "save_batch s js rs = (s', Some x) \<Longrightarrow>
      job_view s' = job_view s \<and> robot_view s' = robot_view s"
begin

lemma batch_atomic:
  "save_batch s js rs = (s', err) \<Longrightarrow>
     (if err = None
      then (\<forall>r \<in> set js. distinct (map (\<lambda>r. job_ID (rec_Job r)) js) \<longrightarrow>
              job_view s' (job_ID (rec_Job r)) = Some (jform r))
         \<and> (\<forall>b \<in> set rs. distinct (map rob_ID rs) \<longrightarrow> robot_view s' (rob_ID b) = Some (rform b))
      else job_view s' = job_view s \<and> robot_view s' = robot_view s)"
proof (cases err)
  case None
  assume h: "save_batch s js rs = (s', err)"
  then show ?thesis using batch_ok [of s js rs s'] None
    by (simp add: map_upds_key [of rob_ID] map_upds_key [of "\<lambda>r. job_ID (rec_Job r)"])
next
  case (Some x)
  assume h: "save_batch s js rs = (s', err)"
  then show ?thesis using batch_err [of s js rs s' x] Some by simp
qed

end

end
