(* ===== verification/Events.thy ===== *)
theory Events
  imports Model
begin

section \<open>The hub of job events\<close>

text \<open>
  \<open>src/src/dispatcher/events.go\<close>: the hub numbers the events, keeps the most recent ones for
  replay and hands each to the channels of the subscribers without ever waiting. A webhook is
  one more subscriber (its delivery is in \<open>Outgoing\<close>), and so is a client of the stream (\<open>Stream\<close>).
\<close>

datatype eventType = EventAssigned | EventDone | EventFailed | EventUnknown

fun eventText :: "eventType \<Rightarrow> string" where
  "eventText EventAssigned = ''assigned''"
| "eventText EventDone = ''done''"
| "eventText EventFailed = ''failed''"
| "eventText EventUnknown = ''unknown''"

definition ValidEventType :: "string \<Rightarrow> bool" where
  "ValidEventType t \<longleftrightarrow>
     t \<in> {eventText EventAssigned, eventText EventDone, eventText EventFailed, eventText EventUnknown}"

record Event =
  ev_ID :: int
  ev_Type :: eventType
  ev_JobID :: string
  ev_RobotID :: string
  ev_Attempt :: int
  ev_AtMs :: int

text \<open>The settings the hub itself reads (those of the HTTP delivery are left out).\<close>

record EventsConfig =
  evc_Enabled :: bool
  evc_SSE :: bool
  evc_Buffer :: nat
  evc_SubscriberSize :: nat

text \<open>
  A channel of Go: the values waiting in its buffer (at most \<open>ch_cap\<close>) and whether it is closed.
  A closed channel still delivers what it holds. The subscribers are the open subscriptions, by
  channel; the clock of the hub is read once for every event, so the instant of an event is a
  function of its number.
\<close>

record channel =
  ch_cap :: nat
  ch_buf :: "Event list"
  ch_closed :: bool

record EventHub =
  hub_cfg :: EventsConfig
  hub_ring :: "Event list"
  hub_next :: int
  hub_chans :: "(nat, channel) gomap"
  hub_subs :: "nat list"
  hub_now :: "int \<Rightarrow> instant"

definition NewEventHub :: "EventsConfig \<Rightarrow> (int \<Rightarrow> instant) \<Rightarrow> EventHub" where
  "NewEventHub cfg clock =
     \<lparr>hub_cfg = cfg, hub_ring = [], hub_next = 0, hub_chans = [], hub_subs = [],
      hub_now = clock\<rparr>"

definition SSEEnabled :: "EventHub option \<Rightarrow> bool" where
  "SSEEnabled h =
     (case h of None \<Rightarrow> False | Some h \<Rightarrow> evc_Enabled (hub_cfg h) \<and> evc_SSE (hub_cfg h))"

text \<open>
  One subscriber of \<open>Publish\<close>: the event goes into the buffer of the channel, or the channel is
  closed and the subscription dropped when its buffer is full.
\<close>

definition offer :: "Event \<Rightarrow> nat \<Rightarrow> EventHub \<Rightarrow> EventHub" where
  "offer ev c h =
     (case go_get (hub_chans h) c of
        None \<Rightarrow> h
      | Some ch \<Rightarrow>
          if length (ch_buf ch) < ch_cap ch
          then h\<lparr>hub_chans := go_put c (ch\<lparr>ch_buf := ch_buf ch @ [ev]\<rparr>) (hub_chans h)\<rparr>
          else h\<lparr>hub_chans := go_put c (ch\<lparr>ch_closed := True\<rparr>) (hub_chans h),
                 hub_subs := removeAll c (hub_subs h)\<rparr>)"

definition keepLast :: "nat \<Rightarrow> 'a list \<Rightarrow> 'a list" where
  "keepLast n xs = drop (length xs - n) xs"

definition Publish ::
  "eventType \<Rightarrow> string \<Rightarrow> string \<Rightarrow> int \<Rightarrow> EventHub option \<Rightarrow> EventHub option" where
  "Publish kind jobID robotID attempt hub =
     (case hub of None \<Rightarrow> None
      | Some h \<Rightarrow>
         if \<not> evc_Enabled (hub_cfg h) then Some h
         else
           let n = hub_next h + 1;
               ev = \<lparr>ev_ID = n, ev_Type = kind, ev_JobID = jobID, ev_RobotID = robotID,
                     ev_Attempt = attempt, ev_AtMs = unixMilli (hub_now h n)\<rparr>;
               ring = hub_ring h @ [ev];
               h1 = h\<lparr>hub_next := n,
                       hub_ring := (if evc_Buffer (hub_cfg h) < length ring
                                    then keepLast (evc_Buffer (hub_cfg h)) ring else ring)\<rparr>
           in Some (fold (offer ev) (hub_subs h1) h1))"

text \<open>\<open>Subscribe\<close> answers the replay and the new channel; \<open>cancel\<close> closes it.\<close>

definition Subscribe :: "int \<Rightarrow> EventHub \<Rightarrow> Event list \<times> nat \<times> EventHub" where
  "Subscribe sinceID h =
     (let c = length (hub_chans h);
          ch = \<lparr>ch_cap = evc_SubscriberSize (hub_cfg h), ch_buf = [], ch_closed = False\<rparr>
      in (filter (\<lambda>ev. ev_ID ev > sinceID) (hub_ring h), c,
          h\<lparr>hub_chans := go_put c ch (hub_chans h), hub_subs := go_add c (hub_subs h)\<rparr>))"

definition cancelSubscription :: "nat \<Rightarrow> EventHub \<Rightarrow> EventHub" where
  "cancelSubscription c h =
     (if c \<in> set (hub_subs h)
      then h\<lparr>hub_subs := removeAll c (hub_subs h),
             hub_chans := (case go_get (hub_chans h) c of None \<Rightarrow> hub_chans h
                           | Some ch \<Rightarrow> go_put c (ch\<lparr>ch_closed := True\<rparr>) (hub_chans h))\<rparr>
      else h)"

text \<open>A reader takes the next event of its channel (none when the buffer is empty).\<close>

definition receive :: "nat \<Rightarrow> EventHub \<Rightarrow> Event option \<times> EventHub" where
  "receive c h =
     (case go_get (hub_chans h) c of
        None \<Rightarrow> (None, h)
      | Some ch \<Rightarrow>
         (case ch_buf ch of [] \<Rightarrow> (None, h)
          | ev # evs \<Rightarrow> (Some ev, h\<lparr>hub_chans := go_put c (ch\<lparr>ch_buf := evs\<rparr>) (hub_chans h)\<rparr>)))"

subsection \<open>What an offer and a publication change\<close>

lemma offer_frame [frame, simp]:
  "hub_cfg (offer ev c h) = hub_cfg h" "hub_ring (offer ev c h) = hub_ring h"
  "hub_next (offer ev c h) = hub_next h" "hub_now (offer ev c h) = hub_now h"
  by (simp_all add: offer_def split: option.splits)

lemma fold_offer_frame [frame, simp]:
  "hub_cfg (fold (offer ev) cs h) = hub_cfg h" "hub_ring (fold (offer ev) cs h) = hub_ring h"
  "hub_next (fold (offer ev) cs h) = hub_next h" "hub_now (fold (offer ev) cs h) = hub_now h"
  by (induction cs arbitrary: h) simp_all

lemma offer_other: "c' \<noteq> c \<Longrightarrow> go_get (hub_chans (offer ev c h)) c' = go_get (hub_chans h) c'"
  by (simp add: offer_def split: option.splits)

lemma fold_offer_other:
  "c \<notin> set cs \<Longrightarrow> go_get (hub_chans (fold (offer ev) cs h)) c = go_get (hub_chans h) c"
  by (induction cs arbitrary: h) (auto simp: offer_other)

text \<open>
  The invariant of a hub: the ring holds consecutive numbers that end at the last one given out,
  no more than the buffer allows; the subscriptions are open channels within their capacity.
\<close>

definition consecutive :: "int \<Rightarrow> Event list \<Rightarrow> bool" where
  "consecutive n evs \<longleftrightarrow> map ev_ID evs = map (\<lambda>i. n - int (length evs) + 1 + int i) [0..<length evs]"

definition chan_ok :: "EventHub \<Rightarrow> nat \<Rightarrow> channel \<Rightarrow> bool" where
  "chan_ok h c ch \<longleftrightarrow>
     length (ch_buf ch) \<le> ch_cap ch
   \<and> (\<exists>n \<le> hub_next h. consecutive n (ch_buf ch) \<and> (c \<in> set (hub_subs h) \<longrightarrow> n = hub_next h))
   \<and> (c \<in> set (hub_subs h) \<longrightarrow> \<not> ch_closed ch)"

definition hub_ok :: "EventHub \<Rightarrow> bool" where
  "hub_ok h \<longleftrightarrow>
     consecutive (hub_next h) (hub_ring h) \<and> length (hub_ring h) \<le> evc_Buffer (hub_cfg h)
   \<and> int (length (hub_ring h)) \<le> hub_next h
   \<and> distinct (hub_subs h) \<and> set (hub_subs h) \<subseteq> set (go_keys (hub_chans h))
   \<and> go_keys (hub_chans h) = [0..<length (hub_chans h)]
   \<and> (\<forall>c ch. go_get (hub_chans h) c = Some ch \<longrightarrow> chan_ok h c ch)"

lemma consecutive_Nil [simp]: "consecutive n []"
  by (simp add: consecutive_def)

lemma consecutive_snoc:
  assumes "consecutive n evs" and "ev_ID ev = n + 1"
  shows "consecutive (n + 1) (evs @ [ev])"
  using assms by (simp add: consecutive_def)

lemma consecutive_drop:
  assumes "consecutive n evs"
  shows "consecutive n (drop k evs)"
proof (cases "k \<le> length evs")
  case True
  have "map ev_ID (drop k evs) = drop k (map ev_ID evs)" by (simp add: drop_map)
  also have "\<dots> = drop k (map (\<lambda>i. n - int (length evs) + 1 + int i) [0..<length evs])"
    using assms by (simp add: consecutive_def)
  also have "\<dots> = map (\<lambda>i. n - int (length evs) + 1 + int i) [k..<length evs]"
    by (simp add: drop_map)
  also have "\<dots> = map (\<lambda>i. n - int (length (drop k evs)) + 1 + int i) [0..<length (drop k evs)]"
  proof -
    have "[k..<length evs] = map (\<lambda>i. i + k) [0..<length evs - k]"
      using True map_add_upt [of k "length evs - k"] by simp
    then show ?thesis using True by (simp add: of_nat_diff)
  qed
  finally show ?thesis by (simp add: consecutive_def)
qed simp

lemma consecutive_mem:
  assumes "consecutive n evs" and "int (length evs) \<le> n"
  shows "k \<in> set (map ev_ID evs) \<longleftrightarrow> n - int (length evs) < k \<and> k \<le> n"
proof -
  have "set (map ev_ID evs) = (\<lambda>i. n - int (length evs) + 1 + int i) ` {0..<length evs}"
    using assms(1) by (simp add: consecutive_def del: set_map) (simp only: set_map set_upt)
  also have "\<dots> = {n - int (length evs) + 1..n}"
  proof -
    have "x \<in> (\<lambda>i. n - int (length evs) + 1 + int i) ` {0..<length evs}"
      if "n - int (length evs) + 1 \<le> x" "x \<le> n" for x
      using that by (intro image_eqI [where x = "nat (x - (n - int (length evs) + 1))"]) auto
    then show ?thesis by auto
  qed
  finally show ?thesis by auto
qed

subsection \<open>A publication, channel by channel\<close>

definition offered :: "Event \<Rightarrow> channel \<Rightarrow> channel" where
  "offered ev ch =
     (if length (ch_buf ch) < ch_cap ch then ch\<lparr>ch_buf := ch_buf ch @ [ev]\<rparr>
      else ch\<lparr>ch_closed := True\<rparr>)"

definition hasRoom :: "EventHub \<Rightarrow> nat \<Rightarrow> bool" where
  "hasRoom h c \<longleftrightarrow>
     (case go_get (hub_chans h) c of None \<Rightarrow> True | Some ch \<Rightarrow> length (ch_buf ch) < ch_cap ch)"

lemma offer_chan:
  "go_get (hub_chans (offer ev c h)) c = map_option (offered ev) (go_get (hub_chans h) c)"
  by (simp add: offer_def offered_def split: option.splits)

lemma offer_keys: "go_keys (hub_chans (offer ev c h)) = go_keys (hub_chans h)"
  by (simp add: offer_def go_keys_put split: option.splits)

lemma offer_subs: "hub_subs (offer ev c h) = filter (\<lambda>x. x \<noteq> c \<or> hasRoom h c) (hub_subs h)"
  by (auto simp: offer_def hasRoom_def removeAll_filter_not_eq split: option.splits intro!: filter_cong)

lemma fold_offer_keys: "go_keys (hub_chans (fold (offer ev) cs h)) = go_keys (hub_chans h)"
  by (induction cs arbitrary: h) (simp_all add: offer_keys)

lemma fold_offer_chan:
  assumes "distinct cs"
  shows "go_get (hub_chans (fold (offer ev) cs h)) c =
    (if c \<in> set cs then map_option (offered ev) (go_get (hub_chans h) c) else go_get (hub_chans h) c)"
  using assms
proof (induction cs arbitrary: h)
  case (Cons x cs)
  show ?case
  proof (cases "c = x")
    case True
    then show ?thesis using Cons by (simp add: offer_chan)
  next
    case False
    then show ?thesis using Cons offer_other [OF False, of ev h] by simp
  qed
qed simp

lemma fold_offer_subs:
  assumes "distinct cs"
  shows "hub_subs (fold (offer ev) cs h) = filter (\<lambda>x. x \<notin> set cs \<or> hasRoom h x) (hub_subs h)"
  using assms
proof (induction cs arbitrary: h)
  case (Cons x cs)
  have "hasRoom (offer ev x h) y = hasRoom h y" if "y \<noteq> x" for y
    using offer_other [OF that] by (simp add: hasRoom_def)
  then have "(y \<notin> set cs \<or> hasRoom (offer ev x h) y) \<and> (y \<noteq> x \<or> hasRoom h x) \<longleftrightarrow>
      y \<notin> set (x # cs) \<or> hasRoom h y" for y
    using Cons.prems by (cases "y = x") auto
  then show ?case using Cons by (simp add: offer_subs conj_commute)
qed simp

subsection \<open>The invariant of the hub is kept\<close>

lemma hub_okD:
  assumes "hub_ok h"
  shows "consecutive (hub_next h) (hub_ring h)" "length (hub_ring h) \<le> evc_Buffer (hub_cfg h)"
    "int (length (hub_ring h)) \<le> hub_next h" "distinct (hub_subs h)"
    "set (hub_subs h) \<subseteq> set (go_keys (hub_chans h))"
    "go_keys (hub_chans h) = [0..<length (hub_chans h)]"
    "go_get (hub_chans h) c = Some ch \<Longrightarrow> chan_ok h c ch"
  using assms unfolding hub_ok_def by blast+

lemma hub_ok_New: "hub_ok (NewEventHub cfg clock)"
  by (simp add: hub_ok_def NewEventHub_def)

lemma chan_ok_offered:
  assumes ok: "chan_ok h c ch" and sub: "c \<in> set (hub_subs h)" and ev: "ev_ID ev = hub_next h + 1"
    and h': "hub_next h' = hub_next h + 1"
      "c \<in> set (hub_subs h') \<longleftrightarrow> length (ch_buf ch) < ch_cap ch"
  shows "chan_ok h' c (offered ev ch)"
proof -
  have c: "consecutive (hub_next h) (ch_buf ch)" "length (ch_buf ch) \<le> ch_cap ch" "\<not> ch_closed ch"
    using ok sub by (auto simp: chan_ok_def)
  show ?thesis
  proof (cases "length (ch_buf ch) < ch_cap ch")
    case True
    then show ?thesis using c consecutive_snoc [OF c(1) ev] h' by (simp add: chan_ok_def offered_def)
  next
    case False
    then show ?thesis using c h' by (auto simp: chan_ok_def offered_def intro!: exI [where x = "hub_next h"])
  qed
qed

lemma chan_ok_other:
  assumes "chan_ok h c ch" and "c \<notin> set (hub_subs h)" and "hub_next h \<le> hub_next h'"
    and "c \<notin> set (hub_subs h')"
  shows "chan_ok h' c ch"
  using assms unfolding chan_ok_def by (meson order_trans)

definition published :: "eventType \<Rightarrow> string \<Rightarrow> string \<Rightarrow> int \<Rightarrow> EventHub \<Rightarrow> Event" where
  "published kind jobID robotID attempt h =
     \<lparr>ev_ID = hub_next h + 1, ev_Type = kind, ev_JobID = jobID, ev_RobotID = robotID,
      ev_Attempt = attempt, ev_AtMs = unixMilli (hub_now h (hub_next h + 1))\<rparr>"

lemma published_ID [simp]: "ev_ID (published kind jobID robotID attempt h) = hub_next h + 1"
  by (simp add: published_def)

lemma Publish_effect:
  assumes ok: "hub_ok h" and on: "evc_Enabled (hub_cfg h)"
  shows "\<exists>h'. Publish kind jid rid att (Some h) = Some h' \<and> hub_ok h'
    \<and> hub_next h' = hub_next h + 1 \<and> hub_cfg h' = hub_cfg h
    \<and> hub_ring h' = keepLast (evc_Buffer (hub_cfg h)) (hub_ring h @ [published kind jid rid att h])
    \<and> hub_subs h' = filter (hasRoom h) (hub_subs h)
    \<and> (\<forall>c. go_get (hub_chans h') c = (if c \<in> set (hub_subs h)
          then map_option (offered (published kind jid rid att h)) (go_get (hub_chans h) c)
          else go_get (hub_chans h) c))"
proof -
  let ?ev = "published kind jid rid att h"
  let ?ring = "keepLast (evc_Buffer (hub_cfg h)) (hub_ring h @ [?ev])"
  let ?h1 = "h\<lparr>hub_next := hub_next h + 1, hub_ring := ?ring\<rparr>"
  let ?h' = "fold (offer ?ev) (hub_subs h) ?h1"
  note D = hub_okD [OF ok]
  have P: "Publish kind jid rid att (Some h) = Some ?h'"
    using on by (simp add: Publish_def Let_def published_def keepLast_def)
  have subs: "hub_subs ?h' = filter (hasRoom h) (hub_subs h)"
    using fold_offer_subs [OF D(4), of ?ev ?h1] by (auto simp: hasRoom_def intro!: filter_cong)
  have chans: "go_get (hub_chans ?h') c = (if c \<in> set (hub_subs h)
      then map_option (offered ?ev) (go_get (hub_chans h) c) else go_get (hub_chans h) c)" for c
    using fold_offer_chan [OF D(4), of ?ev ?h1 c] by simp
  have "consecutive (hub_next h + 1) (hub_ring h @ [?ev])"
    by (rule consecutive_snoc [OF D(1)]) simp
  then have ring: "consecutive (hub_next h + 1) ?ring" "length ?ring \<le> evc_Buffer (hub_cfg h)"
    "int (length ?ring) \<le> hub_next h + 1"
    unfolding keepLast_def using D(3) by (simp_all only: consecutive_drop) auto
  have ch: "chan_ok ?h' c ch" if c: "go_get (hub_chans ?h') c = Some ch" for c ch
  proof (cases "c \<in> set (hub_subs h)")
    case True
    then obtain ch0 where ch0: "go_get (hub_chans h) c = Some ch0" "ch = offered ?ev ch0"
      using c unfolding chans by (auto split: if_splits)
    then show ?thesis unfolding ch0(2)
      using True by (intro chan_ok_offered [OF D(7) [OF ch0(1)] True])
        (simp_all add: subs hasRoom_def)
  next
    case False
    then have "go_get (hub_chans h) c = Some ch" using c unfolding chans by simp
    then show ?thesis using False by (intro chan_ok_other [OF D(7)]) (simp_all add: subs)
  qed
  have keys: "go_keys (hub_chans ?h') = go_keys (hub_chans h)" by (simp add: fold_offer_keys)
  then have len: "length (hub_chans ?h') = length (hub_chans h)" by (metis length_map)
  have "hub_ok ?h'"
    unfolding hub_ok_def using ring ch D(4,5,6) keys len subs by auto
  then show ?thesis using P subs chans by (intro exI [where x = ?h']) simp
qed

lemma Publish_ok: "hub_ok h \<Longrightarrow> \<exists>h'. Publish kind jid rid att (Some h) = Some h' \<and> hub_ok h'"
  using Publish_effect [of h kind jid rid att] by (cases "evc_Enabled (hub_cfg h)") (auto simp: Publish_def)

subsection \<open>Subscribing, reading, leaving\<close>

lemma chan_ok_cong:
  "hub_next h' = hub_next h \<Longrightarrow> (c \<in> set (hub_subs h') \<longleftrightarrow> c \<in> set (hub_subs h)) \<Longrightarrow>
     chan_ok h' c ch = chan_ok h c ch"
  by (simp add: chan_ok_def)

lemma fresh_chan:
  assumes "hub_ok h"
  shows "length (hub_chans h) \<notin> set (go_keys (hub_chans h))" "length (hub_chans h) \<notin> set (hub_subs h)"
  using hub_okD(5,6) [OF assms] by auto

lemma go_put_fresh: "k \<notin> set (go_keys m) \<Longrightarrow> go_put k v m = m @ [(k, v)]"
  by (induction m) auto

lemma Subscribe_ok:
  assumes ok: "hub_ok h" and s: "Subscribe since h = (replay, c, h')"
  shows "hub_ok h'" "c \<in> set (hub_subs h')" "c \<notin> set (go_keys (hub_chans h))"
    "go_get (hub_chans h') c = Some \<lparr>ch_cap = evc_SubscriberSize (hub_cfg h), ch_buf = [], ch_closed = False\<rparr>"
    "hub_next h' = hub_next h"
proof -
  let ?c = "length (hub_chans h)"
  let ?ch = "\<lparr>ch_cap = evc_SubscriberSize (hub_cfg h), ch_buf = [], ch_closed = False\<rparr>"
  note D = hub_okD [OF ok] and F = fresh_chan [OF ok]
  have c: "c = ?c" and h': "h' = h\<lparr>hub_chans := hub_chans h @ [(?c, ?ch)], hub_subs := hub_subs h @ [?c]\<rparr>"
    using s F go_put_fresh [OF F(1), of ?ch] by (auto simp: Subscribe_def Let_def go_add_def)
  have get: "go_get (hub_chans h') x = (if x = ?c then Some ?ch else go_get (hub_chans h) x)" for x
    using go_get_None [THEN iffD2, OF F(1)] by (auto simp: h' map_add_def split: option.splits)
  have "chan_ok h' x ch" if "go_get (hub_chans h') x = Some ch" for x ch
  proof (cases "x = ?c")
    case True
    then show ?thesis using that get by (auto simp: chan_ok_def h')
  next
    case False
    then have "chan_ok h x ch" using that get D(7) by simp
    then show ?thesis using False by (simp add: chan_ok_def h')
  qed
  then show "hub_ok h'" unfolding hub_ok_def using D F by (auto simp: h')
  show "c \<in> set (hub_subs h')" "c \<notin> set (go_keys (hub_chans h))" "hub_next h' = hub_next h"
    using c h' F by simp_all
  show "go_get (hub_chans h') c = Some ?ch" using get c by simp
qed

lemma Subscribe_replay:
  assumes ok: "hub_ok h" and s: "Subscribe since h = (replay, c, h')"
  shows "set replay = {ev \<in> set (hub_ring h). since < ev_ID ev}"
    "hub_next h - int (length (hub_ring h)) \<le> since \<Longrightarrow>
       set (map ev_ID replay) = {since + 1..hub_next h}"
    "hub_next h \<le> since \<Longrightarrow> replay = []"
proof -
  have r: "replay = filter (\<lambda>ev. ev_ID ev > since) (hub_ring h)"
    using s by (simp add: Subscribe_def Let_def)
  note m = consecutive_mem [OF hub_okD(1,3) [OF ok]]
  show "set replay = {ev \<in> set (hub_ring h). since < ev_ID ev}" using r by simp
  show "set (map ev_ID replay) = {since + 1..hub_next h}"
    if "hub_next h - int (length (hub_ring h)) \<le> since"
  proof -
    have "set (map ev_ID replay) = {k \<in> set (map ev_ID (hub_ring h)). since < k}" using r by auto
    then show ?thesis using m that by auto
  qed
  show "replay = []" if "hub_next h \<le> since"
  proof -
    have "ev_ID ev \<le> since" if "ev \<in> set (hub_ring h)" for ev
      using m [of "ev_ID ev"] that \<open>hub_next h \<le> since\<close> by auto
    then show ?thesis using r by (auto simp: filter_empty_conv not_less)
  qed
qed

lemma cancel_ok:
  assumes ok: "hub_ok h"
  shows "hub_ok (cancelSubscription c h)" "hub_next (cancelSubscription c h) = hub_next h"
    "c \<notin> set (hub_subs (cancelSubscription c h))"
    "map_option ch_buf (go_get (hub_chans (cancelSubscription c h)) x) =
       map_option ch_buf (go_get (hub_chans h) x)"
proof -
  let ?h = "cancelSubscription c h"
  note D = hub_okD [OF ok]
  show "hub_next ?h = hub_next h" "c \<notin> set (hub_subs ?h)" by (simp_all add: cancelSubscription_def)
  show "map_option ch_buf (go_get (hub_chans ?h) x) = map_option ch_buf (go_get (hub_chans h) x)"
    by (auto simp: cancelSubscription_def split: option.splits)
  show "hub_ok ?h"
  proof (cases "c \<in> set (hub_subs h)")
    case True
    then obtain ch where ch: "go_get (hub_chans h) c = Some ch"
      using D(5) go_get_None [of "hub_chans h" c] by blast
    have h': "?h = h\<lparr>hub_subs := removeAll c (hub_subs h), hub_chans := go_put c (ch\<lparr>ch_closed := True\<rparr>) (hub_chans h)\<rparr>"
      using True ch by (simp add: cancelSubscription_def)
    have keys: "go_keys (hub_chans ?h) = go_keys (hub_chans h)" using ch by (simp add: h' go_keys_put)
    then have len: "length (hub_chans ?h) = length (hub_chans h)" by (metis length_map)
    have "chan_ok ?h x y" if "go_get (hub_chans ?h) x = Some y" for x y
    proof (cases "x = c")
      case True
      then have "y = ch\<lparr>ch_closed := True\<rparr>" using that by (simp add: h')
      then show ?thesis using D(7) [OF ch] True by (auto simp: chan_ok_def h')
    next
      case False
      then have "chan_ok h x y" using that D(7) by (simp add: h')
      then show ?thesis using False by (simp add: chan_ok_def h')
    qed
    then show ?thesis unfolding hub_ok_def using D(1-6) keys len
      by (simp add: h' distinct_removeAll) blast
  next
    case False
    then show ?thesis using ok by (simp add: cancelSubscription_def)
  qed
qed

lemma consecutive_tl: "consecutive n (ev # evs) \<Longrightarrow> consecutive n evs"
  using consecutive_drop [of n "ev # evs" 1] by simp

lemma receive_ok:
  assumes ok: "hub_ok h" and r: "receive c h = (out, h')"
  shows "hub_ok h'" "hub_next h' = hub_next h" "hub_subs h' = hub_subs h"
    "x \<noteq> c \<Longrightarrow> go_get (hub_chans h') x = go_get (hub_chans h) x"
    "go_get (hub_chans h) c = Some ch \<Longrightarrow>
       \<exists>ch'. go_get (hub_chans h') c = Some ch' \<and> ch_buf ch = (case out of None \<Rightarrow> ch_buf ch' | Some ev \<Rightarrow> ev # ch_buf ch')"
proof -
  note D = hub_okD [OF ok]
  consider (no) "h' = h" "out = None"
      "\<And>ch. go_get (hub_chans h) c = Some ch \<Longrightarrow> ch_buf ch = []"
    | (yes) ch ev evs where "go_get (hub_chans h) c = Some ch" "ch_buf ch = ev # evs" "out = Some ev"
      "h' = h\<lparr>hub_chans := go_put c (ch\<lparr>ch_buf := evs\<rparr>) (hub_chans h)\<rparr>"
    using r by (auto simp: receive_def split: option.splits list.splits)
  note cs = this
  show "hub_next h' = hub_next h" "hub_subs h' = hub_subs h"
    "x \<noteq> c \<Longrightarrow> go_get (hub_chans h') x = go_get (hub_chans h) x" by (cases rule: cs; simp)+
  show "\<exists>ch'. go_get (hub_chans h') c = Some ch' \<and> ch_buf ch = (case out of None \<Rightarrow> ch_buf ch' | Some ev \<Rightarrow> ev # ch_buf ch')"
    if "go_get (hub_chans h) c = Some ch"
    using that by (cases rule: cs) auto
  show "hub_ok h'"
  proof (cases rule: cs)
    case no
    then show ?thesis using ok by simp
  next
    case (yes ch ev evs)
    have keys: "go_keys (hub_chans h') = go_keys (hub_chans h)" using yes by (simp add: go_keys_put)
    then have len: "length (hub_chans h') = length (hub_chans h)" by (metis length_map)
    have "chan_ok h' x y" if "go_get (hub_chans h') x = Some y" for x y
    proof (cases "x = c")
      case True
      then have "y = ch\<lparr>ch_buf := evs\<rparr>" using that yes by simp
      then show ?thesis using D(7) [OF yes(1)] True yes(2,4) consecutive_tl
        by (fastforce simp: chan_ok_def)
    next
      case False
      then have "chan_ok h x y" using that D(7) yes by simp
      then show ?thesis using yes(4) by (simp add: chan_ok_def)
    qed
    then show ?thesis unfolding hub_ok_def using D(1-6) keys len by (simp add: yes(4))
  qed
qed

subsection \<open>What a reader sees\<close>

text \<open>
  A run of the hub as the reader of channel \<open>c\<close> sees it: publications, the comings, goings and
  reads of the other subscribers, and its own reads, which give the list of events it has taken.
\<close>

inductive hub_run :: "nat \<Rightarrow> EventHub \<Rightarrow> Event list \<Rightarrow> EventHub \<Rightarrow> bool" for c h where
  start: "hub_run c h [] h"
| publish: "hub_run c h evs h1 \<Longrightarrow> Publish kind jid rid att (Some h1) = Some h2 \<Longrightarrow> hub_run c h evs h2"
| subscribe: "hub_run c h evs h1 \<Longrightarrow> Subscribe since h1 = (replay, c', h2) \<Longrightarrow> hub_run c h evs h2"
| cancel: "hub_run c h evs h1 \<Longrightarrow> hub_run c h evs (cancelSubscription c' h1)"
| other: "hub_run c h evs h1 \<Longrightarrow> c' \<noteq> c \<Longrightarrow> receive c' h1 = (out, h2) \<Longrightarrow> hub_run c h evs h2"
| nothing: "hub_run c h evs h1 \<Longrightarrow> receive c h1 = (None, h2) \<Longrightarrow> hub_run c h evs h2"
| read: "hub_run c h evs h1 \<Longrightarrow> receive c h1 = (Some ev, h2) \<Longrightarrow> hub_run c h (evs @ [ev]) h2"

text \<open>\<open>seenBy c evs h k\<close>: what was taken and what waits in the channel are the numbers from \<open>k + 1\<close> on.\<close>

definition seenBy :: "nat \<Rightarrow> Event list \<Rightarrow> EventHub \<Rightarrow> int \<Rightarrow> bool" where
  "seenBy c evs h k \<longleftrightarrow> (\<exists>ch n. go_get (hub_chans h) c = Some ch \<and> n \<le> hub_next h
     \<and> consecutive n (evs @ ch_buf ch) \<and> n = k + int (length (evs @ ch_buf ch))
     \<and> (c \<in> set (hub_subs h) \<longrightarrow> n = hub_next h))"

lemma seenBy_same:
  assumes "seenBy c evs h k" and "hub_next h' = hub_next h"
    and "map_option ch_buf (go_get (hub_chans h') c) = map_option ch_buf (go_get (hub_chans h) c)"
    and "c \<in> set (hub_subs h') \<Longrightarrow> c \<in> set (hub_subs h)"
  shows "seenBy c evs h' k"
  using assms unfolding seenBy_def by (cases "go_get (hub_chans h') c") auto

lemma seenBy_publish:
  assumes ok: "hub_ok h" and s: "seenBy c evs h k"
    and p: "Publish kind jid rid att (Some h) = Some h'"
  shows "seenBy c evs h' k"
proof (cases "evc_Enabled (hub_cfg h)")
  case False
  then show ?thesis using s p by (simp add: Publish_def)
next
  case True
  let ?ev = "published kind jid rid att h"
  have e: "hub_next h' = hub_next h + 1" "hub_subs h' = filter (hasRoom h) (hub_subs h)"
    "go_get (hub_chans h') c = (if c \<in> set (hub_subs h)
       then map_option (offered ?ev) (go_get (hub_chans h) c) else go_get (hub_chans h) c)"
    using Publish_effect [OF ok True, of kind jid rid att] p by auto
  obtain ch n where ch: "go_get (hub_chans h) c = Some ch" "n \<le> hub_next h"
    "consecutive n (evs @ ch_buf ch)" "n = k + int (length (evs @ ch_buf ch))"
    "c \<in> set (hub_subs h) \<longrightarrow> n = hub_next h"
    using s unfolding seenBy_def by blast
  show ?thesis
  proof (cases "c \<in> set (hub_subs h) \<and> length (ch_buf ch) < ch_cap ch")
    case True
    have "consecutive (n + 1) (evs @ ch_buf ch @ [?ev])"
      using consecutive_snoc [OF ch(3), of ?ev] ch(5) True by simp
    then show ?thesis unfolding seenBy_def using True ch e
      by (intro exI [where x = "offered ?ev ch"] exI [where x = "n + 1"]) (simp add: offered_def)
  next
    case False
    have g: "\<exists>ch'. go_get (hub_chans h') c = Some ch' \<and> ch_buf ch' = ch_buf ch"
      using False ch(1) e(3) by (auto simp: offered_def)
    have "c \<notin> set (hub_subs h')" using False ch(1) e(2) by (auto simp: hasRoom_def)
    then show ?thesis unfolding seenBy_def using g ch e(1) by force
  qed
qed

lemma seenBy_receive:
  assumes ok: "hub_ok h" and s: "seenBy c evs h k" and r: "receive c h = (out, h')"
  shows "seenBy c (evs @ (case out of None \<Rightarrow> [] | Some ev \<Rightarrow> [ev])) h' k"
proof -
  obtain ch n where ch: "go_get (hub_chans h) c = Some ch" "n \<le> hub_next h"
    "consecutive n (evs @ ch_buf ch)" "n = k + int (length (evs @ ch_buf ch))"
    "c \<in> set (hub_subs h) \<longrightarrow> n = hub_next h"
    using s unfolding seenBy_def by blast
  obtain ch' where ch': "go_get (hub_chans h') c = Some ch'"
    "ch_buf ch = (case out of None \<Rightarrow> ch_buf ch' | Some ev \<Rightarrow> ev # ch_buf ch')"
    using receive_ok(5) [OF ok r ch(1)] by blast
  have "(evs @ (case out of None \<Rightarrow> [] | Some ev \<Rightarrow> [ev])) @ ch_buf ch' = evs @ ch_buf ch"
    using ch'(2) by (simp split: option.splits)
  then show ?thesis unfolding seenBy_def using ch ch'(1) receive_ok(2,3) [OF ok r]
    by (intro exI [where x = ch'] exI [where x = n]) simp
qed

lemma hub_run_seen:
  assumes "hub_run c h evs h'" and ok: "hub_ok h" and c: "go_get (hub_chans h) c = Some ch"
    and b: "ch_buf ch = []" and sub: "c \<in> set (hub_subs h)"
  shows "hub_ok h' \<and> seenBy c evs h' (hub_next h)"
  using assms(1)
proof (induction rule: hub_run.induct)
  case start
  show ?case using ok c b by (simp add: seenBy_def)
next
  case (publish evs h1 kind jid rid att h2)
  then show ?case using seenBy_publish [of h1 c evs "hub_next h"] Publish_ok [of h1 kind jid rid att] by auto
next
  case (subscribe evs h1 since replay c' h2)
  note S = Subscribe_ok [OF conjunct1 [OF subscribe.IH] subscribe.hyps(2)]
  obtain ch1 where "go_get (hub_chans h1) c = Some ch1"
    using subscribe.IH unfolding seenBy_def by blast
  then have "c \<noteq> c'" using S(3) go_get_key by metis
  then have "go_get (hub_chans h2) c = go_get (hub_chans h1) c" "c \<in> set (hub_subs h2) \<Longrightarrow> c \<in> set (hub_subs h1)"
    using subscribe.hyps(2) by (auto simp: Subscribe_def Let_def)
  then show ?case using S(1,5) seenBy_same [OF conjunct2 [OF subscribe.IH]] by simp
next
  case (cancel evs h1 c')
  note C = cancel_ok [OF conjunct1 [OF cancel.IH], of c']
  have "c \<in> set (hub_subs (cancelSubscription c' h1)) \<Longrightarrow> c \<in> set (hub_subs h1)"
    by (auto simp: cancelSubscription_def split: if_splits)
  then show ?case using C(1,2,4) seenBy_same [OF conjunct2 [OF cancel.IH]] by blast
next
  case (other evs h1 c' out h2)
  note R = receive_ok [OF conjunct1 [OF other.IH] other.hyps(3)]
  have "go_get (hub_chans h2) c = go_get (hub_chans h1) c" using R(4) other.hyps(2) by metis
  then show ?case using R(1-3) seenBy_same [OF conjunct2 [OF other.IH], of h2] by simp
next
  case (nothing evs h1 h2)
  then show ?case using receive_ok(1) [of h1 c None h2] seenBy_receive [of h1 c evs "hub_next h" None h2] by simp
next
  case (read evs h1 ev h2)
  then show ?case using receive_ok(1) [of h1 c "Some ev" h2] seenBy_receive [of h1 c evs "hub_next h" "Some ev" h2] by simp
qed

end
