(* ===== verification/ToolCatalog.thy ===== *)
theory ToolCatalog
  imports Model
begin

section \<open>The catalog of known tools\<close>

text \<open>
  \<open>src/src/dispatcher/tools.go\<close>: a set of declared tool names that only warns. The state of a
  catalog is what it knows, the names it has already warned about and the lines it has logged.
  A nil catalog is \<open>None\<close>.
\<close>

text \<open>
  Where a name came from: \<open>"RequiredTool of job ..."\<close> or \<open>"Tool of robot ..."\<close> in the messages.
\<close>

datatype toolUse = RequiredToolOfJob string | ToolOfRobot string

record ToolCatalog =
  cat_known :: "string list"
  cat_folded :: "(string, string) gomap"
  cat_warned :: "string list"
  cat_log :: "(toolUse \<times> string \<times> string option) list"

text \<open>
  \<open>strings.ToLower\<close> on the letters of ASCII, which is what tool names are made of; other
  characters are left alone. It only decides the hint of a warning.
\<close>

definition lowerChar :: "char \<Rightarrow> char" where
  "lowerChar c =
     (let n = (of_char c :: nat) in if 65 \<le> n \<and> n \<le> 90 then char_of (n + 32) else c)"

definition toLower :: "string \<Rightarrow> string" where
  "toLower s = map lowerChar s"

text \<open>
  \<open>strings.TrimSpace\<close>: white space is dropped from the front and then from the back. The back is
  trimmed through the list of characters, each with the bytes that encode it.
\<close>

function trimLeft :: "string \<Rightarrow> string" where
  "trimLeft s = (case dropSpace s of None \<Rightarrow> s | Some t \<Rightarrow> trimLeft t)"
  by pat_completeness auto
termination
  by (relation "measure length") (auto dest: dropSpace_length)

declare trimLeft.simps [simp del]

fun trimRight :: "string \<Rightarrow> string" where
  "trimRight [] = []"
| "trimRight (c # s) = (if isBlank (c # s) then [] else c # trimRight s)"

definition trimSpace :: "string \<Rightarrow> string" where
  "trimSpace s = trimRight (trimLeft s)"

definition addToolName :: "string \<Rightarrow> ToolCatalog \<Rightarrow> ToolCatalog" where
  "addToolName name c =
     (let name = trimSpace name in
      if name = [] then c
      else c\<lparr>cat_known := go_add name (cat_known c),
             cat_folded := go_put (toLower name) name (cat_folded c)\<rparr>)"

definition NewToolCatalog :: "string list \<Rightarrow> ToolCatalog" where
  "NewToolCatalog names =
     fold addToolName names \<lparr>cat_known = [], cat_folded = [], cat_warned = [], cat_log = []\<rparr>"

definition Names :: "ToolCatalog option \<Rightarrow> string list" where
  "Names c = (case c of None \<Rightarrow> [] | Some c \<Rightarrow> sort (cat_known c))"

definition Knows :: "ToolCatalog option \<Rightarrow> string \<Rightarrow> bool" where
  "Knows c tool =
     (case c of None \<Rightarrow> True | Some c \<Rightarrow> tool = [] \<or> tool \<in> set (cat_known c))"

text \<open>
  \<open>Check\<close> logs one line per unknown name (where it came from, the name, and the declared name
  that differs only in case, if any) and never refuses anything.
\<close>

definition Check :: "ToolCatalog option \<Rightarrow> string \<Rightarrow> toolUse \<Rightarrow> ToolCatalog option \<times> bool" where
  "Check cat tool what =
     (case cat of None \<Rightarrow> (None, True)
      | Some c \<Rightarrow>
         if tool = [] then (Some c, True)
         else if tool \<in> set (cat_known c) then (Some c, True)
         else if tool \<in> set (cat_warned c) then (Some c, False)
         else (Some (c\<lparr>cat_warned := go_add tool (cat_warned c),
                       cat_log := cat_log c
                         @ [(what, tool, go_get (cat_folded c) (toLower tool))]\<rparr>), False))"

subsection \<open>Lemmas\<close>

lemma isBlank_trimLeft: "isBlank s \<longleftrightarrow> trimLeft s = []"
proof (induction s rule: isBlank.induct)
  case (1 s)
  then show ?case
    by (cases "dropSpace s") (simp_all add: isBlank.simps [of s] trimLeft.simps [of s])
qed

lemma trimLeft_idem: "trimLeft (trimLeft s) = trimLeft s"
proof (induction s rule: trimLeft.induct)
  case (1 s)
  then show ?case
    by (cases "dropSpace s") (simp_all add: trimLeft.simps [of s])
qed

lemma trimRight_nonempty: "s \<noteq> [] \<Longrightarrow> \<not> isBlank s \<Longrightarrow> trimRight s \<noteq> []"
  by (cases s) auto

lemma Nil_notin_addToolName: "[] \<notin> set (cat_known c) \<Longrightarrow> [] \<notin> set (cat_known (addToolName n c))"
  by (auto simp: addToolName_def Let_def)

lemma Nil_notin_fold_addToolName:
  "[] \<notin> set (cat_known c) \<Longrightarrow> [] \<notin> set (cat_known (fold addToolName names c))"
  by (induction names arbitrary: c) (auto dest: Nil_notin_addToolName)

lemma known_fold_addToolName:
  "set (cat_known (fold addToolName names c)) =
     set (cat_known c) \<union> {n \<in> trimSpace ` set names. n \<noteq> []}"
  by (induction names arbitrary: c) (auto simp: addToolName_def Let_def)

lemma known_NewToolCatalog:
  "set (cat_known (NewToolCatalog names)) = {n \<in> trimSpace ` set names. n \<noteq> []}"
  by (simp add: NewToolCatalog_def known_fold_addToolName)

lemma Check_Knows: "snd (Check cat tool what) = Knows cat tool"
  by (auto simp: Check_def Knows_def split: option.splits)

lemma Check_known: "Knows (fst (Check cat tool what)) t = Knows cat t"
  by (auto simp: Check_def Knows_def split: option.splits)

lemma Check_again: "fst (Check (fst (Check cat tool what)) tool what') = fst (Check cat tool what)"
  by (auto simp: Check_def split: option.splits)

end
