(* ===== verification/Engine.thy ===== *)
theory Engine
  imports Store Events ToolCatalog
begin

section \<open>The engine: state, persistence helpers and the robot index\<close>

text \<open>
  The struct \<open>Engine\<close> of \<open>src/src/dispatcher/dispatcher.go\<close>, with the fields the other files of
  the package add to it. Every exported method holds the mutex from start to end, so a method is
  one atomic step and the mutex is not modelled. A pointer held in a map is the entry of that map:
  a method that changes a job or robot through a pointer writes the entry back (\<open>setJob\<close>,
  \<open>setRobot\<close>) and reads it again where the code reads through the pointer. The batch of pending
  writes holds pointers, so it is a list of keys whose values are read when it is committed.
\<close>

record 's engine =
  eng_jobs :: "(string, job) gomap"
  eng_robots :: "(string, robot) gomap"
  eng_nextSeq :: int
  eng_dedupIndex :: "(string, string) gomap"
  eng_heldBy :: "(string, string list) gomap"
  eng_store :: "'s store_value option"
  eng_lastPersistErr :: "serror option"
  eng_robotFreshness :: duration
  eng_tools :: "ToolCatalog option"
  eng_eta :: ETAConfig
  eng_location :: LocationConfig
  eng_replan :: ReplanConfig
  eng_archiveAfter :: duration
  eng_stopReq :: "(string, stopRequest) gomap"
  eng_productionOn :: bool
  eng_events :: "EventHub option"
  eng_toolCheck :: toolConfirmation
  eng_pending :: "(string list \<times> string list) option"

definition NewEngine :: "'s engine" where
  "NewEngine =
     \<lparr>eng_jobs = [], eng_robots = [], eng_nextSeq = 0, eng_dedupIndex = [], eng_heldBy = [],
      eng_store = None, eng_lastPersistErr = None, eng_robotFreshness = 0, eng_tools = None,
      eng_eta = noETA, eng_location = noLocation, eng_replan = noReplan, eng_archiveAfter = 0,
      eng_stopReq = [], eng_productionOn = False, eng_events = None,
      eng_toolCheck = noToolConfirmation, eng_pending = None\<rparr>"

abbreviation getJob :: "'s engine \<Rightarrow> string \<Rightarrow> job option" where
  "getJob e \<equiv> go_get (eng_jobs e)"

abbreviation getRobot :: "'s engine \<Rightarrow> string \<Rightarrow> robot option" where
  "getRobot e \<equiv> go_get (eng_robots e)"

definition setJob :: "job \<Rightarrow> 's engine \<Rightarrow> 's engine" where
  "setJob j e = e\<lparr>eng_jobs := go_put (job_ID j) j (eng_jobs e)\<rparr>"

definition setRobot :: "robot \<Rightarrow> 's engine \<Rightarrow> 's engine" where
  "setRobot r e = e\<lparr>eng_robots := go_put (rob_ID r) r (eng_robots e)\<rparr>"

subsection \<open>Writing through to the store\<close>

definition beginBatchLocked :: "'s engine \<Rightarrow> 's engine" where
  "beginBatchLocked e =
     (case eng_store e of None \<Rightarrow> e | Some _ \<Rightarrow> e\<lparr>eng_pending := Some ([], [])\<rparr>)"

definition persistJobLocked :: "job \<Rightarrow> 's engine \<Rightarrow> 's engine \<times> serror option" where
  "persistJobLocked j e =
     (case eng_store e of
        None \<Rightarrow> (e, None)
      | Some sv \<Rightarrow>
         (case eng_pending e of
            Some (js, rs) \<Rightarrow> (e\<lparr>eng_pending := Some (go_add (job_ID j) js, rs)\<rparr>, None)
          | None \<Rightarrow>
              (let (s, err) = sv_SaveJob sv (sv_state sv) (jobRecord j)
               in (e\<lparr>eng_store := Some (sv\<lparr>sv_state := s\<rparr>)\<rparr>, err))))"

definition persistRobotLocked :: "robot \<Rightarrow> 's engine \<Rightarrow> 's engine \<times> serror option" where
  "persistRobotLocked r e =
     (case eng_store e of
        None \<Rightarrow> (e, None)
      | Some sv \<Rightarrow>
         (case eng_pending e of
            Some (js, rs) \<Rightarrow> (e\<lparr>eng_pending := Some (js, go_add (rob_ID r) rs)\<rparr>, None)
          | None \<Rightarrow>
              (let (s, err) = sv_SaveRobot sv (sv_state sv) r
               in (e\<lparr>eng_store := Some (sv\<lparr>sv_state := s\<rparr>)\<rparr>, err))))"

text \<open>\<open>commitBatchLocked\<close> writes the collected records, robots by ID and jobs by submission order.\<close>

definition commitBatchLocked :: "'s engine \<Rightarrow> 's engine \<times> serror option" where
  "commitBatchLocked e =
     (case eng_pending e of
        None \<Rightarrow> (e, None)
      | Some (jids, rids) \<Rightarrow>
         (let e1 = e\<lparr>eng_pending := None\<rparr> in
          if jids = [] \<and> rids = [] then (e1, None)
          else
            let jobs = sort_key rec_Seq (map jobRecord (List.map_filter (getJob e) jids));
                robots = sort_key rob_ID (List.map_filter (getRobot e) rids)
            in case eng_store e of
                 None \<Rightarrow> (e1, None)
               | Some sv \<Rightarrow>
                   (let (sv', err) = storeBatch sv jobs robots
                    in (e1\<lparr>eng_store := Some sv'\<rparr>, err))))"

definition recordPersistOutcome :: "serror option list \<Rightarrow> 's engine \<Rightarrow> 's engine" where
  "recordPersistOutcome errs e = e\<lparr>eng_lastPersistErr := firstErr errs\<rparr>"

definition LastPersistError :: "'s engine \<Rightarrow> serror option" where
  "LastPersistError e = eng_lastPersistErr e"

subsection \<open>The index from robots to jobs\<close>

definition heldIds :: "(string, string list) gomap \<Rightarrow> string \<Rightarrow> string list" where
  "heldIds held rid = (case go_get held rid of None \<Rightarrow> [] | Some s \<Rightarrow> s)"

definition noteAssignedLocked :: "job \<Rightarrow> 's engine \<Rightarrow> 's engine" where
  "noteAssignedLocked j e =
     (if job_AssignedRobot j = [] then e
      else
        let held = heldIds (eng_heldBy e) (job_AssignedRobot j)
        in e\<lparr>eng_heldBy := go_put (job_AssignedRobot j) (go_add (job_ID j) held) (eng_heldBy e)\<rparr>)"

definition namesRobot :: "'s engine \<Rightarrow> string \<Rightarrow> string \<Rightarrow> bool" where
  "namesRobot e rid jid =
     (case getJob e jid of None \<Rightarrow> False | Some j \<Rightarrow> job_AssignedRobot j = rid)"

definition jobsHeldByLocked :: "string \<Rightarrow> 's engine \<Rightarrow> job list \<times> 's engine" where
  "jobsHeldByLocked rid e =
     (let ids = heldIds (eng_heldBy e) rid in
      if ids = [] then ([], e)
      else
        let keep = filter (namesRobot e rid) ids;
            out = List.map_filter (getJob e) keep
        in (out, e\<lparr>eng_heldBy := (if keep = [] then go_del rid (eng_heldBy e)
                                   else go_put rid keep (eng_heldBy e))\<rparr>))"

definition robotHasActiveAssignmentLocked :: "string \<Rightarrow> 's engine \<Rightarrow> bool \<times> 's engine" where
  "robotHasActiveAssignmentLocked rid e =
     (let (js, e') = jobsHeldByLocked rid e
      in (list_ex (\<lambda>j. job_Status j = StatusAssigned) js, e'))"

subsection \<open>Starting from a store\<close>

definition loadRecord :: "JobRecord \<Rightarrow> 's engine \<Rightarrow> 's engine" where
  "loadRecord r e =
     (let j = (rec_Job r)\<lparr>job_seq := rec_Seq r\<rparr>;
          e1 = noteAssignedLocked j (setJob j e);
          e2 = (if job_DedupKey j = [] then e1
                else e1\<lparr>eng_dedupIndex := go_put (job_DedupKey j) (job_ID j) (eng_dedupIndex e1)\<rparr>)
      in if job_seq j \<ge> eng_nextSeq e2 then e2\<lparr>eng_nextSeq := job_seq j + 1\<rparr> else e2)"

definition DefaultArchiveAfter :: duration where
  "DefaultArchiveAfter = 30 * 24 * hour"

definition NewEngineWithStore :: "'s store_value \<Rightarrow> serror + 's engine" where
  "NewEngineWithStore sv =
     (case sv_LoadAll sv (sv_state sv) of
        Inl err \<Rightarrow> Inl err
      | Inr (records, robots) \<Rightarrow>
          Inr (fold setRobot robots
            (fold loadRecord records
              (NewEngine\<lparr>eng_store := Some sv, eng_archiveAfter := DefaultArchiveAfter\<rparr>))))"

subsection \<open>Settings and events\<close>

definition SetToolCatalog :: "ToolCatalog option \<Rightarrow> 's engine \<Rightarrow> 's engine" where
  "SetToolCatalog c e = e\<lparr>eng_tools := c\<rparr>"

definition SetRobotFreshness :: "duration \<Rightarrow> 's engine \<Rightarrow> 's engine" where
  "SetRobotFreshness d e = e\<lparr>eng_robotFreshness := d\<rparr>"

definition SetReplan :: "ReplanConfig \<Rightarrow> 's engine \<Rightarrow> 's engine" where
  "SetReplan c e = e\<lparr>eng_replan := c\<rparr>"

definition ReplanEnabled :: "'s engine \<Rightarrow> bool" where
  "ReplanEnabled e = rp_Enabled (eng_replan e)"

definition SetArchiveAfter :: "duration \<Rightarrow> 's engine \<Rightarrow> 's engine" where
  "SetArchiveAfter d e = e\<lparr>eng_archiveAfter := d\<rparr>"

definition SetProductionEvents :: "bool \<Rightarrow> 's engine \<Rightarrow> 's engine" where
  "SetProductionEvents on e = e\<lparr>eng_productionOn := on\<rparr>"

definition SetEvents :: "EventHub option \<Rightarrow> 's engine \<Rightarrow> 's engine" where
  "SetEvents h e = e\<lparr>eng_events := h\<rparr>"

definition emitLocked :: "eventType \<Rightarrow> job \<Rightarrow> 's engine \<Rightarrow> 's engine" where
  "emitLocked kind j e =
     e\<lparr>eng_events := Publish kind (job_ID j) (job_AssignedRobot j) (job_Attempt j) (eng_events e)\<rparr>"

definition checkTool :: "string \<Rightarrow> toolUse \<Rightarrow> 's engine \<Rightarrow> 's engine" where
  "checkTool tool what e = e\<lparr>eng_tools := fst (Check (eng_tools e) tool what)\<rparr>"

subsection \<open>Frames: what the helpers leave alone\<close>

lemma getJob_setJob [simp]: "getJob (setJob j e) = (getJob e)(job_ID j \<mapsto> j)"
  by (simp add: setJob_def)

lemma getRobot_setRobot [simp]: "getRobot (setRobot r e) = (getRobot e)(rob_ID r \<mapsto> r)"
  by (simp add: setRobot_def)

lemma setJob_frame [frame, simp]:
  "eng_robots (setJob j e) = eng_robots e" "eng_nextSeq (setJob j e) = eng_nextSeq e"
  "eng_dedupIndex (setJob j e) = eng_dedupIndex e" "eng_heldBy (setJob j e) = eng_heldBy e"
  "eng_store (setJob j e) = eng_store e" "eng_lastPersistErr (setJob j e) = eng_lastPersistErr e"
  "eng_robotFreshness (setJob j e) = eng_robotFreshness e" "eng_tools (setJob j e) = eng_tools e"
  "eng_eta (setJob j e) = eng_eta e" "eng_location (setJob j e) = eng_location e"
  "eng_replan (setJob j e) = eng_replan e" "eng_archiveAfter (setJob j e) = eng_archiveAfter e"
  "eng_stopReq (setJob j e) = eng_stopReq e" "eng_productionOn (setJob j e) = eng_productionOn e"
  "eng_events (setJob j e) = eng_events e" "eng_toolCheck (setJob j e) = eng_toolCheck e"
  "eng_pending (setJob j e) = eng_pending e"
  by (simp_all add: setJob_def)

lemma setRobot_frame [frame, simp]:
  "eng_jobs (setRobot r e) = eng_jobs e" "eng_nextSeq (setRobot r e) = eng_nextSeq e"
  "eng_dedupIndex (setRobot r e) = eng_dedupIndex e" "eng_heldBy (setRobot r e) = eng_heldBy e"
  "eng_store (setRobot r e) = eng_store e"
  "eng_lastPersistErr (setRobot r e) = eng_lastPersistErr e"
  "eng_robotFreshness (setRobot r e) = eng_robotFreshness e"
  "eng_tools (setRobot r e) = eng_tools e" "eng_eta (setRobot r e) = eng_eta e"
  "eng_location (setRobot r e) = eng_location e" "eng_replan (setRobot r e) = eng_replan e"
  "eng_archiveAfter (setRobot r e) = eng_archiveAfter e"
  "eng_stopReq (setRobot r e) = eng_stopReq e"
  "eng_productionOn (setRobot r e) = eng_productionOn e"
  "eng_events (setRobot r e) = eng_events e" "eng_toolCheck (setRobot r e) = eng_toolCheck e"
  "eng_pending (setRobot r e) = eng_pending e"
  by (simp_all add: setRobot_def)

lemma beginBatch_frame [frame, simp]:
  "eng_jobs (beginBatchLocked e) = eng_jobs e" "eng_robots (beginBatchLocked e) = eng_robots e"
  "eng_nextSeq (beginBatchLocked e) = eng_nextSeq e"
  "eng_dedupIndex (beginBatchLocked e) = eng_dedupIndex e"
  "eng_heldBy (beginBatchLocked e) = eng_heldBy e" "eng_store (beginBatchLocked e) = eng_store e"
  "eng_lastPersistErr (beginBatchLocked e) = eng_lastPersistErr e"
  "eng_robotFreshness (beginBatchLocked e) = eng_robotFreshness e"
  "eng_tools (beginBatchLocked e) = eng_tools e" "eng_eta (beginBatchLocked e) = eng_eta e"
  "eng_location (beginBatchLocked e) = eng_location e"
  "eng_replan (beginBatchLocked e) = eng_replan e"
  "eng_archiveAfter (beginBatchLocked e) = eng_archiveAfter e"
  "eng_stopReq (beginBatchLocked e) = eng_stopReq e"
  "eng_productionOn (beginBatchLocked e) = eng_productionOn e"
  "eng_events (beginBatchLocked e) = eng_events e"
  "eng_toolCheck (beginBatchLocked e) = eng_toolCheck e"
  by (simp_all add: beginBatchLocked_def split: option.splits prod.splits)

lemma persistJob_frame [frame, simp]:
  "eng_jobs (fst (persistJobLocked j e)) = eng_jobs e"
  "eng_robots (fst (persistJobLocked j e)) = eng_robots e"
  "eng_nextSeq (fst (persistJobLocked j e)) = eng_nextSeq e"
  "eng_dedupIndex (fst (persistJobLocked j e)) = eng_dedupIndex e"
  "eng_heldBy (fst (persistJobLocked j e)) = eng_heldBy e"
  "eng_lastPersistErr (fst (persistJobLocked j e)) = eng_lastPersistErr e"
  "eng_robotFreshness (fst (persistJobLocked j e)) = eng_robotFreshness e"
  "eng_tools (fst (persistJobLocked j e)) = eng_tools e"
  "eng_eta (fst (persistJobLocked j e)) = eng_eta e"
  "eng_location (fst (persistJobLocked j e)) = eng_location e"
  "eng_replan (fst (persistJobLocked j e)) = eng_replan e"
  "eng_archiveAfter (fst (persistJobLocked j e)) = eng_archiveAfter e"
  "eng_stopReq (fst (persistJobLocked j e)) = eng_stopReq e"
  "eng_productionOn (fst (persistJobLocked j e)) = eng_productionOn e"
  "eng_events (fst (persistJobLocked j e)) = eng_events e"
  "eng_toolCheck (fst (persistJobLocked j e)) = eng_toolCheck e"
  by (simp_all add: persistJobLocked_def case_prod_unfold Let_def split: option.splits)

lemma persistRobot_frame [frame, simp]:
  "eng_jobs (fst (persistRobotLocked r e)) = eng_jobs e"
  "eng_robots (fst (persistRobotLocked r e)) = eng_robots e"
  "eng_nextSeq (fst (persistRobotLocked r e)) = eng_nextSeq e"
  "eng_dedupIndex (fst (persistRobotLocked r e)) = eng_dedupIndex e"
  "eng_heldBy (fst (persistRobotLocked r e)) = eng_heldBy e"
  "eng_lastPersistErr (fst (persistRobotLocked r e)) = eng_lastPersistErr e"
  "eng_robotFreshness (fst (persistRobotLocked r e)) = eng_robotFreshness e"
  "eng_tools (fst (persistRobotLocked r e)) = eng_tools e"
  "eng_eta (fst (persistRobotLocked r e)) = eng_eta e"
  "eng_location (fst (persistRobotLocked r e)) = eng_location e"
  "eng_replan (fst (persistRobotLocked r e)) = eng_replan e"
  "eng_archiveAfter (fst (persistRobotLocked r e)) = eng_archiveAfter e"
  "eng_stopReq (fst (persistRobotLocked r e)) = eng_stopReq e"
  "eng_productionOn (fst (persistRobotLocked r e)) = eng_productionOn e"
  "eng_events (fst (persistRobotLocked r e)) = eng_events e"
  "eng_toolCheck (fst (persistRobotLocked r e)) = eng_toolCheck e"
  by (simp_all add: persistRobotLocked_def case_prod_unfold Let_def split: option.splits)

lemma commitBatch_frame [frame, simp]:
  "eng_jobs (fst (commitBatchLocked e)) = eng_jobs e"
  "eng_robots (fst (commitBatchLocked e)) = eng_robots e"
  "eng_nextSeq (fst (commitBatchLocked e)) = eng_nextSeq e"
  "eng_dedupIndex (fst (commitBatchLocked e)) = eng_dedupIndex e"
  "eng_heldBy (fst (commitBatchLocked e)) = eng_heldBy e"
  "eng_lastPersistErr (fst (commitBatchLocked e)) = eng_lastPersistErr e"
  "eng_robotFreshness (fst (commitBatchLocked e)) = eng_robotFreshness e"
  "eng_tools (fst (commitBatchLocked e)) = eng_tools e"
  "eng_eta (fst (commitBatchLocked e)) = eng_eta e"
  "eng_location (fst (commitBatchLocked e)) = eng_location e"
  "eng_replan (fst (commitBatchLocked e)) = eng_replan e"
  "eng_archiveAfter (fst (commitBatchLocked e)) = eng_archiveAfter e"
  "eng_stopReq (fst (commitBatchLocked e)) = eng_stopReq e"
  "eng_productionOn (fst (commitBatchLocked e)) = eng_productionOn e"
  "eng_events (fst (commitBatchLocked e)) = eng_events e"
  "eng_toolCheck (fst (commitBatchLocked e)) = eng_toolCheck e"
  by (simp_all add: commitBatchLocked_def case_prod_unfold Let_def split: option.splits)

lemma recordPersist_frame [frame, simp]:
  "eng_jobs (recordPersistOutcome errs e) = eng_jobs e"
  "eng_robots (recordPersistOutcome errs e) = eng_robots e"
  "eng_nextSeq (recordPersistOutcome errs e) = eng_nextSeq e"
  "eng_dedupIndex (recordPersistOutcome errs e) = eng_dedupIndex e"
  "eng_heldBy (recordPersistOutcome errs e) = eng_heldBy e"
  "eng_store (recordPersistOutcome errs e) = eng_store e"
  "eng_robotFreshness (recordPersistOutcome errs e) = eng_robotFreshness e"
  "eng_tools (recordPersistOutcome errs e) = eng_tools e"
  "eng_eta (recordPersistOutcome errs e) = eng_eta e"
  "eng_location (recordPersistOutcome errs e) = eng_location e"
  "eng_replan (recordPersistOutcome errs e) = eng_replan e"
  "eng_archiveAfter (recordPersistOutcome errs e) = eng_archiveAfter e"
  "eng_stopReq (recordPersistOutcome errs e) = eng_stopReq e"
  "eng_productionOn (recordPersistOutcome errs e) = eng_productionOn e"
  "eng_events (recordPersistOutcome errs e) = eng_events e"
  "eng_toolCheck (recordPersistOutcome errs e) = eng_toolCheck e"
  "eng_pending (recordPersistOutcome errs e) = eng_pending e"
  by (simp_all add: recordPersistOutcome_def)

lemma noteAssigned_frame [frame, simp]:
  "eng_jobs (noteAssignedLocked j e) = eng_jobs e"
  "eng_robots (noteAssignedLocked j e) = eng_robots e"
  "eng_nextSeq (noteAssignedLocked j e) = eng_nextSeq e"
  "eng_dedupIndex (noteAssignedLocked j e) = eng_dedupIndex e"
  "eng_store (noteAssignedLocked j e) = eng_store e"
  "eng_lastPersistErr (noteAssignedLocked j e) = eng_lastPersistErr e"
  "eng_robotFreshness (noteAssignedLocked j e) = eng_robotFreshness e"
  "eng_tools (noteAssignedLocked j e) = eng_tools e"
  "eng_eta (noteAssignedLocked j e) = eng_eta e"
  "eng_location (noteAssignedLocked j e) = eng_location e"
  "eng_replan (noteAssignedLocked j e) = eng_replan e"
  "eng_archiveAfter (noteAssignedLocked j e) = eng_archiveAfter e"
  "eng_stopReq (noteAssignedLocked j e) = eng_stopReq e"
  "eng_productionOn (noteAssignedLocked j e) = eng_productionOn e"
  "eng_events (noteAssignedLocked j e) = eng_events e"
  "eng_toolCheck (noteAssignedLocked j e) = eng_toolCheck e"
  "eng_pending (noteAssignedLocked j e) = eng_pending e"
  by (simp_all add: noteAssignedLocked_def Let_def)

lemma jobsHeldBy_frame [frame, simp]:
  "eng_jobs (snd (jobsHeldByLocked rid e)) = eng_jobs e"
  "eng_robots (snd (jobsHeldByLocked rid e)) = eng_robots e"
  "eng_nextSeq (snd (jobsHeldByLocked rid e)) = eng_nextSeq e"
  "eng_dedupIndex (snd (jobsHeldByLocked rid e)) = eng_dedupIndex e"
  "eng_store (snd (jobsHeldByLocked rid e)) = eng_store e"
  "eng_lastPersistErr (snd (jobsHeldByLocked rid e)) = eng_lastPersistErr e"
  "eng_robotFreshness (snd (jobsHeldByLocked rid e)) = eng_robotFreshness e"
  "eng_tools (snd (jobsHeldByLocked rid e)) = eng_tools e"
  "eng_eta (snd (jobsHeldByLocked rid e)) = eng_eta e"
  "eng_location (snd (jobsHeldByLocked rid e)) = eng_location e"
  "eng_replan (snd (jobsHeldByLocked rid e)) = eng_replan e"
  "eng_archiveAfter (snd (jobsHeldByLocked rid e)) = eng_archiveAfter e"
  "eng_stopReq (snd (jobsHeldByLocked rid e)) = eng_stopReq e"
  "eng_productionOn (snd (jobsHeldByLocked rid e)) = eng_productionOn e"
  "eng_events (snd (jobsHeldByLocked rid e)) = eng_events e"
  "eng_toolCheck (snd (jobsHeldByLocked rid e)) = eng_toolCheck e"
  "eng_pending (snd (jobsHeldByLocked rid e)) = eng_pending e"
  by (simp_all add: jobsHeldByLocked_def Let_def split: option.splits)

lemma robotHasActive_frame [frame, simp]:
  "eng_jobs (snd (robotHasActiveAssignmentLocked rid e)) = eng_jobs e"
  "eng_robots (snd (robotHasActiveAssignmentLocked rid e)) = eng_robots e"
  "eng_nextSeq (snd (robotHasActiveAssignmentLocked rid e)) = eng_nextSeq e"
  "eng_dedupIndex (snd (robotHasActiveAssignmentLocked rid e)) = eng_dedupIndex e"
  "eng_store (snd (robotHasActiveAssignmentLocked rid e)) = eng_store e"
  "eng_lastPersistErr (snd (robotHasActiveAssignmentLocked rid e)) = eng_lastPersistErr e"
  "eng_robotFreshness (snd (robotHasActiveAssignmentLocked rid e)) = eng_robotFreshness e"
  "eng_tools (snd (robotHasActiveAssignmentLocked rid e)) = eng_tools e"
  "eng_eta (snd (robotHasActiveAssignmentLocked rid e)) = eng_eta e"
  "eng_location (snd (robotHasActiveAssignmentLocked rid e)) = eng_location e"
  "eng_replan (snd (robotHasActiveAssignmentLocked rid e)) = eng_replan e"
  "eng_archiveAfter (snd (robotHasActiveAssignmentLocked rid e)) = eng_archiveAfter e"
  "eng_stopReq (snd (robotHasActiveAssignmentLocked rid e)) = eng_stopReq e"
  "eng_productionOn (snd (robotHasActiveAssignmentLocked rid e)) = eng_productionOn e"
  "eng_events (snd (robotHasActiveAssignmentLocked rid e)) = eng_events e"
  "eng_toolCheck (snd (robotHasActiveAssignmentLocked rid e)) = eng_toolCheck e"
  "eng_pending (snd (robotHasActiveAssignmentLocked rid e)) = eng_pending e"
  by (simp_all add: robotHasActiveAssignmentLocked_def case_prod_unfold Let_def)

lemma emit_frame [frame, simp]:
  "eng_jobs (emitLocked kind j e) = eng_jobs e" "eng_robots (emitLocked kind j e) = eng_robots e"
  "eng_nextSeq (emitLocked kind j e) = eng_nextSeq e"
  "eng_dedupIndex (emitLocked kind j e) = eng_dedupIndex e"
  "eng_heldBy (emitLocked kind j e) = eng_heldBy e"
  "eng_store (emitLocked kind j e) = eng_store e"
  "eng_lastPersistErr (emitLocked kind j e) = eng_lastPersistErr e"
  "eng_robotFreshness (emitLocked kind j e) = eng_robotFreshness e"
  "eng_tools (emitLocked kind j e) = eng_tools e" "eng_eta (emitLocked kind j e) = eng_eta e"
  "eng_location (emitLocked kind j e) = eng_location e"
  "eng_replan (emitLocked kind j e) = eng_replan e"
  "eng_archiveAfter (emitLocked kind j e) = eng_archiveAfter e"
  "eng_stopReq (emitLocked kind j e) = eng_stopReq e"
  "eng_productionOn (emitLocked kind j e) = eng_productionOn e"
  "eng_toolCheck (emitLocked kind j e) = eng_toolCheck e"
  "eng_pending (emitLocked kind j e) = eng_pending e"
  by (simp_all add: emitLocked_def)

lemma checkTool_frame [frame, simp]:
  "eng_jobs (checkTool tool what e) = eng_jobs e"
  "eng_robots (checkTool tool what e) = eng_robots e"
  "eng_nextSeq (checkTool tool what e) = eng_nextSeq e"
  "eng_dedupIndex (checkTool tool what e) = eng_dedupIndex e"
  "eng_heldBy (checkTool tool what e) = eng_heldBy e"
  "eng_store (checkTool tool what e) = eng_store e"
  "eng_lastPersistErr (checkTool tool what e) = eng_lastPersistErr e"
  "eng_robotFreshness (checkTool tool what e) = eng_robotFreshness e"
  "eng_eta (checkTool tool what e) = eng_eta e"
  "eng_location (checkTool tool what e) = eng_location e"
  "eng_replan (checkTool tool what e) = eng_replan e"
  "eng_archiveAfter (checkTool tool what e) = eng_archiveAfter e"
  "eng_stopReq (checkTool tool what e) = eng_stopReq e"
  "eng_productionOn (checkTool tool what e) = eng_productionOn e"
  "eng_events (checkTool tool what e) = eng_events e"
  "eng_toolCheck (checkTool tool what e) = eng_toolCheck e"
  "eng_pending (checkTool tool what e) = eng_pending e"
  by (simp_all add: checkTool_def)

lemma recordPersist_err [simp]:
  "eng_lastPersistErr (recordPersistOutcome errs e) = firstErr errs"
  by (simp add: recordPersistOutcome_def)

text \<open>The batch: open between \<open>beginBatchLocked\<close> and \<open>commitBatchLocked\<close>, and only with a store.\<close>

lemma commitBatch_pending [simp]: "eng_pending (fst (commitBatchLocked e)) = None"
  by (simp add: commitBatchLocked_def case_prod_unfold Let_def split: option.splits)

lemma persistJob_pending_None [simp]:
  "eng_pending (fst (persistJobLocked j e)) = None \<longleftrightarrow> eng_pending e = None"
  by (simp add: persistJobLocked_def case_prod_unfold Let_def split: option.splits)

lemma persistRobot_pending_None [simp]:
  "eng_pending (fst (persistRobotLocked r e)) = None \<longleftrightarrow> eng_pending e = None"
  by (simp add: persistRobotLocked_def case_prod_unfold Let_def split: option.splits)

lemma persistJob_no_store [simp]: "eng_store e = None \<Longrightarrow> persistJobLocked j e = (e, None)"
  by (simp add: persistJobLocked_def)

lemma persistRobot_no_store [simp]: "eng_store e = None \<Longrightarrow> persistRobotLocked r e = (e, None)"
  by (simp add: persistRobotLocked_def)

subsection \<open>The index finds exactly the jobs of a robot\<close>

text \<open>
  \<open>heldBy_ok\<close>: every job that names a robot is listed under it (the index is a superset, stale
  entries are dropped when they are read). Under it, reading the index is the scan of the queue
  that it replaces.
\<close>

definition heldBy_ok :: "(string, job) gomap \<Rightarrow> (string, string list) gomap \<Rightarrow> bool" where
  "heldBy_ok jobs held \<longleftrightarrow>
     (\<forall>jid j. go_get jobs jid = Some j \<longrightarrow> job_AssignedRobot j \<noteq> [] \<longrightarrow>
        jid \<in> set (heldIds held (job_AssignedRobot j)))
   \<and> (\<forall>rid. distinct (heldIds held rid))"

lemma heldBy_okI:
  assumes "\<And>jid j rid. go_get jobs jid = Some j \<Longrightarrow> job_AssignedRobot j = rid \<Longrightarrow> rid \<noteq> [] \<Longrightarrow>
      jid \<in> set (heldIds held rid)"
    and "\<And>rid. distinct (heldIds held rid)"
  shows "heldBy_ok jobs held"
  using assms unfolding heldBy_ok_def by blast

lemma heldBy_okD:
  "heldBy_ok jobs held \<Longrightarrow> go_get jobs jid = Some j \<Longrightarrow> job_AssignedRobot j = rid \<Longrightarrow> rid \<noteq> [] \<Longrightarrow>
     jid \<in> set (heldIds held rid)"
  unfolding heldBy_ok_def by blast

lemma heldBy_ok_distinct: "heldBy_ok jobs held \<Longrightarrow> distinct (heldIds held rid)"
  by (simp add: heldBy_ok_def)

lemma heldIds_Nil [simp]: "heldIds [] rid = []"
  by (simp add: heldIds_def)

lemma heldIds_put [simp]:
  "heldIds (go_put r ids held) rid = (if rid = r then ids else heldIds held rid)"
  by (simp add: heldIds_def)

lemma heldIds_del [simp]: "heldIds (go_del r held) rid = (if rid = r then [] else heldIds held rid)"
  by (simp add: heldIds_def)

lemma heldBy_ok_Nil [simp]: "heldBy_ok [] []"
  by (simp add: heldBy_ok_def)

definition jobsNaming :: "string \<Rightarrow> (string, job) gomap \<Rightarrow> job list" where
  "jobsNaming rid jobs = filter (\<lambda>j. job_AssignedRobot j = rid) (go_vals jobs)"

lemma heldIds_noteAssigned:
  "heldIds (eng_heldBy (noteAssignedLocked j e)) rid =
     (if rid = job_AssignedRobot j \<and> rid \<noteq> [] then go_add (job_ID j) (heldIds (eng_heldBy e) rid)
      else heldIds (eng_heldBy e) rid)"
  by (simp add: noteAssignedLocked_def Let_def)

lemma heldIds_jobsHeldBy:
  "heldIds (eng_heldBy (snd (jobsHeldByLocked rid e))) rid' =
     (if rid' = rid then filter (namesRobot e rid) (heldIds (eng_heldBy e) rid)
      else heldIds (eng_heldBy e) rid')"
  by (simp add: jobsHeldByLocked_def Let_def)

lemma fst_jobsHeldBy:
  "fst (jobsHeldByLocked rid e) =
     List.map_filter (getJob e) (filter (namesRobot e rid) (heldIds (eng_heldBy e) rid))"
  by (simp add: jobsHeldByLocked_def Let_def map_filter_simps)

lemma mem_map_filter: "y \<in> set (List.map_filter f xs) \<longleftrightarrow> (\<exists>x \<in> set xs. f x = Some y)"
  by (induction xs) (auto simp: map_filter_simps split: option.splits)

lemma set_jobsHeldBy:
  assumes wf: "go_wf job_ID (eng_jobs e)" and ok: "heldBy_ok (eng_jobs e) (eng_heldBy e)"
    and ne: "rid \<noteq> []"
  shows "set (fst (jobsHeldByLocked rid e)) = set (jobsNaming rid (eng_jobs e))"
proof -
  have "j \<in> set (fst (jobsHeldByLocked rid e)) \<longleftrightarrow>
      getJob e (job_ID j) = Some j \<and> job_AssignedRobot j = rid" for j
  proof
    assume "j \<in> set (fst (jobsHeldByLocked rid e))"
    then obtain jid where "getJob e jid = Some j" "namesRobot e rid jid"
      by (auto simp: fst_jobsHeldBy mem_map_filter)
    then show "getJob e (job_ID j) = Some j \<and> job_AssignedRobot j = rid"
      using go_wf_key [OF wf] by (auto simp: namesRobot_def)
  next
    assume j: "getJob e (job_ID j) = Some j \<and> job_AssignedRobot j = rid"
    then have "job_ID j \<in> set (heldIds (eng_heldBy e) rid)"
      using ok ne unfolding heldBy_ok_def by blast
    then show "j \<in> set (fst (jobsHeldByLocked rid e))"
      using j by (auto simp: fst_jobsHeldBy mem_map_filter namesRobot_def)
  qed
  then show ?thesis
    using go_wf_vals [OF wf] by (auto simp: jobsNaming_def)
qed

lemma map_filter_getJob_ids:
  "go_wf job_ID (eng_jobs e) \<Longrightarrow> distinct ids \<Longrightarrow>
     distinct (map job_ID (List.map_filter (getJob e) ids))
   \<and> set (map job_ID (List.map_filter (getJob e) ids)) \<subseteq> set ids"
  by (induction ids) (auto simp: map_filter_simps dest: go_wf_key split: option.splits)

lemma distinct_jobsHeldBy:
  assumes "go_wf job_ID (eng_jobs e)" and "heldBy_ok (eng_jobs e) (eng_heldBy e)"
  shows "distinct (map job_ID (fst (jobsHeldByLocked rid e)))"
  using assms map_filter_getJob_ids [OF assms(1)] by (simp add: fst_jobsHeldBy heldBy_ok_def)

lemma jobsHeldBy_index:
  assumes "heldBy_ok (eng_jobs e) (eng_heldBy e)"
  shows "heldBy_ok (eng_jobs e) (eng_heldBy (snd (jobsHeldByLocked rid e)))"
  using heldBy_okD [OF assms] heldBy_ok_distinct [OF assms]
  by (intro heldBy_okI) (auto simp: heldIds_jobsHeldBy namesRobot_def)

lemma robotHasActive_iff:
  assumes "go_wf job_ID (eng_jobs e)" and "heldBy_ok (eng_jobs e) (eng_heldBy e)" and "rid \<noteq> []"
  shows "fst (robotHasActiveAssignmentLocked rid e) \<longleftrightarrow>
    (\<exists>jid j. getJob e jid = Some j \<and> job_AssignedRobot j = rid \<and> job_Status j = StatusAssigned)"
proof -
  have "fst (robotHasActiveAssignmentLocked rid e) \<longleftrightarrow>
      (\<exists>j \<in> set (jobsNaming rid (eng_jobs e)). job_Status j = StatusAssigned)"
    by (simp add: robotHasActiveAssignmentLocked_def case_prod_unfold Let_def list_ex_iff
        set_jobsHeldBy [OF assms])
  also have "\<dots> \<longleftrightarrow> (\<exists>j. (\<exists>jid. getJob e jid = Some j) \<and> job_AssignedRobot j = rid
      \<and> job_Status j = StatusAssigned)"
    using go_wf_vals_ex [OF assms(1)] by (auto simp: jobsNaming_def)
  finally show ?thesis by blast
qed

lemma robotHasActive_index:
  assumes "heldBy_ok (eng_jobs e) (eng_heldBy e)"
  shows "heldBy_ok (eng_jobs e) (eng_heldBy (snd (robotHasActiveAssignmentLocked rid e)))"
  using jobsHeldBy_index [OF assms]
  by (simp add: robotHasActiveAssignmentLocked_def case_prod_unfold Let_def)

text \<open>Recording an assignment, changing other fields and losing a robot keep the index correct.\<close>

lemma noteAssigned_ok:
  assumes "heldBy_ok jobs (eng_heldBy e)"
  shows "heldBy_ok (go_put (job_ID j) j jobs) (eng_heldBy (noteAssignedLocked j e))"
  using heldBy_okD [OF assms] heldBy_ok_distinct [OF assms]
  by (intro heldBy_okI) (auto simp: heldIds_noteAssigned split: if_splits)

lemma heldBy_ok_put:
  assumes "heldBy_ok jobs held"
    and "job_AssignedRobot j = [] \<or>
      (\<exists>j'. go_get jobs (job_ID j) = Some j' \<and> job_AssignedRobot j' = job_AssignedRobot j)"
  shows "heldBy_ok (go_put (job_ID j) j jobs) held"
  using heldBy_okD [OF assms(1)] heldBy_ok_distinct [OF assms(1)] assms(2)
  by (intro heldBy_okI) (auto split: if_splits)

lemma heldBy_ok_del: "heldBy_ok jobs held \<Longrightarrow> heldBy_ok (go_del k jobs) held"
  by (intro heldBy_okI) (auto split: if_splits dest: heldBy_okD heldBy_ok_distinct)

end
