(* ===== verification/Dependencies.thy ===== *)
theory Dependencies
  imports Engine "HOL-Library.While_Combinator"
begin

section \<open>Dependencies between jobs\<close>

text \<open>
  The dependency part of \<open>dispatcher.go\<close>: the checks of a submission, the status a job has
  because of its dependencies, the re-evaluation of the whole queue to a fixed point and the
  search for a cycle. The re-evaluation is a loop that may not end on a cyclic queue, so it is a
  partial function and its value is \<open>None\<close> when it does not return; on the acyclic queues the
  engine keeps, it returns, and what it returns does not depend on the order of the map.
\<close>

subsection \<open>The shape of a dependency list\<close>

fun depShapeLoop :: "string \<Rightarrow> string list \<Rightarrow> string list \<Rightarrow> engError option" where
  "depShapeLoop jobID seen [] = None"
| "depShapeLoop jobID seen (dep # deps) =
     (if isBlank dep then Some (ErrInvalidJob (EmptyDependency jobID))
      else if dep = jobID then Some (ErrInvalidJob (SelfDependency jobID))
      else if dep \<in> set seen then Some (ErrInvalidJob (RepeatedDependency jobID dep))
      else depShapeLoop jobID (dep # seen) deps)"

definition validateDependencyShape :: "string \<Rightarrow> string list \<Rightarrow> engError option" where
  "validateDependencyShape jobID deps = depShapeLoop jobID [] deps"

fun missingDep :: "(string, job) gomap \<Rightarrow> string list \<Rightarrow> string option" where
  "missingDep jobs [] = None"
| "missingDep jobs (dep # deps) =
     (case go_get jobs dep of None \<Rightarrow> Some dep | Some _ \<Rightarrow> missingDep jobs deps)"

subsection \<open>The status that follows from the dependencies\<close>

definition deadEnd :: "JobStatus \<Rightarrow> bool" where
  "deadEnd s \<longleftrightarrow> s = StatusFailed \<or> s = StatusUnreachable \<or> s = StatusCancelled"

fun computeStatusLoop :: "(string, job) gomap \<Rightarrow> bool \<Rightarrow> string list \<Rightarrow> JobStatus" where
  "computeStatusLoop jobs blocked [] = (if blocked then StatusBlocked else StatusPending)"
| "computeStatusLoop jobs blocked (dep # deps) =
     (case go_get jobs dep of
        None \<Rightarrow> computeStatusLoop jobs blocked deps
      | Some d \<Rightarrow>
          if deadEnd (job_Status d) then StatusUnreachable
          else computeStatusLoop jobs (blocked \<or> job_Status d \<noteq> StatusDone) deps)"

definition computeStatus :: "(string, job) gomap \<Rightarrow> job \<Rightarrow> JobStatus" where
  "computeStatus jobs j = computeStatusLoop jobs False (job_DependsOn j)"

subsection \<open>Re-evaluating the queue\<close>

text \<open>One pass over the map, then passes until one changes nothing.\<close>

fun refreshPass ::
  "string list \<Rightarrow> 's engine \<Rightarrow> bool \<Rightarrow> serror option \<Rightarrow> 's engine \<times> bool \<times> serror option" where
  "refreshPass [] e changed persistErr = (e, changed, persistErr)"
| "refreshPass (jid # jids) e changed persistErr =
     (case getJob e jid of
        None \<Rightarrow> refreshPass jids e changed persistErr
      | Some j \<Rightarrow>
          if \<not> waiting (job_Status j) then refreshPass jids e changed persistErr
          else
            let st = computeStatus (eng_jobs e) j in
            if st = job_Status j then refreshPass jids e changed persistErr
            else
              let j' = j\<lparr>job_Status := st\<rparr>;
                  (e', err) = persistJobLocked j' (setJob j' e)
              in refreshPass jids e' True (case err of None \<Rightarrow> persistErr | Some x \<Rightarrow> Some x))"

partial_function (option) refreshLoop ::
  "'s engine \<Rightarrow> serror option \<Rightarrow> ('s engine \<times> serror option) option" where
  "refreshLoop e persistErr =
     (case refreshPass (go_keys (eng_jobs e)) e False persistErr of
        (e', changed, persistErr') \<Rightarrow>
          if changed then refreshLoop e' persistErr' else Some (e', persistErr'))"

declare refreshLoop.simps [code]

definition refreshBlocked :: "'s engine \<Rightarrow> ('s engine \<times> serror option) option" where
  "refreshBlocked e = refreshLoop e None"

subsection \<open>The search for a cycle\<close>

text \<open>
  The stack of the search grows at its end in the code; here its top is the head of the list, so
  the dependencies of a job are pushed in reverse.
\<close>

function searchDeps :: "(string, job) gomap \<Rightarrow> string \<Rightarrow> string list \<Rightarrow> string list \<Rightarrow> bool" where
  "searchDeps jobs target seen stack =
     (case stack of
        [] \<Rightarrow> False
      | jid # rest \<Rightarrow>
          if jid = target then True
          else if jid \<in> set seen then searchDeps jobs target seen rest
          else (case go_get jobs jid of
                  None \<Rightarrow> searchDeps jobs target (jid # seen) rest
                | Some d \<Rightarrow> searchDeps jobs target (jid # seen) (rev (job_DependsOn d) @ rest)))"
  by pat_completeness auto
termination
proof (relation "measures [\<lambda>(jobs, target, seen, stack). card (set (go_keys jobs) - set seen),
                           \<lambda>(jobs, target, seen, stack). length stack]", goal_cases)
  case (4 jobs target seen stack jid rest d)
  have "jid \<in> set (go_keys jobs) - set seen"
    using 4 go_get_key [of jobs jid d] by simp
  then have "card (set (go_keys jobs) - insert jid (set seen)) < card (set (go_keys jobs) - set seen)"
    by (intro psubset_card_mono) auto
  then show ?case by simp
next
  case (3 jobs target seen stack jid rest)
  have "card (set (go_keys jobs) - insert jid (set seen)) \<le> card (set (go_keys jobs) - set seen)"
    by (intro card_mono) auto
  then show ?case using 3 by auto
qed auto

declare searchDeps.simps [simp del]

definition dependsTransitivelyLocked :: "string list \<Rightarrow> string \<Rightarrow> 's engine \<Rightarrow> bool" where
  "dependsTransitivelyLocked roots target e = searchDeps (eng_jobs e) target [] (rev roots)"

subsection \<open>Facts about shapes and statuses\<close>

lemma deadEnd_simps [simp]:
  "deadEnd StatusFailed" "deadEnd StatusUnreachable" "deadEnd StatusCancelled"
  "\<not> deadEnd StatusPending" "\<not> deadEnd StatusBlocked" "\<not> deadEnd StatusAssigned"
  "\<not> deadEnd StatusDone" "\<not> deadEnd StatusUnknown"
  by (simp_all add: deadEnd_def)

lemma depShapeLoop_None:
  "depShapeLoop jid seen deps = None \<longleftrightarrow>
     (\<forall>d \<in> set deps. \<not> isBlank d \<and> d \<noteq> jid \<and> d \<notin> set seen) \<and> distinct deps"
  by (induction jid seen deps rule: depShapeLoop.induct) auto

lemma validateDependencyShape_None:
  "validateDependencyShape jid deps = None \<longleftrightarrow>
     (\<forall>d \<in> set deps. \<not> isBlank d) \<and> jid \<notin> set deps \<and> distinct deps"
  by (auto simp: validateDependencyShape_def depShapeLoop_None)

lemma missingDep_None: "missingDep jobs deps = None \<longleftrightarrow> set deps \<subseteq> set (go_keys jobs)"
proof (induction deps)
  case (Cons d deps)
  show ?case
  proof (cases "go_get jobs d")
    case None
    then have "d \<notin> set (go_keys jobs)" by (simp only: go_get_None not_False_eq_True)
    with None show ?thesis by simp
  next
    case (Some x)
    then have "d \<in> set (go_keys jobs)" by (rule go_get_key)
    with Some Cons show ?thesis by simp
  qed
qed simp

lemma missingDep_Some: "missingDep jobs deps = Some d \<Longrightarrow> d \<in> set deps \<and> go_get jobs d = None"
  by (induction deps) (auto split: option.splits)

text \<open>What \<open>computeStatus\<close> decides, without the loop: \<open>depIs P jobs d\<close> says that \<open>d\<close> is a job whose
  status satisfies \<open>P\<close>.\<close>

definition depIs :: "(JobStatus \<Rightarrow> bool) \<Rightarrow> (string, job) gomap \<Rightarrow> string \<Rightarrow> bool" where
  "depIs P jobs d = (case go_get jobs d of None \<Rightarrow> False | Some dj \<Rightarrow> P (job_Status dj))"

lemma depIs_iff: "depIs P jobs d \<longleftrightarrow> (\<exists>dj. go_get jobs d = Some dj \<and> P (job_Status dj))"
  by (simp add: depIs_def split: option.splits)

abbreviation notDone :: "JobStatus \<Rightarrow> bool" where
  "notDone \<equiv> \<lambda>s. s \<noteq> StatusDone"

lemma deadEnd_notDone: "depIs deadEnd jobs d \<Longrightarrow> depIs notDone jobs d"
  by (auto simp: depIs_iff)

lemma computeStatusLoop_eq:
  "computeStatusLoop jobs b deps =
     (if \<exists>d \<in> set deps. depIs deadEnd jobs d then StatusUnreachable
      else if b \<or> (\<exists>d \<in> set deps. depIs notDone jobs d) then StatusBlocked else StatusPending)"
proof (induction jobs b deps rule: computeStatusLoop.induct)
  case (2 jobs blocked dep deps)
  then show ?case by (cases "go_get jobs dep") (simp_all add: depIs_def)
qed simp

lemma computeStatus_eq:
  "computeStatus jobs j =
     (if \<exists>d \<in> set (job_DependsOn j). depIs deadEnd jobs d then StatusUnreachable
      else if \<exists>d \<in> set (job_DependsOn j). depIs notDone jobs d then StatusBlocked
      else StatusPending)"
  by (simp add: computeStatus_def computeStatusLoop_eq)

lemma computeStatus_waiting [simp]: "waiting (computeStatus jobs j)"
  by (simp add: computeStatus_eq)

lemma computeStatus_Pending:
  "computeStatus jobs j = StatusPending \<longleftrightarrow> (\<forall>d \<in> set (job_DependsOn j). \<not> depIs notDone jobs d)"
  using deadEnd_notDone by (auto simp: computeStatus_eq)

lemma computeStatus_Unreachable:
  "computeStatus jobs j = StatusUnreachable \<longleftrightarrow> (\<exists>d \<in> set (job_DependsOn j). depIs deadEnd jobs d)"
  by (simp add: computeStatus_eq)

text \<open>Only the statuses of the dependencies count.\<close>

definition sameStatus :: "(string, job) gomap \<Rightarrow> (string, job) gomap \<Rightarrow> string \<Rightarrow> bool" where
  "sameStatus js js' d \<longleftrightarrow> map_option job_Status (go_get js d) = map_option job_Status (go_get js' d)"

lemma sameStatus_depIs: "sameStatus js js' d \<Longrightarrow> depIs P js d = depIs P js' d"
  by (cases "go_get js d"; cases "go_get js' d") (auto simp: sameStatus_def depIs_def)

lemma computeStatus_cong:
  assumes "job_DependsOn j = job_DependsOn j'"
    and "\<And>d. d \<in> set (job_DependsOn j) \<Longrightarrow> sameStatus js js' d"
  shows "computeStatus js j = computeStatus js' j'"
  using assms sameStatus_depIs [of js js'] by (simp add: computeStatus_eq cong: bex_cong)

end
