(* ===== verification/Refresh.thy ===== *)
theory Refresh
  imports Dependencies
begin

section \<open>The re-evaluation of the queue ends, and where it ends is unique\<close>

text \<open>
  A queue is \<open>stable\<close> when every waiting job has the status its dependencies give it. Whatever
  the queue, a \<open>refreshBlocked\<close> that returns has made it stable and changed nothing but the
  statuses of waiting jobs; on an acyclic queue it always returns, and the stable queue is unique,
  so neither the order of the map nor the number of passes matters.
\<close>

definition depRel :: "(string, job) gomap \<Rightarrow> (string \<times> string) set" where
  "depRel jobs = {(d, jid). \<exists>j. go_get jobs jid = Some j \<and> d \<in> set (job_DependsOn j)}"

definition stableAt :: "(string, job) gomap \<Rightarrow> string \<Rightarrow> bool" where
  "stableAt jobs jid \<longleftrightarrow>
     (case go_get jobs jid of None \<Rightarrow> True
      | Some j \<Rightarrow> waiting (job_Status j) \<longrightarrow> job_Status j = computeStatus jobs j)"

definition stable :: "(string, job) gomap \<Rightarrow> bool" where
  "stable jobs \<longleftrightarrow> (\<forall>jid. stableAt jobs jid)"

text \<open>Two queues that differ in the statuses of waiting jobs only.\<close>

definition statusOnly :: "job \<Rightarrow> job \<Rightarrow> bool" where
  "statusOnly j j' \<longleftrightarrow> j' = j\<lparr>job_Status := job_Status j'\<rparr> \<and>
     (if waiting (job_Status j) then waiting (job_Status j') else job_Status j' = job_Status j)"

definition sameButWaiting :: "(string, job) gomap \<Rightarrow> (string, job) gomap \<Rightarrow> bool" where
  "sameButWaiting js js' \<longleftrightarrow> go_keys js' = go_keys js \<and>
     (\<forall>jid. rel_option statusOnly (go_get js jid) (go_get js' jid))"

lemma statusOnly_refl [simp]: "statusOnly j j"
  by (simp add: statusOnly_def)

lemma statusOnly_trans:
  assumes "statusOnly a b" and "statusOnly b c"
  shows "statusOnly a c"
  using assms by (cases a; cases b; cases c) (auto simp: statusOnly_def split: if_splits)

lemma statusOnly_status: "waiting (job_Status j) \<Longrightarrow> waiting s \<Longrightarrow> statusOnly j (j\<lparr>job_Status := s\<rparr>)"
  by (simp add: statusOnly_def)

lemma statusOnly_fields:
  assumes "statusOnly j j'"
  shows "job_ID j' = job_ID j" "job_DependsOn j' = job_DependsOn j"
    "job_AssignedRobot j' = job_AssignedRobot j" "job_seq j' = job_seq j"
    "job_DedupKey j' = job_DedupKey j" "job_Attempt j' = job_Attempt j"
    "waiting (job_Status j') = waiting (job_Status j)"
    "\<not> waiting (job_Status j) \<Longrightarrow> j' = j"
proof -
  have e: "j' = j\<lparr>job_Status := job_Status j'\<rparr>"
    and w: "if waiting (job_Status j) then waiting (job_Status j') else job_Status j' = job_Status j"
    using assms by (simp_all add: statusOnly_def)
  show "job_ID j' = job_ID j" "job_DependsOn j' = job_DependsOn j"
    "job_AssignedRobot j' = job_AssignedRobot j" "job_seq j' = job_seq j"
    "job_DedupKey j' = job_DedupKey j" "job_Attempt j' = job_Attempt j"
    by (subst e, simp)+
  show "waiting (job_Status j') = waiting (job_Status j)" using w by (auto split: if_splits)
  show "\<not> waiting (job_Status j) \<Longrightarrow> j' = j" using e w by simp
qed

lemma sameButWaiting_refl [simp]: "sameButWaiting js js"
  by (simp add: sameButWaiting_def option.rel_refl)

lemma sameButWaiting_Some:
  "sameButWaiting js js' \<Longrightarrow> go_get js jid = Some j \<Longrightarrow>
     \<exists>j'. go_get js' jid = Some j' \<and> statusOnly j j'"
  unfolding sameButWaiting_def by (metis option_rel_Some1)

lemma sameButWaiting_back:
  "sameButWaiting js js' \<Longrightarrow> go_get js' jid = Some j' \<Longrightarrow>
     \<exists>j. go_get js jid = Some j \<and> statusOnly j j'"
  unfolding sameButWaiting_def by (metis option_rel_Some2)

lemma sameButWaiting_None:
  "sameButWaiting js js' \<Longrightarrow> go_get js jid = None \<longleftrightarrow> go_get js' jid = None"
  unfolding sameButWaiting_def by (metis rel_option_None1 rel_option_None2)

lemma sameButWaiting_trans:
  assumes "sameButWaiting a b" and "sameButWaiting b c"
  shows "sameButWaiting a c"
proof -
  have "rel_option statusOnly (go_get a jid) (go_get c jid)" for jid
  proof -
    have "rel_option statusOnly (go_get a jid) (go_get b jid)" "rel_option statusOnly (go_get b jid) (go_get c jid)"
      using assms unfolding sameButWaiting_def by blast+
    then show ?thesis using statusOnly_trans
      by (cases "go_get a jid"; cases "go_get b jid"; cases "go_get c jid") auto
  qed
  then show ?thesis using assms by (simp add: sameButWaiting_def)
qed

lemma sameButWaiting_field:
  assumes "sameButWaiting js js'" and "\<And>j j'. statusOnly j j' \<Longrightarrow> f j' = f j"
  shows "map_option f (go_get js' jid) = map_option f (go_get js jid)"
proof -
  have "rel_option statusOnly (go_get js jid) (go_get js' jid)"
    using assms(1) by (simp add: sameButWaiting_def)
  then show ?thesis by cases (simp_all add: assms(2))
qed

lemma depRel_alt:
  "depRel jobs = {(d, jid). \<exists>ds. map_option job_DependsOn (go_get jobs jid) = Some ds \<and> d \<in> set ds}"
  by (auto simp: depRel_def)

lemma sameButWaiting_depRel: "sameButWaiting js js' \<Longrightarrow> depRel js' = depRel js"
  by (simp only: depRel_alt sameButWaiting_field [of js js' job_DependsOn] statusOnly_fields)

lemma sameButWaiting_wf:
  assumes "sameButWaiting js js'" and "go_wf job_ID js"
  shows "go_wf job_ID js'"
proof -
  have d: "distinct (go_keys js')" using assms by (simp add: sameButWaiting_def go_wf_def)
  have "job_ID v = k" if "(k, v) \<in> set js'" for k v
  proof -
    have "go_get js' k = Some v" using that d by (simp only: map_of_eq_Some_iff)
    then show ?thesis
      using sameButWaiting_back [OF assms(1)] go_wf_key [OF assms(2)] statusOnly_fields(1) by metis
  qed
  with d show ?thesis by (auto simp: go_wf_def)
qed

subsection \<open>One re-evaluation\<close>

definition reeval :: "string \<Rightarrow> (string, job) gomap \<Rightarrow> (string, job) gomap" where
  "reeval jid jobs =
     (case go_get jobs jid of None \<Rightarrow> jobs
      | Some j \<Rightarrow>
          if waiting (job_Status j) \<and> computeStatus jobs j \<noteq> job_Status j
          then go_put jid (j\<lparr>job_Status := computeStatus jobs j\<rparr>) jobs else jobs)"

lemma reeval_stable: "stableAt jobs jid \<Longrightarrow> reeval jid jobs = jobs"
  by (auto simp: reeval_def stableAt_def split: option.splits)

lemma reeval_other: "x \<noteq> jid \<Longrightarrow> go_get (reeval jid jobs) x = go_get jobs x"
  by (simp add: reeval_def split: option.splits)

lemma sameButWaiting_put:
  assumes "go_get js jid = Some j" and "statusOnly j j'"
  shows "sameButWaiting js (go_put jid j' js)"
  using assms go_keys_put [OF assms(1), of j']
  by (simp add: sameButWaiting_def option.rel_refl)

lemma reeval_same: "sameButWaiting jobs (reeval jid jobs)"
  by (auto simp: reeval_def sameButWaiting_put statusOnly_status split: option.splits)

lemma foldl_reeval_same: "sameButWaiting jobs (fold reeval jids jobs)"
  by (induction jids arbitrary: jobs) (auto intro: sameButWaiting_trans reeval_same)

text \<open>
  A rank that decreases along dependencies: the jobs below rank \<open>k\<close> are settled after \<open>k\<close> passes.
\<close>

definition ranked :: "(string \<Rightarrow> nat) \<Rightarrow> (string, job) gomap \<Rightarrow> bool" where
  "ranked rk jobs \<longleftrightarrow> (\<forall>(d, jid) \<in> depRel jobs. rk d < rk jid)"

definition settled :: "(string \<Rightarrow> nat) \<Rightarrow> nat \<Rightarrow> (string, job) gomap \<Rightarrow> bool" where
  "settled rk k jobs \<longleftrightarrow> (\<forall>x. rk x < k \<longrightarrow> stableAt jobs x)"

lemma ranked_dep:
  "ranked rk jobs \<Longrightarrow> go_get jobs jid = Some j \<Longrightarrow> d \<in> set (job_DependsOn j) \<Longrightarrow> rk d < rk jid"
  by (auto simp: ranked_def depRel_def)

lemma ranked_same: "sameButWaiting js js' \<Longrightarrow> ranked rk js' = ranked rk js"
  by (simp add: ranked_def sameButWaiting_depRel)

lemma reeval_keeps:
  assumes rk: "ranked rk jobs" and low: "settled rk k jobs" and x: "rk x \<le> k" "stableAt jobs x"
  shows "stableAt (reeval jid jobs) x"
proof (cases "stableAt jobs jid")
  case True
  then show ?thesis using x by (simp add: reeval_stable)
next
  case False
  then have ne: "x \<noteq> jid" and high: "k \<le> rk jid"
    using x low unfolding settled_def by (blast, metis not_le)
  have "go_get (reeval jid jobs) x = go_get jobs x" using ne by (rule reeval_other)
  moreover have "computeStatus (reeval jid jobs) j = computeStatus jobs j"
    if "go_get jobs x = Some j" for j
  proof (rule computeStatus_cong)
    fix d assume "d \<in> set (job_DependsOn j)"
    then have "d \<noteq> jid" using ranked_dep [OF rk that] x(1) high by fastforce
    then show "sameStatus (reeval jid jobs) jobs d" by (simp add: sameStatus_def reeval_other)
  qed simp
  ultimately show ?thesis using x(2) by (simp add: stableAt_def split: option.splits)
qed

lemma reeval_settles:
  assumes "ranked rk jobs"
  shows "stableAt (reeval jid jobs) jid"
proof (cases "go_get jobs jid")
  case None
  then show ?thesis by (simp add: reeval_def stableAt_def)
next
  case (Some j)
  have "computeStatus (go_put jid (j\<lparr>job_Status := s\<rparr>) jobs) (j\<lparr>job_Status := s\<rparr>) = computeStatus jobs j"
    for s
  proof (rule computeStatus_cong)
    fix d assume "d \<in> set (job_DependsOn (j\<lparr>job_Status := s\<rparr>))"
    then have "d \<noteq> jid" using ranked_dep [OF assms Some] by fastforce
    then show "sameStatus (go_put jid (j\<lparr>job_Status := s\<rparr>) jobs) jobs d"
      by (simp add: sameStatus_def)
  qed simp
  then show ?thesis using Some by (simp add: reeval_def stableAt_def)
qed

lemma fold_reeval_settles:
  assumes "ranked rk jobs" and "settled rk k jobs"
    and "\<forall>x. rk x = k \<longrightarrow> x \<in> set jids \<or> stableAt jobs x"
  shows "settled rk (Suc k) (fold reeval jids jobs)"
  using assms
proof (induction jids arbitrary: jobs)
  case Nil
  then show ?case by (auto simp: settled_def less_Suc_eq)
next
  case (Cons jid jids)
  have r: "ranked rk (reeval jid jobs)"
    using Cons.prems(1) reeval_same ranked_same by blast
  have s: "settled rk k (reeval jid jobs)"
    using reeval_keeps [OF Cons.prems(1,2)] Cons.prems(2) by (simp add: settled_def)
  have "x \<in> set jids \<or> stableAt (reeval jid jobs) x" if "rk x = k" for x
    using reeval_keeps [OF Cons.prems(1,2), of x jid] reeval_settles [OF Cons.prems(1), of jid]
      Cons.prems(3) that by auto
  then show ?case using Cons.IH [OF r s] by simp
qed

subsection \<open>One pass of the engine\<close>

text \<open>
  \<open>onlyJobs e e'\<close>: nothing but the queue and what the store has been told differs. The open batch
  and the presence of a store are the same.
\<close>

definition onlyJobs :: "'s engine \<Rightarrow> 's engine \<Rightarrow> bool" where
  "onlyJobs e e' \<longleftrightarrow>
     e' = e\<lparr>eng_jobs := eng_jobs e', eng_store := eng_store e', eng_pending := eng_pending e'\<rparr>
   \<and> (eng_pending e' = None \<longleftrightarrow> eng_pending e = None)
   \<and> (eng_store e' = None \<longleftrightarrow> eng_store e = None)"

lemma onlyJobs_refl [simp]: "onlyJobs e e"
  by (simp add: onlyJobs_def)

lemma onlyJobs_trans: "onlyJobs a b \<Longrightarrow> onlyJobs b c \<Longrightarrow> onlyJobs a c"
  by (cases a; cases b; cases c) (simp add: onlyJobs_def)

lemma onlyJobs_fields:
  assumes "onlyJobs e e'"
  shows
    "eng_robots e' = eng_robots e" "eng_nextSeq e' = eng_nextSeq e"
    "eng_dedupIndex e' = eng_dedupIndex e" "eng_heldBy e' = eng_heldBy e"
    "eng_lastPersistErr e' = eng_lastPersistErr e"
    "eng_robotFreshness e' = eng_robotFreshness e" "eng_tools e' = eng_tools e"
    "eng_eta e' = eng_eta e" "eng_location e' = eng_location e" "eng_replan e' = eng_replan e"
    "eng_archiveAfter e' = eng_archiveAfter e" "eng_stopReq e' = eng_stopReq e"
    "eng_productionOn e' = eng_productionOn e" "eng_events e' = eng_events e"
    "eng_toolCheck e' = eng_toolCheck e"
proof -
  have "e' = e\<lparr>eng_jobs := eng_jobs e', eng_store := eng_store e', eng_pending := eng_pending e'\<rparr>"
    using assms by (simp add: onlyJobs_def)
  then show
    "eng_robots e' = eng_robots e" "eng_nextSeq e' = eng_nextSeq e"
    "eng_dedupIndex e' = eng_dedupIndex e" "eng_heldBy e' = eng_heldBy e"
    "eng_lastPersistErr e' = eng_lastPersistErr e"
    "eng_robotFreshness e' = eng_robotFreshness e" "eng_tools e' = eng_tools e"
    "eng_eta e' = eng_eta e" "eng_location e' = eng_location e" "eng_replan e' = eng_replan e"
    "eng_archiveAfter e' = eng_archiveAfter e" "eng_stopReq e' = eng_stopReq e"
    "eng_productionOn e' = eng_productionOn e" "eng_events e' = eng_events e"
    "eng_toolCheck e' = eng_toolCheck e"
    by (cases e; cases e'; simp)+
qed

lemma onlyJobs_pending: "onlyJobs e e' \<Longrightarrow> eng_pending e' = None \<longleftrightarrow> eng_pending e = None"
  by (simp add: onlyJobs_def)

lemma onlyJobs_store: "onlyJobs e e' \<Longrightarrow> eng_store e' = None \<longleftrightarrow> eng_store e = None"
  by (simp add: onlyJobs_def)

lemma onlyJobs_setJob: "onlyJobs e (setJob j e)"
  by (cases e) (simp add: onlyJobs_def setJob_def)

lemma onlyJobs_persistJob: "onlyJobs e (fst (persistJobLocked j e))"
  by (cases e)
     (simp add: onlyJobs_def persistJobLocked_def case_prod_unfold Let_def split: option.splits)

lemma refreshPass_onlyJobs: "onlyJobs e (fst (refreshPass jids e ch pe))"
proof (induction jids e ch pe rule: refreshPass.induct)
  case (2 jid jids e changed persistErr)
  show ?case
  proof (cases "getJob e jid")
    case None
    then show ?thesis using 2(1) by simp
  next
    case (Some j)
    let ?j = "j\<lparr>job_Status := computeStatus (eng_jobs e) j\<rparr>"
    have step: "onlyJobs e (fst (persistJobLocked ?j (setJob ?j e)))"
      by (rule onlyJobs_trans [OF onlyJobs_setJob onlyJobs_persistJob])
    show ?thesis
      using Some 2(2,3) 2(4) [OF Some _ refl _ refl refl] step
      by (auto simp: case_prod_unfold Let_def intro: onlyJobs_trans)
  qed
qed simp

lemma refreshPass_jobs:
  "go_wf job_ID (eng_jobs e) \<Longrightarrow>
     eng_jobs (fst (refreshPass jids e ch pe)) = fold reeval jids (eng_jobs e)"
proof (induction jids arbitrary: e ch pe)
  case (Cons jid jids)
  show ?case
  proof (cases "getJob e jid")
    case None
    then show ?thesis using Cons by (simp add: reeval_def)
  next
    case (Some j)
    then have jid: "job_ID j = jid" using Cons.prems by (rule go_wf_key [rotated])
    let ?j = "j\<lparr>job_Status := computeStatus (eng_jobs e) j\<rparr>"
    have wf: "go_wf job_ID (go_put jid ?j (eng_jobs e))"
      using Cons.prems jid by (intro go_wf_put) simp_all
    then show ?thesis
      using Some jid Cons by (simp add: reeval_def case_prod_unfold Let_def setJob_def)
  qed
qed simp

lemma refreshPass_changed: "fst (snd (refreshPass jids e True pe))"
  by (induction jids arbitrary: e pe) (auto simp: case_prod_unfold Let_def split: option.splits)

lemma refreshPass_stable:
  "stableAt (eng_jobs e) jid \<Longrightarrow> refreshPass (jid # jids) e ch pe = refreshPass jids e ch pe"
  by (auto simp: stableAt_def split: option.splits)

lemma refreshPass_unstable:
  "\<not> stableAt (eng_jobs e) jid \<Longrightarrow>
     \<exists>e1 pe1. refreshPass (jid # jids) e ch pe = refreshPass jids e1 True pe1"
  by (auto simp: stableAt_def case_prod_unfold Let_def split: option.splits)

lemma refreshPass_unchanged:
  "refreshPass jids e False pe = (e', False, pe') \<Longrightarrow>
     e' = e \<and> pe' = pe \<and> (\<forall>jid \<in> set jids. stableAt (eng_jobs e) jid)"
proof (induction jids)
  case (Cons jid jids)
  have no: "refreshPass jids e1 True pe1 \<noteq> (e', False, pe')" for e1 pe1
    using refreshPass_changed [of jids e1 pe1] by auto
  have st: "stableAt (eng_jobs e) jid"
    using refreshPass_unstable [of e jid jids False pe] Cons.prems no by metis
  then have "refreshPass jids e False pe = (e', False, pe')"
    using Cons.prems by (simp only: refreshPass_stable)
  from Cons.IH [OF this] st show ?case by simp
qed simp

subsection \<open>The loop\<close>

text \<open>If it returns, the queue is stable: the last pass looked at every job and changed none.\<close>

lemma stable_keys:
  "(\<forall>jid \<in> set (go_keys jobs). stableAt jobs jid) \<Longrightarrow> stable jobs"
  unfolding stable_def
proof
  fix jid assume all: "\<forall>jid \<in> set (go_keys jobs). stableAt jobs jid"
  show "stableAt jobs jid"
  proof (cases "go_get jobs jid")
    case None
    then show ?thesis by (simp add: stableAt_def)
  next
    case (Some j)
    show ?thesis by (rule bspec [OF all go_get_key [OF Some]])
  qed
qed

lemma refreshLoop_result:
  assumes "refreshLoop e pe = Some r"
  shows "go_wf job_ID (eng_jobs e) \<longrightarrow>
    stable (eng_jobs (fst r)) \<and> sameButWaiting (eng_jobs e) (eng_jobs (fst r)) \<and> onlyJobs e (fst r)
    \<and> go_wf job_ID (eng_jobs (fst r))"
proof (rule refreshLoop.raw_induct [where P = "\<lambda>e pe r. go_wf job_ID (eng_jobs e) \<longrightarrow>
    stable (eng_jobs (fst r)) \<and> sameButWaiting (eng_jobs e) (eng_jobs (fst r)) \<and> onlyJobs e (fst r)
    \<and> go_wf job_ID (eng_jobs (fst r))", OF _ assms])
  fix loop :: "'a engine \<Rightarrow> serror option \<Rightarrow> ('a engine \<times> serror option) option"
    and e :: "'a engine" and pe :: "serror option" and r
  assume IH: "\<And>e pe r. loop e pe = Some r \<Longrightarrow> go_wf job_ID (eng_jobs e) \<longrightarrow>
      stable (eng_jobs (fst r)) \<and> sameButWaiting (eng_jobs e) (eng_jobs (fst r)) \<and> onlyJobs e (fst r)
      \<and> go_wf job_ID (eng_jobs (fst r))"
    and eq: "(case refreshPass (go_keys (eng_jobs e)) e False pe of
        (e', changed, pe') \<Rightarrow> if changed then loop e' pe' else Some (e', pe')) = Some r"
  obtain e1 ch pe1 where p: "refreshPass (go_keys (eng_jobs e)) e False pe = (e1, ch, pe1)"
    by (metis prod_cases3)
  show "go_wf job_ID (eng_jobs e) \<longrightarrow>
      stable (eng_jobs (fst r)) \<and> sameButWaiting (eng_jobs e) (eng_jobs (fst r)) \<and> onlyJobs e (fst r)
      \<and> go_wf job_ID (eng_jobs (fst r))"
  proof (rule impI, cases ch)
    case True
    assume wf: "go_wf job_ID (eng_jobs e)"
    have j1: "eng_jobs e1 = fold reeval (go_keys (eng_jobs e)) (eng_jobs e)"
      using refreshPass_jobs [OF wf, of "go_keys (eng_jobs e)" False pe] p by simp
    then have s1: "sameButWaiting (eng_jobs e) (eng_jobs e1)" by (simp add: foldl_reeval_same)
    have o1: "onlyJobs e e1" using refreshPass_onlyJobs [of e "go_keys (eng_jobs e)" False pe] p by simp
    have "loop e1 pe1 = Some r" using eq p True by simp
    from IH [OF this] sameButWaiting_wf [OF s1 wf] show
      "stable (eng_jobs (fst r)) \<and> sameButWaiting (eng_jobs e) (eng_jobs (fst r)) \<and> onlyJobs e (fst r)
      \<and> go_wf job_ID (eng_jobs (fst r))"
      using s1 o1 sameButWaiting_trans onlyJobs_trans by blast
  next
    case False
    assume wf: "go_wf job_ID (eng_jobs e)"
    have "r = (e1, pe1)" using eq p False by simp
    moreover have "e1 = e" "\<forall>jid \<in> set (go_keys (eng_jobs e)). stableAt (eng_jobs e) jid"
      using refreshPass_unchanged [of "go_keys (eng_jobs e)" e pe e1 pe1] p False by auto
    ultimately show
      "stable (eng_jobs (fst r)) \<and> sameButWaiting (eng_jobs e) (eng_jobs (fst r)) \<and> onlyJobs e (fst r)
      \<and> go_wf job_ID (eng_jobs (fst r))"
      using stable_keys wf by auto
  qed
qed

text \<open>On a ranked queue it returns: every pass settles one more rank.\<close>

lemma refreshLoop_returns:
  assumes "go_wf job_ID (eng_jobs e)" and "ranked rk (eng_jobs e)" and "settled rk k (eng_jobs e)"
    and "\<forall>x \<in> set (go_keys (eng_jobs e)). rk x < k + n"
  shows "\<exists>r. refreshLoop e pe = Some r"
  using assms
proof (induction n arbitrary: e k pe)
  case 0
  then have st: "\<forall>x \<in> set (go_keys (eng_jobs e)). stableAt (eng_jobs e) x"
    by (auto simp: settled_def)
  have "refreshPass jids e False pe = (e, False, pe)" if "set jids \<subseteq> set (go_keys (eng_jobs e))" for jids
    using that
  proof (induction jids)
    case (Cons jid jids)
    then have "stableAt (eng_jobs e) jid" using st by auto
    then have "refreshPass (jid # jids) e False pe = refreshPass jids e False pe"
      by (rule refreshPass_stable)
    then show ?case using Cons by (simp only: set_simps insert_subset)
  qed simp
  then show ?case by (subst refreshLoop.simps) simp
next
  case (Suc n)
  obtain e1 ch pe1 where p: "refreshPass (go_keys (eng_jobs e)) e False pe = (e1, ch, pe1)"
    by (metis prod_cases3)
  have j1: "eng_jobs e1 = fold reeval (go_keys (eng_jobs e)) (eng_jobs e)"
    using refreshPass_jobs [OF Suc.prems(1), of "go_keys (eng_jobs e)" False pe] p by simp
  have same: "sameButWaiting (eng_jobs e) (eng_jobs e1)" by (simp add: j1 foldl_reeval_same)
  have "x \<in> set (go_keys (eng_jobs e)) \<or> stableAt (eng_jobs e) x" for x
    by (auto simp: stableAt_def split: option.splits dest: go_get_key)
  then have "settled rk (Suc k) (eng_jobs e1)"
    unfolding j1 using fold_reeval_settles [OF Suc.prems(2,3)] by blast
  moreover have "go_keys (eng_jobs e1) = go_keys (eng_jobs e)"
    using same by (simp add: sameButWaiting_def)
  ultimately have "\<exists>r. refreshLoop e1 pe1 = Some r"
    using Suc.IH [of e1 "Suc k" pe1] Suc.prems same sameButWaiting_wf ranked_same by auto
  then show ?case by (subst refreshLoop.simps) (simp add: p)
qed

text \<open>An acyclic queue has a rank: how many jobs a job depends on, directly or not.\<close>

lemma finite_depRel: "finite (depRel jobs)"
proof -
  have "depRel jobs \<subseteq> (\<Union>(jid, j) \<in> set jobs. set (job_DependsOn j) \<times> {jid})"
    by (auto simp: depRel_def dest!: map_of_SomeD)
  then show ?thesis by (rule finite_subset) auto
qed

lemma acyclic_ranked:
  assumes "acyclic (depRel jobs)"
  shows "\<exists>rk. ranked rk jobs"
proof -
  let ?r = "depRel jobs"
  have fin: "finite {y. (y, x) \<in> ?r\<^sup>+}" for x
  proof (rule finite_subset)
    show "{y. (y, x) \<in> ?r\<^sup>+} \<subseteq> fst ` ?r\<^sup>+" by force
    show "finite (fst ` ?r\<^sup>+)" using finite_depRel [of jobs] by simp
  qed
  have "card {y. (y, d) \<in> ?r\<^sup>+} < card {y. (y, x) \<in> ?r\<^sup>+}" if "(d, x) \<in> ?r" for d x
  proof (rule psubset_card_mono [OF fin])
    have "d \<in> {y. (y, x) \<in> ?r\<^sup>+}" "d \<notin> {y. (y, d) \<in> ?r\<^sup>+}"
      using that assms by (auto simp: acyclic_def)
    moreover have "{y. (y, d) \<in> ?r\<^sup>+} \<subseteq> {y. (y, x) \<in> ?r\<^sup>+}"
      using that by (auto intro: trancl_into_trancl)
    ultimately show "{y. (y, d) \<in> ?r\<^sup>+} \<subset> {y. (y, x) \<in> ?r\<^sup>+}" by blast
  qed
  then show ?thesis
    by (intro exI [where x = "\<lambda>x. card {y. (y, x) \<in> ?r\<^sup>+}"]) (auto simp: ranked_def)
qed

lemma refreshBlocked_returns:
  assumes "go_wf job_ID (eng_jobs e)" and "acyclic (depRel (eng_jobs e))"
  shows "\<exists>e' err. refreshBlocked e = Some (e', err)"
proof -
  obtain rk where rk: "ranked rk (eng_jobs e)" using acyclic_ranked [OF assms(2)] by blast
  have "\<forall>x \<in> set (go_keys (eng_jobs e)). rk x < 0 + Suc (Max (rk ` set (go_keys (eng_jobs e))))"
    by (auto simp: less_Suc_eq_le)
  then show ?thesis
    using refreshLoop_returns [OF assms(1) rk, of 0 _ None]
    by (auto simp: refreshBlocked_def settled_def)
qed

lemma refreshBlocked_result:
  assumes "refreshBlocked e = Some (e', err)" and "go_wf job_ID (eng_jobs e)"
  shows "stable (eng_jobs e')" "sameButWaiting (eng_jobs e) (eng_jobs e')" "onlyJobs e e'"
    "go_wf job_ID (eng_jobs e')"
  using refreshLoop_result [of e None "(e', err)"] assms by (simp_all add: refreshBlocked_def)

subsection \<open>The stable queue is unique\<close>

lemma stable_unique:
  assumes "acyclic (depRel js)" and "sameButWaiting js a" and "sameButWaiting js b"
    and "stable a" and "stable b"
  shows "go_get a x = go_get b x"
proof -
  have wf: "wf (depRel js)" using assms(1) finite_depRel finite_acyclic_wf by blast
  show ?thesis
  proof (induction x rule: wf_induct_rule [OF wf])
    case (1 x)
    show ?case
    proof (cases "go_get js x")
      case None
      then show ?thesis using assms(2,3) sameButWaiting_None by metis
    next
      case (Some j)
      obtain ja jb where ja: "go_get a x = Some ja" "statusOnly j ja"
        and jb: "go_get b x = Some jb" "statusOnly j jb"
        using sameButWaiting_Some [OF assms(2) Some] sameButWaiting_Some [OF assms(3) Some] by blast
      have "computeStatus a ja = computeStatus b jb"
      proof (rule computeStatus_cong)
        show "job_DependsOn ja = job_DependsOn jb" using ja jb by (simp add: statusOnly_fields)
        fix d assume "d \<in> set (job_DependsOn ja)"
        then have "(d, x) \<in> depRel js" using Some ja by (auto simp: depRel_def statusOnly_fields)
        then show "sameStatus a b d" using 1 by (simp add: sameStatus_def)
      qed
      moreover have "waiting (job_Status j) \<Longrightarrow> job_Status ja = computeStatus a ja"
        "waiting (job_Status j) \<Longrightarrow> job_Status jb = computeStatus b jb"
        using assms(4,5) ja jb by (auto simp: stable_def stableAt_def statusOnly_fields
            dest: spec [where x = x])
      ultimately have "job_Status ja = job_Status jb"
        using ja(2) jb(2) by (cases "waiting (job_Status j)") (auto simp: statusOnly_def)
      then show ?thesis using ja jb by (metis statusOnly_def)
    qed
  qed
qed

text \<open>
  In a stable acyclic queue an unreachable job is one that is cut off: some job it depends on,
  through waiting jobs only, failed or was cancelled.
\<close>

inductive cutOff :: "(string, job) gomap \<Rightarrow> string \<Rightarrow> bool" for jobs where
  ended: "go_get jobs jid = Some j \<Longrightarrow> waiting (job_Status j) \<Longrightarrow> d \<in> set (job_DependsOn j) \<Longrightarrow>
    go_get jobs d = Some dj \<Longrightarrow> job_Status dj = StatusFailed \<or> job_Status dj = StatusCancelled \<Longrightarrow>
    cutOff jobs jid"
| through: "go_get jobs jid = Some j \<Longrightarrow> waiting (job_Status j) \<Longrightarrow> d \<in> set (job_DependsOn j) \<Longrightarrow>
    cutOff jobs d \<Longrightarrow> cutOff jobs jid"

lemma cutOff_waiting: "cutOff jobs jid \<Longrightarrow> \<exists>j. go_get jobs jid = Some j \<and> waiting (job_Status j)"
  by (induction rule: cutOff.induct) blast+

lemma cutOff_unreachable:
  assumes "stable jobs" and "cutOff jobs jid" and "go_get jobs jid = Some j"
  shows "job_Status j = StatusUnreachable"
  using assms(2,3)
proof (induction arbitrary: j rule: cutOff.induct)
  case (ended jid j' d dj)
  then have "depIs deadEnd jobs d" by (auto simp: depIs_iff)
  then show ?case using assms(1) ended
    by (auto simp: stable_def stableAt_def computeStatus_eq dest!: spec [where x = jid])
next
  case (through jid j' d)
  obtain dj where "go_get jobs d = Some dj" using cutOff_waiting [OF through.hyps(4)] by blast
  then have "depIs deadEnd jobs d" using through.IH by (auto simp: depIs_iff)
  then show ?case using assms(1) through
    by (auto simp: stable_def stableAt_def computeStatus_eq dest!: spec [where x = jid])
qed

lemma unreachable_cutOff:
  assumes "stable jobs" and "acyclic (depRel jobs)" and "go_get jobs jid = Some j"
    and "job_Status j = StatusUnreachable"
  shows "cutOff jobs jid"
proof -
  have wf: "wf (depRel jobs)" using assms(2) finite_depRel finite_acyclic_wf by blast
  show ?thesis using assms(3,4)
  proof (induction jid arbitrary: j rule: wf_induct_rule [OF wf])
    case (1 x)
    have "computeStatus jobs j = StatusUnreachable"
      using assms(1) 1(2,3) by (auto simp: stable_def stableAt_def dest!: spec [where x = x])
    then obtain d dj where d: "d \<in> set (job_DependsOn j)" "go_get jobs d = Some dj"
        "deadEnd (job_Status dj)"
      by (auto simp: computeStatus_Unreachable depIs_iff)
    have w: "waiting (job_Status j)" using 1(3) by simp
    show ?case
    proof (cases "job_Status dj = StatusUnreachable")
      case True
      have "(d, x) \<in> depRel jobs" using d(1) 1(2) by (auto simp: depRel_def)
      then have "cutOff jobs d" using 1(1) d(2) True by blast
      then show ?thesis using cutOff.through 1(2) w d(1) by blast
    next
      case False
      then show ?thesis using cutOff.ended [OF 1(2) w d(1,2)] d(3) by (auto simp: deadEnd_def)
    qed
  qed
qed

lemma unreachable_iff_cutOff:
  assumes "stable jobs" and "acyclic (depRel jobs)" and "go_get jobs jid = Some j"
  shows "job_Status j = StatusUnreachable \<longleftrightarrow> cutOff jobs jid"
  using assms unreachable_cutOff cutOff_unreachable by blast

end
