(* ===== verification/Selection.thy ===== *)
theory Selection
  imports Refresh
begin

section \<open>Choosing a robot for a job\<close>

text \<open>
  The table of location costs (\<open>location.go\<close>), the confirmation of the tool a robot carries
  (\<open>toolconfirm.go\<close>), and \<open>robotEligibleLocked\<close>, \<open>bestRobotFor\<close> (\<open>dispatcher.go\<close>) and
  \<open>waitReasonLocked\<close> (\<open>waiting.go\<close>). The choice is shown to be the best eligible robot whatever
  the order in which the map of robots is visited.
\<close>

subsection \<open>Location costs\<close>

text \<open>Comparison of \<open>float64\<close> values: every comparison with not-a-number is false.\<close>

fun float_less :: "float64 \<Rightarrow> float64 \<Rightarrow> bool" where
  "float_less NaN y = False"
| "float_less x NaN = False"
| "float_less (Fin x) (Fin y) = (x < y)"
| "float_less x PosInf = (x \<noteq> PosInf)"
| "float_less NegInf y = (y \<noteq> NegInf)"
| "float_less x y = False"

definition float_eq :: "float64 \<Rightarrow> float64 \<Rightarrow> bool" where
  "float_eq x y \<longleftrightarrow> x = y \<and> x \<noteq> NaN"

definition badCost :: "float64 \<Rightarrow> bool" where
  "badCost v \<longleftrightarrow> v = NaN \<or> v = PosInf \<or> v = NegInf \<or> float_less v (Fin 0)"

definition costRow :: "LocationConfig \<Rightarrow> string \<Rightarrow> (string, float64) gomap" where
  "costRow c from = (case go_get (loc_Costs c) from of None \<Rightarrow> [] | Some row \<Rightarrow> row)"

text \<open>\<open>Validate\<close> answers the first bad entry of the table in the order of the names.\<close>

definition LocationValidate :: "LocationConfig \<Rightarrow> (string \<times> string \<times> float64) option" where
  "LocationValidate c =
     find (\<lambda>(from, to, v). badCost v)
       (concat (map (\<lambda>from. List.map_filter (\<lambda>to. map_option (\<lambda>v. (from, to, v)) (go_get (costRow c from) to))
                       (sort (go_keys (costRow c from))))
          (sort (go_keys (loc_Costs c)))))"

definition cost :: "LocationConfig \<Rightarrow> string \<Rightarrow> string \<Rightarrow> float64 option" where
  "cost c a b =
     (if a = b then Some (Fin 0)
      else case go_get (costRow c a) b of
        Some v \<Rightarrow> Some v
      | None \<Rightarrow> go_get (costRow c b) a)"

definition SetLocationCosts :: "LocationConfig \<Rightarrow> 's engine \<Rightarrow> 's engine \<times> (string \<times> string \<times> float64) option" where
  "SetLocationCosts c e =
     (case LocationValidate c of
        Some bad \<Rightarrow> (e, Some bad)
      | None \<Rightarrow> (e\<lparr>eng_location := c\<rparr>, None))"

definition lessLoaded :: "robot \<Rightarrow> robot \<Rightarrow> bool" where
  "lessLoaded r than \<longleftrightarrow>
     rob_Load r < rob_Load than \<or> (rob_Load r = rob_Load than \<and> rob_ID r < rob_ID than)"

text \<open>\<open>preferLocked\<close> for two robots, and with a nil pointer for "none yet".\<close>

definition closer :: "LocationConfig \<Rightarrow> job \<Rightarrow> robot \<Rightarrow> robot \<Rightarrow> bool" where
  "closer c j r than =
     (if loc_Enabled c \<and> job_Location j \<noteq> [] then
        (let cr = cost c (job_Location j) (rob_Location r);
             ct = cost c (job_Location j) (rob_Location than)
         in case (cr, ct) of
              (Some x, None) \<Rightarrow> True
            | (None, Some y) \<Rightarrow> False
            | (None, None) \<Rightarrow> lessLoaded r than
            | (Some x, Some y) \<Rightarrow> if \<not> float_eq x y then float_less x y else lessLoaded r than)
      else lessLoaded r than)"

definition preferLocked :: "'s engine \<Rightarrow> job \<Rightarrow> robot \<Rightarrow> robot option \<Rightarrow> bool" where
  "preferLocked e j r than =
     (case than of None \<Rightarrow> True | Some t \<Rightarrow> closer (eng_location e) j r t)"

subsection \<open>The confirmation of a tool\<close>

datatype confirmError = NoFetcher | BadPolicy | BadTTL

definition ToolConfirmValidate :: "ToolConfirmConfig \<Rightarrow> confirmError option" where
  "ToolConfirmValidate c =
     (if \<not> tc_Enabled c then None
      else if tc_OnUnconfirmed c \<noteq> UnconfirmedSkip \<and> tc_OnUnconfirmed c \<noteq> UnconfirmedAllow
      then Some BadPolicy
      else if tc_TTL c \<le> 0 \<or> 24 * hour < tc_TTL c then Some BadTTL else None)"

text \<open>The function that asks the controller is not stored: it is an argument of \<open>ConfirmTools\<close>.\<close>

definition SetToolConfirmation ::
  "ToolConfirmConfig \<Rightarrow> bool \<Rightarrow> 's engine \<Rightarrow> 's engine \<times> confirmError option" where
  "SetToolConfirmation cfg hasFetch e =
     (if tc_Enabled cfg \<and> \<not> hasFetch then (e, Some NoFetcher)
      else case ToolConfirmValidate cfg of
        Some err \<Rightarrow> (e, Some err)
      | None \<Rightarrow>
          if \<not> tc_Enabled cfg then (e\<lparr>eng_toolCheck := noToolConfirmation\<rparr>, None)
          else (e\<lparr>eng_toolCheck := \<lparr>tcf_cfg = cfg, tcf_seen = tcf_seen (eng_toolCheck e)\<rparr>\<rparr>, None))"

definition ToolConfirmationEnabled :: "'s engine \<Rightarrow> bool" where
  "ToolConfirmationEnabled e = tc_Enabled (tcf_cfg (eng_toolCheck e))"

text \<open>
  \<open>ConfirmTools\<close> lets go of the lock while it asks: the first half picks the robots to ask, the
  second records the answers in the engine as it is by then. \<open>fetch\<close> is the controller's answer
  for a robot (\<open>None\<close> when it fails).
\<close>

definition confirmTargets :: "'s engine \<Rightarrow> string list" where
  "confirmTargets e =
     (if \<not> ToolConfirmationEnabled e then []
      else map fst (filter (\<lambda>(rid, r). rob_Available r) (eng_robots e)))"

definition recordAnswer ::
  "(string \<Rightarrow> string option) \<Rightarrow> instant \<Rightarrow> string \<Rightarrow> (string, toolSeen) gomap \<Rightarrow> (string, toolSeen) gomap"
where
  "recordAnswer fetch now rid seen =
     (case fetch rid of
        Some tool \<Rightarrow> go_put rid \<lparr>seen_tool = tool, seen_at = now\<rparr> seen
      | None \<Rightarrow> go_del rid seen)"

definition confirmRecord ::
  "(string \<Rightarrow> string option) \<Rightarrow> string list \<Rightarrow> instant \<Rightarrow> 's engine \<Rightarrow> 's engine \<times> nat" where
  "confirmRecord fetch ids now e =
     (if \<not> ToolConfirmationEnabled e then (e, 0)
      else
        let known = filter (\<lambda>(rid, s). getRobot e rid \<noteq> None) (tcf_seen (eng_toolCheck e));
            seen = fold (recordAnswer fetch now) ids known
        in (e\<lparr>eng_toolCheck := (eng_toolCheck e)\<lparr>tcf_seen := seen\<rparr>\<rparr>,
            length (filter (\<lambda>rid. fetch rid \<noteq> None) ids)))"

definition ConfirmTools ::
  "(string \<Rightarrow> string option) \<Rightarrow> ('s engine \<Rightarrow> 's engine) \<Rightarrow> instant \<Rightarrow> 's engine \<Rightarrow> 's engine \<times> nat" where
  "ConfirmTools fetch meanwhile now e =
     (if \<not> ToolConfirmationEnabled e then (e, 0)
      else confirmRecord fetch (confirmTargets e) now (meanwhile e))"

definition toolConfirmedLocked :: "'s engine \<Rightarrow> robot \<Rightarrow> job \<Rightarrow> instant \<Rightarrow> bool" where
  "toolConfirmedLocked e r j now =
     (let tc = eng_toolCheck e in
      if \<not> tc_Enabled (tcf_cfg tc) \<or> job_RequiredTool j = [] then True
      else
        let allow = (tc_OnUnconfirmed (tcf_cfg tc) = UnconfirmedAllow) in
        case go_get (tcf_seen tc) (rob_ID r) of
          Some s \<Rightarrow>
            if time_sub now (seen_at s) \<le> tc_TTL (tcf_cfg tc) \<and> \<not> now < seen_at s
            then seen_tool s = job_RequiredTool j else allow
        | None \<Rightarrow> allow)"

subsection \<open>Eligibility and the best robot\<close>

definition maxHeartbeatFutureSkew :: duration where
  "maxHeartbeatFutureSkew = minute"

definition heartbeatFromFuture :: "instant \<Rightarrow> instant \<Rightarrow> bool" where
  "heartbeatFromFuture now heartbeat \<longleftrightarrow> maxHeartbeatFutureSkew < time_sub heartbeat now"

text \<open>\<open>heardRecently d now r\<close>: the freshness condition of \<open>robotEligibleLocked\<close>, negated.\<close>

definition heardRecently :: "duration \<Rightarrow> instant \<Rightarrow> robot \<Rightarrow> bool" where
  "heardRecently d now r =
     (case rob_LastHeartbeat r of
        None \<Rightarrow> False
      | Some hb \<Rightarrow> \<not> heartbeatFromFuture now hb \<and> \<not> d < time_sub now hb)"

definition robotEligibleLocked :: "'s engine \<Rightarrow> robot \<Rightarrow> job \<Rightarrow> instant \<Rightarrow> bool" where
  "robotEligibleLocked e r j now =
     (if \<not> rob_Available r then False
      else if job_RequiredTool j \<noteq> [] \<and> rob_Tool r \<noteq> job_RequiredTool j then False
      else if \<not> toolConfirmedLocked e r j now then False
      else if 0 < eng_robotFreshness e \<and> \<not> heardRecently (eng_robotFreshness e) now r then False
      else True)"

fun closestLoop :: "'s engine \<Rightarrow> job \<Rightarrow> instant \<Rightarrow> robot list \<Rightarrow> robot option \<Rightarrow> robot option" where
  "closestLoop e j now [] closest = closest"
| "closestLoop e j now (r # rs) closest =
     (if robotEligibleLocked e r j now \<and> preferLocked e j r closest
      then closestLoop e j now rs (Some r) else closestLoop e j now rs closest)"

definition betterThan :: "robot \<Rightarrow> robot option \<Rightarrow> bool" where
  "betterThan r than = (case than of None \<Rightarrow> True | Some t \<Rightarrow> lessLoaded r t)"

fun bestLoop ::
  "'s engine \<Rightarrow> job \<Rightarrow> instant \<Rightarrow> robot list \<Rightarrow> robot option \<Rightarrow> robot option \<Rightarrow> robot option \<times> robot option"
where
  "bestLoop e j now [] best inLoc = (best, inLoc)"
| "bestLoop e j now (r # rs) best inLoc =
     (if \<not> robotEligibleLocked e r j now then bestLoop e j now rs best inLoc
      else bestLoop e j now rs
        (if betterThan r best then Some r else best)
        (if job_Location j \<noteq> [] \<and> rob_Location r = job_Location j \<and> betterThan r inLoc
         then Some r else inLoc))"

definition bestRobotFor :: "'s engine \<Rightarrow> job \<Rightarrow> instant \<Rightarrow> robot option" where
  "bestRobotFor e j now =
     (if loc_Enabled (eng_location e) \<and> job_Location j \<noteq> []
      then closestLoop e j now (go_vals (eng_robots e)) None
      else
        let (best, inLoc) = bestLoop e j now (go_vals (eng_robots e)) None None
        in case inLoc of Some r \<Rightarrow> Some r | None \<Rightarrow> best)"

subsection \<open>Why a job waits\<close>

datatype waitReason =
    WaitNoRobots | WaitNoRobotWithTool | WaitRobotsBusy | WaitRobotsStale | WaitForItsTurn
  | WaitToolUnconfirmed

record WaitingJob =
  wj_JobID :: string
  wj_Priority :: int
  wj_RequiredTool :: string
  wj_Reason :: waitReason

fun waitLoop ::
  "'s engine \<Rightarrow> job \<Rightarrow> instant \<Rightarrow> robot list \<Rightarrow> nat \<Rightarrow> nat \<Rightarrow> nat \<Rightarrow> waitReason" where
  "waitLoop e j now [] withTool available unconfirmed =
     (if withTool = 0 then WaitNoRobotWithTool
      else if available = 0 then WaitRobotsBusy
      else if unconfirmed = available then WaitToolUnconfirmed
      else WaitRobotsStale)"
| "waitLoop e j now (r # rs) withTool available unconfirmed =
     (if job_RequiredTool j \<noteq> [] \<and> rob_Tool r \<noteq> job_RequiredTool j
      then waitLoop e j now rs withTool available unconfirmed
      else if robotEligibleLocked e r j now then WaitForItsTurn
      else waitLoop e j now rs (Suc withTool)
        (if rob_Available r then Suc available else available)
        (if rob_Available r \<and> \<not> toolConfirmedLocked e r j now then Suc unconfirmed else unconfirmed))"

definition waitReasonLocked :: "'s engine \<Rightarrow> job \<Rightarrow> instant \<Rightarrow> waitReason" where
  "waitReasonLocked e j now =
     (if eng_robots e = [] then WaitNoRobots
      else waitLoop e j now (go_vals (eng_robots e)) 0 0 0)"

text \<open>Dispatch order: the highest priority first, then the oldest submission.\<close>

definition dispatchKey :: "job \<Rightarrow> int \<times> int" where
  "dispatchKey j = (- job_Priority j, job_seq j)"

definition dispatchOrder :: "'s engine \<Rightarrow> job list" where
  "dispatchOrder e =
     sort_key dispatchKey (filter (\<lambda>j. job_Status j = StatusPending) (go_vals (eng_jobs e)))"

definition WaitingJobs :: "'s engine \<Rightarrow> instant \<Rightarrow> WaitingJob list" where
  "WaitingJobs e now =
     map (\<lambda>j. \<lparr>wj_JobID = job_ID j, wj_Priority = job_Priority j,
               wj_RequiredTool = job_RequiredTool j, wj_Reason = waitReasonLocked e j now\<rparr>)
       (dispatchOrder e)"

subsection \<open>The orders on robots\<close>

interpretation load: chooser lessLoaded rob_ID
  by unfold_locales (auto simp: lessLoaded_def)

text \<open>With the cost table on, the order is a choice too when no cost is not-a-number.\<close>

definition costsOrdered :: "LocationConfig \<Rightarrow> bool" where
  "costsOrdered c \<longleftrightarrow> (\<forall>a b. cost c a b \<noteq> Some NaN)"

lemma float_less_irrefl: "\<not> float_less x x"
  by (cases x) simp_all

lemma float_less_trans: "float_less x y \<Longrightarrow> float_less y z \<Longrightarrow> float_less x z"
  by (cases x; cases y; cases z) simp_all

lemma float_less_total: "x \<noteq> NaN \<Longrightarrow> y \<noteq> NaN \<Longrightarrow> x \<noteq> y \<Longrightarrow> float_less x y \<or> float_less y x"
  by (cases x; cases y) auto

text \<open>An unknown cost comes after every known one.\<close>

fun costLess :: "float64 option \<Rightarrow> float64 option \<Rightarrow> bool" where
  "costLess (Some x) None = True"
| "costLess (Some x) (Some y) = float_less x y"
| "costLess None y = False"

lemma costLess_irrefl: "\<not> costLess x x"
  by (cases x) (simp_all add: float_less_irrefl)

lemma costLess_trans: "costLess x y \<Longrightarrow> costLess y z \<Longrightarrow> costLess x z"
  by (cases x; cases y; cases z) (auto intro: float_less_trans)

lemma costLess_total: "x \<noteq> Some NaN \<Longrightarrow> y \<noteq> Some NaN \<Longrightarrow> x \<noteq> y \<Longrightarrow> costLess x y \<or> costLess y x"
  by (cases x; cases y) (auto dest: float_less_total)

lemma closer_eq:
  assumes "costsOrdered c"
  shows "closer c j r s \<longleftrightarrow>
    (if loc_Enabled c \<and> job_Location j \<noteq> []
     then costLess (cost c (job_Location j) (rob_Location r)) (cost c (job_Location j) (rob_Location s))
        \<or> cost c (job_Location j) (rob_Location r) = cost c (job_Location j) (rob_Location s)
          \<and> lessLoaded r s
     else lessLoaded r s)"
proof -
  have "cost c a b \<noteq> Some NaN" for a b using assms by (simp add: costsOrdered_def)
  from this [of "job_Location j" "rob_Location r"] this [of "job_Location j" "rob_Location s"]
  show ?thesis
    by (auto simp: closer_def float_eq_def Let_def float_less_irrefl split: option.splits)
qed

lemma chooser_closer:
  assumes "costsOrdered c"
  shows "chooser (closer c j) rob_ID"
proof unfold_locales
  note eq = closer_eq [OF assms]
  have nn: "cost c a b \<noteq> Some NaN" for a b using assms by (simp add: costsOrdered_def)
  show "\<not> closer c j x x" for x
    by (simp add: eq costLess_irrefl load.irrefl)
  show "closer c j x y \<Longrightarrow> closer c j y z \<Longrightarrow> closer c j x z" for x y z
    unfolding eq by (auto split: if_splits dest: load.trans costLess_trans)
  show "rob_ID x \<noteq> rob_ID y \<Longrightarrow> closer c j x y \<or> closer c j y x" for x y
    unfolding eq
    using costLess_total [OF nn nn, of "job_Location j" "rob_Location x" "job_Location j" "rob_Location y"]
      load.total [of x y]
    by (cases "cost c (job_Location j) (rob_Location x) = cost c (job_Location j) (rob_Location y)") auto
qed

text \<open>A table that \<open>Validate\<close> accepts holds finite costs that are not negative.\<close>

lemma LocationValidate_None:
  assumes "LocationValidate c = None" and "go_get (costRow c a) b = Some v"
  shows "\<not> badCost v"
proof -
  have b: "b \<in> set (go_keys (costRow c a))" using assms(2) by (rule go_get_key)
  have "costRow c a \<noteq> []" using assms(2) by auto
  then have a: "a \<in> set (go_keys (loc_Costs c))"
    by (auto simp: costRow_def split: option.splits dest: go_get_key)
  have "(a, b, v) \<in> set (concat (map (\<lambda>from. List.map_filter
      (\<lambda>to. map_option (\<lambda>v. (from, to, v)) (go_get (costRow c from) to))
      (sort (go_keys (costRow c from)))) (sort (go_keys (loc_Costs c)))))"
    using a b assms(2) by (force simp: mem_map_filter)
  then show ?thesis using assms(1) unfolding LocationValidate_def find_None_iff by blast
qed

lemma LocationValidate_ordered: "LocationValidate c = None \<Longrightarrow> costsOrdered c"
  using LocationValidate_None [of c]
  by (fastforce simp: costsOrdered_def cost_def badCost_def split: option.splits)

lemma costsOrdered_noLocation [simp]: "costsOrdered noLocation"
  by (simp add: costsOrdered_def cost_def costRow_def noLocation_def)

lemma SetLocationCosts_ordered:
  "costsOrdered (eng_location e) \<Longrightarrow> costsOrdered (eng_location (fst (SetLocationCosts c e)))"
  by (auto simp: SetLocationCosts_def dest: LocationValidate_ordered split: option.splits)

lemma cost_known_sign:
  assumes "LocationValidate c = None" and "cost c a b = Some v"
  shows "\<exists>q. v = Fin q \<and> 0 \<le> q"
proof -
  have "v = Fin 0 \<or> \<not> badCost v"
    using assms LocationValidate_None [OF assms(1)]
    by (auto simp: cost_def split: if_splits option.splits)
  then show ?thesis by (cases v) (auto simp: badCost_def)
qed

lemma cost_sym:
  assumes "go_get (costRow c a) b = None \<or> go_get (costRow c b) a = None"
  shows "cost c a b = cost c b a"
  using assms by (auto simp: cost_def split: option.splits)

subsection \<open>The loops choose the best eligible robot\<close>

lemma closestLoop_pick:
  "closestLoop e j now rs b =
     pickBest (closer (eng_location e) j) (\<lambda>r. robotEligibleLocked e r j now) rs b"
  by (induction rs arbitrary: b) (simp_all add: preferLocked_def)

lemma bestLoop_pick:
  "bestLoop e j now rs b l =
     (pickBest lessLoaded (\<lambda>r. robotEligibleLocked e r j now) rs b,
      pickBest lessLoaded (\<lambda>r. robotEligibleLocked e r j now \<and> job_Location j \<noteq> [] \<and>
        rob_Location r = job_Location j) rs l)"
  by (induction rs arbitrary: b l) (auto simp: betterThan_def split: option.splits)

text \<open>
  The preference \<open>bestRobotFor\<close> implements: by the cost table when it is on, otherwise first the
  robots that are where the job is, and among equals the load and the ID.
\<close>

definition prefers :: "LocationConfig \<Rightarrow> job \<Rightarrow> robot \<Rightarrow> robot \<Rightarrow> bool" where
  "prefers c j r s =
     (if loc_Enabled c \<and> job_Location j \<noteq> [] then closer c j r s
      else
        let here = (\<lambda>x. job_Location j \<noteq> [] \<and> rob_Location x = job_Location j)
        in if here r \<noteq> here s then here r else lessLoaded r s)"

lemma chooser_prefers:
  assumes "costsOrdered c"
  shows "chooser (prefers c j) rob_ID"
proof (cases "loc_Enabled c \<and> job_Location j \<noteq> []")
  case True
  then have "prefers c j = closer c j" by (intro ext) (simp add: prefers_def)
  then show ?thesis using chooser_closer [OF assms] by simp
next
  case False
  then show ?thesis
    by unfold_locales
       (auto simp: prefers_def Let_def load.irrefl split: if_splits dest: load.trans load.total)
qed

abbreviation robots_wf :: "'s engine \<Rightarrow> bool" where
  "robots_wf e \<equiv> go_wf rob_ID (eng_robots e)"

lemma bestRobotFor_iff:
  assumes ord: "costsOrdered (eng_location e)" and wf: "robots_wf e"
  shows "bestRobotFor e j now = Some r \<longleftrightarrow>
    r \<in> set (go_vals (eng_robots e)) \<and> robotEligibleLocked e r j now
    \<and> (\<forall>r' \<in> set (go_vals (eng_robots e)). robotEligibleLocked e r' j now \<longrightarrow>
         r' = r \<or> prefers (eng_location e) j r r')"
proof -
  define rs where "rs = go_vals (eng_robots e)"
  let ?ok = "\<lambda>r. robotEligibleLocked e r j now"
  let ?here = "\<lambda>r. job_Location j \<noteq> [] \<and> rob_Location r = job_Location j"
  have d: "distinct (map rob_ID rs)" unfolding rs_def using wf by (rule go_wf_vals_distinct)
  show ?thesis
  proof (cases "loc_Enabled (eng_location e) \<and> job_Location j \<noteq> []")
    case True
    then have "prefers (eng_location e) j = closer (eng_location e) j"
      by (intro ext) (simp add: prefers_def)
    then show ?thesis
      using True chooser.pick_iff [OF chooser_closer [OF ord] d]
      by (simp add: bestRobotFor_def closestLoop_pick flip: rs_def)
  next
    case False
    have b: "bestRobotFor e j now =
        (case pickBest lessLoaded (\<lambda>r. ?ok r \<and> ?here r) rs None of
           Some r \<Rightarrow> Some r | None \<Rightarrow> pickBest lessLoaded ?ok rs None)"
      using False unfolding rs_def by (auto simp: bestRobotFor_def bestLoop_pick Let_def)
    have p: "prefers (eng_location e) j r s = (if ?here r \<noteq> ?here s then ?here r else lessLoaded r s)"
      for r s using False by (auto simp: prefers_def Let_def)
    show ?thesis
    proof (cases "pickBest lessLoaded (\<lambda>r. ?ok r \<and> ?here r) rs None")
      case None
      then have "\<forall>x \<in> set rs. ?ok x \<longrightarrow> \<not> ?here x" by (auto simp: pickBest_None)
      then show ?thesis using None unfolding b p rs_def [symmetric] by (auto simp: load.pick_iff [OF d])
    next
      case (Some c)
      then have c: "c \<in> set rs" "?ok c" "?here c"
        "\<forall>x \<in> set rs. ?ok x \<and> ?here x \<longrightarrow> x = c \<or> lessLoaded c x"
        by (simp_all add: load.pick_iff [OF d])
      have "r = c" if "r \<in> set rs" "?ok r"
        "\<forall>x \<in> set rs. ?ok x \<longrightarrow> x = r \<or> prefers (eng_location e) j r x"
      proof (rule ccontr)
        assume "r \<noteq> c"
        then have "prefers (eng_location e) j r c" using that c by auto
        then have "?here r" "lessLoaded r c" using c(3) unfolding p by (auto split: if_splits)
        moreover have "lessLoaded c r" using c(4) that \<open>?here r\<close> \<open>r \<noteq> c\<close> by auto
        ultimately show False using load.asym by blast
      qed
      moreover have "\<forall>x \<in> set rs. ?ok x \<longrightarrow> x = c \<or> prefers (eng_location e) j c x"
        using c unfolding p by auto
      ultimately show ?thesis using Some c(1,2) unfolding b rs_def [symmetric] by auto
    qed
  qed
qed

lemma pickBest_mem:
  "pickBest better ok rs b = Some c \<Longrightarrow> b = Some c \<or> (c \<in> set rs \<and> ok c)"
  by (induction rs arbitrary: b) (auto split: if_splits option.splits)

lemma bestRobotFor_None:
  "bestRobotFor e j now = None \<longleftrightarrow>
     (\<forall>r \<in> set (go_vals (eng_robots e)). \<not> robotEligibleLocked e r j now)"
proof (cases "loc_Enabled (eng_location e) \<and> job_Location j \<noteq> []")
  case True
  then show ?thesis by (simp add: bestRobotFor_def closestLoop_pick pickBest_None)
next
  case False
  let ?here = "\<lambda>r. robotEligibleLocked e r j now \<and> job_Location j \<noteq> [] \<and> rob_Location r = job_Location j"
  have b: "bestRobotFor e j now =
      (case pickBest lessLoaded ?here (go_vals (eng_robots e)) None of
         Some r \<Rightarrow> Some r
       | None \<Rightarrow> pickBest lessLoaded (\<lambda>r. robotEligibleLocked e r j now) (go_vals (eng_robots e)) None)"
    using False by (auto simp: bestRobotFor_def bestLoop_pick Let_def)
  show ?thesis
  proof (cases "pickBest lessLoaded ?here (go_vals (eng_robots e)) None")
    case None
    show ?thesis unfolding b None option.case by (rule pickBest_None)
  next
    case (Some c)
    then have "c \<in> set (go_vals (eng_robots e)) \<and> robotEligibleLocked e c j now"
      using pickBest_mem by fastforce
    moreover have "bestRobotFor e j now = Some c" by (simp add: b Some)
    ultimately show ?thesis by (metis option.distinct(1))
  qed
qed

text \<open>
  Whatever the cost table: a chosen robot is registered and eligible.
\<close>

lemma bestRobotFor_eligible:
  assumes "bestRobotFor e j now = Some r"
  shows "r \<in> set (go_vals (eng_robots e)) \<and> robotEligibleLocked e r j now"
  using assms
  by (auto simp: bestRobotFor_def closestLoop_pick bestLoop_pick Let_def
      split: if_splits option.splits dest!: pickBest_mem)

lemma bestRobotFor_get:
  assumes "bestRobotFor e j now = Some r" and "robots_wf e"
  shows "getRobot e (rob_ID r) = Some r" "rob_Available r"
  using bestRobotFor_eligible [OF assms(1)] go_wf_vals [OF assms(2)]
  by (auto simp: robotEligibleLocked_def split: if_splits)

subsection \<open>The reason a job waits agrees with the choice\<close>

lemma waitLoop_turn:
  "waitLoop e j now rs w a u = WaitForItsTurn \<longleftrightarrow> (\<exists>r \<in> set rs. robotEligibleLocked e r j now)"
proof (induction rs arbitrary: w a u)
  case (Cons r rs)
  then show ?case by (auto simp: robotEligibleLocked_def)
qed simp

lemma waitReason_turn:
  "waitReasonLocked e j now = WaitForItsTurn \<longleftrightarrow> bestRobotFor e j now \<noteq> None"
  by (auto simp: waitReasonLocked_def waitLoop_turn bestRobotFor_None)

text \<open>What the counters of the loop hold, so what each answer means.\<close>

definition hasTool :: "job \<Rightarrow> robot \<Rightarrow> bool" where
  "hasTool j r \<longleftrightarrow> job_RequiredTool j = [] \<or> rob_Tool r = job_RequiredTool j"

lemma waitLoop_counts:
  assumes "\<forall>r \<in> set rs. \<not> robotEligibleLocked e r j now"
  shows "waitLoop e j now rs w a u =
    waitLoop e j now [] (w + length (filter (hasTool j) rs))
      (a + length (filter (\<lambda>r. hasTool j r \<and> rob_Available r) rs))
      (u + length (filter (\<lambda>r. hasTool j r \<and> rob_Available r \<and> \<not> toolConfirmedLocked e r j now) rs))"
  using assms by (induction rs arbitrary: w a u) (auto simp: hasTool_def)

lemma length_filter_0: "length (filter P xs) = 0 \<longleftrightarrow> (\<forall>x \<in> set xs. \<not> P x)"
  by (simp add: filter_empty_conv)

lemma filter_sub_eq:
  "length (filter (\<lambda>x. P x \<and> Q x) xs) = length (filter P xs) \<longleftrightarrow> (\<forall>x \<in> set xs. P x \<longrightarrow> Q x)"
proof (induction xs)
  case (Cons x xs)
  have "length (filter (\<lambda>x. P x \<and> Q x) xs) \<le> length (filter P xs)"
    by (induction xs) auto
  then show ?case using Cons by auto
qed simp

lemma waitReason_loop:
  assumes "\<forall>r \<in> set (go_vals (eng_robots e)). \<not> robotEligibleLocked e r j now"
    and "eng_robots e \<noteq> []"
  shows "waitReasonLocked e j now =
    (let rs = go_vals (eng_robots e);
         avail = (\<lambda>r. hasTool j r \<and> rob_Available r) in
     if \<forall>r \<in> set rs. \<not> hasTool j r then WaitNoRobotWithTool
     else if \<forall>r \<in> set rs. \<not> avail r then WaitRobotsBusy
     else if \<forall>r \<in> set rs. avail r \<longrightarrow> \<not> toolConfirmedLocked e r j now then WaitToolUnconfirmed
     else WaitRobotsStale)"
proof -
  have c: "length (filter (\<lambda>r. hasTool j r \<and> rob_Available r \<and> \<not> toolConfirmedLocked e r j now) rs) =
      length (filter (\<lambda>r. hasTool j r \<and> rob_Available r) rs) \<longleftrightarrow>
      (\<forall>r \<in> set rs. hasTool j r \<and> rob_Available r \<longrightarrow> \<not> toolConfirmedLocked e r j now)" for rs
    using filter_sub_eq [of "\<lambda>r. hasTool j r \<and> rob_Available r"
        "\<lambda>r. \<not> toolConfirmedLocked e r j now" rs] by (simp only: conj_assoc)
  show ?thesis
    using assms(2)
    by (simp only: waitReasonLocked_def waitLoop_counts [OF assms(1)] waitLoop.simps add_0
        length_filter_0 c Let_def if_False)
qed

end
