(* ===== verification/Invariant.thy ===== *)
theory Invariant
  imports Selection
begin

section \<open>The invariant of the engine\<close>

text \<open>
  What holds between two calls of the engine, in parts that the operations keep one by one:
  the queue (\<open>queue_ok\<close>), the reservations (\<open>reserved_ok\<close>), the submission numbers
  (\<open>seqs_ok\<close>), the index of dedup keys (\<open>dedup_ok\<close>) and the index of robots (\<open>heldBy_ok\<close>).
  \<open>base_ok\<close> holds them together and survives in the middle of an operation; \<open>engine_ok\<close> adds
  that the queue is stable and no batch is open.
\<close>

definition started :: "JobStatus \<Rightarrow> bool" where
  "started s \<longleftrightarrow> s = StatusAssigned \<or> s = StatusUnknown \<or> s = StatusDone \<or> s = StatusFailed"

definition isDone :: "JobStatus \<Rightarrow> bool" where
  "isDone s \<longleftrightarrow> s = StatusDone"

definition deps_closed :: "(string, job) gomap \<Rightarrow> bool" where
  "deps_closed jobs \<longleftrightarrow>
     (\<forall>jid j d. go_get jobs jid = Some j \<longrightarrow> d \<in> set (job_DependsOn j) \<longrightarrow> go_get jobs d \<noteq> None)"

text \<open>A job that a robot was given had all its dependencies done, and done stays done.\<close>

definition started_ok :: "(string, job) gomap \<Rightarrow> bool" where
  "started_ok jobs \<longleftrightarrow>
     (\<forall>jid j d. go_get jobs jid = Some j \<longrightarrow> started (job_Status j) \<longrightarrow> d \<in> set (job_DependsOn j) \<longrightarrow>
        depIs isDone jobs d)"

definition queue_ok :: "(string, job) gomap \<Rightarrow> bool" where
  "queue_ok jobs \<longleftrightarrow>
     go_wf job_ID jobs \<and> deps_closed jobs \<and> acyclic (depRel jobs) \<and> started_ok jobs"

text \<open>
  A robot that has an assigned job is registered, is not available and has no other assigned job.
  The robot of a job whose outcome is unknown is registered.
\<close>

definition reserved_ok :: "(string, job) gomap \<Rightarrow> (string, robot) gomap \<Rightarrow> bool" where
  "reserved_ok jobs robots \<longleftrightarrow>
     (\<forall>jid j. go_get jobs jid = Some j \<longrightarrow> inFlight (job_Status j) \<longrightarrow>
        job_AssignedRobot j \<noteq> [] \<and>
        (\<exists>r. go_get robots (job_AssignedRobot j) = Some r \<and>
          (job_Status j = StatusAssigned \<longrightarrow> \<not> rob_Available r)))
   \<and> (\<forall>a b ja jb. go_get jobs a = Some ja \<longrightarrow> go_get jobs b = Some jb \<longrightarrow>
        job_Status ja = StatusAssigned \<longrightarrow> job_Status jb = StatusAssigned \<longrightarrow>
        job_AssignedRobot ja = job_AssignedRobot jb \<longrightarrow> a = b)"

definition robots_ok :: "(string, robot) gomap \<Rightarrow> bool" where
  "robots_ok robots \<longleftrightarrow> go_wf rob_ID robots \<and> go_get robots [] = None"

definition seqs_ok :: "int \<Rightarrow> (string, job) gomap \<Rightarrow> bool" where
  "seqs_ok n jobs \<longleftrightarrow>
     (\<forall>jid j. go_get jobs jid = Some j \<longrightarrow> job_seq j \<le> n)
   \<and> (\<forall>a b ja jb. go_get jobs a = Some ja \<longrightarrow> go_get jobs b = Some jb \<longrightarrow>
        job_seq ja = job_seq jb \<longrightarrow> a = b)"

definition dedup_ok :: "(string, job) gomap \<Rightarrow> (string, string) gomap \<Rightarrow> bool" where
  "dedup_ok jobs dedup \<longleftrightarrow> go_get dedup [] = None \<and>
     (\<forall>k jid. go_get dedup k = Some jid \<longrightarrow> map_option job_DedupKey (go_get jobs jid) = Some k)"

definition base_ok :: "'s engine \<Rightarrow> bool" where
  "base_ok e \<longleftrightarrow>
     queue_ok (eng_jobs e) \<and> robots_ok (eng_robots e) \<and> reserved_ok (eng_jobs e) (eng_robots e)
   \<and> seqs_ok (eng_nextSeq e) (eng_jobs e) \<and> dedup_ok (eng_jobs e) (eng_dedupIndex e)
   \<and> heldBy_ok (eng_jobs e) (eng_heldBy e) \<and> costsOrdered (eng_location e)"

definition engine_ok :: "'s engine \<Rightarrow> bool" where
  "engine_ok e \<longleftrightarrow> base_ok e \<and> stable (eng_jobs e) \<and> eng_pending e = None"

lemma started_simps [simp]:
  "started StatusAssigned" "started StatusUnknown" "started StatusDone" "started StatusFailed"
  "\<not> started StatusPending" "\<not> started StatusBlocked" "\<not> started StatusUnreachable"
  "\<not> started StatusCancelled"
  by (simp_all add: started_def)

lemma waiting_not_started: "waiting s \<Longrightarrow> \<not> started s"
  by (cases s) simp_all

lemma inFlight_started: "inFlight s \<Longrightarrow> started s"
  by (cases s) simp_all

lemma inFlight_not_waiting: "inFlight s \<Longrightarrow> \<not> waiting s"
  by (cases s) simp_all

lemma isDone_simps [simp]: "isDone s \<longleftrightarrow> s = StatusDone"
  by (simp add: isDone_def)

lemma base_okI:
  "queue_ok (eng_jobs e) \<Longrightarrow> robots_ok (eng_robots e) \<Longrightarrow>
   reserved_ok (eng_jobs e) (eng_robots e) \<Longrightarrow> seqs_ok (eng_nextSeq e) (eng_jobs e) \<Longrightarrow>
   dedup_ok (eng_jobs e) (eng_dedupIndex e) \<Longrightarrow> heldBy_ok (eng_jobs e) (eng_heldBy e) \<Longrightarrow>
   costsOrdered (eng_location e) \<Longrightarrow> base_ok e"
  by (simp add: base_ok_def)

lemma base_okD:
  assumes "base_ok e"
  shows "queue_ok (eng_jobs e)" "robots_ok (eng_robots e)"
    "reserved_ok (eng_jobs e) (eng_robots e)" "seqs_ok (eng_nextSeq e) (eng_jobs e)"
    "dedup_ok (eng_jobs e) (eng_dedupIndex e)" "heldBy_ok (eng_jobs e) (eng_heldBy e)"
    "costsOrdered (eng_location e)"
  using assms by (simp_all add: base_ok_def)

lemma engine_okD:
  "engine_ok e \<Longrightarrow> base_ok e" "engine_ok e \<Longrightarrow> stable (eng_jobs e)"
  "engine_ok e \<Longrightarrow> eng_pending e = None"
  by (simp_all add: engine_ok_def)

lemma engine_okI:
  "base_ok e \<Longrightarrow> stable (eng_jobs e) \<Longrightarrow> eng_pending e = None \<Longrightarrow> engine_ok e"
  by (simp add: engine_ok_def)

lemma queue_okD:
  assumes "queue_ok jobs"
  shows "go_wf job_ID jobs" "deps_closed jobs" "acyclic (depRel jobs)" "started_ok jobs"
  using assms by (simp_all add: queue_ok_def)

lemma base_jobs_wf: "base_ok e \<Longrightarrow> go_wf job_ID (eng_jobs e)"
  by (simp add: base_ok_def queue_ok_def)

lemma base_robots_wf: "base_ok e \<Longrightarrow> go_wf rob_ID (eng_robots e)"
  by (simp add: base_ok_def robots_ok_def)

lemma base_job_ID: "base_ok e \<Longrightarrow> getJob e jid = Some j \<Longrightarrow> job_ID j = jid"
  by (rule go_wf_key [OF base_jobs_wf])

lemma base_robot_ID: "base_ok e \<Longrightarrow> getRobot e rid = Some r \<Longrightarrow> rob_ID r = rid"
  by (rule go_wf_key [OF base_robots_wf])

text \<open>Only the fields the invariant reads count.\<close>

lemma base_ok_cong:
  assumes "eng_jobs e' = eng_jobs e" "eng_robots e' = eng_robots e"
    "eng_nextSeq e' = eng_nextSeq e" "eng_dedupIndex e' = eng_dedupIndex e"
    "eng_heldBy e' = eng_heldBy e" "eng_location e' = eng_location e"
  shows "base_ok e' = base_ok e"
  by (simp add: base_ok_def assms)

lemma engine_ok_cong:
  assumes "eng_jobs e' = eng_jobs e" "eng_robots e' = eng_robots e"
    "eng_nextSeq e' = eng_nextSeq e" "eng_dedupIndex e' = eng_dedupIndex e"
    "eng_heldBy e' = eng_heldBy e" "eng_location e' = eng_location e"
    "eng_pending e' = eng_pending e"
  shows "engine_ok e' = engine_ok e"
  by (simp add: engine_ok_def base_ok_cong [OF assms(1-6)] assms)

lemma base_ok_helpers [simp]:
  "base_ok (beginBatchLocked e) = base_ok e"
  "base_ok (fst (persistJobLocked j e)) = base_ok e"
  "base_ok (fst (persistRobotLocked r e)) = base_ok e"
  "base_ok (fst (commitBatchLocked e)) = base_ok e"
  "base_ok (recordPersistOutcome errs e) = base_ok e"
  "base_ok (emitLocked kind j e) = base_ok e"
  "base_ok (checkTool tool what e) = base_ok e"
  by (rule base_ok_cong; simp)+

lemma engine_ok_NewEngine: "engine_ok NewEngine"
  by (simp add: engine_ok_def base_ok_def NewEngine_def queue_ok_def deps_closed_def started_ok_def
      robots_ok_def reserved_ok_def seqs_ok_def dedup_ok_def stable_def stableAt_def depRel_def
      acyclic_def)

subsection \<open>Changing one job of the queue\<close>

lemma depRel_put_sub:
  "depRel (go_put jid j' jobs) \<subseteq> depRel jobs \<union> set (job_DependsOn j') \<times> {jid}"
  by (auto simp: depRel_def split: if_splits)

lemma depRel_put_same:
  assumes "go_get jobs jid = Some j" and "job_DependsOn j' = job_DependsOn j"
  shows "depRel (go_put jid j' jobs) = depRel jobs"
  using assms by (auto simp: depRel_def split: if_splits)

lemma rtrancl_new_edges:
  "(x, y) \<in> (r \<union> D \<times> {k})\<^sup>* \<Longrightarrow> (x, y) \<in> r\<^sup>* \<or> (k, y) \<in> r\<^sup>*"
proof (induction rule: rtrancl_induct)
  case (step y z)
  then show ?case by (elim UnE) (auto intro: rtrancl_into_rtrancl)
qed simp

lemma acyclic_new_edges:
  assumes "finite D" and "acyclic r" and "\<And>d. d \<in> D \<Longrightarrow> (k, d) \<notin> r\<^sup>*"
  shows "acyclic (r \<union> D \<times> {k})"
  using assms(1,3)
proof (induction rule: finite_induct)
  case empty
  then show ?case using assms(2) by simp
next
  case (insert d D)
  have "(k, d) \<notin> (r \<union> D \<times> {k})\<^sup>*"
    using rtrancl_new_edges [of k d r D k] insert.prems [of d] by auto
  then have "acyclic (insert (d, k) (r \<union> D \<times> {k}))" using insert by simp
  then show ?case by (simp add: insert_Times_insert Un_commute)
qed

lemma acyclic_put:
  assumes "acyclic (depRel jobs)"
    and "\<And>d. d \<in> set (job_DependsOn j') \<Longrightarrow> (jid, d) \<notin> (depRel jobs)\<^sup>*"
  shows "acyclic (depRel (go_put jid j' jobs))"
  by (rule acyclic_subset [OF acyclic_new_edges depRel_put_sub]) (use assms in auto)

lemma depIs_put:
  "depIs P (go_put k j jobs) d = (if d = k then P (job_Status j) else depIs P jobs d)"
  by (simp add: depIs_def)

lemma started_okD:
  "started_ok jobs \<Longrightarrow> go_get jobs jid = Some j \<Longrightarrow> started (job_Status j) \<Longrightarrow>
     d \<in> set (job_DependsOn j) \<Longrightarrow> depIs isDone jobs d"
  unfolding started_ok_def by blast

lemma deps_closedD:
  "deps_closed jobs \<Longrightarrow> go_get jobs jid = Some j \<Longrightarrow> d \<in> set (job_DependsOn j) \<Longrightarrow>
     go_get jobs d \<noteq> None"
  unfolding deps_closed_def by blast

lemma started_ok_put:
  assumes "started_ok jobs" and "depIs isDone jobs jid \<Longrightarrow> job_Status j' = StatusDone"
    and "\<And>d. started (job_Status j') \<Longrightarrow> d \<in> set (job_DependsOn j') \<Longrightarrow> d \<noteq> jid \<and> depIs isDone jobs d"
  shows "started_ok (go_put jid j' jobs)"
  unfolding started_ok_def
proof (intro allI impI)
  fix x j d
  assume x: "go_get (go_put jid j' jobs) x = Some j" "started (job_Status j)"
    and d: "d \<in> set (job_DependsOn j)"
  have "depIs isDone jobs d \<and> (x = jid \<longrightarrow> d \<noteq> jid)"
  proof (cases "x = jid")
    case True
    then show ?thesis using assms(3) x d by simp
  next
    case False
    then show ?thesis using started_okD [OF assms(1)] x d by simp
  qed
  then show "depIs isDone (go_put jid j' jobs) d"
    using assms(2) by (auto simp: depIs_put)
qed

lemma deps_closed_put:
  assumes "deps_closed jobs" and "\<And>d. d \<in> set (job_DependsOn j') \<Longrightarrow> go_get jobs d \<noteq> None"
  shows "deps_closed (go_put jid j' jobs)"
  unfolding deps_closed_def
proof (intro allI impI)
  fix x j d
  assume x: "go_get (go_put jid j' jobs) x = Some j" and d: "d \<in> set (job_DependsOn j)"
  have "go_get jobs d \<noteq> None"
  proof (cases "x = jid")
    case True
    then show ?thesis using assms(2) x d by simp
  next
    case False
    then show ?thesis using deps_closedD [OF assms(1)] x d by simp
  qed
  then show "go_get (go_put jid j' jobs) d \<noteq> None" by simp
qed

text \<open>A job whose dependencies stay the same.\<close>

lemma queue_ok_put:
  assumes q: "queue_ok jobs" and j: "go_get jobs jid = Some j" and id: "job_ID j' = jid"
    and deps: "job_DependsOn j' = job_DependsOn j"
    and fin: "job_Status j = StatusDone \<Longrightarrow> job_Status j' = StatusDone"
    and st: "started (job_Status j') \<Longrightarrow> started (job_Status j) \<or> computeStatus jobs j = StatusPending"
  shows "queue_ok (go_put jid j' jobs)"
  unfolding queue_ok_def
proof (intro conjI)
  show "go_wf job_ID (go_put jid j' jobs)" using q id by (simp add: go_wf_put queue_ok_def)
  show "deps_closed (go_put jid j' jobs)"
    using deps_closedD [OF queue_okD(2) [OF q] j] deps by (intro deps_closed_put queue_okD(2) [OF q]) simp
  show "acyclic (depRel (go_put jid j' jobs))"
    using depRel_put_same [OF j deps] queue_okD(3) [OF q] by simp
  show "started_ok (go_put jid j' jobs)"
  proof (rule started_ok_put)
    show "started_ok jobs" by (rule queue_okD(4) [OF q])
    show "depIs isDone jobs jid \<Longrightarrow> job_Status j' = StatusDone" using fin j by (simp add: depIs_def)
    fix d assume "started (job_Status j')" and d: "d \<in> set (job_DependsOn j')"
    then consider "started (job_Status j)" | "computeStatus jobs j = StatusPending" using st by blast
    then have "depIs isDone jobs d"
    proof cases
      case 1
      then show ?thesis using started_okD [OF queue_okD(4) [OF q] j] d deps by simp
    next
      case 2
      have "go_get jobs d \<noteq> None" using deps_closedD [OF queue_okD(2) [OF q] j] d deps by simp
      then show ?thesis using 2 d deps by (auto simp: computeStatus_Pending depIs_def)
    qed
    moreover have "d \<noteq> jid"
    proof
      assume "d = jid"
      then have "(jid, jid) \<in> depRel jobs" using j d deps by (auto simp: depRel_def)
      then show False using queue_okD(3) [OF q] by (auto simp: acyclic_def)
    qed
    ultimately show "d \<noteq> jid \<and> depIs isDone jobs d" by blast
  qed
qed

text \<open>A job that is new, or starts over with new dependencies.\<close>

lemma queue_ok_put_deps:
  assumes q: "queue_ok jobs" and id: "job_ID j' = jid"
    and deps: "\<And>d. d \<in> set (job_DependsOn j') \<Longrightarrow> go_get jobs d \<noteq> None \<and> (jid, d) \<notin> (depRel jobs)\<^sup>*"
    and fin: "\<not> depIs isDone jobs jid" and st: "\<not> started (job_Status j')"
  shows "queue_ok (go_put jid j' jobs)"
  unfolding queue_ok_def
  using q deps fin st id
  by (auto simp: queue_ok_def intro!: go_wf_put deps_closed_put acyclic_put started_ok_put)

subsection \<open>Stability under changes of one job\<close>

definition sameClass :: "JobStatus \<Rightarrow> JobStatus \<Rightarrow> bool" where
  "sameClass s t \<longleftrightarrow> (deadEnd s = deadEnd t) \<and> (s = StatusDone \<longleftrightarrow> t = StatusDone)"

lemma computeStatus_class:
  assumes "\<And>d. d \<in> set (job_DependsOn j) \<Longrightarrow>
      depIs deadEnd js d = depIs deadEnd js' d \<and> depIs notDone js d = depIs notDone js' d"
    and "job_DependsOn j' = job_DependsOn j"
  shows "computeStatus js' j' = computeStatus js j"
  using assms by (simp add: computeStatus_eq cong: bex_cong)

lemma computeStatus_put:
  assumes "go_get jobs jid = Some j" and "sameClass (job_Status j) (job_Status j')"
  shows "computeStatus (go_put jid j' jobs) x = computeStatus jobs x"
  by (rule computeStatus_class) (use assms in \<open>auto simp: depIs_def sameClass_def\<close>)

lemma stable_put:
  assumes "stable jobs" and "go_get jobs jid = Some j" and "sameClass (job_Status j) (job_Status j')"
    and "waiting (job_Status j') \<Longrightarrow> job_Status j' = computeStatus jobs j'"
  shows "stable (go_put jid j' jobs)"
  using assms computeStatus_put [OF assms(2,3)]
  by (auto simp: stable_def stableAt_def split: option.splits)

lemma stable_put_new:
  assumes "stable jobs" and "deps_closed jobs" and "go_get jobs jid = None"
    and "waiting (job_Status j') \<Longrightarrow> job_Status j' = computeStatus jobs j'"
    and "jid \<notin> set (job_DependsOn j')"
  shows "stable (go_put jid j' jobs)"
  unfolding stable_def
proof
  fix x
  have same: "computeStatus (go_put jid j' jobs) j = computeStatus jobs j"
    if "jid \<notin> set (job_DependsOn j)" for j
    using that by (intro computeStatus_class) (auto simp: depIs_put)
  show "stableAt (go_put jid j' jobs) x"
  proof (cases "x = jid")
    case True
    then show ?thesis using assms(4,5) same by (simp add: stableAt_def)
  next
    case False
    have "jid \<notin> set (job_DependsOn j)" if "go_get jobs x = Some j" for j
      using deps_closedD [OF assms(2) that] assms(3) by blast
    then show ?thesis using False assms(1) same
      by (auto simp: stable_def stableAt_def split: option.splits)
  qed
qed

subsection \<open>Reservations\<close>

lemma reserved_robot:
  assumes "reserved_ok jobs robots" and "go_get jobs jid = Some j" and "inFlight (job_Status j)"
  shows "job_AssignedRobot j \<noteq> []"
    and "\<exists>r. go_get robots (job_AssignedRobot j) = Some r
      \<and> (job_Status j = StatusAssigned \<longrightarrow> \<not> rob_Available r)"
  using assms unfolding reserved_ok_def by blast+

lemma reserved_one:
  "reserved_ok jobs robots \<Longrightarrow> go_get jobs a = Some ja \<Longrightarrow> go_get jobs b = Some jb \<Longrightarrow>
   job_Status ja = StatusAssigned \<Longrightarrow> job_Status jb = StatusAssigned \<Longrightarrow>
   job_AssignedRobot ja = job_AssignedRobot jb \<Longrightarrow> a = b"
  unfolding reserved_ok_def by blast

lemma reserved_okI:
  assumes "\<And>jid j. go_get jobs jid = Some j \<Longrightarrow> inFlight (job_Status j) \<Longrightarrow>
      job_AssignedRobot j \<noteq> [] \<and> (\<exists>r. go_get robots (job_AssignedRobot j) = Some r
        \<and> (job_Status j = StatusAssigned \<longrightarrow> \<not> rob_Available r))"
    and "\<And>a b ja jb. go_get jobs a = Some ja \<Longrightarrow> go_get jobs b = Some jb \<Longrightarrow>
      job_Status ja = StatusAssigned \<Longrightarrow> job_Status jb = StatusAssigned \<Longrightarrow>
      job_AssignedRobot ja = job_AssignedRobot jb \<Longrightarrow> a = b"
  shows "reserved_ok jobs robots"
  using assms unfolding reserved_ok_def by blast

text \<open>A job that leaves its robot, or stays on it without being assigned.\<close>

lemma reserved_put_job:
  assumes r: "reserved_ok jobs robots"
    and j': "inFlight (job_Status j') \<Longrightarrow> \<exists>j. go_get jobs jid = Some j \<and> inFlight (job_Status j)
        \<and> job_AssignedRobot j = job_AssignedRobot j'
        \<and> (job_Status j' = StatusAssigned \<longrightarrow> job_Status j = StatusAssigned)"
  shows "reserved_ok (go_put jid j' jobs) robots"
proof (rule reserved_okI)
  fix x j assume x: "go_get (go_put jid j' jobs) x = Some j" "inFlight (job_Status j)"
  show "job_AssignedRobot j \<noteq> [] \<and> (\<exists>r. go_get robots (job_AssignedRobot j) = Some r
      \<and> (job_Status j = StatusAssigned \<longrightarrow> \<not> rob_Available r))"
  proof (cases "x = jid")
    case True
    then have "j = j'" using x by simp
    then obtain j0 where "go_get jobs jid = Some j0" "inFlight (job_Status j0)"
      "job_AssignedRobot j0 = job_AssignedRobot j"
      "job_Status j = StatusAssigned \<longrightarrow> job_Status j0 = StatusAssigned"
      using j' x(2) by blast
    then show ?thesis using reserved_robot [OF r] by metis
  next
    case False
    then show ?thesis using x reserved_robot [OF r] by simp
  qed
next
  fix a b ja jb
  assume *: "go_get (go_put jid j' jobs) a = Some ja" "go_get (go_put jid j' jobs) b = Some jb"
    "job_Status ja = StatusAssigned" "job_Status jb = StatusAssigned"
    "job_AssignedRobot ja = job_AssignedRobot jb"
  have old: "\<exists>j. go_get jobs x = Some j \<and> job_Status j = StatusAssigned
      \<and> job_AssignedRobot j = job_AssignedRobot jx"
    if "go_get (go_put jid j' jobs) x = Some jx" "job_Status jx = StatusAssigned" for x jx
  proof (cases "x = jid")
    case True
    then have "jx = j'" using that by simp
    then show ?thesis using j' that(2) True by auto
  next
    case False
    then show ?thesis using that by simp
  qed
  show "a = b" using old [OF *(1,3)] old [OF *(2,4)] *(5) reserved_one [OF r] by metis
qed

text \<open>A robot that changes without becoming available while it has an assigned job.\<close>

lemma reserved_put_robot:
  assumes r: "reserved_ok jobs robots"
    and avail: "rob_Available b \<Longrightarrow>
      (\<exists>b0. go_get robots rid = Some b0 \<and> rob_Available b0)
      \<or> (\<forall>jid j. go_get jobs jid = Some j \<longrightarrow> job_Status j = StatusAssigned \<longrightarrow>
           job_AssignedRobot j \<noteq> rid)"
  shows "reserved_ok jobs (go_put rid b robots)"
proof (rule reserved_okI)
  fix x j assume x: "go_get jobs x = Some j" "inFlight (job_Status j)"
  obtain rb where rb: "go_get robots (job_AssignedRobot j) = Some rb"
      "job_Status j = StatusAssigned \<longrightarrow> \<not> rob_Available rb"
    using reserved_robot(2) [OF r x] by blast
  have "\<not> rob_Available b" if "job_AssignedRobot j = rid" "job_Status j = StatusAssigned"
    using avail that x(1) rb by auto
  then show "job_AssignedRobot j \<noteq> [] \<and> (\<exists>r. go_get (go_put rid b robots) (job_AssignedRobot j) = Some r
      \<and> (job_Status j = StatusAssigned \<longrightarrow> \<not> rob_Available r))"
    using rb reserved_robot(1) [OF r x] by auto
qed (use reserved_one [OF r] in blast)

lemma robots_ok_put:
  "robots_ok robots \<Longrightarrow> rob_ID b = rid \<Longrightarrow> rid \<noteq> [] \<Longrightarrow> robots_ok (go_put rid b robots)"
  by (simp add: robots_ok_def go_wf_put)

lemma robots_ok_known: "robots_ok robots \<Longrightarrow> go_get robots rid = Some r \<Longrightarrow> rid \<noteq> []"
  by (auto simp: robots_ok_def)

subsection \<open>Numbers and dedup keys\<close>

lemma seqs_ok_put:
  assumes "seqs_ok n jobs" and "go_get jobs jid = Some j" and "job_seq j' = job_seq j"
  shows "seqs_ok n (go_put jid j' jobs)"
proof -
  have old: "\<exists>j0. go_get jobs x = Some j0 \<and> job_seq j0 = job_seq jx"
    if "go_get (go_put jid j' jobs) x = Some jx" for x jx
    using that assms(2,3) by (cases "x = jid") auto
  show ?thesis unfolding seqs_ok_def
  proof (intro conjI allI impI)
    fix x jx assume "go_get (go_put jid j' jobs) x = Some jx"
    then show "job_seq jx \<le> n" using old assms(1) unfolding seqs_ok_def by metis
  next
    fix a b ja jb
    assume "go_get (go_put jid j' jobs) a = Some ja" "go_get (go_put jid j' jobs) b = Some jb"
      "job_seq ja = job_seq jb"
    then show "a = b" using old assms(1) unfolding seqs_ok_def by metis
  qed
qed

lemma seqs_ok_new:
  assumes "seqs_ok n jobs" and "go_get jobs jid = None" and "job_seq j' = n + 1"
  shows "seqs_ok (n + 1) (go_put jid j' jobs)"
  unfolding seqs_ok_def
proof (intro conjI allI impI)
  have le: "job_seq jx \<le> n" if "go_get jobs x = Some jx" for x jx
    using that assms(1) unfolding seqs_ok_def by blast
  fix x jx assume "go_get (go_put jid j' jobs) x = Some jx"
  then show "job_seq jx \<le> n + 1" using assms(3) le by (cases "x = jid") fastforce+
next
  have le: "job_seq jx \<le> n" if "go_get jobs x = Some jx" for x jx
    using that assms(1) unfolding seqs_ok_def by blast
  fix a b ja jb
  assume *: "go_get (go_put jid j' jobs) a = Some ja" "go_get (go_put jid j' jobs) b = Some jb"
    "job_seq ja = job_seq jb"
  show "a = b"
  proof (cases "a = jid"; cases "b = jid")
    assume "a \<noteq> jid" "b \<noteq> jid"
    then show ?thesis using * assms(1) unfolding seqs_ok_def by simp
  qed (use * assms(3) le in fastforce)+
qed

lemma seqs_ok_mono: "seqs_ok n jobs \<Longrightarrow> n \<le> m \<Longrightarrow> seqs_ok m jobs"
  unfolding seqs_ok_def by force

lemma dedup_ok_put:
  assumes "dedup_ok jobs dedup"
    and "\<And>j. go_get jobs jid = Some j \<Longrightarrow> job_DedupKey j' = job_DedupKey j"
  shows "dedup_ok (go_put jid j' jobs) dedup"
  using assms unfolding dedup_ok_def by fastforce

lemma dedup_ok_index:
  "dedup_ok jobs dedup \<Longrightarrow> k \<noteq> [] \<Longrightarrow> map_option job_DedupKey (go_get jobs jid) = Some k \<Longrightarrow>
     dedup_ok jobs (go_put k jid dedup)"
  by (simp add: dedup_ok_def)

subsection \<open>The re-evaluation keeps the base\<close>

text \<open>\<open>fieldwise\<close>: the invariant reads a queue only through fields the re-evaluation keeps.\<close>

lemma sameButWaiting_queue:
  assumes "sameButWaiting js js'" and "queue_ok js"
  shows "queue_ok js'"
proof -
  note old = sameButWaiting_back [OF assms(1)] and new = sameButWaiting_Some [OF assms(1)]
  have "deps_closed js'"
    unfolding deps_closed_def
    using old deps_closedD [OF queue_okD(2) [OF assms(2)]] sameButWaiting_None [OF assms(1)]
    by (metis statusOnly_fields(2))
  moreover have "started_ok js'"
    unfolding started_ok_def
  proof (intro allI impI)
    fix jid j' d assume j': "go_get js' jid = Some j'" "started (job_Status j')" "d \<in> set (job_DependsOn j')"
    then obtain j where j: "go_get js jid = Some j" "statusOnly j j'" using old by blast
    then have "j' = j" using j'(2) statusOnly_fields(7,8) waiting_not_started by metis
    then have "depIs isDone js d" using started_okD [OF queue_okD(4) [OF assms(2)] j(1)] j' by simp
    then obtain dj where dj: "go_get js d = Some dj" "job_Status dj = StatusDone" by (auto simp: depIs_iff)
    then have "go_get js' d = Some dj" using new [OF dj(1)] statusOnly_fields(8) by fastforce
    then show "depIs isDone js' d" using dj by (simp add: depIs_def)
  qed
  ultimately show ?thesis
    using assms sameButWaiting_wf [OF assms(1)] sameButWaiting_depRel [OF assms(1)]
    by (simp add: queue_ok_def)
qed

lemma sameButWaiting_inFlight:
  assumes "sameButWaiting js js'" and "go_get js' jid = Some j'" and "inFlight (job_Status j')"
  shows "go_get js jid = Some j'"
proof -
  obtain j where "go_get js jid = Some j" "statusOnly j j'"
    using sameButWaiting_back [OF assms(1,2)] by blast
  then show ?thesis using assms(3) statusOnly_fields(7,8) inFlight_not_waiting by metis
qed

lemma sameButWaiting_reserved:
  assumes "sameButWaiting js js'" and "reserved_ok js robots"
  shows "reserved_ok js' robots"
proof (rule reserved_okI)
  fix jid j assume "go_get js' jid = Some j" "inFlight (job_Status j)"
  then show "job_AssignedRobot j \<noteq> [] \<and> (\<exists>r. go_get robots (job_AssignedRobot j) = Some r
      \<and> (job_Status j = StatusAssigned \<longrightarrow> \<not> rob_Available r))"
    using sameButWaiting_inFlight [OF assms(1)] reserved_robot [OF assms(2)] by blast
next
  fix a b ja jb
  assume "go_get js' a = Some ja" "go_get js' b = Some jb"
    "job_Status ja = StatusAssigned" "job_Status jb = StatusAssigned"
    "job_AssignedRobot ja = job_AssignedRobot jb"
  then show "a = b"
    using sameButWaiting_inFlight [OF assms(1)] reserved_one [OF assms(2)] by (metis inFlight_simps(1))
qed

lemma sameButWaiting_seqs:
  assumes "sameButWaiting js js'" and "seqs_ok n js"
  shows "seqs_ok n js'"
proof -
  have old: "\<exists>j0. go_get js x = Some j0 \<and> job_seq j0 = job_seq jx" if "go_get js' x = Some jx" for x jx
    using sameButWaiting_back [OF assms(1) that] statusOnly_fields(4) by metis
  show ?thesis unfolding seqs_ok_def
  proof (intro conjI allI impI)
    fix x jx assume "go_get js' x = Some jx"
    then show "job_seq jx \<le> n" using old assms(2) unfolding seqs_ok_def by metis
  next
    fix a b ja jb
    assume "go_get js' a = Some ja" "go_get js' b = Some jb" "job_seq ja = job_seq jb"
    then show "a = b" using old assms(2) unfolding seqs_ok_def by metis
  qed
qed

lemma sameButWaiting_dedup:
  assumes "sameButWaiting js js'" and "dedup_ok js dedup"
  shows "dedup_ok js' dedup"
  using assms sameButWaiting_field [OF assms(1), of job_DedupKey]
  by (simp add: dedup_ok_def statusOnly_fields)

lemma sameButWaiting_heldBy:
  assumes "sameButWaiting js js'" and "heldBy_ok js held"
  shows "heldBy_ok js' held"
proof (rule heldBy_okI)
  fix jid j rid assume "go_get js' jid = Some j" "job_AssignedRobot j = rid" "rid \<noteq> []"
  then show "jid \<in> set (heldIds held rid)"
    using sameButWaiting_back [OF assms(1)] statusOnly_fields(3) heldBy_okD [OF assms(2)] by metis
qed (rule heldBy_ok_distinct [OF assms(2)])

lemma refreshBlocked_base:
  assumes "refreshBlocked e = Some (e', err)" and "base_ok e"
  shows "base_ok e' \<and> stable (eng_jobs e')"
proof -
  have wf: "go_wf job_ID (eng_jobs e)" using assms(2) by (rule base_jobs_wf)
  note r = refreshBlocked_result [OF assms(1) wf]
  show ?thesis
    using assms(2) r(1) onlyJobs_fields [OF r(3)] sameButWaiting_queue [OF r(2)]
      sameButWaiting_reserved [OF r(2)] sameButWaiting_seqs [OF r(2)] sameButWaiting_dedup [OF r(2)]
      sameButWaiting_heldBy [OF r(2)]
    by (simp add: base_ok_def)
qed

lemma refreshBlocked_total: "base_ok e \<Longrightarrow> \<exists>e' err. refreshBlocked e = Some (e', err)"
  by (intro refreshBlocked_returns) (simp_all add: base_ok_def queue_ok_def)

text \<open>The index that the lookup of a robot's jobs prunes.\<close>

lemma base_ok_jobsHeldBy [simp]:
  "base_ok e \<Longrightarrow> base_ok (snd (jobsHeldByLocked rid e))"
  using jobsHeldBy_index by (auto simp: base_ok_def)

lemma base_ok_robotHasActive [simp]:
  "base_ok e \<Longrightarrow> base_ok (snd (robotHasActiveAssignmentLocked rid e))"
  using robotHasActive_index by (auto simp: base_ok_def)

end
