(* ===== verification/Submission.thy ===== *)
theory Submission
  imports Invariant
begin

section \<open>Submitting jobs\<close>

text \<open>
  \<open>AddJob\<close>, \<open>addJobLocked\<close> and \<open>SubmitJob\<close> of \<open>dispatcher.go\<close>. An operation returns the new
  engine with its result; \<open>SubmitJob\<close> re-evaluates the queue and so is \<open>None\<close> when that does not
  return. \<open>now\<close> is the reading of the clock. Copies of job structs are values here, so what
  \<open>cloneJob\<close> protects holds by construction.
\<close>

definition noteDedup :: "job \<Rightarrow> 's engine \<Rightarrow> 's engine" where
  "noteDedup j e =
     (if job_DedupKey j = [] then e
      else e\<lparr>eng_dedupIndex := go_put (job_DedupKey j) (job_ID j) (eng_dedupIndex e)\<rparr>)"

definition addJobLocked :: "job \<Rightarrow> instant \<Rightarrow> 's engine \<Rightarrow> 's engine \<times> (engError + job)" where
  "addJobLocked j now e0 =
     (let e = checkTool (job_RequiredTool j) (RequiredToolOfJob (job_ID j)) e0 in
      if isBlank (job_ID j) then (e, Inl (ErrInvalidJob EmptyID))
      else case validateDependencyShape (job_ID j) (job_DependsOn j) of
        Some err \<Rightarrow> (e, Inl err)
      | None \<Rightarrow>
         (case getJob e (job_ID j) of
            Some _ \<Rightarrow> (e, Inl (ErrJobExists (job_ID j)))
          | None \<Rightarrow>
             (case missingDep (eng_jobs e) (job_DependsOn j) of
                Some dep \<Rightarrow> (e, Inl (ErrUnknownDep (job_ID j) dep))
              | None \<Rightarrow>
                 (let e1 = e\<lparr>eng_nextSeq := eng_nextSeq e + 1\<rparr>;
                      new = j\<lparr>job_seq := eng_nextSeq e1, job_SubmittedAtMs := unixMilli now,
                               job_AssignedAtMs := 0, job_CompletedAtMs := 0, job_Attempt := 0\<rparr>;
                      stored = new\<lparr>job_Status := computeStatus (eng_jobs e1) new\<rparr>;
                      (e2, err) = persistJobLocked stored e1
                  in case err of
                       Some x \<Rightarrow> (e2, Inl (ErrStore x))
                     | None \<Rightarrow>
                         (noteDedup stored (noteAssignedLocked stored (setJob stored e2)),
                          Inr stored)))))"

definition AddJob :: "job \<Rightarrow> instant \<Rightarrow> 's engine \<Rightarrow> 's engine \<times> engError option" where
  "AddJob j now e =
     (case addJobLocked j now e of
        (e', Inl err) \<Rightarrow> (e', Some err)
      | (e', Inr stored) \<Rightarrow> (e', None))"

text \<open>The retry of a job that failed or was cancelled, under its own ID.\<close>

definition retryJob ::
  "job \<Rightarrow> job \<Rightarrow> instant \<Rightarrow> 's engine \<Rightarrow> ('s engine \<times> (engError + job \<times> SubmitResult)) option" where
  "retryJob existing j now e =
     (case validateDependencyShape (job_ID existing) (job_DependsOn j) of
        Some err \<Rightarrow> Some (e, Inl err)
      | None \<Rightarrow>
         (case missingDep (eng_jobs e) (job_DependsOn j) of
            Some dep \<Rightarrow> Some (e, Inl (ErrUnknownDep (job_ID existing) dep))
          | None \<Rightarrow>
              if dependsTransitivelyLocked (job_DependsOn j) (job_ID existing) e
              then Some (e, Inl (ErrInvalidJob (DependencyCycle (job_ID existing) (job_DependsOn j))))
              else
                let e1 = checkTool (job_RequiredTool j) (RequiredToolOfJob (job_ID existing)) e;
                    j1 = existing\<lparr>job_Priority := job_Priority j,
                           job_RequiredTool := job_RequiredTool j, job_Location := job_Location j,
                           job_DependsOn := job_DependsOn j, job_AssignedRobot := [],
                           job_SubmittedAtMs := unixMilli now, job_AssignedAtMs := 0,
                           job_CompletedAtMs := 0\<rparr>;
                    e2 = setJob j1 e1;
                    j2 = j1\<lparr>job_Status := computeStatus (eng_jobs e2) j1\<rparr>;
                    (e4, existingErr) = persistJobLocked j2 (setJob j2 e2)
                in (case refreshBlocked e4 of
                      None \<Rightarrow> None
                    | Some (e5, refreshErr) \<Rightarrow>
                        Some (recordPersistOutcome [existingErr, refreshErr] e5,
                          (case getJob e5 (job_ID existing) of
                             None \<Rightarrow> Inl NilDereference
                           | Some j' \<Rightarrow> Inr (j', SubmitRetried))))))"

definition submitNew ::
  "job \<Rightarrow> instant \<Rightarrow> 's engine \<Rightarrow> 's engine \<times> (engError + job \<times> SubmitResult)" where
  "submitNew j now e =
     (case addJobLocked j now e of
        (e', Inl err) \<Rightarrow> (e', Inl err)
      | (e', Inr stored) \<Rightarrow> (e', Inr (stored, SubmitCreated)))"

definition SubmitJob ::
  "job \<Rightarrow> instant \<Rightarrow> 's engine \<Rightarrow> ('s engine \<times> (engError + job \<times> SubmitResult)) option" where
  "SubmitJob j now e =
     (if job_DedupKey j = [] then Some (submitNew j now e)
      else case go_get (eng_dedupIndex e) (job_DedupKey j) of
        None \<Rightarrow> Some (submitNew j now e)
      | Some existingID \<Rightarrow>
         (case getJob e existingID of
            None \<Rightarrow> Some (e, Inl NilDereference)
          | Some existing \<Rightarrow>
              if job_Status existing \<noteq> StatusFailed \<and> job_Status existing \<noteq> StatusCancelled
              then Some (e, Inr (existing, SubmitDuplicate))
              else retryJob existing j now e))"

subsection \<open>The search finds exactly the dependencies\<close>

lemma reach_dep:
  assumes "(t, x) \<in> (depRel jobs)\<^sup>*" and "t \<noteq> x"
  shows "\<exists>d. (d, x) \<in> depRel jobs \<and> (t, d) \<in> (depRel jobs)\<^sup>*"
  using assms by (metis rtranclE)

lemma reach_seen:
  assumes "(t, x) \<in> (depRel jobs)\<^sup>*" and "x \<in> seen" and "t \<notin> seen"
    and "\<And>s d. s \<in> seen \<Longrightarrow> (d, s) \<in> depRel jobs \<Longrightarrow> d \<in> seen \<union> S"
  shows "\<exists>y \<in> S. (t, y) \<in> (depRel jobs)\<^sup>*"
  using assms(1,2)
proof (induction rule: rtrancl_induct)
  case base
  then show ?case using assms(3) by simp
next
  case (step y z)
  then show ?case using assms(4) [of z y] by blast
qed

lemma searchDeps_iff:
  assumes "\<forall>s \<in> set seen. s \<noteq> t \<and> (\<forall>d. (d, s) \<in> depRel jobs \<longrightarrow> d \<in> set seen \<union> set stack)"
  shows "searchDeps jobs t seen stack \<longleftrightarrow> (\<exists>x \<in> set stack. (t, x) \<in> (depRel jobs)\<^sup>*)"
  using assms
proof (induction jobs t seen stack rule: searchDeps.induct)
  case (1 jobs t seen stack)
  show ?case
  proof (cases stack)
    case Nil
    then show ?thesis by (subst searchDeps.simps) simp
  next
    case (Cons x rest)
    consider (hit) "x = t" | (seen) "x \<noteq> t" "x \<in> set seen"
      | (gone) "x \<noteq> t" "x \<notin> set seen" "go_get jobs x = None"
      | (new) d where "x \<noteq> t" "x \<notin> set seen" "go_get jobs x = Some d"
      by blast
    then show ?thesis
    proof cases
      case hit
      then show ?thesis using Cons by (subst searchDeps.simps) auto
    next
      case seen
      have "searchDeps jobs t seen stack = searchDeps jobs t seen rest"
        using Cons seen by (subst searchDeps.simps) simp
      also have "\<dots> \<longleftrightarrow> (\<exists>y \<in> set rest. (t, y) \<in> (depRel jobs)\<^sup>*)"
        using 1(1) [OF Cons seen] 1(4) Cons seen(2) by auto
      also have "\<dots> \<longleftrightarrow> (\<exists>y \<in> set stack. (t, y) \<in> (depRel jobs)\<^sup>*)"
        using reach_seen [of t x jobs "set seen" "set rest"] 1(4) Cons seen by auto
      finally show ?thesis .
    next
      case gone
      have no: "(d, x) \<notin> depRel jobs" for d using gone(3) by (simp add: depRel_def)
      have "searchDeps jobs t seen stack = searchDeps jobs t (x # seen) rest"
        using Cons gone by (subst searchDeps.simps) simp
      also have "\<dots> \<longleftrightarrow> (\<exists>y \<in> set rest. (t, y) \<in> (depRel jobs)\<^sup>*)"
        using 1(2) [OF Cons gone(1,2,3)] 1(4) Cons gone(1) no by auto
      also have "\<dots> \<longleftrightarrow> (\<exists>y \<in> set stack. (t, y) \<in> (depRel jobs)\<^sup>*)"
        using reach_dep [of t x jobs] no gone(1) Cons by auto
      finally show ?thesis .
    next
      case (new d)
      have deps: "(y, x) \<in> depRel jobs \<longleftrightarrow> y \<in> set (job_DependsOn d)" for y
        using new(3) by (simp add: depRel_def)
      have "searchDeps jobs t seen stack =
          searchDeps jobs t (x # seen) (rev (job_DependsOn d) @ rest)"
        using Cons new by (subst searchDeps.simps) simp
      also have "\<dots> \<longleftrightarrow> (\<exists>y \<in> set (rev (job_DependsOn d) @ rest). (t, y) \<in> (depRel jobs)\<^sup>*)"
        using 1(3) [OF Cons new(1,2,3)] 1(4) Cons new(1) deps by auto
      also have "\<dots> \<longleftrightarrow> (\<exists>y \<in> set stack. (t, y) \<in> (depRel jobs)\<^sup>*)"
        using reach_dep [of t x jobs] deps new(1) Cons by (auto intro: rtrancl_into_rtrancl)
      finally show ?thesis .
    qed
  qed
qed

lemma dependsTransitively_iff:
  "dependsTransitivelyLocked roots t e \<longleftrightarrow> (\<exists>x \<in> set roots. (t, x) \<in> (depRel (eng_jobs e))\<^sup>*)"
  by (simp add: dependsTransitivelyLocked_def searchDeps_iff)

subsection \<open>Adding a job\<close>

lemma noteDedup_frame [frame, simp]:
  "eng_jobs (noteDedup j e) = eng_jobs e" "eng_robots (noteDedup j e) = eng_robots e"
  "eng_nextSeq (noteDedup j e) = eng_nextSeq e" "eng_heldBy (noteDedup j e) = eng_heldBy e"
  "eng_store (noteDedup j e) = eng_store e" "eng_location (noteDedup j e) = eng_location e"
  "eng_pending (noteDedup j e) = eng_pending e" "eng_replan (noteDedup j e) = eng_replan e"
  "eng_stopReq (noteDedup j e) = eng_stopReq e" "eng_events (noteDedup j e) = eng_events e"
  "eng_lastPersistErr (noteDedup j e) = eng_lastPersistErr e"
  by (simp_all add: noteDedup_def)

text \<open>What a successful insertion has checked, and what it leaves.\<close>

lemma addJobLocked_Inr:
  assumes "addJobLocked j now e = (e', Inr stored)"
  shows "\<not> isBlank (job_ID j)" "validateDependencyShape (job_ID j) (job_DependsOn j) = None"
    "getJob e (job_ID j) = None" "set (job_DependsOn j) \<subseteq> set (go_keys (eng_jobs e))"
    "stored = j\<lparr>job_seq := eng_nextSeq e + 1, job_SubmittedAtMs := unixMilli now,
        job_AssignedAtMs := 0, job_CompletedAtMs := 0, job_Attempt := 0,
        job_Status := computeStatus (eng_jobs e) j\<rparr>"
    "eng_jobs e' = go_put (job_ID j) stored (eng_jobs e)" "eng_robots e' = eng_robots e"
    "eng_nextSeq e' = eng_nextSeq e + 1" "eng_location e' = eng_location e"
    "eng_dedupIndex e' = (if job_DedupKey j = [] then eng_dedupIndex e
        else go_put (job_DedupKey j) (job_ID j) (eng_dedupIndex e))"
    "eng_heldBy e' = eng_heldBy (noteAssignedLocked stored e)"
    "eng_pending e = None \<Longrightarrow> eng_pending e' = None"
proof -
  define new where "new = j\<lparr>job_seq := eng_nextSeq e + 1, job_SubmittedAtMs := unixMilli now,
      job_AssignedAtMs := 0, job_CompletedAtMs := 0, job_Attempt := 0\<rparr>"
  have cs: "computeStatus (eng_jobs e) new = computeStatus (eng_jobs e) j"
    by (simp add: new_def computeStatus_def)
  note d = assms [unfolded addJobLocked_def Let_def case_prod_unfold, simplified]
  show "\<not> isBlank (job_ID j)" "validateDependencyShape (job_ID j) (job_DependsOn j) = None"
    "getJob e (job_ID j) = None"
    using d by (auto split: if_splits option.splits)
  show "set (job_DependsOn j) \<subseteq> set (go_keys (eng_jobs e))"
    unfolding missingDep_None [symmetric] using d by (auto split: if_splits option.splits)
  show st: "stored = j\<lparr>job_seq := eng_nextSeq e + 1, job_SubmittedAtMs := unixMilli now,
        job_AssignedAtMs := 0, job_CompletedAtMs := 0, job_Attempt := 0,
        job_Status := computeStatus (eng_jobs e) j\<rparr>"
    using d cs by (auto simp: new_def split: if_splits option.splits)
  show "eng_jobs e' = go_put (job_ID j) stored (eng_jobs e)"
    using d by (auto simp: setJob_def split: if_splits option.splits)
  show "eng_robots e' = eng_robots e" "eng_nextSeq e' = eng_nextSeq e + 1"
    "eng_location e' = eng_location e"
    using d by (auto split: if_splits option.splits)
  show "eng_dedupIndex e' = (if job_DedupKey j = [] then eng_dedupIndex e
        else go_put (job_DedupKey j) (job_ID j) (eng_dedupIndex e))"
    using d by (auto simp: noteDedup_def split: if_splits option.splits)
  show "eng_heldBy e' = eng_heldBy (noteAssignedLocked stored e)"
    using d by (auto simp: noteAssignedLocked_def Let_def split: if_splits option.splits)
  show "eng_pending e = None \<Longrightarrow> eng_pending e' = None"
    using d by (auto split: if_splits option.splits)
qed

text \<open>
  A refused insertion changes nothing but the log of unknown tools, a consumed submission number
  and what the store was asked.
\<close>

lemma addJobLocked_Inl:
  assumes "addJobLocked j now e = (e', Inl err)"
  shows "eng_jobs e' = eng_jobs e" "eng_robots e' = eng_robots e"
    "eng_dedupIndex e' = eng_dedupIndex e" "eng_heldBy e' = eng_heldBy e"
    "eng_location e' = eng_location e" "eng_nextSeq e \<le> eng_nextSeq e'"
    "eng_pending e = None \<Longrightarrow> eng_pending e' = None"
  using assms
  by (auto simp: addJobLocked_def Let_def case_prod_unfold split: if_splits option.splits)

lemma addJobLocked_ok:
  assumes ok: "engine_ok e" and add: "addJobLocked j now e = (e', r)"
  shows "engine_ok e'"
proof (cases r)
  case (Inl err)
  note f = addJobLocked_Inl [OF add [unfolded Inl]]
  show ?thesis
    using ok f seqs_ok_mono [OF base_okD(4) [OF engine_okD(1) [OF ok]] f(6)]
    by (simp add: engine_ok_def base_ok_def)
next
  case (Inr stored)
  note f = addJobLocked_Inr [OF add [unfolded Inr]]
  note b = base_okD [OF engine_okD(1) [OF ok]]
  let ?id = "job_ID j"
  have shape: "?id \<notin> set (job_DependsOn j)" using f(2) by (simp add: validateDependencyShape_None)
  have ids: "job_ID stored = ?id" "job_DependsOn stored = job_DependsOn j"
    "job_DedupKey stored = job_DedupKey j" "job_seq stored = eng_nextSeq e + 1"
    "job_Status stored = computeStatus (eng_jobs e) stored" "waiting (job_Status stored)"
    by (simp_all add: f(5) computeStatus_def) (simp flip: computeStatus_def)
  have none: "\<not> depIs P (eng_jobs e) ?id" for P by (simp add: depIs_def f(3))
  have known: "getJob e d \<noteq> None" if "d \<in> set (job_DependsOn j)" for d
    using f(4) that unfolding go_get_None by blast
  have root: "(?id, d) \<notin> (depRel (eng_jobs e))\<^sup>*" if "d \<in> set (job_DependsOn j)" for d
  proof
    assume "(?id, d) \<in> (depRel (eng_jobs e))\<^sup>*"
    moreover have "(?id, y) \<notin> depRel (eng_jobs e)" for y
      using deps_closedD [OF queue_okD(2) [OF b(1)]] f(3) by (force simp: depRel_def)
    ultimately show False using that shape by (metis converse_rtranclE)
  qed
  show ?thesis
  proof (rule engine_okI)
    show "base_ok e'"
    proof (rule base_okI)
      show "queue_ok (eng_jobs e')"
        unfolding f(6) using b(1) ids known root none waiting_not_started
        by (intro queue_ok_put_deps) auto
      show "robots_ok (eng_robots e')" using b(2) f(7) by simp
      show "reserved_ok (eng_jobs e') (eng_robots e')"
        unfolding f(6,7) using b(3) ids(6) by (intro reserved_put_job) (auto dest: inFlight_not_waiting)
      show "seqs_ok (eng_nextSeq e') (eng_jobs e')"
        unfolding f(6,8) using b(4) f(3) ids(4) by (intro seqs_ok_new)
      have "dedup_ok (go_put ?id stored (eng_jobs e)) (eng_dedupIndex e)"
        using b(5) f(3) by (intro dedup_ok_put) simp_all
      then show "dedup_ok (eng_jobs e') (eng_dedupIndex e')"
        unfolding f(6,10) using ids(3) by (auto intro: dedup_ok_index)
      show "heldBy_ok (eng_jobs e') (eng_heldBy e')"
        unfolding f(6,11) using noteAssigned_ok [OF b(6), of stored] ids(1) by simp
      show "costsOrdered (eng_location e')" using b(7) f(9) by simp
    qed
    show "stable (eng_jobs e')"
      unfolding f(6) using engine_okD(2) [OF ok] queue_okD(2) [OF b(1)] f(3) ids shape
      by (intro stable_put_new) auto
    show "eng_pending e' = None" using f(12) engine_okD(3) [OF ok] by simp
  qed
qed

lemma AddJob_ok: "engine_ok e \<Longrightarrow> engine_ok (fst (AddJob j now e))"
  using addJobLocked_ok [of e j now]
  by (cases "addJobLocked j now e"; cases "snd (addJobLocked j now e)") (auto simp: AddJob_def)

subsection \<open>Retrying a job\<close>

text \<open>The record of a retried job before the queue is re-evaluated, and the engine that holds it.\<close>

definition retried :: "job \<Rightarrow> job \<Rightarrow> instant \<Rightarrow> (string, job) gomap \<Rightarrow> job" where
  "retried existing j now jobs = existing
     \<lparr>job_Priority := job_Priority j, job_RequiredTool := job_RequiredTool j,
      job_Location := job_Location j, job_DependsOn := job_DependsOn j, job_AssignedRobot := [],
      job_SubmittedAtMs := unixMilli now, job_AssignedAtMs := 0, job_CompletedAtMs := 0,
      job_Status := computeStatus jobs j\<rparr>"

lemma retried_fields [simp]:
  "job_ID (retried x j now jobs) = job_ID x" "job_DedupKey (retried x j now jobs) = job_DedupKey x"
  "job_seq (retried x j now jobs) = job_seq x" "job_Attempt (retried x j now jobs) = job_Attempt x"
  "job_DependsOn (retried x j now jobs) = job_DependsOn j"
  "job_AssignedRobot (retried x j now jobs) = []"
  "job_Status (retried x j now jobs) = computeStatus jobs j"
  by (simp_all add: retried_def)

lemma computeStatus_deps: "job_DependsOn a = job_DependsOn b \<Longrightarrow> computeStatus jobs a = computeStatus jobs b"
  by (simp add: computeStatus_def)

text \<open>
  \<open>retryable\<close>: the checks of a retry pass. Then the re-evaluation starts from an engine whose
  queue holds the retried record, and nothing else that the invariant reads has changed.
\<close>

definition retryable :: "job \<Rightarrow> job \<Rightarrow> 's engine \<Rightarrow> bool" where
  "retryable existing j e \<longleftrightarrow>
     validateDependencyShape (job_ID existing) (job_DependsOn j) = None
   \<and> missingDep (eng_jobs e) (job_DependsOn j) = None
   \<and> \<not> dependsTransitivelyLocked (job_DependsOn j) (job_ID existing) e"

lemma retryJob_refused:
  assumes "\<not> retryable existing j e"
  shows "\<exists>err. retryJob existing j now e = Some (e, Inl err)"
  using assms by (auto simp: retryJob_def retryable_def split: option.splits)

lemma retryJob_run:
  assumes r: "retryable existing j e"
  shows "\<exists>e4 err1.
      eng_jobs e4 = go_put (job_ID existing) (retried existing j now (eng_jobs e)) (eng_jobs e)
    \<and> eng_robots e4 = eng_robots e \<and> eng_nextSeq e4 = eng_nextSeq e
    \<and> eng_dedupIndex e4 = eng_dedupIndex e \<and> eng_heldBy e4 = eng_heldBy e
    \<and> eng_location e4 = eng_location e \<and> (eng_pending e4 = None \<longleftrightarrow> eng_pending e = None)
    \<and> retryJob existing j now e =
        map_option (\<lambda>(e5, err2). (recordPersistOutcome [err1, err2] e5,
            case getJob e5 (job_ID existing) of None \<Rightarrow> Inl NilDereference
            | Some j' \<Rightarrow> Inr (j', SubmitRetried))) (refreshBlocked e4)"
proof -
  let ?e1 = "checkTool (job_RequiredTool j) (RequiredToolOfJob (job_ID existing)) e"
  let ?j1 = "existing\<lparr>job_Priority := job_Priority j,
      job_RequiredTool := job_RequiredTool j, job_Location := job_Location j,
      job_DependsOn := job_DependsOn j, job_AssignedRobot := [],
      job_SubmittedAtMs := unixMilli now, job_AssignedAtMs := 0, job_CompletedAtMs := 0\<rparr>"
  let ?e2 = "setJob ?j1 ?e1"
  let ?j2 = "?j1\<lparr>job_Status := computeStatus (eng_jobs ?e2) ?j1\<rparr>"
  let ?p = "persistJobLocked ?j2 (setJob ?j2 ?e2)"
  have no: "job_ID existing \<notin> set (job_DependsOn j)"
    using r by (simp add: retryable_def validateDependencyShape_None)
  have "computeStatus (eng_jobs ?e2) ?j1 = computeStatus (eng_jobs e) j"
    using no by (intro computeStatus_class) (auto simp: depIs_put setJob_def)
  then have j2: "?j2 = retried existing j now (eng_jobs e)" by (simp add: retried_def)
  have "eng_jobs (fst ?p) = go_put (job_ID existing) (retried existing j now (eng_jobs e)) (eng_jobs e)"
    unfolding j2 by (simp add: setJob_def)
  moreover have "retryJob existing j now e =
      map_option (\<lambda>(e5, err2). (recordPersistOutcome [snd ?p, err2] e5,
            case getJob e5 (job_ID existing) of None \<Rightarrow> Inl NilDereference
            | Some j' \<Rightarrow> Inr (j', SubmitRetried))) (refreshBlocked (fst ?p))"
    using r by (simp add: retryJob_def retryable_def Let_def case_prod_unfold map_option_case
        cong: option.case_cong)
  ultimately show ?thesis
    by (intro exI [where x = "fst ?p"] exI [where x = "snd ?p"]) simp
qed

lemma retried_base:
  assumes b: "base_ok e" and ex: "getJob e (job_ID existing) = Some existing"
    and st: "job_Status existing = StatusFailed \<or> job_Status existing = StatusCancelled"
    and r: "retryable existing j e"
    and e4: "eng_jobs e4 = go_put (job_ID existing) (retried existing j now (eng_jobs e)) (eng_jobs e)"
      "eng_robots e4 = eng_robots e" "eng_nextSeq e4 = eng_nextSeq e"
      "eng_dedupIndex e4 = eng_dedupIndex e" "eng_heldBy e4 = eng_heldBy e"
      "eng_location e4 = eng_location e"
  shows "base_ok e4"
proof -
  let ?id = "job_ID existing" and ?j = "retried existing j now (eng_jobs e)"
  note b' = base_okD [OF b]
  have deps: "getJob e d \<noteq> None \<and> (?id, d) \<notin> (depRel (eng_jobs e))\<^sup>*" if "d \<in> set (job_DependsOn j)" for d
    using r that unfolding retryable_def missingDep_None dependsTransitively_iff go_get_None by blast
  have w: "waiting (computeStatus (eng_jobs e) j)" by simp
  have nd: "\<not> depIs isDone (eng_jobs e) ?id" using ex st by (auto simp: depIs_def)
  show ?thesis
  proof (rule base_okI)
    show "queue_ok (eng_jobs e4)"
      unfolding e4 using b'(1) deps nd waiting_not_started [OF w]
      by (intro queue_ok_put_deps) auto
    show "robots_ok (eng_robots e4)" using b'(2) e4 by simp
    show "reserved_ok (eng_jobs e4) (eng_robots e4)"
      unfolding e4 using b'(3) inFlight_not_waiting [of "computeStatus (eng_jobs e) j"] w
      by (intro reserved_put_job) auto
    show "seqs_ok (eng_nextSeq e4) (eng_jobs e4)"
      unfolding e4 using b'(4) ex by (rule seqs_ok_put) simp
    show "dedup_ok (eng_jobs e4) (eng_dedupIndex e4)"
      unfolding e4 using b'(5) ex by (intro dedup_ok_put) simp_all
    show "heldBy_ok (eng_jobs e4) (eng_heldBy e4)"
      unfolding e4 using heldBy_ok_put [OF b'(6), of ?j] by simp
    show "costsOrdered (eng_location e4)" using b'(7) e4 by simp
  qed
qed

text \<open>
  What a retry answers on an engine that satisfies the invariant: it always returns; refused, it
  changed nothing; accepted, the job keeps its ID and waits again with the new content.
\<close>

lemma retryJob_effect:
  assumes ok: "engine_ok e" and ex: "getJob e (job_ID existing) = Some existing"
    and st: "job_Status existing = StatusFailed \<or> job_Status existing = StatusCancelled"
  shows "if retryable existing j e
    then \<exists>e' j'. retryJob existing j now e = Some (e', Inr (j', SubmitRetried)) \<and> engine_ok e'
      \<and> getJob e' (job_ID existing) = Some j'
      \<and> statusOnly (retried existing j now (eng_jobs e)) j'
      \<and> (\<forall>x. x \<noteq> job_ID existing \<longrightarrow> rel_option statusOnly (getJob e x) (getJob e' x))
      \<and> eng_robots e' = eng_robots e \<and> eng_dedupIndex e' = eng_dedupIndex e
    else \<exists>err. retryJob existing j now e = Some (e, Inl err)"
proof (cases "retryable existing j e")
  case False
  then show ?thesis using retryJob_refused by auto
next
  case True
  obtain e4 err1 where e4:
      "eng_jobs e4 = go_put (job_ID existing) (retried existing j now (eng_jobs e)) (eng_jobs e)"
      "eng_robots e4 = eng_robots e" "eng_nextSeq e4 = eng_nextSeq e"
      "eng_dedupIndex e4 = eng_dedupIndex e" "eng_heldBy e4 = eng_heldBy e"
      "eng_location e4 = eng_location e"
    and pend: "eng_pending e4 = None \<longleftrightarrow> eng_pending e = None"
    and run: "retryJob existing j now e =
        map_option (\<lambda>(e5, err2). (recordPersistOutcome [err1, err2] e5,
            case getJob e5 (job_ID existing) of None \<Rightarrow> Inl NilDereference
            | Some j' \<Rightarrow> Inr (j', SubmitRetried))) (refreshBlocked e4)"
    using retryJob_run [OF True, of now] by (elim exE conjE) (rule that)
  have b4: "base_ok e4" by (rule retried_base [OF engine_okD(1) [OF ok] ex st True e4])
  obtain e5 err2 where r5: "refreshBlocked e4 = Some (e5, err2)" using refreshBlocked_total [OF b4] by blast
  note res = refreshBlocked_result [OF r5 base_jobs_wf [OF b4]]
  have "getJob e4 (job_ID existing) = Some (retried existing j now (eng_jobs e))" by (simp add: e4)
  then obtain j' where j': "getJob e5 (job_ID existing) = Some j'"
      "statusOnly (retried existing j now (eng_jobs e)) j'"
    using sameButWaiting_Some [OF res(2)] by blast
  have "engine_ok (recordPersistOutcome [err1, err2] e5)"
    using refreshBlocked_base [OF r5 b4] pend onlyJobs_pending [OF res(3)] engine_okD(3) [OF ok]
    by (intro engine_okI) simp_all
  moreover have "rel_option statusOnly (getJob e x) (getJob e5 x)" if "x \<noteq> job_ID existing" for x
  proof -
    have "rel_option statusOnly (getJob e4 x) (getJob e5 x)"
      using res(2) by (simp add: sameButWaiting_def)
    then show ?thesis using that by (simp add: e4)
  qed
  moreover have "eng_robots e5 = eng_robots e" "eng_dedupIndex e5 = eng_dedupIndex e"
    using onlyJobs_fields [OF res(3)] e4 by simp_all
  ultimately show ?thesis using True run r5 j' by auto
qed

subsection \<open>The idempotent submission\<close>

lemma dedup_hit:
  assumes "engine_ok e" and "go_get (eng_dedupIndex e) k = Some jid"
  shows "\<exists>j. getJob e jid = Some j \<and> job_DedupKey j = k \<and> job_ID j = jid"
proof -
  have "map_option job_DedupKey (getJob e jid) = Some k"
    using base_okD(5) [OF engine_okD(1) [OF assms(1)]] assms(2) unfolding dedup_ok_def by blast
  then show ?thesis using base_job_ID [OF engine_okD(1) [OF assms(1)]] by auto
qed

lemma submitNew_ok: "engine_ok e \<Longrightarrow> engine_ok (fst (submitNew j now e))"
  using addJobLocked_ok [of e j now]
  by (cases "addJobLocked j now e"; cases "snd (addJobLocked j now e)") (auto simp: submitNew_def)

lemma depShapeLoop_invalid: "depShapeLoop jid seen deps = Some err \<Longrightarrow> \<exists>r. err = ErrInvalidJob r"
  by (induction jid seen deps rule: depShapeLoop.induct) (auto split: if_splits)

lemma submitNew_not_nil: "snd (submitNew j now e) \<noteq> Inl NilDereference"
  using depShapeLoop_invalid [of "job_ID j" "[]" "job_DependsOn j"]
  by (auto simp: submitNew_def addJobLocked_def Let_def case_prod_unfold validateDependencyShape_def
      split: option.splits)

text \<open>The three cases of \<open>SubmitJob\<close>; the nil pointer of the dangling index never occurs.\<close>

lemma SubmitJob_cases:
  assumes ok: "engine_ok e"
  obtains (new) "job_DedupKey j = [] \<or> go_get (eng_dedupIndex e) (job_DedupKey j) = None"
      "SubmitJob j now e = Some (submitNew j now e)"
  | (dup) x where "job_DedupKey j \<noteq> []" "go_get (eng_dedupIndex e) (job_DedupKey j) = Some (job_ID x)"
      "getJob e (job_ID x) = Some x" "job_DedupKey x = job_DedupKey j"
      "job_Status x \<noteq> StatusFailed" "job_Status x \<noteq> StatusCancelled"
      "SubmitJob j now e = Some (e, Inr (x, SubmitDuplicate))"
  | (retry) x where "job_DedupKey j \<noteq> []" "go_get (eng_dedupIndex e) (job_DedupKey j) = Some (job_ID x)"
      "getJob e (job_ID x) = Some x" "job_DedupKey x = job_DedupKey j"
      "job_Status x = StatusFailed \<or> job_Status x = StatusCancelled"
      "SubmitJob j now e = retryJob x j now e"
proof (cases "job_DedupKey j = [] \<or> go_get (eng_dedupIndex e) (job_DedupKey j) = None")
  case True
  then show thesis using new by (auto simp: SubmitJob_def)
next
  case False
  then obtain jid where k: "job_DedupKey j \<noteq> []"
      "go_get (eng_dedupIndex e) (job_DedupKey j) = Some jid" by auto
  obtain x where x: "getJob e jid = Some x" "job_DedupKey x = job_DedupKey j" "job_ID x = jid"
    using dedup_hit [OF ok k(2)] by blast
  show thesis
  proof (cases "job_Status x = StatusFailed \<or> job_Status x = StatusCancelled")
    case True
    then show thesis using retry [of x] k x by (auto simp: SubmitJob_def)
  next
    case False
    then show thesis using dup [of x] k x by (auto simp: SubmitJob_def)
  qed
qed

lemma retryJob_total:
  assumes ok: "engine_ok e" and ex: "getJob e (job_ID x) = Some x"
    and st: "job_Status x = StatusFailed \<or> job_Status x = StatusCancelled"
  shows "\<exists>e' r. retryJob x j now e = Some (e', r) \<and> engine_ok e' \<and> r \<noteq> Inl NilDereference"
proof (cases "retryable x j e")
  case True
  then show ?thesis using retryJob_effect [OF ok ex st, of j now] by auto
next
  case False
  have "\<exists>err. retryJob x j now e = Some (e, Inl err) \<and> err \<noteq> NilDereference"
    using False depShapeLoop_invalid [of "job_ID x" "[]" "job_DependsOn j"]
    by (auto simp: retryJob_def retryable_def validateDependencyShape_def split: option.splits)
  then show ?thesis using ok by auto
qed

lemma SubmitJob_ok:
  assumes ok: "engine_ok e"
  shows "\<exists>e' r. SubmitJob j now e = Some (e', r) \<and> engine_ok e' \<and> r \<noteq> Inl NilDereference"
proof (cases rule: SubmitJob_cases [OF ok, of j now])
  case 1
  then show ?thesis using submitNew_ok [OF ok, of j now] submitNew_not_nil [of j now e]
    by (metis prod.collapse)
next
  case (2 x)
  then show ?thesis using ok by simp
next
  case (3 x)
  show ?thesis unfolding 3(6) by (rule retryJob_total [OF ok 3(3) 3(5)])
qed

text \<open>
  A submission that succeeded leaves its dedup key pointing at the job it answered, and that job
  neither failed nor was cancelled: the same submission again is a duplicate.
\<close>

lemma SubmitJob_indexes:
  assumes ok: "engine_ok e" and key: "job_DedupKey j \<noteq> []"
    and s: "SubmitJob j now e = Some (e', Inr (x, res))"
  shows "go_get (eng_dedupIndex e') (job_DedupKey j) = Some (job_ID x)
    \<and> getJob e' (job_ID x) = Some x
    \<and> job_Status x \<noteq> StatusFailed \<and> job_Status x \<noteq> StatusCancelled"
proof (cases rule: SubmitJob_cases [OF ok, of j now])
  case 1
  then have n: "submitNew j now e = (e', Inr (x, res))" using s by simp
  then have a: "addJobLocked j now e = (e', Inr x)"
    by (auto simp: submitNew_def split: prod.splits sum.splits)
  note f = addJobLocked_Inr [OF a]
  have w: "waiting (job_Status x)" by (simp add: f(5))
  have "job_ID x = job_ID j" by (simp add: f(5))
  then show ?thesis using key w by (auto simp: f(6,10))
next
  case (2 y)
  then show ?thesis using s by simp
next
  case (3 y)
  show ?thesis
  proof (cases "retryable y j e")
    case False
    then show ?thesis using retryJob_effect [OF ok 3(3,5), of j now] s 3(6) by auto
  next
    case True
    then obtain e1 j1 where e1: "retryJob y j now e = Some (e1, Inr (j1, SubmitRetried))"
      "getJob e1 (job_ID y) = Some j1" "statusOnly (retried y j now (eng_jobs e)) j1"
      "eng_dedupIndex e1 = eng_dedupIndex e"
      using retryJob_effect [OF ok 3(3,5), of j now] by auto
    then have "e1 = e'" "j1 = x" using s 3(6) by auto
    moreover have "waiting (job_Status j1)" "job_ID j1 = job_ID y"
      using statusOnly_fields [OF e1(3)] by simp_all
    ultimately show ?thesis using e1 3(2) by auto
  qed
qed

lemma SubmitJob_again:
  assumes "go_get (eng_dedupIndex e) (job_DedupKey j) = Some (job_ID x)"
    and "getJob e (job_ID x) = Some x" and "job_DedupKey j \<noteq> []"
    and "job_Status x \<noteq> StatusFailed" and "job_Status x \<noteq> StatusCancelled"
  shows "SubmitJob j now e = Some (e, Inr (x, SubmitDuplicate))"
  using assms by (simp add: SubmitJob_def)

end
