(* ===== verification/Dispatch.thy ===== *)
theory Dispatch
  imports Invariant "HOL-Library.Sublist"
begin

section \<open>One scheduling pass\<close>

text \<open>
  \<open>DispatchOnce\<close> of \<open>dispatcher.go\<close>. \<open>dispatchStep\<close> is the body of its loop for one eligible job:
  the choice of the robot, the reservation that is written first, the assignment that is written
  second, and the roll-back of both when a write fails. The clock is read when the robot is chosen
  and again when the job is stamped: \<open>clk (2 * k)\<close> and \<open>clk (2 * k + 1)\<close> are the two readings for
  the \<open>k\<close>-th job of the pass.
\<close>

datatype dispatchOutcome = NoRobot | WriteFailed serror | Given Assignment

definition dispatchStep ::
  "(nat \<Rightarrow> instant) \<Rightarrow> nat \<Rightarrow> string \<Rightarrow> 's engine \<Rightarrow> 's engine \<times> dispatchOutcome" where
  "dispatchStep clk k jid e =
     (case getJob e jid of
        None \<Rightarrow> (e, NoRobot)
      | Some j \<Rightarrow>
         (case bestRobotFor e j (clk (2 * k)) of
            None \<Rightarrow> (e, NoRobot)
          | Some robot \<Rightarrow>
             (let busy = robot\<lparr>rob_Available := False\<rparr>;
                  (e1, robotErr) = persistRobotLocked busy (setRobot busy e)
              in case robotErr of
                   Some x \<Rightarrow> (setRobot robot e1, WriteFailed x)
                 | None \<Rightarrow>
                    (let j1 = j\<lparr>job_Status := StatusAssigned, job_AssignedRobot := rob_ID robot\<rparr>;
                         e2 = noteAssignedLocked j1 (setJob j1 e1);
                         j2 = j1\<lparr>job_Attempt := job_Attempt j1 + 1,
                                 job_AssignedAtMs := unixMilli (clk (2 * k + 1))\<rparr>;
                         (e3, jobErr) = persistJobLocked j2 (setJob j2 e2)
                     in case jobErr of
                          Some x \<Rightarrow>
                            (let j3 = j2\<lparr>job_Status := StatusPending, job_AssignedRobot := [],
                                   job_Attempt := job_Attempt j2 - 1,
                                   job_AssignedAtMs := job_AssignedAtMs j\<rparr>;
                                 (e5, compErr) = persistRobotLocked robot (setRobot robot (setJob j3 e3))
                             in (e5, WriteFailed (case compErr of None \<Rightarrow> x | Some y \<Rightarrow> y)))
                        | None \<Rightarrow>
                            (emitLocked EventAssigned j2 e3,
                             Given \<lparr>asg_JobID = jid, asg_RobotID = rob_ID robot\<rparr>)))))"

text \<open>\<open>persisted\<close> and \<open>persistErr\<close> of the code: whether a write was tried, and the last failure.\<close>

fun dispatchLoop ::
  "(nat \<Rightarrow> instant) \<Rightarrow> nat \<Rightarrow> string list \<Rightarrow> 's engine \<Rightarrow> Assignment list \<Rightarrow> bool \<Rightarrow> serror option \<Rightarrow>
   's engine \<times> Assignment list \<times> bool \<times> serror option" where
  "dispatchLoop clk k [] e out persisted persistErr = (e, out, persisted, persistErr)"
| "dispatchLoop clk k (jid # jids) e out persisted persistErr =
     (case dispatchStep clk k jid e of
        (e', NoRobot) \<Rightarrow> dispatchLoop clk (Suc k) jids e' out persisted persistErr
      | (e', WriteFailed x) \<Rightarrow> dispatchLoop clk (Suc k) jids e' out True (Some x)
      | (e', Given a) \<Rightarrow> dispatchLoop clk (Suc k) jids e' (out @ [a]) True persistErr)"

definition DispatchOnce :: "(nat \<Rightarrow> instant) \<Rightarrow> 's engine \<Rightarrow> 's engine \<times> Assignment list" where
  "DispatchOnce clk e =
     (case dispatchLoop clk 0 (map job_ID (dispatchOrder e)) e [] False None of
        (e', out, persisted, persistErr) \<Rightarrow>
          (if persisted then recordPersistOutcome [persistErr] e' else e', out))"

subsection \<open>The order of the pass\<close>

lemma mem_dispatchOrder:
  assumes "base_ok e"
  shows "j \<in> set (dispatchOrder e) \<longleftrightarrow>
    getJob e (job_ID j) = Some j \<and> job_Status j = StatusPending"
  using go_wf_vals [OF base_jobs_wf [OF assms], of j]
  by (auto simp: dispatchOrder_def simp del: set_map)

lemma distinct_dispatchOrder:
  assumes "base_ok e"
  shows "distinct (map job_ID (dispatchOrder e))"
proof -
  let ?p = "filter (\<lambda>j. job_Status j = StatusPending) (go_vals (eng_jobs e))"
  have "distinct (map job_ID ?p)"
    using go_wf_vals_distinct [OF base_jobs_wf [OF assms]] by (rule distinct_map_filter)
  moreover have "mset (map job_ID (dispatchOrder e)) = mset (map job_ID ?p)"
    by (simp add: dispatchOrder_def)
  ultimately show ?thesis by (metis mset_eq_imp_distinct_iff)
qed

lemma sorted_dispatchOrder: "sorted (map dispatchKey (dispatchOrder e))"
  by (simp add: dispatchOrder_def)

subsection \<open>One step\<close>

text \<open>
  \<open>assigned j rid ms\<close> is the record of a job that has just been given to a robot. A step either
  leaves the queue and the robots as they are (but for a stale robot name of a pending job), or
  gives the job to the best robot and reserves it.
\<close>

definition assigned :: "job \<Rightarrow> string \<Rightarrow> int \<Rightarrow> job" where
  "assigned j rid ms = j\<lparr>job_Status := StatusAssigned, job_AssignedRobot := rid,
     job_Attempt := job_Attempt j + 1, job_AssignedAtMs := ms\<rparr>"

lemma assigned_fields [simp]:
  "job_ID (assigned j rid ms) = job_ID j" "job_Status (assigned j rid ms) = StatusAssigned"
  "job_AssignedRobot (assigned j rid ms) = rid" "job_DependsOn (assigned j rid ms) = job_DependsOn j"
  "job_Attempt (assigned j rid ms) = job_Attempt j + 1" "job_seq (assigned j rid ms) = job_seq j"
  "job_DedupKey (assigned j rid ms) = job_DedupKey j" "job_AssignedAtMs (assigned j rid ms) = ms"
  "job_Priority (assigned j rid ms) = job_Priority j"
  "job_RequiredTool (assigned j rid ms) = job_RequiredTool j"
  by (simp_all add: assigned_def)

definition reservedRobot :: "robot \<Rightarrow> robot" where
  "reservedRobot r = r\<lparr>rob_Available := False\<rparr>"

lemma reservedRobot_fields [simp]:
  "rob_ID (reservedRobot r) = rob_ID r" "\<not> rob_Available (reservedRobot r)"
  "rob_Load (reservedRobot r) = rob_Load r" "rob_Tool (reservedRobot r) = rob_Tool r"
  by (simp_all add: reservedRobot_def)

lemma put_put [simp]: "go_put k v (go_put k w m) = go_put k v m"
  by (induction m) auto

lemma put_same: "distinct (go_keys m) \<Longrightarrow> go_get m k = Some v \<Longrightarrow> go_put k v m = m"
  by (induction m) (auto split: if_splits)

text \<open>The step in closed form.\<close>

lemma dispatchStep_none:
  "getJob e jid = Some j \<Longrightarrow> bestRobotFor e j (clk (2 * k)) = None \<Longrightarrow>
     dispatchStep clk k jid e = (e, NoRobot)"
  by (simp add: dispatchStep_def)

definition sameSettings :: "'s engine \<Rightarrow> 's engine \<Rightarrow> bool" where
  "sameSettings e e' \<longleftrightarrow>
     eng_robotFreshness e' = eng_robotFreshness e \<and> eng_location e' = eng_location e
   \<and> eng_toolCheck e' = eng_toolCheck e \<and> eng_nextSeq e' = eng_nextSeq e
   \<and> eng_dedupIndex e' = eng_dedupIndex e \<and> eng_pending e' = eng_pending e
   \<and> eng_replan e' = eng_replan e \<and> eng_stopReq e' = eng_stopReq e
   \<and> eng_lastPersistErr e' = eng_lastPersistErr e"

lemma sameSettings_refl [simp]: "sameSettings e e"
  by (simp add: sameSettings_def)

lemma sameSettings_trans: "sameSettings a b \<Longrightarrow> sameSettings b c \<Longrightarrow> sameSettings a c"
  by (simp add: sameSettings_def)

lemma persistJob_pending: "eng_pending e = None \<Longrightarrow> eng_pending (fst (persistJobLocked j e)) = None"
  by simp

lemma dispatchStep_robot:
  assumes ok: "base_ok e" and pend: "eng_pending e = None" and j: "getJob e jid = Some j"
    and b: "bestRobotFor e j (clk (2 * k)) = Some robot"
  shows "case dispatchStep clk k jid e of
      (e', NoRobot) \<Rightarrow> False
    | (e', WriteFailed x) \<Rightarrow>
        eng_robots e' = eng_robots e \<and> sameSettings e e'
        \<and> (eng_jobs e' = eng_jobs e \<and> eng_heldBy e' = eng_heldBy e
          \<or> eng_jobs e' = go_put jid (j\<lparr>job_Status := StatusPending, job_AssignedRobot := []\<rparr>) (eng_jobs e)
            \<and> eng_heldBy e' = eng_heldBy (noteAssignedLocked (assigned j (rob_ID robot) 0) e))
    | (e', Given a) \<Rightarrow>
        a = \<lparr>asg_JobID = jid, asg_RobotID = rob_ID robot\<rparr> \<and> sameSettings e e'
        \<and> eng_jobs e' = go_put jid (assigned j (rob_ID robot) (unixMilli (clk (2 * k + 1)))) (eng_jobs e)
        \<and> eng_robots e' = go_put (rob_ID robot) (reservedRobot robot) (eng_robots e)
        \<and> eng_heldBy e' = eng_heldBy (noteAssignedLocked (assigned j (rob_ID robot) 0) e)"
proof -
  have jid: "job_ID j = jid" using ok j by (rule base_job_ID)
  have r: "getRobot e (rob_ID robot) = Some robot"
    using bestRobotFor_get(1) [OF b base_robots_wf [OF ok]] .
  have same: "go_put (rob_ID robot) robot (eng_robots e) = eng_robots e"
    using go_wf_distinct [OF base_robots_wf [OF ok]] r by (rule put_same)
  have idx: "eng_heldBy (noteAssignedLocked a x) = eng_heldBy (noteAssignedLocked a' e)"
    if "eng_heldBy x = eng_heldBy e" "job_ID a = job_ID a'" "job_AssignedRobot a = job_AssignedRobot a'"
    for a a' and x :: "'a engine"
    using that by (simp add: noteAssignedLocked_def Let_def)
  show ?thesis
    using j b pend
    by (auto simp: dispatchStep_def Let_def case_prod_unfold sameSettings_def setJob_def setRobot_def
        assigned_def reservedRobot_def jid same idx split: option.splits)
qed

subsection \<open>A step keeps the invariant\<close>

lemma eligible_cong:
  assumes "sameSettings e e'"
  shows "robotEligibleLocked e' r j now = robotEligibleLocked e r j now"
  using assms
  by (simp add: robotEligibleLocked_def toolConfirmedLocked_def sameSettings_def Let_def)

lemma pending_deps_done:
  assumes "engine_ok e" and "getJob e jid = Some j" and "job_Status j = StatusPending"
  shows "computeStatus (eng_jobs e) j = StatusPending"
  using assms by (auto simp: engine_ok_def stable_def stableAt_def dest!: spec [where x = jid])

lemma noteAssigned_ms:
  "noteAssignedLocked (assigned j rid ms) e = noteAssignedLocked (assigned j rid ms') e"
  by (simp add: noteAssignedLocked_def)

lemma assign_ok:
  assumes ok: "engine_ok e" and j: "getJob e jid = Some j" "job_Status j = StatusPending"
    and r: "getRobot e rid = Some r" "rob_Available r"
    and e': "eng_jobs e' = go_put jid (assigned j rid ms) (eng_jobs e)"
      "eng_robots e' = go_put rid (reservedRobot r) (eng_robots e)"
      "eng_heldBy e' = eng_heldBy (noteAssignedLocked (assigned j rid 0) e)"
    and s: "sameSettings e e'"
  shows "engine_ok e'"
proof -
  note b = base_okD [OF engine_okD(1) [OF ok]]
  let ?j = "assigned j rid ms"
  have jid: "job_ID j = jid" using engine_okD(1) [OF ok] j(1) by (rule base_job_ID)
  have rid: "rob_ID r = rid" using engine_okD(1) [OF ok] r(1) by (rule base_robot_ID)
  have ne: "rid \<noteq> []" using b(2) r(1) by (rule robots_ok_known)
  have free: "job_AssignedRobot x \<noteq> rid" if "getJob e y = Some x" "job_Status x = StatusAssigned" for x y
    using reserved_robot(2) [OF b(3) that(1)] that(2) r by auto
  have res: "reserved_ok (eng_jobs e') (eng_robots e')"
  proof (rule reserved_okI)
    fix y x assume x: "getJob e' y = Some x" "inFlight (job_Status x)"
    show "job_AssignedRobot x \<noteq> [] \<and> (\<exists>r. getRobot e' (job_AssignedRobot x) = Some r
        \<and> (job_Status x = StatusAssigned \<longrightarrow> \<not> rob_Available r))"
    proof (cases "y = jid")
      case True
      then show ?thesis using x ne by (auto simp: e')
    next
      case False
      then have "getJob e y = Some x" using x by (simp add: e')
      then show ?thesis using reserved_robot [OF b(3) _ x(2)] by (auto simp: e')
    qed
  next
    fix a c ja jc
    assume *: "getJob e' a = Some ja" "getJob e' c = Some jc" "job_Status ja = StatusAssigned"
      "job_Status jc = StatusAssigned" "job_AssignedRobot ja = job_AssignedRobot jc"
    show "a = c"
    proof (cases "a = jid"; cases "c = jid")
      assume "a \<noteq> jid" "c \<noteq> jid"
      then show ?thesis using * reserved_one [OF b(3)] by (simp add: e')
    next
      assume "a = jid" "c \<noteq> jid"
      then show ?thesis using * free [of c jc] by (auto simp: e')
    next
      assume "a \<noteq> jid" "c = jid"
      then show ?thesis using * free [of a ja] by (auto simp: e')
    qed simp
  qed
  show ?thesis
  proof (rule engine_okI)
    show "base_ok e'"
    proof (rule base_okI)
      show "queue_ok (eng_jobs e')"
        unfolding e' using pending_deps_done [OF ok j] j(2) jid by (intro queue_ok_put [OF b(1) j(1)]) simp_all
      show "robots_ok (eng_robots e')" unfolding e' using b(2) rid ne by (intro robots_ok_put) simp_all
      show "reserved_ok (eng_jobs e') (eng_robots e')" by (rule res)
      show "seqs_ok (eng_nextSeq e') (eng_jobs e')"
        using s unfolding e' sameSettings_def using b(4) j(1) by (auto intro: seqs_ok_put)
      show "dedup_ok (eng_jobs e') (eng_dedupIndex e')"
        using s unfolding e' sameSettings_def using b(5) j(1) by (auto intro: dedup_ok_put)
      show "heldBy_ok (eng_jobs e') (eng_heldBy e')"
        unfolding e' noteAssigned_ms [of j rid 0 e ms] using noteAssigned_ok [OF b(6), of ?j] jid by simp
      show "costsOrdered (eng_location e')" using s b(7) by (simp add: sameSettings_def)
    qed
    show "stable (eng_jobs e')"
      unfolding e' using j(2) by (intro stable_put [OF engine_okD(2) [OF ok] j(1)]) (simp_all add: sameClass_def)
    show "eng_pending e' = None" using s engine_okD(3) [OF ok] by (simp add: sameSettings_def)
  qed
qed

text \<open>A failed assignment leaves a pending job without a robot name, and one more index entry.\<close>

lemma unassign_ok:
  assumes ok: "engine_ok e" and j: "getJob e jid = Some j" "job_Status j = StatusPending"
    and e': "eng_jobs e' = go_put jid (j\<lparr>job_Status := StatusPending, job_AssignedRobot := []\<rparr>) (eng_jobs e)"
      "eng_robots e' = eng_robots e"
      "eng_heldBy e' = eng_heldBy (noteAssignedLocked (assigned j rid 0) e)"
    and s: "sameSettings e e'"
  shows "engine_ok e'"
proof -
  note b = base_okD [OF engine_okD(1) [OF ok]]
  let ?j = "j\<lparr>job_Status := StatusPending, job_AssignedRobot := []\<rparr>"
  have jid: "job_ID j = jid" using engine_okD(1) [OF ok] j(1) by (rule base_job_ID)
  have cs: "computeStatus (eng_jobs e) ?j = StatusPending"
    using pending_deps_done [OF ok j] by (simp add: computeStatus_def)
  have held: "heldBy_ok (go_put jid ?j (eng_jobs e)) (eng_heldBy e')"
    unfolding e'
    using heldBy_okD [OF noteAssigned_ok [OF b(6), of "assigned j rid 0"]]
      heldBy_ok_distinct [OF noteAssigned_ok [OF b(6), of "assigned j rid 0"]] jid
    by (intro heldBy_okI) (auto split: if_splits)
  show ?thesis
  proof (rule engine_okI)
    show "base_ok e'"
    proof (rule base_okI)
      show "queue_ok (eng_jobs e')" unfolding e' using j(2) jid by (intro queue_ok_put [OF b(1) j(1)]) simp_all
      show "robots_ok (eng_robots e')" using b(2) e' by simp
      show "reserved_ok (eng_jobs e') (eng_robots e')" unfolding e' by (rule reserved_put_job [OF b(3)]) simp
      show "seqs_ok (eng_nextSeq e') (eng_jobs e')"
        using s unfolding e' sameSettings_def using b(4) j(1) by (auto intro: seqs_ok_put)
      show "dedup_ok (eng_jobs e') (eng_dedupIndex e')"
        using s unfolding e' sameSettings_def using b(5) j(1) by (auto intro: dedup_ok_put)
      show "heldBy_ok (eng_jobs e') (eng_heldBy e')" unfolding e'(1) by (rule held)
      show "costsOrdered (eng_location e')" using s b(7) by (simp add: sameSettings_def)
    qed
    show "stable (eng_jobs e')"
      unfolding e' using j(2) cs by (intro stable_put [OF engine_okD(2) [OF ok] j(1)]) (simp_all add: sameClass_def)
    show "eng_pending e' = None" using s engine_okD(3) [OF ok] by (simp add: sameSettings_def)
  qed
qed

text \<open>
  The three outcomes of a step, as facts about the engine before and after: nothing happened, a
  write failed and was undone, or the job was given.
\<close>

definition untouched :: "'s engine \<Rightarrow> 's engine \<Rightarrow> string \<Rightarrow> bool" where
  "untouched e e' jid \<longleftrightarrow> getJob e' jid = getJob e jid \<or>
     (\<exists>j. getJob e jid = Some j \<and> job_Status j = StatusPending
        \<and> getJob e' jid = Some (j\<lparr>job_AssignedRobot := []\<rparr>))"

definition givenBy :: "(nat \<Rightarrow> instant) \<Rightarrow> 's engine \<Rightarrow> 's engine \<Rightarrow> Assignment \<Rightarrow> bool" where
  "givenBy clk e e' a \<longleftrightarrow>
     (\<exists>j r i. getJob e (asg_JobID a) = Some j \<and> job_Status j = StatusPending
        \<and> getRobot e (asg_RobotID a) = Some r \<and> robotEligibleLocked e r j (clk (2 * i))
        \<and> getJob e' (asg_JobID a) = Some (assigned j (asg_RobotID a) (unixMilli (clk (2 * i + 1))))
        \<and> getRobot e' (asg_RobotID a) = Some (reservedRobot r))"

lemma untouched_refl [simp]: "untouched e e jid"
  by (simp add: untouched_def)

lemma untouched_trans:
  assumes "untouched a b jid" and "untouched b c jid"
  shows "untouched a c jid"
proof (cases "getJob b jid = getJob a jid")
  case True
  then show ?thesis using assms(2) by (simp add: untouched_def)
next
  case False
  then obtain j where j: "getJob a jid = Some j" "job_Status j = StatusPending"
      "getJob b jid = Some (j\<lparr>job_AssignedRobot := []\<rparr>)"
    using assms(1) by (auto simp: untouched_def)
  then have "getJob c jid = Some (j\<lparr>job_AssignedRobot := []\<rparr>)"
    using assms(2) by (auto simp: untouched_def)
  then show ?thesis using j by (auto simp: untouched_def)
qed

lemma dispatchStep_ok:
  assumes ok: "engine_ok e" and j: "getJob e jid = Some j" "job_Status j = StatusPending"
    and s: "dispatchStep clk k jid e = (e', out)"
  shows "engine_ok e'" "sameSettings e e'"
    "\<And>x. x \<noteq> jid \<Longrightarrow> getJob e' x = getJob e x"
    "out = NoRobot \<Longrightarrow> e' = e \<and> bestRobotFor e j (clk (2 * k)) = None"
    "out = WriteFailed err \<Longrightarrow> eng_robots e' = eng_robots e \<and> untouched e e' jid"
    "out = Given a \<Longrightarrow> asg_JobID a = jid \<and> givenBy clk e e' a
       \<and> (\<forall>x. x \<noteq> asg_RobotID a \<longrightarrow> getRobot e' x = getRobot e x)"
proof -
  note b = engine_okD(1) [OF ok] and p = engine_okD(3) [OF ok]
  have "engine_ok e' \<and> sameSettings e e' \<and> (\<forall>x. x \<noteq> jid \<longrightarrow> getJob e' x = getJob e x)
    \<and> (out = NoRobot \<longrightarrow> e' = e \<and> bestRobotFor e j (clk (2 * k)) = None)
    \<and> (out = WriteFailed err \<longrightarrow> eng_robots e' = eng_robots e \<and> untouched e e' jid)
    \<and> (out = Given a \<longrightarrow> asg_JobID a = jid \<and> givenBy clk e e' a
       \<and> (\<forall>x. x \<noteq> asg_RobotID a \<longrightarrow> getRobot e' x = getRobot e x))"
  proof (cases "bestRobotFor e j (clk (2 * k))")
    case None
    then have "e' = e" "out = NoRobot" using s dispatchStep_none [where clk = clk and k = k, OF j(1) None] by auto
    then show ?thesis using ok None by simp
  next
    case (Some robot)
    note st = dispatchStep_robot [where clk = clk and k = k, OF b p j(1) Some, unfolded s prod.case]
    have r: "getRobot e (rob_ID robot) = Some robot" "rob_Available robot"
      using bestRobotFor_get [OF Some base_robots_wf [OF b]] .
    have el: "robotEligibleLocked e robot j (clk (2 * k))"
      using bestRobotFor_eligible [OF Some] by blast
    show ?thesis
    proof (cases out)
      case NoRobot
      then show ?thesis using st by simp
    next
      case (WriteFailed x)
      with st have f: "eng_robots e' = eng_robots e" "sameSettings e e'"
        "eng_jobs e' = eng_jobs e \<and> eng_heldBy e' = eng_heldBy e
          \<or> eng_jobs e' = go_put jid (j\<lparr>job_Status := StatusPending, job_AssignedRobot := []\<rparr>) (eng_jobs e)
            \<and> eng_heldBy e' = eng_heldBy (noteAssignedLocked (assigned j (rob_ID robot) 0) e)"
        by simp_all
      have "j\<lparr>job_Status := StatusPending, job_AssignedRobot := []\<rparr> = j\<lparr>job_AssignedRobot := []\<rparr>"
        using j(2) by (cases j) simp
      then have u: "untouched e e' jid" "\<forall>x. x \<noteq> jid \<longrightarrow> getJob e' x = getJob e x"
        using f(3) j by (auto simp: untouched_def)
      have "engine_ok e'"
      proof (cases "eng_jobs e' = eng_jobs e \<and> eng_heldBy e' = eng_heldBy e")
        case True
        then show ?thesis using ok f(1,2) engine_ok_cong [of e' e] by (simp add: sameSettings_def)
      next
        case False
        then show ?thesis using unassign_ok [OF ok j _ f(1) _ f(2)] f(3) by blast
      qed
      then show ?thesis using WriteFailed f(1,2) u by simp
    next
      case (Given a')
      with st have f: "a' = \<lparr>asg_JobID = jid, asg_RobotID = rob_ID robot\<rparr>" "sameSettings e e'"
        "eng_jobs e' = go_put jid (assigned j (rob_ID robot) (unixMilli (clk (2 * k + 1)))) (eng_jobs e)"
        "eng_robots e' = go_put (rob_ID robot) (reservedRobot robot) (eng_robots e)"
        "eng_heldBy e' = eng_heldBy (noteAssignedLocked (assigned j (rob_ID robot) 0) e)"
        by simp_all
      have "engine_ok e'" by (rule assign_ok [OF ok j r f(3,4,5,2)])
      moreover have "givenBy clk e e' a'"
        unfolding givenBy_def using f j r el
        by (intro exI [where x = j] exI [where x = robot] exI [where x = k]) simp
      ultimately show ?thesis using Given f by auto
    qed
  qed
  then show "engine_ok e'" "sameSettings e e'"
    "\<And>x. x \<noteq> jid \<Longrightarrow> getJob e' x = getJob e x"
    "out = NoRobot \<Longrightarrow> e' = e \<and> bestRobotFor e j (clk (2 * k)) = None"
    "out = WriteFailed err \<Longrightarrow> eng_robots e' = eng_robots e \<and> untouched e e' jid"
    "out = Given a \<Longrightarrow> asg_JobID a = jid \<and> givenBy clk e e' a
       \<and> (\<forall>x. x \<noteq> asg_RobotID a \<longrightarrow> getRobot e' x = getRobot e x)"
    by blast+
qed

subsection \<open>The whole pass\<close>

definition passOf ::
  "(nat \<Rightarrow> instant) \<Rightarrow> string list \<Rightarrow> 's engine \<Rightarrow> 's engine \<Rightarrow> Assignment list \<Rightarrow> bool" where
  "passOf clk jids e e' new \<longleftrightarrow>
     engine_ok e' \<and> sameSettings e e' \<and> subseq (map asg_JobID new) jids
   \<and> distinct (map asg_RobotID new) \<and> (\<forall>a \<in> set new. givenBy clk e e' a)
   \<and> (\<forall>x. x \<notin> asg_JobID ` set new \<longrightarrow> untouched e e' x)
   \<and> (\<forall>x. x \<notin> set jids \<longrightarrow> getJob e' x = getJob e x)
   \<and> (\<forall>x. x \<notin> asg_RobotID ` set new \<longrightarrow> getRobot e' x = getRobot e x)"

definition allPending :: "'s engine \<Rightarrow> string list \<Rightarrow> bool" where
  "allPending e jids \<longleftrightarrow> (\<forall>jid \<in> set jids. \<exists>j. getJob e jid = Some j \<and> job_Status j = StatusPending)"

lemma allPending_other:
  "allPending e jids \<Longrightarrow> (\<And>x. x \<noteq> jid \<Longrightarrow> getJob e' x = getJob e x) \<Longrightarrow> jid \<notin> set jids \<Longrightarrow>
     allPending e' jids"
  unfolding allPending_def by metis

lemma givenBy_available:
  "givenBy clk e e' a \<Longrightarrow> \<exists>r. getRobot e (asg_RobotID a) = Some r \<and> rob_Available r"
  by (auto simp: givenBy_def robotEligibleLocked_def split: if_splits)

lemma givenBy_earlier:
  assumes "givenBy clk e1 e' a" and "sameSettings e e1"
    and "getJob e1 (asg_JobID a) = getJob e (asg_JobID a)"
    and "getRobot e1 (asg_RobotID a) = getRobot e (asg_RobotID a)"
  shows "givenBy clk e e' a"
  using assms by (simp add: givenBy_def eligible_cong)

lemma givenBy_later:
  assumes "givenBy clk e e1 a" and "getJob e' (asg_JobID a) = getJob e1 (asg_JobID a)"
    and "getRobot e' (asg_RobotID a) = getRobot e1 (asg_RobotID a)"
  shows "givenBy clk e e' a"
  using assms by (simp add: givenBy_def)

lemma subseq_mem: "subseq xs ys \<Longrightarrow> set xs \<subseteq> set ys"
  by (induction rule: list_emb.induct) auto

lemma subseq_distinct: "subseq xs ys \<Longrightarrow> distinct ys \<Longrightarrow> distinct xs"
  by (auto simp: subseq_conv_nths)

text \<open>One step in front of a pass.\<close>

lemma passOf_skip:
  assumes p: "passOf clk jids e1 e' new" and s: "sameSettings e e1"
    and o: "\<And>x. x \<noteq> jid \<Longrightarrow> getJob e1 x = getJob e x" and u: "untouched e e1 jid"
    and r: "eng_robots e1 = eng_robots e" and d: "jid \<notin> set jids"
  shows "passOf clk (jid # jids) e e' new"
proof -
  have jids: "asg_JobID ` set new \<subseteq> set jids"
    using p subseq_mem [of "map asg_JobID new" jids] by (auto simp: passOf_def)
  have "givenBy clk e e' a" if "a \<in> set new" for a
  proof (rule givenBy_earlier)
    show "givenBy clk e1 e' a" using p that by (simp add: passOf_def)
    have "asg_JobID a \<noteq> jid" using jids that d by auto
    then show "getJob e1 (asg_JobID a) = getJob e (asg_JobID a)" by (rule o)
  qed (use s r in simp_all)
  moreover have "untouched e e' x" if "x \<notin> asg_JobID ` set new" for x
  proof -
    have "untouched e e1 x" using o u by (cases "x = jid") (simp_all add: untouched_def)
    moreover have "untouched e1 e' x" using p that by (simp add: passOf_def)
    ultimately show ?thesis by (rule untouched_trans)
  qed
  moreover have "getJob e' x = getJob e x" if "x \<notin> set (jid # jids)" for x
    using p that o by (simp add: passOf_def)
  ultimately show ?thesis
    using p sameSettings_trans [OF s] r by (auto simp: passOf_def intro: list_emb_Cons)
qed

lemma passOf_give:
  assumes p: "passOf clk jids e1 e' new" and s: "sameSettings e e1" and g: "givenBy clk e e1 a"
    and aj: "asg_JobID a = jid"
    and o: "\<And>x. x \<noteq> jid \<Longrightarrow> getJob e1 x = getJob e x"
    and r: "\<And>x. x \<noteq> asg_RobotID a \<Longrightarrow> getRobot e1 x = getRobot e x" and d: "jid \<notin> set jids"
  shows "passOf clk (jid # jids) e e' (a # new)"
proof -
  have jids: "asg_JobID ` set new \<subseteq> set jids"
    using p subseq_mem [of "map asg_JobID new" jids] by (auto simp: passOf_def)
  have given: "givenBy clk e1 e' b" if "b \<in> set new" for b using p that by (simp add: passOf_def)
  have other: "asg_RobotID b \<noteq> asg_RobotID a" if b: "b \<in> set new" for b
  proof
    assume "asg_RobotID b = asg_RobotID a"
    then obtain rb where "getRobot e1 (asg_RobotID a) = Some rb" "rob_Available rb"
      using givenBy_available [OF given [OF b]] by auto
    then show False using g by (auto simp: givenBy_def)
  qed
  then have fresh: "asg_RobotID a \<notin> asg_RobotID ` set new" by (metis imageE)
  have "givenBy clk e e' b" if "b \<in> set new" for b
  proof (rule givenBy_earlier [OF given [OF that] s])
    have "asg_JobID b \<noteq> jid" using jids that d by auto
    then show "getJob e1 (asg_JobID b) = getJob e (asg_JobID b)" by (rule o)
    show "getRobot e1 (asg_RobotID b) = getRobot e (asg_RobotID b)" using other [OF that] by (rule r)
  qed
  moreover have "givenBy clk e e' a"
    by (rule givenBy_later [OF g]) (use p d aj fresh in \<open>auto simp: passOf_def\<close>)
  moreover have "untouched e e' x" if "x \<notin> asg_JobID ` set (a # new)" for x
  proof -
    have "getJob e1 x = getJob e x" using that aj o by simp
    moreover have "untouched e1 e' x" using p that by (simp add: passOf_def)
    ultimately show ?thesis by (simp add: untouched_def)
  qed
  moreover have "getJob e' x = getJob e x" if "x \<notin> set (jid # jids)" for x
    using p that o by (simp add: passOf_def)
  moreover have "getRobot e' x = getRobot e x" if "x \<notin> asg_RobotID ` set (a # new)" for x
    using p that r by (simp add: passOf_def)
  ultimately show ?thesis
    using p sameSettings_trans [OF s] aj fresh by (auto simp: passOf_def)
qed

lemma dispatchLoop_pass:
  assumes "engine_ok e" and "distinct jids" and "allPending e jids"
    and "dispatchLoop clk k jids e out p err = (e', out', p', err')"
  shows "\<exists>new. out' = out @ new \<and> passOf clk jids e e' new"
  using assms
proof (induction jids arbitrary: k e out p err)
  case Nil
  then show ?case by (auto simp: passOf_def)
next
  case (Cons jid jids)
  obtain j where j: "getJob e jid = Some j" "job_Status j = StatusPending"
    using Cons.prems(3) by (auto simp: allPending_def)
  obtain e1 res where s: "dispatchStep clk k jid e = (e1, res)" by fastforce
  note st = dispatchStep_ok [OF Cons.prems(1) j s]
  have d: "jid \<notin> set jids" "distinct jids" using Cons.prems(2) by simp_all
  have ap: "allPending e1 jids"
    using allPending_other [OF _ st(3) d(1)] Cons.prems(3) by (simp add: allPending_def)
  show ?case
  proof (cases res)
    case NoRobot
    then have "dispatchLoop clk (Suc k) jids e1 out p err = (e', out', p', err')"
      using Cons.prems(4) s by simp
    then obtain new where "out' = out @ new" "passOf clk jids e1 e' new"
      using Cons.IH [OF st(1) d(2) ap] by blast
    then show ?thesis using passOf_skip [OF _ st(2,3) _ _ d(1)] st(4) [OF NoRobot] by auto
  next
    case (WriteFailed x)
    then have "dispatchLoop clk (Suc k) jids e1 out True (Some x) = (e', out', p', err')"
      using Cons.prems(4) s by simp
    then obtain new where "out' = out @ new" "passOf clk jids e1 e' new"
      using Cons.IH [OF st(1) d(2) ap] by blast
    then show ?thesis using passOf_skip [OF _ st(2,3) _ _ d(1)] st(5) [OF WriteFailed] by auto
  next
    case (Given a)
    then have "dispatchLoop clk (Suc k) jids e1 (out @ [a]) True err = (e', out', p', err')"
      using Cons.prems(4) s by simp
    then obtain new where n: "out' = (out @ [a]) @ new" "passOf clk jids e1 e' new"
      using Cons.IH [OF st(1) d(2) ap] by blast
    have "passOf clk (jid # jids) e e' (a # new)"
      using passOf_give [OF n(2) st(2) _ _ st(3) _ d(1)] st(6) [OF Given] by blast
    then show ?thesis using n(1) by auto
  qed
qed

lemma allPending_dispatchOrder: "base_ok e \<Longrightarrow> allPending e (map job_ID (dispatchOrder e))"
  using mem_dispatchOrder by (fastforce simp: allPending_def)

lemma DispatchOnce_pass:
  assumes ok: "engine_ok e" and d: "DispatchOnce clk e = (e', out)"
  shows "engine_ok e'"
    "\<exists>e1. passOf clk (map job_ID (dispatchOrder e)) e e1 out
      \<and> eng_jobs e' = eng_jobs e1 \<and> eng_robots e' = eng_robots e1"
proof -
  note b = engine_okD(1) [OF ok]
  obtain e1 out1 p err where l: "dispatchLoop clk 0 (map job_ID (dispatchOrder e)) e [] False None
      = (e1, out1, p, err)" by (metis prod_cases4)
  then have e': "e' = (if p then recordPersistOutcome [err] e1 else e1)" "out = out1"
    using d by (auto simp: DispatchOnce_def)
  have "passOf clk (map job_ID (dispatchOrder e)) e e1 out"
    using dispatchLoop_pass [OF ok distinct_dispatchOrder [OF b] allPending_dispatchOrder [OF b] l] e'
    by simp
  then show "\<exists>e1. passOf clk (map job_ID (dispatchOrder e)) e e1 out
      \<and> eng_jobs e' = eng_jobs e1 \<and> eng_robots e' = eng_robots e1"
    using e' by (intro exI [where x = e1]) simp
  have "engine_ok e1" using \<open>passOf clk _ e e1 out\<close> by (simp add: passOf_def)
  moreover have "engine_ok (recordPersistOutcome [err] e1) = engine_ok e1"
    by (rule engine_ok_cong) simp_all
  ultimately show "engine_ok e'" using e' by simp
qed

subsection \<open>No robot is left idle, and no priority is inverted\<close>

text \<open>
  With the clock standing still during the pass and no failed write: a job that stays pending has
  no eligible robot at the end, and a robot never goes to a job while an earlier job of the pass
  that it was eligible for stays without one.
\<close>

lemma dispatchLoop_err: "dispatchLoop clk k jids e out p (Some x) = (e', out', p', err') \<Longrightarrow> err' \<noteq> None"
  by (induction jids arbitrary: k e out p x)
     (auto split: prod.splits dispatchOutcome.splits)

lemma passOf_eligible:
  assumes p: "passOf clk jids e e' new" and wf: "robots_wf e" "robots_wf e'"
    and r: "r \<in> set (go_vals (eng_robots e'))" "robotEligibleLocked e' r j now"
  shows "r \<in> set (go_vals (eng_robots e)) \<and> robotEligibleLocked e r j now"
proof -
  have s: "sameSettings e e'" using p by (simp add: passOf_def)
  have g: "getRobot e' (rob_ID r) = Some r" using go_wf_vals [OF wf(2)] r(1) by blast
  have av: "rob_Available r" using r(2) by (auto simp: robotEligibleLocked_def split: if_splits)
  have "rob_ID r \<notin> asg_RobotID ` set new"
  proof
    assume "rob_ID r \<in> asg_RobotID ` set new"
    then obtain a where a: "a \<in> set new" "asg_RobotID a = rob_ID r" by (metis imageE)
    then have "givenBy clk e e' a" using p by (simp add: passOf_def)
    then show False using g av a(2) by (auto simp: givenBy_def)
  qed
  then have "getRobot e (rob_ID r) = Some r" using p g by (simp add: passOf_def)
  then show ?thesis using go_wf_vals [OF wf(1)] r(2) eligible_cong [OF s] by blast
qed

lemma passOf_no_robot:
  assumes p: "passOf clk jids e e' new" and wf: "robots_wf e" "robots_wf e'"
    and n: "bestRobotFor e j now = None"
  shows "bestRobotFor e' j now = None"
  using n passOf_eligible [OF p wf] unfolding bestRobotFor_None by blast

lemma dispatchLoop_maximal:
  assumes "engine_ok e" and "distinct jids" and "allPending e jids"
    and "dispatchLoop (\<lambda>_. now) k jids e out p None = (e', out', p', None)"
    and "jid \<in> set jids" and "getJob e jid = Some j" and "jid \<notin> asg_JobID ` set out'"
  shows "bestRobotFor e' j now = None"
  using assms
proof (induction jids arbitrary: k e out p)
  case (Cons x jids)
  let ?clk = "\<lambda>_::nat. now"
  obtain jx where jx: "getJob e x = Some jx" "job_Status jx = StatusPending"
    using Cons.prems(3) by (auto simp: allPending_def)
  obtain e1 res where s: "dispatchStep ?clk k x e = (e1, res)" by fastforce
  note st = dispatchStep_ok [OF Cons.prems(1) jx s]
  have d: "x \<notin> set jids" "distinct jids" using Cons.prems(2) by simp_all
  have ap: "allPending e1 jids"
    using allPending_other [OF _ st(3) d(1)] Cons.prems(3) by (simp add: allPending_def)
  have later: "getJob e1 jid = Some j" if "jid \<in> set jids"
    using st(3) that d(1) Cons.prems(6) by (metis)
  show ?case
  proof (cases res)
    case NoRobot
    then have l: "dispatchLoop ?clk (Suc k) jids e1 out p None = (e', out', p', None)"
      using Cons.prems(4) s by simp
    show ?thesis
    proof (cases "jid = x")
      case True
      obtain new where new: "passOf ?clk jids e1 e' new"
        using dispatchLoop_pass [OF st(1) d(2) ap l] by blast
      have "bestRobotFor e1 j now = None" using st(4) [OF NoRobot] jx Cons.prems(6) True by simp
      then show ?thesis
        using passOf_no_robot [OF new] base_robots_wf engine_okD(1) st(1) new
        by (metis passOf_def)
    next
      case False
      then have "jid \<in> set jids" using Cons.prems(5) by simp
      then show ?thesis using Cons.IH [OF st(1) d(2) ap l _ later Cons.prems(7)] by simp
    qed
  next
    case (WriteFailed y)
    then have "dispatchLoop ?clk (Suc k) jids e1 out True (Some y) = (e', out', p', None)"
      using Cons.prems(4) s by simp
    then show ?thesis using dispatchLoop_err by blast
  next
    case (Given a)
    then have l: "dispatchLoop ?clk (Suc k) jids e1 (out @ [a]) True None = (e', out', p', None)"
      using Cons.prems(4) s by simp
    obtain new where "out' = (out @ [a]) @ new" using dispatchLoop_pass [OF st(1) d(2) ap l] by blast
    then have "jid \<noteq> x" using Cons.prems(7) st(6) [OF Given] by auto
    then have "jid \<in> set jids" using Cons.prems(5) by simp
    then show ?thesis using Cons.IH [OF st(1) d(2) ap l _ later Cons.prems(7)] by simp
  qed
qed simp

lemma dispatchLoop_priority:
  assumes "engine_ok e" and "distinct jids" and "allPending e jids"
    and "dispatchLoop (\<lambda>_. now) k jids e out p None = (e', out @ new, p', None)"
    and "jids = xs @ x # ys" and "b \<in> set new" and "asg_JobID b \<in> set ys"
    and "getJob e x = Some jx" and "getRobot e (asg_RobotID b) = Some r"
    and "robotEligibleLocked e r jx now"
  shows "x \<in> asg_JobID ` set new"
  using assms
proof (induction jids arbitrary: k e out p new xs)
  case (Cons y jids)
  let ?clk = "\<lambda>_::nat. now"
  obtain jy where jy: "getJob e y = Some jy" "job_Status jy = StatusPending"
    using Cons.prems(3) by (auto simp: allPending_def)
  obtain e1 res where s: "dispatchStep ?clk k y e = (e1, res)" by fastforce
  note st = dispatchStep_ok [OF Cons.prems(1) jy s]
  have d: "y \<notin> set jids" "distinct jids" using Cons.prems(2) by simp_all
  have ap: "allPending e1 jids"
    using allPending_other [OF _ st(3) d(1)] Cons.prems(3) by (simp add: allPending_def)
  have ys: "asg_JobID b \<in> set jids"
    using Cons.prems(5,7) by (cases xs) auto
  have el: "robotEligibleLocked e1 r jx now" using Cons.prems(10) by (simp add: eligible_cong [OF st(2)])
  have tl: "\<exists>zs. jids = zs @ x # ys" if "x \<noteq> y" using Cons.prems(5) that by (cases xs) auto
  have job: "getJob e1 x = Some jx" if "x \<noteq> y" using st(3) that Cons.prems(8) by simp
  show ?case
  proof (cases res)
    case NoRobot
    then have e1: "e1 = e" and none: "bestRobotFor e jy now = None" using st(4) by auto
    have l: "dispatchLoop ?clk (Suc k) jids e out p None = (e', out @ new, p', None)"
      using Cons.prems(4) s NoRobot e1 by simp
    have "x \<noteq> y"
    proof
      assume "x = y"
      have "rob_ID r = asg_RobotID b"
        using base_robot_ID [OF engine_okD(1) [OF Cons.prems(1)] Cons.prems(9)] .
      then have "r \<in> set (go_vals (eng_robots e))"
        using go_wf_vals [OF base_robots_wf [OF engine_okD(1) [OF Cons.prems(1)]]] Cons.prems(9) by simp
      moreover have "jx = jy" using \<open>x = y\<close> Cons.prems(8) jy(1) by simp
      ultimately show False using none Cons.prems(10) unfolding bestRobotFor_None by blast
    qed
    then show ?thesis
      using Cons.IH [OF Cons.prems(1) d(2) ap [unfolded e1] l _ Cons.prems(6,7,8,9,10)] tl by blast
  next
    case (WriteFailed z)
    then have "dispatchLoop ?clk (Suc k) jids e1 out True (Some z) = (e', out @ new, p', None)"
      using Cons.prems(4) s by simp
    then show ?thesis using dispatchLoop_err by blast
  next
    case (Given a)
    then have l: "dispatchLoop ?clk (Suc k) jids e1 (out @ [a]) True None = (e', out @ new, p', None)"
      using Cons.prems(4) s by simp
    then obtain new1 where n: "out @ new = (out @ [a]) @ new1" "passOf ?clk jids e1 e' new1"
      using dispatchLoop_pass [OF st(1) d(2) ap l] by blast
    then have new: "new = a # new1" by simp
    have a: "asg_JobID a = y" "givenBy ?clk e e1 a" using st(6) [OF Given] by auto
    show ?thesis
    proof (cases "x = y")
      case True
      then show ?thesis using new a by simp
    next
      case False
      have "b \<noteq> a" using ys d(1) a(1) by auto
      then have b: "b \<in> set new1" using Cons.prems(6) new by simp
      then have g: "givenBy ?clk e1 e' b" using n(2) by (simp add: passOf_def)
      have "asg_RobotID b \<noteq> asg_RobotID a"
        using givenBy_available [OF g] a(2) by (auto simp: givenBy_def)
      then have r1: "getRobot e1 (asg_RobotID b) = Some r" using st(6) [OF Given] Cons.prems(9) by simp
      have l1: "dispatchLoop ?clk (Suc k) jids e1 (out @ [a]) True None = (e', (out @ [a]) @ new1, p', None)"
        using l n(1) by simp
      obtain zs where "jids = zs @ x # ys" using tl [OF False] by blast
      from Cons.IH [OF st(1) d(2) ap l1 this b Cons.prems(7) job [OF False] r1 el] new
      show ?thesis by simp
    qed
  qed
qed simp

lemma dispatchLoop_persisted:
  "dispatchLoop clk k jids e out True err = (e', out', p', err') \<Longrightarrow> p'"
  by (induction jids arbitrary: k e out err) (auto split: prod.splits dispatchOutcome.splits)

lemma dispatchLoop_no_write:
  "dispatchLoop clk k jids e out p err = (e', out', False, err') \<Longrightarrow> err' = err"
  by (induction jids arbitrary: k e out p err)
     (auto split: prod.splits dispatchOutcome.splits dest: dispatchLoop_persisted)

text \<open>The two, on the pass itself.\<close>

lemma DispatchOnce_loop:
  assumes "DispatchOnce clk e = (e', out)" and "eng_lastPersistErr e = None"
    and "eng_lastPersistErr e' = None" and "engine_ok e"
  shows "\<exists>e1 p. dispatchLoop clk 0 (map job_ID (dispatchOrder e)) e [] False None = (e1, out, p, None)
    \<and> eng_robots e' = eng_robots e1 \<and> eng_jobs e' = eng_jobs e1 \<and> sameSettings e1 e'"
proof -
  obtain e1 out1 p err where l: "dispatchLoop clk 0 (map job_ID (dispatchOrder e)) e [] False None
      = (e1, out1, p, err)" by (metis prod_cases4)
  then have e': "e' = (if p then recordPersistOutcome [err] e1 else e1)" "out = out1"
    using assms(1) by (auto simp: DispatchOnce_def)
  have "err = None"
    using e'(1) assms(3) l dispatchLoop_no_write [of clk 0 _ e "[]" False None e1 out1 err]
    by (cases p; cases err) auto
  moreover have "sameSettings e1 e'"
    using e' assms dispatchLoop_pass [OF assms(4) distinct_dispatchOrder [OF engine_okD(1) [OF assms(4)]]
        allPending_dispatchOrder [OF engine_okD(1) [OF assms(4)]] l]
    by (auto simp: sameSettings_def passOf_def)
  ultimately show ?thesis using l e' by (intro exI [where x = e1] exI [where x = p]) auto
qed

end
