(* ===== verification/Requeue.thy ===== *)
theory Requeue
  imports Invariant
begin

section \<open>Jobs that go back to the queue\<close>

text \<open>
  \<open>RequeueJob\<close> (\<open>dispatcher.go\<close>), replanning (\<open>replan.go\<close>), confirmed stops
  (\<open>stopconfirm.go\<close>) and the sweep for silent robots (\<open>DetectStaleAssignmentsStop\<close>). A list of
  job pointers is a list of IDs; the record is read when the code reads through the pointer.
\<close>

subsection \<open>The shared part\<close>

definition heldRobot :: "robot \<Rightarrow> robot" where
  "heldRobot r = r\<lparr>rob_Available := False, rob_selfReportedUnavailable := True\<rparr>"

definition holdRobot :: "string \<Rightarrow> 's engine \<Rightarrow> 's engine \<times> serror option" where
  "holdRobot rid e =
     (case getRobot e rid of
        None \<Rightarrow> (e, None)
      | Some r \<Rightarrow> persistRobotLocked (heldRobot r) (setRobot (heldRobot r) e))"

definition dropStopReq :: "string \<Rightarrow> 's engine \<Rightarrow> 's engine" where
  "dropStopReq jid e = e\<lparr>eng_stopReq := go_del jid (eng_stopReq e)\<rparr>"

definition requeueJobLocked :: "string \<Rightarrow> 's engine \<Rightarrow> 's engine \<times> serror option \<times> serror option" where
  "requeueJobLocked jid e =
     (case getJob e jid of
        None \<Rightarrow> (e, None, None)
      | Some j \<Rightarrow>
         (let (e1, robotErr) = holdRobot (job_AssignedRobot j) e;
              j1 = j\<lparr>job_AssignedRobot := [], job_AssignedAtMs := 0\<rparr>;
              e2 = setJob j1 (dropStopReq jid e1);
              j2 = j1\<lparr>job_Status := computeStatus (eng_jobs e2) j1\<rparr>;
              (e3, jobErr) = persistJobLocked j2 (setJob j2 e2)
          in (e3, robotErr, jobErr)))"

definition jobsOfRobotLocked :: "string \<Rightarrow> bool \<Rightarrow> 's engine \<Rightarrow> string list \<times> 's engine" where
  "jobsOfRobotLocked rid includeUnknown e =
     (let (js, e') = jobsHeldByLocked rid e
      in (map job_ID (sort_key job_seq (filter (\<lambda>j. job_Status j = StatusAssigned \<or>
            includeUnknown \<and> job_Status j = StatusUnknown) js)), e'))"

fun requeueEach :: "string list \<Rightarrow> 's engine \<Rightarrow> serror option list \<Rightarrow> 's engine \<times> serror option list" where
  "requeueEach [] e errs = (e, errs)"
| "requeueEach (jid # jids) e errs =
     (let (e', robotErr, jobErr) = requeueJobLocked jid e
      in requeueEach jids e' (errs @ [robotErr, jobErr]))"

fun persistEach :: "string list \<Rightarrow> 's engine \<Rightarrow> serror option list \<Rightarrow> 's engine \<times> serror option list" where
  "persistEach [] e errs = (e, errs)"
| "persistEach (rid # rids) e errs =
     (case getRobot e rid of
        None \<Rightarrow> persistEach rids e errs
      | Some r \<Rightarrow> (let (e', err) = persistRobotLocked r e in persistEach rids e' (errs @ [err])))"

text \<open>\<open>requeueAllLocked\<close>: one transaction, the IDs in the order given, the outcome recorded.\<close>

definition requeueAllLocked :: "string list \<Rightarrow> string list \<Rightarrow> 's engine \<Rightarrow> 's engine \<times> string list" where
  "requeueAllLocked jids extra e =
     (let (e1, errs1) = requeueEach jids (beginBatchLocked e) [];
          (e2, errs2) = persistEach extra e1 errs1;
          (e3, commitErr) = commitBatchLocked e2
      in (recordPersistOutcome (errs2 @ [commitErr]) e3, jids))"

definition RequeueJob :: "string \<Rightarrow> string \<Rightarrow> 's engine \<Rightarrow> 's engine \<times> engError option" where
  "RequeueJob jid rid e =
     (case getJob e jid of
        None \<Rightarrow> (e, Some (ErrUnknownJob jid))
      | Some j \<Rightarrow>
          if waiting (job_Status j) then (e, None)
          else if job_Status j \<in> {StatusDone, StatusFailed, StatusCancelled}
          then (e, Some (ErrJobFinished jid (job_Status j)))
          else if rid \<noteq> [] \<and> rid \<noteq> job_AssignedRobot j
          then (e, Some (ErrRobotMismatch jid (job_AssignedRobot j) rid))
          else
            (let (e1, robotErr, jobErr) = requeueJobLocked jid (beginBatchLocked e);
                 (e2, commitErr) = commitBatchLocked e1
             in (recordPersistOutcome [robotErr, jobErr, commitErr] e2, None)))"

definition ReplanRobot :: "string \<Rightarrow> 's engine \<Rightarrow> 's engine \<times> (engError + string list)" where
  "ReplanRobot rid e =
     (if \<not> rp_Enabled (eng_replan e) then (e, Inl ErrReplanOff)
      else case getRobot e rid of
        None \<Rightarrow> (e, Inl (ErrUnknownRobot rid))
      | Some r \<Rightarrow>
         (let (jids, e1) = jobsOfRobotLocked rid True (setRobot (heldRobot r) e);
              (e2, ids) = requeueAllLocked jids [rid] e1
          in (e2, Inr ids)))"

subsection \<open>Confirmed stops\<close>

datatype stopDecision = stopRequeue | stopRequested | stopWaiting | stopUnknown

definition DefaultStopAckTimeout :: duration where
  "DefaultStopAckTimeout = 30 * second"

definition stopAckTimeoutLocked :: "'s engine \<Rightarrow> duration" where
  "stopAckTimeoutLocked e =
     (if 0 < rp_StopAckTimeout (eng_replan e) then rp_StopAckTimeout (eng_replan e)
      else DefaultStopAckTimeout)"

text \<open>The open request of the current assignment of a job, if any.\<close>

definition currentStop :: "job \<Rightarrow> 's engine \<Rightarrow> stopRequest option" where
  "currentStop j e =
     (case go_get (eng_stopReq e) (job_ID j) of
        None \<Rightarrow> None
      | Some req \<Rightarrow>
          if stp_robotID req \<noteq> job_AssignedRobot j \<or> stp_attempt req \<noteq> job_Attempt j then None
          else Some req)"

definition stopDecisionLocked :: "job \<Rightarrow> instant \<Rightarrow> 's engine \<Rightarrow> 's engine \<times> stopDecision" where
  "stopDecisionLocked j now e =
     (case getRobot e (job_AssignedRobot j) of
        None \<Rightarrow> (e, stopRequeue)
      | Some robot \<Rightarrow>
          if \<not> rob_StopCapable robot then (e, stopRequeue)
          else case currentStop j e of
            None \<Rightarrow>
              (e\<lparr>eng_stopReq := go_put (job_ID j)
                  \<lparr>stp_robotID = job_AssignedRobot j, stp_attempt = job_Attempt j, stp_at = now,
                   stp_timeoutAt = now + stopAckTimeoutLocked e, stp_expired = False\<rparr>
                  (eng_stopReq e)\<rparr>, stopRequested)
          | Some req \<Rightarrow>
              if now < stp_timeoutAt req then (e, stopWaiting)
              else
                let e' = e\<lparr>eng_stopReq := go_put (job_ID j) (req\<lparr>stp_expired := True\<rparr>) (eng_stopReq e)\<rparr>
                in if rp_AllowUnconfirmed (eng_replan e) then (e', stopRequeue) else (e', stopUnknown))"

record StopRequest =
  sr_JobID :: string
  sr_RobotID :: string
  sr_RequestedAtMs :: int
  sr_Expired :: bool

definition stopListed :: "'s engine \<Rightarrow> string \<times> stopRequest \<Rightarrow> bool" where
  "stopListed e = (\<lambda>(jid, r).
     case getJob e jid of None \<Rightarrow> False
     | Some j \<Rightarrow> inFlight (job_Status j) \<and> job_AssignedRobot j = stp_robotID r)"

definition StopRequests :: "'s engine \<Rightarrow> StopRequest list" where
  "StopRequests e =
     sort_key sr_JobID
       (map (\<lambda>(jid, r). \<lparr>sr_JobID = jid, sr_RobotID = stp_robotID r,
             sr_RequestedAtMs = unixMilli (stp_at r), sr_Expired = stp_expired r\<rparr>)
         (filter (stopListed e) (eng_stopReq e)))"

definition AckStop :: "string \<Rightarrow> string \<Rightarrow> 's engine \<Rightarrow> 's engine \<times> engError option" where
  "AckStop rid jid e =
     (if \<not> rp_Enabled (eng_replan e) then (e, Some ErrReplanOff)
      else case getJob e jid of
        None \<Rightarrow> (e, Some (ErrUnknownJob jid))
      | Some j \<Rightarrow>
          if job_AssignedRobot j \<noteq> [] \<and> job_AssignedRobot j \<noteq> rid
          then (e, Some (ErrRobotMismatch jid (job_AssignedRobot j) rid))
          else
            let isOpen = (inFlight (job_Status j) \<and>
              (case go_get (eng_stopReq e) jid of None \<Rightarrow> False
               | Some req \<Rightarrow> stp_robotID req = rid \<and> stp_attempt req = job_Attempt j))
            in if \<not> isOpen then (e, Some (ErrNoStopRequest jid))
               else (fst (requeueAllLocked [jid] [] e), None))"

subsection \<open>The sweep for silent robots\<close>

record StaleResult =
  res_Unknown :: "string list"
  res_Requeued :: "string list"
  res_StopRequested :: "string list"

text \<open>
  \<open>silentRobot\<close>: the robot checked in once and not since \<open>timeout\<close>; a heartbeat from the future
  counts as silence. A robot that was never heard is not silent.
\<close>

definition silentRobot :: "duration \<Rightarrow> instant \<Rightarrow> robot \<Rightarrow> bool" where
  "silentRobot timeout now r =
     (case rob_LastHeartbeat r of
        None \<Rightarrow> False
      | Some hb \<Rightarrow> \<not> (time_sub now hb < timeout \<and> \<not> heartbeatFromFuture now hb))"

fun staleScan :: "duration \<Rightarrow> instant \<Rightarrow> job list \<Rightarrow> job list \<Rightarrow> 's engine \<Rightarrow> job list \<times> 's engine" where
  "staleScan timeout now [] stale e = (stale, e)"
| "staleScan timeout now (j # js) stale e =
     (if job_Status j \<noteq> StatusAssigned then staleScan timeout now js stale e
      else case getRobot e (job_AssignedRobot j) of
        None \<Rightarrow> staleScan timeout now js stale e
      | Some r \<Rightarrow>
          if \<not> silentRobot timeout now r then staleScan timeout now js stale (dropStopReq (job_ID j) e)
          else staleScan timeout now js (stale @ [j]) e)"

fun decideStops ::
  "instant \<Rightarrow> job list \<Rightarrow> string list \<Rightarrow> string list \<Rightarrow> string list \<Rightarrow> 's engine \<Rightarrow>
   string list \<times> string list \<times> string list \<times> 's engine" where
  "decideStops now [] back asked unknown e = (back, asked, unknown, e)"
| "decideStops now (j # js) back asked unknown e =
     (let (e', d) = stopDecisionLocked j now e
      in decideStops now js
           (if d = stopRequeue then back @ [job_ID j] else back)
           (if d = stopRequested then asked @ [job_ID j] else asked)
           (if d = stopUnknown then unknown @ [job_ID j] else unknown) e')"

fun markEach :: "string list \<Rightarrow> 's engine \<Rightarrow> serror option \<Rightarrow> 's engine \<times> serror option" where
  "markEach [] e persistErr = (e, persistErr)"
| "markEach (jid # jids) e persistErr =
     (case getJob e jid of
        None \<Rightarrow> markEach jids e persistErr
      | Some j \<Rightarrow>
         (let j' = j\<lparr>job_Status := StatusUnknown\<rparr>;
              (e', err) = persistJobLocked j' (emitLocked EventUnknown j' (setJob j' e))
          in markEach jids e' (case err of None \<Rightarrow> persistErr | Some x \<Rightarrow> Some x)))"

definition markUnknownLocked :: "string list \<Rightarrow> 's engine \<Rightarrow> 's engine" where
  "markUnknownLocked jids e =
     (if jids = [] then e
      else
        let (e1, persistErr) = markEach jids (beginBatchLocked e) None;
            (e2, commitErr) = commitBatchLocked e1
        in recordPersistOutcome [persistErr, commitErr] e2)"

definition DetectStaleAssignmentsStop :: "duration \<Rightarrow> instant \<Rightarrow> 's engine \<Rightarrow> 's engine \<times> StaleResult" where
  "DetectStaleAssignmentsStop timeout now e =
     (let (found, e1) = staleScan timeout now (go_vals (eng_jobs e)) [] e;
          stale = sort_key job_seq found
      in if rp_Enabled (eng_replan e) \<and> rp_OnStale (eng_replan e) then
           (let (back, asked, unknown, e2) = decideStops now stale [] [] [] e1;
                (e3, requeued) = (if back = [] then (e2, []) else requeueAllLocked back [] e2)
            in (markUnknownLocked unknown e3,
                \<lparr>res_Unknown = unknown, res_Requeued = requeued, res_StopRequested = asked\<rparr>))
         else
           (markUnknownLocked (map job_ID stale) e1,
            \<lparr>res_Unknown = map job_ID stale, res_Requeued = [], res_StopRequested = []\<rparr>))"

definition DetectStaleAssignmentsReplan ::
  "duration \<Rightarrow> instant \<Rightarrow> 's engine \<Rightarrow> 's engine \<times> string list \<times> string list" where
  "DetectStaleAssignmentsReplan timeout now e =
     (let (e', r) = DetectStaleAssignmentsStop timeout now e in (e', res_Unknown r, res_Requeued r))"

definition DetectStaleAssignments :: "duration \<Rightarrow> instant \<Rightarrow> 's engine \<Rightarrow> 's engine \<times> string list" where
  "DetectStaleAssignments timeout now e =
     (let (e', unknown, requeued) = DetectStaleAssignmentsReplan timeout now e in (e', unknown))"

subsection \<open>What going back to the queue changes\<close>

text \<open>
  \<open>quiet e e'\<close>: only the queue, the robots, the stop requests, the announcements and what the
  store was told differ, and a batch is open after iff it was before.
\<close>

definition quiet :: "'s engine \<Rightarrow> 's engine \<Rightarrow> bool" where
  "quiet e e' \<longleftrightarrow>
     eng_nextSeq e' = eng_nextSeq e \<and> eng_dedupIndex e' = eng_dedupIndex e
   \<and> eng_heldBy e' = eng_heldBy e \<and> eng_location e' = eng_location e
   \<and> eng_replan e' = eng_replan e \<and> eng_toolCheck e' = eng_toolCheck e
   \<and> eng_robotFreshness e' = eng_robotFreshness e
   \<and> (eng_pending e' = None \<longleftrightarrow> eng_pending e = None)
   \<and> (eng_store e' = None \<longleftrightarrow> eng_store e = None)"

lemma quiet_refl [simp]: "quiet e e"
  by (simp add: quiet_def)

lemma quiet_trans: "quiet a b \<Longrightarrow> quiet b c \<Longrightarrow> quiet a c"
  by (simp add: quiet_def)

lemma persistJob_store_None [simp]:
  "eng_store (fst (persistJobLocked j e)) = None \<longleftrightarrow> eng_store e = None"
  by (simp add: persistJobLocked_def case_prod_unfold Let_def split: option.splits)

lemma persistRobot_store_None [simp]:
  "eng_store (fst (persistRobotLocked r e)) = None \<longleftrightarrow> eng_store e = None"
  by (simp add: persistRobotLocked_def case_prod_unfold Let_def split: option.splits)

lemma quiet_helpers [simp]:
  "quiet e (setJob j e)" "quiet e (setRobot r e)" "quiet e (fst (persistJobLocked j e))"
  "quiet e (fst (persistRobotLocked r e))" "quiet e (dropStopReq jid e)"
  "quiet e (emitLocked kind j e)" "quiet e (recordPersistOutcome errs e)"
  by (simp_all add: quiet_def dropStopReq_def)

definition holdIn :: "string \<Rightarrow> (string, robot) gomap \<Rightarrow> (string, robot) gomap" where
  "holdIn rid robots =
     (case go_get robots rid of None \<Rightarrow> robots | Some r \<Rightarrow> go_put rid (heldRobot r) robots)"

lemma heldRobot_fields [simp]:
  "rob_ID (heldRobot r) = rob_ID r" "\<not> rob_Available (heldRobot r)"
  "rob_selfReportedUnavailable (heldRobot r)" "rob_Load (heldRobot r) = rob_Load r"
  "rob_Tool (heldRobot r) = rob_Tool r" "rob_LastHeartbeat (heldRobot r) = rob_LastHeartbeat r"
  "heldRobot (heldRobot r) = heldRobot r"
  by (simp_all add: heldRobot_def)

lemma get_holdIn:
  "go_get (holdIn rid robots) x =
     (if x = rid then map_option heldRobot (go_get robots x) else go_get robots x)"
  by (auto simp: holdIn_def split: option.splits)

lemma holdRobot_effect:
  assumes "robots_wf e"
  shows "eng_robots (fst (holdRobot rid e)) = holdIn rid (eng_robots e)"
    and "eng_jobs (fst (holdRobot rid e)) = eng_jobs e"
    and "eng_stopReq (fst (holdRobot rid e)) = eng_stopReq e"
    and "eng_events (fst (holdRobot rid e)) = eng_events e"
    and "quiet e (fst (holdRobot rid e))"
proof -
  show "eng_robots (fst (holdRobot rid e)) = holdIn rid (eng_robots e)"
    "eng_jobs (fst (holdRobot rid e)) = eng_jobs e"
    "eng_stopReq (fst (holdRobot rid e)) = eng_stopReq e"
    "eng_events (fst (holdRobot rid e)) = eng_events e"
    using go_wf_key [OF assms, of rid]
    by (auto simp: holdRobot_def holdIn_def setRobot_def split: option.splits)
  show "quiet e (fst (holdRobot rid e))"
    by (cases "getRobot e rid")
       (simp_all add: holdRobot_def quiet_trans [OF quiet_helpers(2) quiet_helpers(4)])
qed

definition requeued :: "(string, job) gomap \<Rightarrow> job \<Rightarrow> job" where
  "requeued jobs j =
     j\<lparr>job_AssignedRobot := [], job_AssignedAtMs := 0, job_Status := computeStatus jobs j\<rparr>"

lemma requeued_fields [simp]:
  "job_ID (requeued jobs j) = job_ID j" "job_DependsOn (requeued jobs j) = job_DependsOn j"
  "job_AssignedRobot (requeued jobs j) = []" "job_seq (requeued jobs j) = job_seq j"
  "job_DedupKey (requeued jobs j) = job_DedupKey j" "job_Attempt (requeued jobs j) = job_Attempt j"
  "job_Status (requeued jobs j) = computeStatus jobs j"
  "job_Priority (requeued jobs j) = job_Priority j"
  by (simp_all add: requeued_def)

lemma no_self_dep:
  assumes "queue_ok jobs" and "go_get jobs jid = Some j"
  shows "jid \<notin> set (job_DependsOn j)"
proof
  assume "jid \<in> set (job_DependsOn j)"
  then have "(jid, jid) \<in> depRel jobs" using assms(2) by (auto simp: depRel_def)
  then show False using queue_okD(3) [OF assms(1)] by (auto simp: acyclic_def)
qed

lemma requeueJob_effect:
  assumes b: "base_ok e" and j: "getJob e jid = Some j"
  shows "eng_jobs (fst (requeueJobLocked jid e)) = go_put jid (requeued (eng_jobs e) j) (eng_jobs e)"
    and "eng_robots (fst (requeueJobLocked jid e)) = holdIn (job_AssignedRobot j) (eng_robots e)"
    and "eng_stopReq (fst (requeueJobLocked jid e)) = go_del jid (eng_stopReq e)"
    and "eng_events (fst (requeueJobLocked jid e)) = eng_events e"
    and "quiet e (fst (requeueJobLocked jid e))"
proof -
  have jid: "job_ID j = jid" using b j by (rule base_job_ID)
  note h = holdRobot_effect [OF base_robots_wf [OF b], of "job_AssignedRobot j"]
  let ?j1 = "j\<lparr>job_AssignedRobot := [], job_AssignedAtMs := 0\<rparr>"
  let ?e1 = "fst (holdRobot (job_AssignedRobot j) e)"
  let ?e2 = "setJob ?j1 (dropStopReq jid ?e1)"
  have no: "jid \<notin> set (job_DependsOn j)" using no_self_dep [OF base_okD(1) [OF b] j] .
  have e2: "eng_jobs ?e2 = go_put jid ?j1 (eng_jobs e)"
    by (simp add: setJob_def dropStopReq_def h jid)
  have cs: "computeStatus (go_put jid x (eng_jobs e)) ?j1 = computeStatus (eng_jobs e) j" for x
    using no by (intro computeStatus_class) (auto simp: depIs_put)
  have r: "requeueJobLocked jid e =
      (let j2 = requeued (eng_jobs e) j; p = persistJobLocked j2 (setJob j2 ?e2)
       in (fst p, snd (holdRobot (job_AssignedRobot j) e), snd p))"
    using j e2 cs by (simp add: requeueJobLocked_def case_prod_unfold Let_def requeued_def)
  show "eng_jobs (fst (requeueJobLocked jid e)) = go_put jid (requeued (eng_jobs e) j) (eng_jobs e)"
    by (simp add: r Let_def setJob_def dropStopReq_def h jid)
  show "eng_robots (fst (requeueJobLocked jid e)) = holdIn (job_AssignedRobot j) (eng_robots e)"
    by (simp add: r Let_def dropStopReq_def h)
  show "eng_stopReq (fst (requeueJobLocked jid e)) = go_del jid (eng_stopReq e)"
    by (simp add: r Let_def dropStopReq_def h)
  show "eng_events (fst (requeueJobLocked jid e)) = eng_events e"
    by (simp add: r Let_def dropStopReq_def h)
  show "quiet e (fst (requeueJobLocked jid e))"
    using h(5) by (auto simp: r Let_def quiet_def dropStopReq_def)
qed

lemma base_ok_quiet:
  assumes "base_ok e" and "quiet e e'" and "queue_ok (eng_jobs e')" and "robots_ok (eng_robots e')"
    and "reserved_ok (eng_jobs e') (eng_robots e')" and "seqs_ok (eng_nextSeq e) (eng_jobs e')"
    and "dedup_ok (eng_jobs e') (eng_dedupIndex e)" and "heldBy_ok (eng_jobs e') (eng_heldBy e)"
  shows "base_ok e'"
  using assms by (simp add: base_ok_def quiet_def)

lemma robots_ok_holdIn: "robots_ok robots \<Longrightarrow> robots_ok (holdIn rid robots)"
  by (auto simp: holdIn_def robots_ok_def dest: go_wf_key intro!: go_wf_put split: option.splits)

lemma reserved_holdIn: "reserved_ok jobs robots \<Longrightarrow> reserved_ok jobs (holdIn rid robots)"
  by (auto simp: holdIn_def intro: reserved_put_robot split: option.splits)

lemma inFlight_computeStatus:
  assumes "base_ok e" and "getJob e jid = Some j" and "inFlight (job_Status j)"
  shows "computeStatus (eng_jobs e) j = StatusPending"
proof -
  have "depIs isDone (eng_jobs e) d" if "d \<in> set (job_DependsOn j)" for d
    using started_okD [OF queue_okD(4) [OF base_okD(1) [OF assms(1)]] assms(2) _ that]
      inFlight_started [OF assms(3)] by blast
  then show ?thesis by (fastforce simp: computeStatus_Pending depIs_iff)
qed

text \<open>
  A job in flight that is requeued is pending again, ready for the next pass, and its robot is
  held; the invariant and the stability of the queue are kept.
\<close>

lemma requeueJob_ok:
  assumes b: "base_ok e" and st: "stable (eng_jobs e)" and j: "getJob e jid = Some j"
    and f: "inFlight (job_Status j)"
  shows "base_ok (fst (requeueJobLocked jid e))" "stable (eng_jobs (fst (requeueJobLocked jid e)))"
proof -
  let ?e = "fst (requeueJobLocked jid e)" and ?j = "requeued (eng_jobs e) j"
  note eff = requeueJob_effect [OF b j] and b' = base_okD [OF b]
  have cs: "computeStatus (eng_jobs e) j = StatusPending" by (rule inFlight_computeStatus [OF b j f])
  have jid: "job_ID j = jid" using b j by (rule base_job_ID)
  show "base_ok ?e"
  proof (rule base_ok_quiet [OF b eff(5)])
    show "queue_ok (eng_jobs ?e)"
      unfolding eff(1) using f cs jid by (intro queue_ok_put [OF b'(1) j]) auto
    show "robots_ok (eng_robots ?e)" unfolding eff(2) using b'(2) by (rule robots_ok_holdIn)
    show "reserved_ok (eng_jobs ?e) (eng_robots ?e)"
      unfolding eff(1,2) using b'(3) cs by (intro reserved_holdIn reserved_put_job) simp_all
    show "seqs_ok (eng_nextSeq e) (eng_jobs ?e)" unfolding eff(1) using b'(4) j by (rule seqs_ok_put) simp
    show "dedup_ok (eng_jobs ?e) (eng_dedupIndex e)" unfolding eff(1) using b'(5) j by (intro dedup_ok_put) simp_all
    show "heldBy_ok (eng_jobs ?e) (eng_heldBy e)"
      unfolding eff(1) using heldBy_ok_put [OF b'(6), of ?j] jid by simp
  qed
  have "sameClass (job_Status j) StatusPending" using f by (auto simp: sameClass_def inFlight_def)
  moreover have "computeStatus (eng_jobs e) ?j = StatusPending" using cs by (simp add: computeStatus_def)
  ultimately show "stable (eng_jobs ?e)"
    unfolding eff(1) using cs by (intro stable_put [OF st j]) simp_all
qed

subsection \<open>Several jobs in one transaction\<close>

definition pendingAgain :: "job \<Rightarrow> job" where
  "pendingAgain j = j\<lparr>job_AssignedRobot := [], job_AssignedAtMs := 0, job_Status := StatusPending\<rparr>"

lemma pendingAgain_fields [simp]:
  "job_ID (pendingAgain j) = job_ID j" "job_Status (pendingAgain j) = StatusPending"
  "job_AssignedRobot (pendingAgain j) = []" "job_Attempt (pendingAgain j) = job_Attempt j"
  "job_seq (pendingAgain j) = job_seq j"
  by (simp_all add: pendingAgain_def)

lemma requeued_pending:
  "computeStatus jobs j = StatusPending \<Longrightarrow> requeued jobs j = pendingAgain j"
  by (simp add: requeued_def pendingAgain_def)

definition allInFlight :: "'s engine \<Rightarrow> string list \<Rightarrow> bool" where
  "allInFlight e jids \<longleftrightarrow> (\<forall>jid \<in> set jids. \<exists>j. getJob e jid = Some j \<and> inFlight (job_Status j))"

text \<open>\<open>backIn e jids e'\<close>: the jobs \<open>jids\<close> are pending again, their robots are held, nothing else.\<close>

definition backIn :: "'s engine \<Rightarrow> string list \<Rightarrow> 's engine \<Rightarrow> bool" where
  "backIn e jids e' \<longleftrightarrow>
     (\<forall>x. getJob e' x = (if x \<in> set jids then map_option pendingAgain (getJob e x) else getJob e x))
   \<and> (\<forall>rid. getRobot e' rid =
        (if \<exists>x \<in> set jids. map_option job_AssignedRobot (getJob e x) = Some rid
         then map_option heldRobot (getRobot e rid) else getRobot e rid))"

lemma requeueEach_ok:
  assumes "base_ok e" and "stable (eng_jobs e)" and "distinct jids" and "allInFlight e jids"
    and "requeueEach jids e errs = (e', errs')"
  shows "base_ok e' \<and> stable (eng_jobs e') \<and> quiet e e' \<and> backIn e jids e'"
  using assms
proof (induction jids arbitrary: e errs)
  case Nil
  then show ?case by (simp add: backIn_def)
next
  case (Cons jid jids)
  obtain j where j: "getJob e jid = Some j" "inFlight (job_Status j)"
    using Cons.prems(4) by (auto simp: allInFlight_def)
  let ?e = "fst (requeueJobLocked jid e)"
  note eff = requeueJob_effect [OF Cons.prems(1) j(1)]
  note ok = requeueJob_ok [OF Cons.prems(1,2) j]
  have pj: "requeued (eng_jobs e) j = pendingAgain j"
    by (rule requeued_pending [OF inFlight_computeStatus [OF Cons.prems(1) j]])
  have other: "getJob ?e x = getJob e x" if "x \<noteq> jid" for x using that by (simp add: eff)
  have "allInFlight ?e jids"
    using Cons.prems(3,4) other unfolding allInFlight_def by (metis distinct.simps(2) list.set_intros(2))
  moreover obtain errs1 where "requeueEach jids ?e errs1 = (e', errs')"
    using Cons.prems(5) by (auto simp: case_prod_unfold Let_def)
  ultimately have IH: "base_ok e' \<and> stable (eng_jobs e') \<and> quiet ?e e' \<and> backIn ?e jids e'"
    using Cons.IH [OF ok] Cons.prems(3) by simp
  have "getJob e' x = (if x \<in> set (jid # jids) then map_option pendingAgain (getJob e x) else getJob e x)"
    for x
    using IH Cons.prems(3) j(1) pj by (auto simp: backIn_def eff)
  moreover have "getRobot e' rid =
      (if \<exists>x \<in> set (jid # jids). map_option job_AssignedRobot (getJob e x) = Some rid
       then map_option heldRobot (getRobot e rid) else getRobot e rid)" for rid
  proof -
    define P where "P = (\<exists>x \<in> set jids. map_option job_AssignedRobot (getJob e x) = Some rid)"
    have "P \<longleftrightarrow> (\<exists>x \<in> set jids. map_option job_AssignedRobot (getJob ?e x) = Some rid)"
      unfolding P_def using other Cons.prems(3) by (metis distinct.simps(2))
    then have "getRobot e' rid = (if P then map_option heldRobot (getRobot ?e rid) else getRobot ?e rid)"
      using IH unfolding backIn_def by presburger
    moreover have "(\<exists>x \<in> set (jid # jids). map_option job_AssignedRobot (getJob e x) = Some rid) \<longleftrightarrow>
        job_AssignedRobot j = rid \<or> P"
      unfolding P_def using j(1) by simp
    moreover have "getRobot ?e rid = (if rid = job_AssignedRobot j then map_option heldRobot (getRobot e rid)
        else getRobot e rid)"
      unfolding eff(2) by (rule get_holdIn)
    ultimately show ?thesis by (cases "getRobot e rid") auto
  qed
  ultimately show ?case using IH quiet_trans [OF eff(5)] by (simp add: backIn_def)
qed

lemma persistEach_frame:
  "eng_jobs (fst (persistEach rids e errs)) = eng_jobs e \<and>
   eng_robots (fst (persistEach rids e errs)) = eng_robots e \<and>
   eng_stopReq (fst (persistEach rids e errs)) = eng_stopReq e \<and>
   quiet e (fst (persistEach rids e errs))"
proof (induction rids arbitrary: e errs)
  case (Cons rid rids)
  show ?case
  proof (cases "getRobot e rid")
    case None
    then show ?thesis using Cons by simp
  next
    case (Some r)
    show ?thesis
      using Some Cons [of "fst (persistRobotLocked r e)" "errs @ [snd (persistRobotLocked r e)]"]
        quiet_trans [OF quiet_helpers(4)]
      by (auto simp: case_prod_unfold Let_def)
  qed
qed simp

lemma engine_ok_commit:
  assumes "base_ok e" and "stable (eng_jobs e)"
  shows "engine_ok (recordPersistOutcome errs (fst (commitBatchLocked e)))"
  using assms by (simp add: engine_ok_def)

lemma backIn_cong:
  "eng_jobs a = eng_jobs b \<Longrightarrow> eng_robots a = eng_robots b \<Longrightarrow> eng_jobs a' = eng_jobs b' \<Longrightarrow>
   eng_robots a' = eng_robots b' \<Longrightarrow> backIn a jids a' = backIn b jids b'"
  by (simp only: backIn_def)

lemma requeueAll_ok:
  assumes ok: "engine_ok e" and d: "distinct jids" and f: "allInFlight e jids"
  shows "engine_ok (fst (requeueAllLocked jids extra e))"
    "backIn e jids (fst (requeueAllLocked jids extra e))"
    "snd (requeueAllLocked jids extra e) = jids"
    "eng_replan (fst (requeueAllLocked jids extra e)) = eng_replan e"
proof -
  let ?e0 = "beginBatchLocked e"
  obtain e1 errs1 where r: "requeueEach jids ?e0 [] = (e1, errs1)" by fastforce
  have r1: "base_ok e1 \<and> stable (eng_jobs e1) \<and> quiet ?e0 e1 \<and> backIn ?e0 jids e1"
    using requeueEach_ok [OF _ _ d _ r] engine_okD [OF ok] f by (simp add: allInFlight_def)
  let ?p = "persistEach extra e1 errs1"
  note fr = persistEach_frame [of extra e1 errs1]
  have b2: "base_ok (fst ?p)" "stable (eng_jobs (fst ?p))"
    using r1 fr base_ok_cong [of "fst ?p" e1] by (simp_all add: quiet_def)
  have a: "requeueAllLocked jids extra e =
      (recordPersistOutcome (snd ?p @ [snd (commitBatchLocked (fst ?p))]) (fst (commitBatchLocked (fst ?p))), jids)"
    by (simp add: requeueAllLocked_def r case_prod_unfold Let_def)
  show "engine_ok (fst (requeueAllLocked jids extra e))" using engine_ok_commit [OF b2] by (simp add: a)
  show "backIn e jids (fst (requeueAllLocked jids extra e))"
    using r1 fr backIn_cong [of ?e0 e e1 "fst (requeueAllLocked jids extra e)" jids] by (simp add: a)
  show "snd (requeueAllLocked jids extra e) = jids" by (simp add: a)
  show "eng_replan (fst (requeueAllLocked jids extra e)) = eng_replan e"
    using r1 fr by (simp add: a quiet_def)
qed

text \<open>Going back to the queue publishes no event.\<close>

lemma requeueJob_events [simp]: "eng_events (fst (requeueJobLocked jid e)) = eng_events e"
  by (simp add: requeueJobLocked_def holdRobot_def dropStopReq_def case_prod_unfold Let_def
      split: option.splits)

lemma requeueEach_events [simp]: "eng_events (fst (requeueEach jids e errs)) = eng_events e"
  by (induction jids arbitrary: e errs) (simp_all add: case_prod_unfold Let_def)

lemma persistEach_events [simp]: "eng_events (fst (persistEach rids e errs)) = eng_events e"
  by (induction rids arbitrary: e errs) (auto simp: case_prod_unfold Let_def split: option.splits)

lemma requeueAll_events [simp]: "eng_events (fst (requeueAllLocked jids extra e)) = eng_events e"
  by (simp add: requeueAllLocked_def case_prod_unfold Let_def)

end
