(* ===== verification/Silence.thy ===== *)
theory Silence
  imports Requeue
begin

section \<open>Requeueing, replanning and silent robots keep the invariant\<close>

text \<open>
  What \<open>RequeueJob\<close>, \<open>ReplanRobot\<close>, \<open>AckStop\<close> and the sweep for silent robots do, on every
  branch, for an engine that satisfies the invariant.
\<close>

subsection \<open>One job\<close>

lemma requeueOne:
  assumes ok: "engine_ok e" and j: "getJob e jid = Some j" "inFlight (job_Status j)"
  shows "base_ok (fst (requeueJobLocked jid (beginBatchLocked e)))"
    "stable (eng_jobs (fst (requeueJobLocked jid (beginBatchLocked e))))"
    "backIn e [jid] (fst (requeueJobLocked jid (beginBatchLocked e)))"
proof -
  let ?e0 = "beginBatchLocked e" and ?e1 = "fst (requeueJobLocked jid (beginBatchLocked e))"
  obtain errs where r: "requeueEach [jid] ?e0 [] = (?e1, errs)"
    by (auto simp: case_prod_unfold Let_def)
  have "base_ok ?e1 \<and> stable (eng_jobs ?e1) \<and> quiet ?e0 ?e1 \<and> backIn ?e0 [jid] ?e1"
    using requeueEach_ok [OF _ _ _ _ r] engine_okD [OF ok] j by (simp add: allInFlight_def)
  then show "base_ok ?e1" "stable (eng_jobs ?e1)" "backIn e [jid] ?e1"
    using backIn_cong [of ?e0 e ?e1 ?e1 "[jid]"] by simp_all
qed

text \<open>\<open>RequeueJob\<close> branch by branch.\<close>

definition requeueAnswer :: "string \<Rightarrow> string \<Rightarrow> 's engine \<Rightarrow> engError option" where
  "requeueAnswer jid rid e =
     (case getJob e jid of
        None \<Rightarrow> Some (ErrUnknownJob jid)
      | Some j \<Rightarrow>
          if waiting (job_Status j) then None
          else if \<not> inFlight (job_Status j) then Some (ErrJobFinished jid (job_Status j))
          else if rid \<noteq> [] \<and> rid \<noteq> job_AssignedRobot j
          then Some (ErrRobotMismatch jid (job_AssignedRobot j) rid)
          else None)"

lemma finished_iff:
  "s \<in> {StatusDone, StatusFailed, StatusCancelled} \<longleftrightarrow> \<not> waiting s \<and> \<not> inFlight s"
  by (cases s) simp_all

lemma RequeueJob_effect:
  assumes ok: "engine_ok e"
  shows "engine_ok (fst (RequeueJob jid rid e)) \<and> snd (RequeueJob jid rid e) = requeueAnswer jid rid e
    \<and> (if requeueAnswer jid rid e = None \<and> allInFlight e [jid]
       then backIn e [jid] (fst (RequeueJob jid rid e)) else fst (RequeueJob jid rid e) = e)"
proof (cases "getJob e jid")
  case None
  then show ?thesis using ok by (simp add: RequeueJob_def requeueAnswer_def)
next
  case (Some j)
  show ?thesis
  proof (cases "inFlight (job_Status j) \<and> (rid = [] \<or> rid = job_AssignedRobot j)")
    case True
    let ?e1 = "fst (requeueJobLocked jid (beginBatchLocked e))"
    have w: "\<not> waiting (job_Status j)" using True inFlight_not_waiting by blast
    have fin: "job_Status j \<notin> {StatusDone, StatusFailed, StatusCancelled}" using True finished_iff by blast
    obtain errs where e': "RequeueJob jid rid e =
        (recordPersistOutcome errs (fst (commitBatchLocked ?e1)), None)"
      using Some True w fin by (auto simp: RequeueJob_def case_prod_unfold Let_def)
    note r = requeueOne [OF ok Some]
    have "backIn e [jid] (fst (RequeueJob jid rid e))"
      using r(3) True backIn_cong [of e e ?e1 "fst (RequeueJob jid rid e)" "[jid]"] by (simp add: e')
    then show ?thesis
      using engine_ok_commit [OF r(1,2)] True Some w e'
      by (simp add: requeueAnswer_def allInFlight_def)
  next
    case False
    have "inFlight (job_Status j) \<Longrightarrow> rid \<noteq> [] \<and> rid \<noteq> job_AssignedRobot j" using False by blast
    then show ?thesis
      using ok Some finished_iff [of "job_Status j"] inFlight_not_waiting [of "job_Status j"]
      by (auto simp: RequeueJob_def requeueAnswer_def allInFlight_def)
  qed
qed

subsection \<open>The jobs of a robot\<close>

lemma jobsOfRobot:
  assumes b: "base_ok e" and rid: "rid \<noteq> []"
  shows "set (fst (jobsOfRobotLocked rid unk e)) =
      {jid. \<exists>j. getJob e jid = Some j \<and> job_AssignedRobot j = rid \<and>
        (job_Status j = StatusAssigned \<or> unk \<and> job_Status j = StatusUnknown)}"
    and "distinct (fst (jobsOfRobotLocked rid unk e))"
    and "allInFlight e (fst (jobsOfRobotLocked rid unk e))"
    and "snd (jobsOfRobotLocked rid unk e) = snd (jobsHeldByLocked rid e)"
proof -
  let ?P = "\<lambda>j. job_Status j = StatusAssigned \<or> unk \<and> job_Status j = StatusUnknown"
  have eq: "fst (jobsOfRobotLocked rid unk e) =
      map job_ID (sort_key job_seq (filter ?P (fst (jobsHeldByLocked rid e))))"
    by (simp add: jobsOfRobotLocked_def case_prod_unfold Let_def)
  note wf = base_jobs_wf [OF b] and h = base_okD(6) [OF b]
  have held: "j \<in> set (fst (jobsHeldByLocked rid e)) \<longleftrightarrow>
      getJob e (job_ID j) = Some j \<and> job_AssignedRobot j = rid" for j
    unfolding set_jobsHeldBy [OF wf h rid] using go_wf_vals [OF wf, of j]
    by (auto simp: jobsNaming_def simp del: set_map)
  show s: "set (fst (jobsOfRobotLocked rid unk e)) =
      {jid. \<exists>j. getJob e jid = Some j \<and> job_AssignedRobot j = rid \<and> ?P j}"
  proof (intro set_eqI iffI)
    fix jid assume "jid \<in> set (fst (jobsOfRobotLocked rid unk e))"
    then show "jid \<in> {jid. \<exists>j. getJob e jid = Some j \<and> job_AssignedRobot j = rid \<and> ?P j}"
      using held by (auto simp: eq)
  next
    fix jid assume "jid \<in> {jid. \<exists>j. getJob e jid = Some j \<and> job_AssignedRobot j = rid \<and> ?P j}"
    then obtain j where j: "getJob e jid = Some j" "job_AssignedRobot j = rid" "?P j" by blast
    have "job_ID j = jid" using b j(1) by (rule base_job_ID)
    then show "jid \<in> set (fst (jobsOfRobotLocked rid unk e))"
      unfolding eq using held [of j] j by (auto intro!: image_eqI [where x = j])
  qed
  have "mset (fst (jobsOfRobotLocked rid unk e)) = mset (map job_ID (filter ?P (fst (jobsHeldByLocked rid e))))"
    by (simp add: eq)
  then show "distinct (fst (jobsOfRobotLocked rid unk e))"
    using distinct_map_filter [OF distinct_jobsHeldBy [OF wf h]] by (metis mset_eq_imp_distinct_iff)
  show "allInFlight e (fst (jobsOfRobotLocked rid unk e))"
    unfolding allInFlight_def s by auto
  show "snd (jobsOfRobotLocked rid unk e) = snd (jobsHeldByLocked rid e)"
    by (simp add: jobsOfRobotLocked_def case_prod_unfold Let_def)
qed

lemma engine_ok_jobsHeldBy: "engine_ok e \<Longrightarrow> engine_ok (snd (jobsHeldByLocked rid e))"
  by (simp add: engine_ok_def)

lemma hold_ok:
  assumes ok: "engine_ok e" and r: "getRobot e rid = Some r"
  shows "engine_ok (setRobot (heldRobot r) e)"
proof -
  note b = base_okD [OF engine_okD(1) [OF ok]]
  have rid: "rob_ID r = rid" using engine_okD(1) [OF ok] r by (rule base_robot_ID)
  have "eng_robots (setRobot (heldRobot r) e) = holdIn rid (eng_robots e)"
    using r rid by (simp add: setRobot_def holdIn_def)
  then show ?thesis
    using ok robots_ok_holdIn [OF b(2), of rid] reserved_holdIn [OF b(3), of rid]
    by (simp add: engine_ok_def base_ok_def)
qed

text \<open>\<open>ReplanRobot\<close>: the robot is held and exactly its jobs in flight are pending again.\<close>

lemma ReplanRobot_effect:
  assumes ok: "engine_ok e" and on: "rp_Enabled (eng_replan e)" and r: "getRobot e rid = Some r"
  shows "\<exists>e' ids. ReplanRobot rid e = (e', Inr ids) \<and> engine_ok e' \<and> distinct ids
    \<and> set ids = {jid. \<exists>j. getJob e jid = Some j \<and> job_AssignedRobot j = rid \<and> inFlight (job_Status j)}
    \<and> (\<forall>x. getJob e' x = (if x \<in> set ids then map_option pendingAgain (getJob e x) else getJob e x))
    \<and> (\<forall>x. getRobot e' x = (if x = rid then Some (heldRobot r) else getRobot e x))
    \<and> eng_replan e' = eng_replan e"
proof -
  let ?e1 = "setRobot (heldRobot r) e"
  let ?jids = "fst (jobsOfRobotLocked rid True ?e1)" and ?e2 = "snd (jobsHeldByLocked rid ?e1)"
  have rid: "rob_ID r = rid" "rid \<noteq> []"
    using base_robot_ID [OF engine_okD(1) [OF ok] r] robots_ok_known [OF base_okD(2) [OF engine_okD(1) [OF ok]] r]
    by simp_all
  have ok1: "engine_ok ?e1" using ok r by (rule hold_ok)
  note js = jobsOfRobot [OF engine_okD(1) [OF ok1] rid(2), of True]
  have ok2: "engine_ok ?e2" using ok1 by (rule engine_ok_jobsHeldBy)
  have fl: "allInFlight ?e2 ?jids" using js(3) by (simp add: allInFlight_def)
  note ra = requeueAll_ok [OF ok2 js(2) fl, of "[rid]"]
  let ?e3 = "fst (requeueAllLocked ?jids [rid] ?e2)"
  have run: "ReplanRobot rid e = (?e3, Inr ?jids)"
    using on r js(4) ra(3) by (simp add: ReplanRobot_def case_prod_unfold Let_def)
  have ids: "set ?jids = {jid. \<exists>j. getJob e jid = Some j \<and> job_AssignedRobot j = rid \<and> inFlight (job_Status j)}"
    unfolding js(1) by (auto simp: inFlight_def)
  have only: "job_AssignedRobot j = rid" if "x \<in> set ?jids" "getJob e x = Some j" for x j
    using that unfolding ids by auto
  have jobs: "getJob ?e3 x = (if x \<in> set ?jids then map_option pendingAgain (getJob e x) else getJob e x)" for x
    using ra(2) unfolding backIn_def jobsHeldBy_frame setRobot_frame by blast
  have robs: "getRobot ?e3 x = (if x = rid then Some (heldRobot r) else getRobot e x)" for x
  proof -
    have *: "getRobot ?e3 x =
        (if \<exists>y \<in> set ?jids. map_option job_AssignedRobot (getJob e y) = Some x
         then map_option heldRobot (getRobot ?e1 x) else getRobot ?e1 x)"
      using ra(2) unfolding backIn_def jobsHeldBy_frame setRobot_frame(1) by blast
    show ?thesis
    proof (cases "x = rid")
      case True
      then show ?thesis using rid unfolding * by simp
    next
      case False
      then have "\<not> (\<exists>y \<in> set ?jids. map_option job_AssignedRobot (getJob e y) = Some x)"
        using only by auto
      then show ?thesis using False rid unfolding * by (simp only: if_False) simp
    qed
  qed
  show ?thesis using run ra(1,4) js(2) ids jobs robs by auto
qed

text \<open>\<open>AckStop\<close>: only the current assignment's open request sends the job back.\<close>

definition stopOpen :: "string \<Rightarrow> job \<Rightarrow> 's engine \<Rightarrow> bool" where
  "stopOpen rid j e \<longleftrightarrow> inFlight (job_Status j) \<and>
     (\<exists>req. go_get (eng_stopReq e) (job_ID j) = Some req \<and> stp_robotID req = rid
        \<and> stp_attempt req = job_Attempt j)"

lemma AckStop_effect:
  assumes ok: "engine_ok e"
  shows "engine_ok (fst (AckStop rid jid e)) \<and>
    (if snd (AckStop rid jid e) = None
     then rp_Enabled (eng_replan e) \<and> backIn e [jid] (fst (AckStop rid jid e))
       \<and> (\<exists>j. getJob e jid = Some j \<and> job_AssignedRobot j = rid \<and> stopOpen rid j e)
     else fst (AckStop rid jid e) = e)"
proof (cases "rp_Enabled (eng_replan e) \<and> (\<exists>j. getJob e jid = Some j \<and>
    (job_AssignedRobot j = [] \<or> job_AssignedRobot j = rid) \<and> stopOpen rid j e)")
  case True
  then obtain j where on: "rp_Enabled (eng_replan e)" and j: "getJob e jid = Some j"
    "job_AssignedRobot j = [] \<or> job_AssignedRobot j = rid" "stopOpen rid j e" by blast
  have jid: "job_ID j = jid" using engine_okD(1) [OF ok] j(1) by (rule base_job_ID)
  have fl: "inFlight (job_Status j)" using j(3) by (simp add: stopOpen_def)
  then have "job_AssignedRobot j \<noteq> []"
    using reserved_robot(1) [OF base_okD(3) [OF engine_okD(1) [OF ok]] j(1)] by blast
  then have ar: "job_AssignedRobot j = rid" using j(2) by blast
  have "AckStop rid jid e = (fst (requeueAllLocked [jid] [] e), None)"
    using on j jid ar by (auto simp: AckStop_def stopOpen_def)
  then show ?thesis
    using requeueAll_ok(1,2) [OF ok, of "[jid]" "[]"] fl j ar on by (auto simp: allInFlight_def)
next
  case False
  have "fst (AckStop rid jid e) = e \<and> snd (AckStop rid jid e) \<noteq> None"
  proof (cases "getJob e jid")
    case None
    then show ?thesis by (simp add: AckStop_def)
  next
    case (Some j)
    have jid: "job_ID j = jid" using engine_okD(1) [OF ok] Some by (rule base_job_ID)
    show ?thesis using False Some jid
      by (auto simp: AckStop_def stopOpen_def split: option.splits)
  qed
  then show ?thesis using ok by auto
qed

subsection \<open>The sweep\<close>

text \<open>The scan and the decisions touch the stop requests only.\<close>

definition onlyStops :: "'s engine \<Rightarrow> 's engine \<Rightarrow> bool" where
  "onlyStops e e' \<longleftrightarrow> e' = e\<lparr>eng_stopReq := eng_stopReq e'\<rparr>"

lemma onlyStops_refl [simp]: "onlyStops e e"
  by (simp add: onlyStops_def)

lemma onlyStops_trans: "onlyStops a b \<Longrightarrow> onlyStops b c \<Longrightarrow> onlyStops a c"
  by (cases a; cases b; cases c) (simp add: onlyStops_def)

lemma onlyStops_put [simp]: "onlyStops e (e\<lparr>eng_stopReq := m\<rparr>)"
  by (cases e) (simp add: onlyStops_def)

lemma onlyStops_fields:
  assumes "onlyStops e e'"
  shows "eng_jobs e' = eng_jobs e" "eng_robots e' = eng_robots e" "eng_replan e' = eng_replan e"
    "eng_store e' = eng_store e" "engine_ok e' = engine_ok e" "eng_events e' = eng_events e"
proof -
  have e': "e' = e\<lparr>eng_stopReq := eng_stopReq e'\<rparr>" using assms by (simp add: onlyStops_def)
  show "eng_jobs e' = eng_jobs e" "eng_robots e' = eng_robots e" "eng_replan e' = eng_replan e"
    "eng_store e' = eng_store e" "eng_events e' = eng_events e"
    by (subst e', simp)+
  show "engine_ok e' = engine_ok e" by (subst e', rule engine_ok_cong) simp_all
qed

definition silentJob :: "duration \<Rightarrow> instant \<Rightarrow> 's engine \<Rightarrow> job \<Rightarrow> bool" where
  "silentJob timeout now e j \<longleftrightarrow> job_Status j = StatusAssigned \<and>
     (case getRobot e (job_AssignedRobot j) of None \<Rightarrow> False | Some r \<Rightarrow> silentRobot timeout now r)"

lemma dropStopReq_frame [frame, simp]:
  "eng_jobs (dropStopReq jid e) = eng_jobs e" "eng_robots (dropStopReq jid e) = eng_robots e"
  "eng_replan (dropStopReq jid e) = eng_replan e"
  by (simp_all add: dropStopReq_def)

lemma staleScan_result:
  assumes "staleScan timeout now js stale e = (found, e')"
  shows "found = stale @ filter (silentJob timeout now e) js \<and> onlyStops e e'"
  using assms
proof (induction timeout now js stale e rule: staleScan.induct)
  case (2 timeout now j js stale e)
  have drop: "silentJob timeout now (dropStopReq (job_ID j) e) = silentJob timeout now e"
    by (rule ext) (simp add: silentJob_def)
  have d: "onlyStops e (dropStopReq (job_ID j) e)" by (simp add: dropStopReq_def)
  consider (idle) "job_Status j \<noteq> StatusAssigned"
    | (gone) "job_Status j = StatusAssigned" "getRobot e (job_AssignedRobot j) = None"
    | (yes) r where "job_Status j = StatusAssigned" "getRobot e (job_AssignedRobot j) = Some r" by blast
  then show ?case
  proof cases
    case idle
    then show ?thesis using 2(1) 2(5) by (simp add: silentJob_def)
  next
    case gone
    then show ?thesis using 2(2) 2(5) by (simp add: silentJob_def)
  next
    case (yes r)
    show ?thesis
    proof (cases "silentRobot timeout now r")
      case True
      then show ?thesis using 2(4) [OF _ yes(2)] 2(5) yes by (simp add: silentJob_def)
    next
      case False
      then show ?thesis using 2(3) [OF _ yes(2)] 2(5) yes drop onlyStops_trans [OF d]
        by (simp add: silentJob_def)
    qed
  qed
qed simp

lemma staleScan_keeps:
  assumes "staleScan timeout now js stale e = (found, e')"
    and "\<And>j. j \<in> set js \<Longrightarrow> job_ID j = jid \<Longrightarrow> silentJob timeout now e j"
  shows "go_get (eng_stopReq e') jid = go_get (eng_stopReq e) jid"
  using assms
proof (induction timeout now js stale e rule: staleScan.induct)
  case (2 timeout now j js stale e)
  have drop: "silentJob timeout now (dropStopReq (job_ID j) e) = silentJob timeout now e"
    by (rule ext) (simp add: silentJob_def)
  consider (idle) "job_Status j \<noteq> StatusAssigned"
    | (gone) "job_Status j = StatusAssigned" "getRobot e (job_AssignedRobot j) = None"
    | (yes) r where "job_Status j = StatusAssigned" "getRobot e (job_AssignedRobot j) = Some r" by blast
  then show ?case
  proof cases
    case idle
    then show ?thesis using 2(1,5,6) by simp
  next
    case gone
    then show ?thesis using 2(2,5,6) by simp
  next
    case (yes r)
    show ?thesis
    proof (cases "silentRobot timeout now r")
      case True
      then show ?thesis using 2(4) [OF _ yes(2)] 2(5,6) yes by simp
    next
      case False
      have "job_ID j \<noteq> jid" using 2(6) [of j] False yes by (auto simp: silentJob_def)
      then show ?thesis using 2(3) [OF _ yes(2)] 2(5,6) yes drop False by (simp add: dropStopReq_def)
    qed
  qed
qed simp

lemma stopDecision_onlyStops: "onlyStops e (fst (stopDecisionLocked j now e))"
  by (simp add: stopDecisionLocked_def Let_def split: option.splits)

lemma stopDecision_cong:
  assumes "onlyStops e e'" and "go_get (eng_stopReq e') (job_ID j) = go_get (eng_stopReq e) (job_ID j)"
  shows "snd (stopDecisionLocked j now e') = snd (stopDecisionLocked j now e)"
  using assms(2) onlyStops_fields [OF assms(1)]
  by (simp add: stopDecisionLocked_def currentStop_def stopAckTimeoutLocked_def Let_def
      split: option.splits)

lemma stopDecision_other:
  "x \<noteq> job_ID j \<Longrightarrow>
     go_get (eng_stopReq (fst (stopDecisionLocked j now e))) x = go_get (eng_stopReq e) x"
  by (simp add: stopDecisionLocked_def Let_def split: option.splits)

text \<open>Every job is decided on its own: the decision of one does not change another's.\<close>

definition decided :: "instant \<Rightarrow> 's engine \<Rightarrow> stopDecision \<Rightarrow> job list \<Rightarrow> string list" where
  "decided now e d js = map job_ID (filter (\<lambda>j. snd (stopDecisionLocked j now e) = d) js)"

lemma decideStops_result:
  assumes "decideStops now js again asked unknown e = (again', asked', unknown', e')"
    and "distinct (map job_ID js)"
  shows "again' = again @ decided now e stopRequeue js \<and> asked' = asked @ decided now e stopRequested js
    \<and> unknown' = unknown @ decided now e stopUnknown js \<and> onlyStops e e'"
  using assms
proof (induction js arbitrary: again asked unknown e)
  case (Cons j js)
  let ?e = "fst (stopDecisionLocked j now e)"
  have same: "snd (stopDecisionLocked x now ?e) = snd (stopDecisionLocked x now e)" if "x \<in> set js" for x
  proof (rule stopDecision_cong [OF stopDecision_onlyStops])
    have "job_ID x \<noteq> job_ID j" using that Cons.prems(2) imageI [of x "set js" job_ID] by fastforce
    then show "go_get (eng_stopReq ?e) (job_ID x) = go_get (eng_stopReq e) (job_ID x)"
      by (rule stopDecision_other)
  qed
  have "decided now ?e d js = decided now e d js" for d
    unfolding decided_def using same by (intro arg_cong [where f = "map job_ID"] filter_cong) simp_all
  then show ?case
    using Cons.IH [of _ _ _ ?e] Cons.prems onlyStops_trans [OF stopDecision_onlyStops]
    by (fastforce simp: case_prod_unfold Let_def decided_def)
qed (simp add: decided_def)

text \<open>Marking jobs unknown.\<close>

definition unknownAgain :: "job \<Rightarrow> job" where
  "unknownAgain j = j\<lparr>job_Status := StatusUnknown\<rparr>"

definition allAssigned :: "'s engine \<Rightarrow> string list \<Rightarrow> bool" where
  "allAssigned e jids \<longleftrightarrow> (\<forall>jid \<in> set jids. \<exists>j. getJob e jid = Some j \<and> job_Status j = StatusAssigned)"

lemma markOne_ok:
  assumes b: "base_ok e" and st: "stable (eng_jobs e)" and j: "getJob e jid = Some j"
    "job_Status j = StatusAssigned"
    and e': "eng_jobs e' = go_put jid (unknownAgain j) (eng_jobs e)" "eng_robots e' = eng_robots e"
    and q: "quiet e e'"
  shows "base_ok e'" "stable (eng_jobs e')"
proof -
  note b' = base_okD [OF b]
  let ?j = "unknownAgain j"
  have jid: "job_ID j = jid" using b j(1) by (rule base_job_ID)
  have f: "job_ID ?j = job_ID j" "job_DependsOn ?j = job_DependsOn j" "job_Status ?j = StatusUnknown"
    "job_AssignedRobot ?j = job_AssignedRobot j" "job_seq ?j = job_seq j" "job_DedupKey ?j = job_DedupKey j"
    by (simp_all add: unknownAgain_def)
  show "base_ok e'"
  proof (rule base_ok_quiet [OF b q])
    show "queue_ok (eng_jobs e')" unfolding e' using f jid j(2) by (intro queue_ok_put [OF b'(1) j(1)]) simp_all
    show "robots_ok (eng_robots e')" using b'(2) e' by simp
    show "reserved_ok (eng_jobs e') (eng_robots e')" unfolding e' using b'(3) f j by (intro reserved_put_job) auto
    show "seqs_ok (eng_nextSeq e) (eng_jobs e')" unfolding e' using b'(4) j(1) f(5) by (rule seqs_ok_put)
    show "dedup_ok (eng_jobs e') (eng_dedupIndex e)" unfolding e' using b'(5) j(1) f(6) by (intro dedup_ok_put) simp_all
    show "heldBy_ok (eng_jobs e') (eng_heldBy e)"
      unfolding e' using heldBy_ok_put [OF b'(6), of ?j] jid f j(1) by simp
  qed
  show "stable (eng_jobs e')"
    unfolding e' using f j(2) by (intro stable_put [OF st j(1)]) (simp_all add: sameClass_def)
qed

definition marked :: "'s engine \<Rightarrow> string list \<Rightarrow> 's engine \<Rightarrow> bool" where
  "marked e jids e' \<longleftrightarrow>
     (\<forall>x. getJob e' x = (if x \<in> set jids then map_option unknownAgain (getJob e x) else getJob e x))
   \<and> eng_robots e' = eng_robots e"

lemma marked_cong:
  "eng_jobs a = eng_jobs b \<Longrightarrow> eng_robots a = eng_robots b \<Longrightarrow> eng_jobs a' = eng_jobs b' \<Longrightarrow>
   eng_robots a' = eng_robots b' \<Longrightarrow> marked a jids a' = marked b jids b'"
  by (simp only: marked_def)

lemma markEach_ok:
  assumes "base_ok e" and "stable (eng_jobs e)" and "distinct jids" and "allAssigned e jids"
    and "markEach jids e err = (e', err')"
  shows "base_ok e' \<and> stable (eng_jobs e') \<and> quiet e e' \<and> marked e jids e'"
  using assms
proof (induction jids arbitrary: e err)
  case Nil
  then show ?case by (simp add: marked_def)
next
  case (Cons jid jids)
  obtain j where j: "getJob e jid = Some j" "job_Status j = StatusAssigned"
    using Cons.prems(4) by (auto simp: allAssigned_def)
  have jid: "job_ID j = jid" using Cons.prems(1) j(1) by (rule base_job_ID)
  let ?j = "unknownAgain j"
  let ?p = "persistJobLocked ?j (emitLocked EventUnknown ?j (setJob ?j e))"
  have q: "quiet e (fst ?p)"
    by (rule quiet_trans [OF quiet_trans [OF quiet_helpers(1) quiet_helpers(6)] quiet_helpers(3)])
  have e1: "eng_jobs (fst ?p) = go_put jid ?j (eng_jobs e)" "eng_robots (fst ?p) = eng_robots e"
    using jid by (simp_all add: setJob_def unknownAgain_def)
  note m = markOne_ok [OF Cons.prems(1,2) j e1 q]
  have other: "getJob (fst ?p) x = getJob e x" if "x \<noteq> jid" for x
    unfolding e1 using that by simp
  have "allAssigned (fst ?p) jids"
    using Cons.prems(3,4) other unfolding allAssigned_def by (metis distinct.simps(2) list.set_intros(2))
  moreover obtain err1 where "markEach jids (fst ?p) err1 = (e', err')"
    using Cons.prems(5) j(1) by (auto simp: case_prod_unfold Let_def unknownAgain_def)
  ultimately have IH: "base_ok e' \<and> stable (eng_jobs e') \<and> quiet (fst ?p) e' \<and> marked (fst ?p) jids e'"
    using Cons.IH [OF m] Cons.prems(3) by simp
  then have "\<forall>x. getJob e' x = (if x \<in> set jids then map_option unknownAgain (getJob (fst ?p) x)
      else getJob (fst ?p) x)" "eng_robots e' = eng_robots (fst ?p)"
    unfolding marked_def by blast+
  then have "marked e (jid # jids) e'"
    unfolding e1 marked_def using Cons.prems(3) j(1) by auto
  then show ?case using IH quiet_trans [OF q] by blast
qed

lemma markUnknown_ok:
  assumes ok: "engine_ok e" and d: "distinct jids" and a: "allAssigned e jids"
  shows "engine_ok (markUnknownLocked jids e)" "marked e jids (markUnknownLocked jids e)"
proof -
  have "engine_ok (markUnknownLocked jids e) \<and> marked e jids (markUnknownLocked jids e)"
  proof (cases "jids = []")
    case True
    then show ?thesis using ok by (simp add: markUnknownLocked_def marked_def)
  next
    case False
    let ?e0 = "beginBatchLocked e"
    obtain e1 err where m: "markEach jids ?e0 None = (e1, err)" by fastforce
    have r: "base_ok e1 \<and> stable (eng_jobs e1) \<and> quiet ?e0 e1 \<and> marked ?e0 jids e1"
      using markEach_ok [OF _ _ d _ m] engine_okD [OF ok] a by (simp add: allAssigned_def)
    obtain errs where u: "markUnknownLocked jids e = recordPersistOutcome errs (fst (commitBatchLocked e1))"
      using False m by (auto simp: markUnknownLocked_def case_prod_unfold Let_def)
    show ?thesis
      using r engine_ok_commit [of e1 errs] marked_cong [of ?e0 e e1 "markUnknownLocked jids e" jids]
      by (simp add: u)
  qed
  then show "engine_ok (markUnknownLocked jids e)" "marked e jids (markUnknownLocked jids e)" by blast+
qed

text \<open>The whole sweep.\<close>

definition silentJobs :: "duration \<Rightarrow> instant \<Rightarrow> 's engine \<Rightarrow> job list" where
  "silentJobs timeout now e =
     sort_key job_seq (filter (silentJob timeout now e) (go_vals (eng_jobs e)))"

lemma mem_silentJobs:
  assumes "base_ok e"
  shows "j \<in> set (silentJobs timeout now e) \<longleftrightarrow>
    getJob e (job_ID j) = Some j \<and> silentJob timeout now e j"
  using go_wf_vals [OF base_jobs_wf [OF assms], of j]
  by (auto simp: silentJobs_def simp del: set_map)

lemma distinct_silentJobs:
  assumes "base_ok e"
  shows "distinct (map job_ID (silentJobs timeout now e))"
proof -
  let ?p = "filter (silentJob timeout now e) (go_vals (eng_jobs e))"
  have "distinct (map job_ID ?p)"
    using go_wf_vals_distinct [OF base_jobs_wf [OF assms]] by (rule distinct_map_filter)
  moreover have "mset (map job_ID (silentJobs timeout now e)) = mset (map job_ID ?p)"
    by (simp add: silentJobs_def)
  ultimately show ?thesis by (metis mset_eq_imp_distinct_iff)
qed

text \<open>
  With replanning for silent robots off, every assigned job of a silent robot, and no other job,
  becomes unknown.
\<close>

lemma DetectStale_off:
  assumes ok: "engine_ok e" and off: "\<not> (rp_Enabled (eng_replan e) \<and> rp_OnStale (eng_replan e))"
    and d: "DetectStaleAssignmentsStop timeout now e = (e', r)"
  shows "engine_ok e'" "marked e (map job_ID (silentJobs timeout now e)) e'"
    "res_Unknown r = map job_ID (silentJobs timeout now e)" "res_Requeued r = []" "res_StopRequested r = []"
    "\<exists>e1. eng_jobs e1 = eng_jobs e \<and> eng_events e1 = eng_events e
       \<and> e' = markUnknownLocked (map job_ID (silentJobs timeout now e)) e1"
proof -
  obtain found e1 where s: "staleScan timeout now (go_vals (eng_jobs e)) [] e = (found, e1)" by fastforce
  have f: "sort_key job_seq found = silentJobs timeout now e" "onlyStops e e1"
    using staleScan_result [OF s] by (simp_all add: silentJobs_def)
  note fr = onlyStops_fields [OF f(2)]
  let ?ids = "map job_ID (silentJobs timeout now e)"
  have run: "e' = markUnknownLocked ?ids e1"
    "r = \<lparr>res_Unknown = ?ids, res_Requeued = [], res_StopRequested = []\<rparr>"
    using d off s f(1) by (auto simp: DetectStaleAssignmentsStop_def Let_def)
  have a: "allAssigned e1 ?ids"
    using mem_silentJobs [OF engine_okD(1) [OF ok]] fr(1) by (force simp: allAssigned_def silentJob_def)
  have ok1: "engine_ok e1" using ok fr(5) by simp
  note m = markUnknown_ok [OF ok1 distinct_silentJobs [OF engine_okD(1) [OF ok]] a]
  show "engine_ok e'" using m(1) run(1) by simp
  show "marked e ?ids e'" using m(2) run(1) marked_cong [of e1 e e' e' ?ids] fr by simp
  show "res_Unknown r = ?ids" "res_Requeued r = []" "res_StopRequested r = []" using run(2) by simp_all
  show "\<exists>e1. eng_jobs e1 = eng_jobs e \<and> eng_events e1 = eng_events e \<and> e' = markUnknownLocked ?ids e1"
    using fr run(1) by blast
qed

text \<open>
  With it on, each of these jobs has its own decision: requeued, awaiting the stop, unknown.
\<close>

lemma DetectStale_on:
  assumes ok: "engine_ok e" and on: "rp_Enabled (eng_replan e)" "rp_OnStale (eng_replan e)"
    and d: "DetectStaleAssignmentsStop timeout now e = (e', r)"
  shows "engine_ok e'"
    "res_Requeued r = decided now e stopRequeue (silentJobs timeout now e)"
    "res_Unknown r = decided now e stopUnknown (silentJobs timeout now e)"
    "res_StopRequested r = decided now e stopRequested (silentJobs timeout now e)"
    "\<exists>e3. backIn e (res_Requeued r) e3 \<and> marked e3 (res_Unknown r) e' \<and> eng_events e3 = eng_events e
      \<and> e' = markUnknownLocked (res_Unknown r) e3"
proof -
  let ?js = "silentJobs timeout now e"
  obtain found e1 where s: "staleScan timeout now (go_vals (eng_jobs e)) [] e = (found, e1)" by fastforce
  have f: "sort_key job_seq found = ?js" "onlyStops e e1"
    using staleScan_result [OF s] by (simp_all add: silentJobs_def)
  obtain again asked unknown e2 where ds: "decideStops now ?js [] [] [] e1 = (again, asked, unknown, e2)"
    by (metis prod_cases4)
  note dr = decideStops_result [OF ds distinct_silentJobs [OF engine_okD(1) [OF ok]]]
  have o2: "onlyStops e e2" using dr onlyStops_trans [OF f(2)] by blast
  note fr = onlyStops_fields [OF o2]
  let ?e3 = "if again = [] then e2 else fst (requeueAllLocked again [] e2)"
  have sub: "distinct (decided now e1 dd ?js)"
    "jid \<in> set (decided now e1 dd ?js) \<Longrightarrow> \<exists>j. getJob e jid = Some j \<and> job_Status j = StatusAssigned
      \<and> snd (stopDecisionLocked j now e1) = dd"
    for dd jid
    using distinct_map_filter [OF distinct_silentJobs [OF engine_okD(1) [OF ok]]]
      mem_silentJobs [OF engine_okD(1) [OF ok]]
    by (auto simp: decided_def silentJob_def)
  have ok2: "engine_ok e2" using ok fr(5) by simp
  have fl: "allInFlight e2 again"
    unfolding allInFlight_def using sub(2) dr fr(1) by (metis append_Nil inFlight_simps(1))
  have db: "distinct again" using dr sub(1) by simp
  note ra = requeueAll_ok [OF ok2 db fl, of "[]"]
  have ok3: "engine_ok ?e3" using ok2 ra(1) by simp
  have b3: "backIn e again ?e3"
  proof (cases "again = []")
    case True
    then show ?thesis using fr by (simp add: backIn_def)
  next
    case False
    then show ?thesis using ra(2) backIn_cong [of e2 e ?e3 ?e3 again] fr by simp
  qed
  have "getJob ?e3 jid = getJob e jid" if "jid \<in> set unknown" for jid
  proof -
    have "jid \<notin> set again"
    proof
      assume "jid \<in> set again"
      then show False
        using sub(2) [of jid stopRequeue] sub(2) [of jid stopUnknown] that dr by auto
    qed
    then show ?thesis using b3 unfolding backIn_def by presburger
  qed
  then have a: "allAssigned ?e3 unknown"
    unfolding allAssigned_def using sub(2) dr by (metis append_Nil)
  have du: "distinct unknown" using dr sub(1) by simp
  note m = markUnknown_ok [OF ok3 du a]
  have run: "e' = markUnknownLocked unknown ?e3"
    "r = \<lparr>res_Unknown = unknown, res_Requeued = again, res_StopRequested = asked\<rparr>"
    using d on s f(1) ds ra(3)
    by (auto simp: DetectStaleAssignmentsStop_def Let_def case_prod_unfold split: if_splits)
  show "engine_ok e'" using m(1) run(1) by simp
  have "snd (stopDecisionLocked j now e1) = snd (stopDecisionLocked j now e)" if "j \<in> set ?js" for j
  proof (rule stopDecision_cong [OF f(2) staleScan_keeps [OF s]])
    fix i assume i: "i \<in> set (go_vals (eng_jobs e))" "job_ID i = job_ID j"
    note wf = base_jobs_wf [OF engine_okD(1) [OF ok]]
    have "getJob e (job_ID i) = Some i" using go_wf_vals [OF wf] i(1) by blast
    then have "i = j" using mem_silentJobs [OF engine_okD(1) [OF ok], of j] that i(2) by simp
    then show "silentJob timeout now e i" using mem_silentJobs [OF engine_okD(1) [OF ok]] that by simp
  qed
  then have "decided now e1 dd ?js = decided now e dd ?js" for dd
    unfolding decided_def by (intro arg_cong [where f = "map job_ID"] filter_cong) simp_all
  then show "res_Requeued r = decided now e stopRequeue ?js" "res_Unknown r = decided now e stopUnknown ?js"
    "res_StopRequested r = decided now e stopRequested ?js" using run dr by simp_all
  show "\<exists>e3. backIn e (res_Requeued r) e3 \<and> marked e3 (res_Unknown r) e' \<and> eng_events e3 = eng_events e
      \<and> e' = markUnknownLocked (res_Unknown r) e3"
    using b3 m(2) run fr by (intro exI [where x = ?e3]) simp
qed

lemma DetectStale_ok:
  "engine_ok e \<Longrightarrow> engine_ok (fst (DetectStaleAssignmentsStop timeout now e))"
  using DetectStale_off(1) DetectStale_on(1) by (metis prod.collapse)

end
