(* ===== verification/Robots.thy ===== *)
theory Robots
  imports Silence
begin

section \<open>The registry of robots\<close>

text \<open>
  \<open>UpdateRobot\<close>, \<open>UpsertRobot\<close> and \<open>RemoveRobot\<close> of \<open>dispatcher.go\<close>: registration and heartbeat,
  and how the reservation of the scheduler and the robot's own report meet.
\<close>

definition persistCurrent :: "string \<Rightarrow> 's engine \<Rightarrow> 's engine" where
  "persistCurrent rid e =
     (case getRobot e rid of
        None \<Rightarrow> e
      | Some r \<Rightarrow> (let (e', err) = persistRobotLocked r e in recordPersistOutcome [err] e'))"

text \<open>The part of \<open>upsertRobotLocked\<close> that decides about the availability of a known robot.\<close>

definition applyAvailability :: "robot \<Rightarrow> bool \<Rightarrow> 's engine \<Rightarrow> 's engine" where
  "applyAvailability r given e =
     (case getRobot e (rob_ID r) of
        None \<Rightarrow> e
      | Some existing \<Rightarrow>
          if \<not> given then e
          else
            (let (active, e1) = robotHasActiveAssignmentLocked (rob_ID r) e in
             if \<not> active then
               setRobot (existing\<lparr>rob_Available := rob_Available r,
                                  rob_selfReportedUnavailable := \<not> rob_Available r\<rparr>) e1
             else if \<not> rob_Available r then
               (let e2 = setRobot (existing\<lparr>rob_selfReportedUnavailable := True\<rparr>) e1 in
                if rp_Enabled (eng_replan e2) \<and> rp_OnFault (eng_replan e2) then
                  (let (jids, e3) = jobsOfRobotLocked (rob_ID r) False e2
                   in fst (requeueAllLocked jids [] e3))
                else e2)
             else e1))"

definition upsertRobotLocked :: "robot \<Rightarrow> bool \<Rightarrow> instant \<Rightarrow> 's engine \<Rightarrow> 's engine" where
  "upsertRobotLocked r given now e0 =
     (let e = checkTool (rob_Tool r) (ToolOfRobot (rob_ID r)) e0 in
      case getRobot e (rob_ID r) of
        Some existing \<Rightarrow>
          (let e1 = setRobot (existing\<lparr>rob_Location := rob_Location r, rob_Tool := rob_Tool r,
                      rob_StopCapable := rob_StopCapable r, rob_LastHeartbeat := Some now\<rparr>) e
           in persistCurrent (rob_ID r) (applyAvailability r given e1))
      | None \<Rightarrow>
          persistCurrent (rob_ID r) (setRobot (r\<lparr>rob_LastHeartbeat := Some now\<rparr>) e))"

definition UpsertRobot :: "robot \<Rightarrow> instant \<Rightarrow> 's engine \<Rightarrow> 's engine" where
  "UpsertRobot r now e = upsertRobotLocked r True now e"

definition fromUpdate :: "RobotUpdate \<Rightarrow> robot option \<Rightarrow> robot" where
  "fromUpdate u existing =
     (let (loc, tool, stop) = (case existing of None \<Rightarrow> ([], [], False)
            | Some x \<Rightarrow> (rob_Location x, rob_Tool x, rob_StopCapable x))
      in \<lparr>rob_ID = upd_ID u,
          rob_Location = (case upd_Location u of None \<Rightarrow> loc | Some v \<Rightarrow> v),
          rob_Tool = (case upd_Tool u of None \<Rightarrow> tool | Some v \<Rightarrow> v),
          rob_Available = (case upd_Available u of None \<Rightarrow> False | Some v \<Rightarrow> v),
          rob_Load = 0,
          rob_StopCapable = (case upd_StopCapable u of None \<Rightarrow> stop | Some v \<Rightarrow> v),
          rob_selfReportedUnavailable = False, rob_LastHeartbeat = None\<rparr>)"

definition UpdateRobot :: "RobotUpdate \<Rightarrow> instant \<Rightarrow> 's engine \<Rightarrow> 's engine" where
  "UpdateRobot u now e =
     upsertRobotLocked (fromUpdate u (getRobot e (upd_ID u))) (upd_Available u \<noteq> None) now e"

definition deleteFromStore :: "string \<Rightarrow> 's engine \<Rightarrow> 's engine \<times> serror option" where
  "deleteFromStore rid e =
     (case eng_store e of
        None \<Rightarrow> (e, None)
      | Some sv \<Rightarrow>
         (case sv_DeleteRobot sv of
            None \<Rightarrow> (e, None)
          | Some del \<Rightarrow> (let (s, err) = del (sv_state sv) rid
                       in (e\<lparr>eng_store := Some (sv\<lparr>sv_state := s\<rparr>)\<rparr>, err))))"

definition RemoveRobot :: "string \<Rightarrow> 's engine \<Rightarrow> 's engine \<times> engError option" where
  "RemoveRobot rid e =
     (case getRobot e rid of
        None \<Rightarrow> (e, Some (ErrUnknownRobot rid))
      | Some r \<Rightarrow>
         (let (js, e1) = jobsHeldByLocked rid e in
          case find (\<lambda>j. inFlight (job_Status j)) js of
            Some j \<Rightarrow> (e1, Some (ErrRobotBusy (job_ID j) (job_Status j) rid))
          | None \<Rightarrow>
             (let (e2, err) = deleteFromStore rid e1 in
              case err of
                Some x \<Rightarrow> (e2, Some (ErrStore x))
              | None \<Rightarrow> (e2\<lparr>eng_robots := go_del rid (eng_robots e2)\<rparr>, None))))"

subsection \<open>The invariant\<close>

lemma engine_ok_setRobot:
  assumes ok: "engine_ok e" and ne: "rob_ID r \<noteq> []"
    and avail: "rob_Available r \<Longrightarrow>
      (\<exists>x. getRobot e (rob_ID r) = Some x \<and> rob_Available x)
      \<or> (\<forall>jid j. getJob e jid = Some j \<longrightarrow> job_Status j = StatusAssigned \<longrightarrow>
           job_AssignedRobot j \<noteq> rob_ID r)"
  shows "engine_ok (setRobot r e)"
proof -
  note b = base_okD [OF engine_okD(1) [OF ok]]
  have eq: "eng_robots (setRobot r e) = go_put (rob_ID r) r (eng_robots e)" by (simp add: setRobot_def)
  show ?thesis
    using ok robots_ok_put [OF b(2) refl ne] reserved_put_robot [OF b(3), of r "rob_ID r"] avail eq
    by (simp add: engine_ok_def base_ok_def)
qed

lemma persistCurrent_ok [simp]:
  "engine_ok e \<Longrightarrow> engine_ok (persistCurrent rid e)"
  by (auto simp: persistCurrent_def case_prod_unfold Let_def engine_ok_def split: option.splits)

lemma persistCurrent_frame [frame, simp]:
  "eng_jobs (persistCurrent rid e) = eng_jobs e" "eng_robots (persistCurrent rid e) = eng_robots e"
  by (simp_all add: persistCurrent_def case_prod_unfold Let_def split: option.splits)

lemma robotHasActive_ok: "engine_ok e \<Longrightarrow> engine_ok (snd (robotHasActiveAssignmentLocked rid e))"
  by (simp add: engine_ok_def)

text \<open>
  \<open>activeOn rid e\<close>: the scheduler's reservation. While it holds a heartbeat cannot make the robot
  available; a heartbeat that says "unavailable" is remembered, and with replanning on faults the
  job goes back to the queue.
\<close>

definition activeOn :: "string \<Rightarrow> 's engine \<Rightarrow> bool" where
  "activeOn rid e \<longleftrightarrow> (\<exists>jid j. getJob e jid = Some j \<and> job_AssignedRobot j = rid
     \<and> job_Status j = StatusAssigned)"

lemma robotHasActive_activeOn:
  assumes "engine_ok e" and "rid \<noteq> []"
  shows "fst (robotHasActiveAssignmentLocked rid e) = activeOn rid e"
  unfolding activeOn_def
  by (intro robotHasActive_iff assms base_jobs_wf engine_okD base_okD(6))

lemma applyAvailability_ok:
  assumes ok: "engine_ok e" and ex: "getRobot e (rob_ID r) = Some x"
  shows "engine_ok (applyAvailability r given e)"
proof -
  let ?rid = "rob_ID r" and ?e1 = "snd (robotHasActiveAssignmentLocked (rob_ID r) e)"
  have ne: "?rid \<noteq> []" using base_okD(2) [OF engine_okD(1) [OF ok]] ex by (rule robots_ok_known)
  have x: "rob_ID x = ?rid" using engine_okD(1) [OF ok] ex by (rule base_robot_ID)
  have ok1: "engine_ok ?e1" using ok by (rule robotHasActive_ok)
  note act = robotHasActive_activeOn [OF ok ne]
  have free: "\<not> activeOn ?rid e \<Longrightarrow> engine_ok (setRobot (x\<lparr>rob_Available := rob_Available r,
      rob_selfReportedUnavailable := \<not> rob_Available r\<rparr>) ?e1)"
    using ne x by (intro engine_ok_setRobot ok1) (auto simp: activeOn_def)
  have busy: "engine_ok (setRobot (x\<lparr>rob_selfReportedUnavailable := True\<rparr>) ?e1)" (is "engine_ok ?e2")
    using ne x ex by (intro engine_ok_setRobot ok1) auto
  note js = jobsOfRobot [OF engine_okD(1) [OF busy] ne, of False]
  have ok3: "engine_ok (snd (jobsHeldByLocked ?rid ?e2))" by (rule engine_ok_jobsHeldBy [OF busy])
  have "allInFlight (snd (jobsHeldByLocked ?rid ?e2)) (fst (jobsOfRobotLocked ?rid False ?e2))"
    using js(3) by (simp add: allInFlight_def)
  note fault = requeueAll_ok(1) [OF ok3 js(2) this, of "[]"]
  show ?thesis
    using ex ok ok1 free busy fault js(4) act
    by (simp add: applyAvailability_def case_prod_unfold Let_def)
qed

lemma upsertRobot_ok:
  assumes ok: "engine_ok e" and ne: "rob_ID r \<noteq> []"
  shows "engine_ok (upsertRobotLocked r given now e)"
proof -
  let ?e = "checkTool (rob_Tool r) (ToolOfRobot (rob_ID r)) e"
  have ok0: "engine_ok ?e" using ok by (simp add: engine_ok_def)
  show ?thesis
  proof (cases "getRobot ?e (rob_ID r)")
    case None
    have "job_AssignedRobot j \<noteq> rob_ID r" if "getJob ?e jid = Some j" "job_Status j = StatusAssigned" for jid j
      using reserved_robot(2) [OF base_okD(3) [OF engine_okD(1) [OF ok0]] that(1)] that(2) None by auto
    then have "engine_ok (setRobot (r\<lparr>rob_LastHeartbeat := Some now\<rparr>) ?e)"
      using ne by (intro engine_ok_setRobot ok0) auto
    then show ?thesis using None by (simp add: upsertRobotLocked_def Let_def)
  next
    case (Some x)
    have x: "rob_ID x = rob_ID r" using engine_okD(1) [OF ok0] Some by (rule base_robot_ID)
    let ?x = "x\<lparr>rob_Location := rob_Location r, rob_Tool := rob_Tool r,
        rob_StopCapable := rob_StopCapable r, rob_LastHeartbeat := Some now\<rparr>"
    have ok1: "engine_ok (setRobot ?x ?e)" using Some x ne by (intro engine_ok_setRobot ok0) auto
    have x1: "getRobot (setRobot ?x ?e) (rob_ID r) = Some ?x" using x by simp
    show ?thesis
      using applyAvailability_ok [OF ok1 x1, of given] Some
      by (simp add: upsertRobotLocked_def Let_def del: getRobot_setRobot)
  qed
qed

lemma UpsertRobot_ok: "engine_ok e \<Longrightarrow> rob_ID r \<noteq> [] \<Longrightarrow> engine_ok (UpsertRobot r now e)"
  by (simp add: UpsertRobot_def upsertRobot_ok)

lemma fromUpdate_fields [simp]:
  "rob_ID (fromUpdate u x) = upd_ID u"
  "rob_Available (fromUpdate u x) = (upd_Available u = Some True)"
  by (auto simp: fromUpdate_def Let_def case_prod_unfold split: option.splits)

lemma UpdateRobot_ok: "engine_ok e \<Longrightarrow> upd_ID u \<noteq> [] \<Longrightarrow> engine_ok (UpdateRobot u now e)"
  by (simp add: UpdateRobot_def upsertRobot_ok)

subsection \<open>What a heartbeat changes\<close>

text \<open>
  The record of a known robot after its own heartbeat, by the three cases of the reservation. The
  load is kept; the jobs are kept unless the fault of a busy robot sends its job back.
\<close>

definition heartbeat :: "robot \<Rightarrow> instant \<Rightarrow> robot \<Rightarrow> robot" where
  "heartbeat r now x = x\<lparr>rob_Location := rob_Location r, rob_Tool := rob_Tool r,
     rob_StopCapable := rob_StopCapable r, rob_LastHeartbeat := Some now\<rparr>"

definition faulted :: "robot \<Rightarrow> bool \<Rightarrow> 's engine \<Rightarrow> bool" where
  "faulted r given e \<longleftrightarrow> given \<and> activeOn (rob_ID r) e \<and> \<not> rob_Available r"

definition afterHeartbeat :: "robot \<Rightarrow> bool \<Rightarrow> instant \<Rightarrow> 's engine \<Rightarrow> robot \<Rightarrow> robot" where
  "afterHeartbeat r given now e x =
     (if \<not> given then heartbeat r now x
      else if \<not> activeOn (rob_ID r) e
      then (heartbeat r now x)\<lparr>rob_Available := rob_Available r,
             rob_selfReportedUnavailable := \<not> rob_Available r\<rparr>
      else if \<not> rob_Available r then (heartbeat r now x)\<lparr>rob_selfReportedUnavailable := True\<rparr>
      else heartbeat r now x)"

lemma upsertRobot_known:
  assumes ok: "engine_ok e" and x: "getRobot e (rob_ID r) = Some x"
    and no: "\<not> (faulted r given e \<and> rp_Enabled (eng_replan e) \<and> rp_OnFault (eng_replan e))"
  shows "getRobot (upsertRobotLocked r given now e) =
      (getRobot e)(rob_ID r \<mapsto> afterHeartbeat r given now e x)"
    and "eng_jobs (upsertRobotLocked r given now e) = eng_jobs e"
proof -
  let ?e = "checkTool (rob_Tool r) (ToolOfRobot (rob_ID r)) e"
  let ?e1 = "setRobot (heartbeat r now x) ?e"
  have id: "rob_ID x = rob_ID r" using engine_okD(1) [OF ok] x by (rule base_robot_ID)
  have ne: "rob_ID r \<noteq> []" using base_okD(2) [OF engine_okD(1) [OF ok]] x by (rule robots_ok_known)
  have ok0: "engine_ok ?e" using ok by (simp add: engine_ok_def)
  have ok1: "engine_ok ?e1"
    using x id ne by (intro engine_ok_setRobot ok0) (auto simp: heartbeat_def)
  have act: "fst (robotHasActiveAssignmentLocked (rob_ID r) ?e1) = activeOn (rob_ID r) e"
    using robotHasActive_activeOn [OF ok1 ne] by (simp add: activeOn_def)
  have e1: "getRobot ?e1 (rob_ID r) = Some (heartbeat r now x)" using id by (simp add: heartbeat_def)
  have u: "upsertRobotLocked r given now e = persistCurrent (rob_ID r) (applyAvailability r given ?e1)"
    using x by (simp add: upsertRobotLocked_def Let_def heartbeat_def)
  have hid: "rob_ID (heartbeat r now x) = rob_ID r" using id by (simp add: heartbeat_def)
  have a: "getRobot (applyAvailability r given ?e1) =
      (getRobot e)(rob_ID r \<mapsto> afterHeartbeat r given now e x)
    \<and> eng_jobs (applyAvailability r given ?e1) = eng_jobs e"
    using e1 act no hid
    by (auto simp: applyAvailability_def afterHeartbeat_def faulted_def case_prod_unfold Let_def)
  show "getRobot (upsertRobotLocked r given now e) =
      (getRobot e)(rob_ID r \<mapsto> afterHeartbeat r given now e x)"
    and "eng_jobs (upsertRobotLocked r given now e) = eng_jobs e"
    using a by (simp_all add: u)
qed

text \<open>The fault of a busy robot with replanning on: its assigned job is pending again.\<close>

lemma upsertRobot_fault:
  assumes ok: "engine_ok e" and x: "getRobot e (rob_ID r) = Some x"
    and f: "faulted r given e" and on: "rp_Enabled (eng_replan e)" "rp_OnFault (eng_replan e)"
  shows "\<exists>jids. set jids = {jid. \<exists>j. getJob e jid = Some j \<and> job_AssignedRobot j = rob_ID r
        \<and> job_Status j = StatusAssigned}
    \<and> (\<forall>y. getJob (upsertRobotLocked r given now e) y =
         (if y \<in> set jids then map_option pendingAgain (getJob e y) else getJob e y))
    \<and> getRobot (upsertRobotLocked r given now e) =
        (getRobot e)(rob_ID r \<mapsto> heldRobot (heartbeat r now x))"
proof -
  let ?rid = "rob_ID r"
  let ?e = "checkTool (rob_Tool r) (ToolOfRobot ?rid) e"
  let ?e1 = "setRobot (heartbeat r now x) ?e"
  let ?e2 = "setRobot ((heartbeat r now x)\<lparr>rob_selfReportedUnavailable := True\<rparr>)
      (snd (robotHasActiveAssignmentLocked ?rid ?e1))"
  let ?js = "fst (jobsOfRobotLocked ?rid False ?e2)" and ?e3 = "snd (jobsHeldByLocked ?rid ?e2)"
  have id: "rob_ID x = ?rid" using engine_okD(1) [OF ok] x by (rule base_robot_ID)
  have ne: "?rid \<noteq> []" using base_okD(2) [OF engine_okD(1) [OF ok]] x by (rule robots_ok_known)
  have hid: "rob_ID (heartbeat r now x) = ?rid" using id by (simp add: heartbeat_def)
  have av: "rob_Available (heartbeat r now x) = rob_Available x" by (simp add: heartbeat_def)
  have ok0: "engine_ok ?e" using ok by (simp add: engine_ok_def)
  have ok1: "engine_ok ?e1" using x hid ne av by (intro engine_ok_setRobot ok0) auto
  have ok2: "engine_ok ?e2"
    using hid ne av by (intro engine_ok_setRobot robotHasActive_ok ok1) auto
  have act: "fst (robotHasActiveAssignmentLocked ?rid ?e1)"
    using robotHasActive_activeOn [OF ok1 ne] f by (simp add: activeOn_def faulted_def)
  note js = jobsOfRobot [OF engine_okD(1) [OF ok2] ne, of False]
  have ok3: "engine_ok ?e3" by (rule engine_ok_jobsHeldBy [OF ok2])
  have fl: "allInFlight ?e3 ?js" using js(3) by (simp add: allInFlight_def)
  note ra = requeueAll_ok [OF ok3 js(2) fl, of "[]"]
  have u: "upsertRobotLocked r given now e =
      persistCurrent ?rid (fst (requeueAllLocked ?js [] ?e3))"
    using x f on act hid js(4)
    by (simp add: upsertRobotLocked_def applyAvailability_def faulted_def case_prod_unfold Let_def
        heartbeat_def)
  have ids: "set ?js = {jid. \<exists>j. getJob e jid = Some j \<and> job_AssignedRobot j = ?rid
      \<and> job_Status j = StatusAssigned}"
    unfolding js(1) by simp
  have robs: "getRobot ?e3 = (getRobot e)(?rid \<mapsto> (heartbeat r now x)\<lparr>rob_selfReportedUnavailable := True\<rparr>)"
    using hid by simp
  have jobs: "getJob ?e3 y = getJob e y" for y by simp
  have hit: "(\<exists>y \<in> set ?js. map_option job_AssignedRobot (getJob ?e3 y) = Some z) \<longleftrightarrow> z = ?rid" for z
    using f unfolding ids jobs by (auto simp: faulted_def activeOn_def)
  have r1: "getRobot (fst (requeueAllLocked ?js [] ?e3)) z =
      (if z = ?rid then map_option heldRobot (getRobot ?e3 z) else getRobot ?e3 z)" for z
    using ra(2) hit unfolding backIn_def by presburger
  have j1: "getJob (fst (requeueAllLocked ?js [] ?e3)) y =
      (if y \<in> set ?js then map_option pendingAgain (getJob e y) else getJob e y)" for y
    using ra(2) jobs unfolding backIn_def by presburger
  have h: "heldRobot ((heartbeat r now x)\<lparr>rob_selfReportedUnavailable := True\<rparr>) =
      heldRobot (heartbeat r now x)"
    by (simp add: heldRobot_def)
  show ?thesis
    by (rule exI [where x = ?js]) (use ids j1 r1 robs h in \<open>auto simp: u\<close>)
qed

lemma upsertRobot_new:
  assumes "getRobot e (rob_ID r) = None"
  shows "getRobot (upsertRobotLocked r given now e) =
      (getRobot e)(rob_ID r \<mapsto> r\<lparr>rob_LastHeartbeat := Some now\<rparr>)"
    and "eng_jobs (upsertRobotLocked r given now e) = eng_jobs e"
  using assms by (simp_all add: upsertRobotLocked_def Let_def)

subsection \<open>Removing a robot\<close>

lemma deleteFromStore_frame [frame, simp]:
  "eng_jobs (fst (deleteFromStore rid e)) = eng_jobs e"
  "eng_robots (fst (deleteFromStore rid e)) = eng_robots e"
  "engine_ok (fst (deleteFromStore rid e)) = engine_ok e"
  by (auto simp: deleteFromStore_def case_prod_unfold Let_def engine_ok_def base_ok_def
      split: option.splits)

lemma engine_ok_removeRobot:
  assumes ok: "engine_ok e"
    and free: "\<And>jid j. getJob e jid = Some j \<Longrightarrow> inFlight (job_Status j) \<Longrightarrow> job_AssignedRobot j \<noteq> rid"
  shows "engine_ok (e\<lparr>eng_robots := go_del rid (eng_robots e)\<rparr>)"
proof -
  note b = base_okD [OF engine_okD(1) [OF ok]]
  have "robots_ok (go_del rid (eng_robots e))" using b(2) by (simp add: robots_ok_def go_wf_del)
  moreover have "reserved_ok (eng_jobs e) (go_del rid (eng_robots e))"
  proof (rule reserved_okI)
    fix jid j assume j: "getJob e jid = Some j" "inFlight (job_Status j)"
    then show "job_AssignedRobot j \<noteq> [] \<and> (\<exists>r. go_get (go_del rid (eng_robots e)) (job_AssignedRobot j) = Some r
        \<and> (job_Status j = StatusAssigned \<longrightarrow> \<not> rob_Available r))"
      using reserved_robot [OF b(3) j] free [OF j] by simp
  qed (use reserved_one [OF b(3)] in blast)
  ultimately show ?thesis using ok by (simp add: engine_ok_def base_ok_def)
qed

text \<open>\<open>RemoveRobot\<close>: refused for an unknown robot, one that holds a job in flight, a failed delete.\<close>

lemma RemoveRobot_effect:
  assumes ok: "engine_ok e" and d: "RemoveRobot rid e = (e', err)"
  shows "engine_ok e'" "eng_jobs e' = eng_jobs e"
    "err = None \<Longrightarrow> getRobot e rid \<noteq> None \<and> getRobot e' = (getRobot e)(rid := None)
       \<and> (\<forall>jid j. getJob e jid = Some j \<longrightarrow> inFlight (job_Status j) \<longrightarrow> job_AssignedRobot j \<noteq> rid)"
    "err \<noteq> None \<Longrightarrow> eng_robots e' = eng_robots e"
    "(\<exists>jid j. getJob e jid = Some j \<and> inFlight (job_Status j) \<and> job_AssignedRobot j = rid) \<Longrightarrow>
       \<exists>jid s. err = Some (ErrRobotBusy jid s rid)"
proof -
  let ?js = "fst (jobsHeldByLocked rid e)" and ?e1 = "snd (jobsHeldByLocked rid e)"
  let ?p = "deleteFromStore rid ?e1"
  have "engine_ok e' \<and> eng_jobs e' = eng_jobs e
    \<and> (err = None \<longrightarrow> getRobot e rid \<noteq> None \<and> getRobot e' = (getRobot e)(rid := None)
       \<and> (\<forall>jid j. getJob e jid = Some j \<longrightarrow> inFlight (job_Status j) \<longrightarrow> job_AssignedRobot j \<noteq> rid))
    \<and> (err \<noteq> None \<longrightarrow> eng_robots e' = eng_robots e)
    \<and> ((\<exists>jid j. getJob e jid = Some j \<and> inFlight (job_Status j) \<and> job_AssignedRobot j = rid) \<longrightarrow>
       (\<exists>jid s. err = Some (ErrRobotBusy jid s rid)))"
  proof (cases "getRobot e rid")
    case None
    have "\<not> (getJob e jid = Some j \<and> inFlight (job_Status j) \<and> job_AssignedRobot j = rid)" for jid j
      using reserved_robot(2) [OF base_okD(3) [OF engine_okD(1) [OF ok]]] None by fastforce
    then show ?thesis using None d ok by (auto simp: RemoveRobot_def)
  next
    case (Some r)
    have ne: "rid \<noteq> []" using base_okD(2) [OF engine_okD(1) [OF ok]] Some by (rule robots_ok_known)
    note wf = base_jobs_wf [OF engine_okD(1) [OF ok]]
    have held: "j \<in> set ?js \<longleftrightarrow> getJob e (job_ID j) = Some j \<and> job_AssignedRobot j = rid" for j
      unfolding set_jobsHeldBy [OF wf base_okD(6) [OF engine_okD(1) [OF ok]] ne]
      using go_wf_vals [OF wf, of j] by (auto simp: jobsNaming_def simp del: set_map)
    have ok1: "engine_ok ?e1" using ok by (rule engine_ok_jobsHeldBy)
    show ?thesis
    proof (cases "find (\<lambda>j. inFlight (job_Status j)) ?js")
      case (Some j)
      then have "inFlight (job_Status j)" "j \<in> set ?js" by (auto simp: find_Some_iff)
      then show ?thesis
        using d \<open>getRobot e rid = Some r\<close> Some ok1
        by (auto simp: RemoveRobot_def case_prod_unfold Let_def)
    next
      case None
      then have no: "\<not> inFlight (job_Status j)" if "j \<in> set ?js" for j
        using that by (auto simp: find_None_iff)
      have free: "job_AssignedRobot j \<noteq> rid" if "getJob e jid = Some j" "inFlight (job_Status j)" for jid j
        using no held [of j] that go_wf_key [OF wf that(1)] by blast
      have ok2: "engine_ok (fst ?p)" using ok1 by simp
      show ?thesis
      proof (cases "snd ?p")
        case None
        have "engine_ok ((fst ?p)\<lparr>eng_robots := go_del rid (eng_robots (fst ?p))\<rparr>)"
          by (rule engine_ok_removeRobot [OF ok2]) (use free in simp)
        then show ?thesis
          using d Some \<open>find _ ?js = None\<close> None free
          by (auto simp: RemoveRobot_def case_prod_unfold Let_def)
      next
        case (Some x)
        then show ?thesis
          using d \<open>getRobot e rid = Some r\<close> \<open>find _ ?js = None\<close> ok2 free
          by (auto simp: RemoveRobot_def case_prod_unfold Let_def)
      qed
    qed
  qed
  then show "engine_ok e'" "eng_jobs e' = eng_jobs e"
    "err = None \<Longrightarrow> getRobot e rid \<noteq> None \<and> getRobot e' = (getRobot e)(rid := None)
       \<and> (\<forall>jid j. getJob e jid = Some j \<longrightarrow> inFlight (job_Status j) \<longrightarrow> job_AssignedRobot j \<noteq> rid)"
    "err \<noteq> None \<Longrightarrow> eng_robots e' = eng_robots e"
    "(\<exists>jid j. getJob e jid = Some j \<and> inFlight (job_Status j) \<and> job_AssignedRobot j = rid) \<Longrightarrow>
       \<exists>jid s. err = Some (ErrRobotBusy jid s rid)"
    by blast+
qed

end
