(* ===== verification/Completion.thy ===== *)
theory Completion
  imports Robots
begin

section \<open>The end of a job\<close>

text \<open>
  \<open>CompleteJobAttempt\<close>, \<open>CompleteJob\<close> and \<open>CancelJob\<close> of \<open>dispatcher.go\<close>, and the production
  event of a completion (\<open>production_event.go\<close>). A completion answers its error, if any, and the
  event that is handed to the sink after the lock is released.
\<close>

subsection \<open>Production events\<close>

text \<open>
  The event keeps instants in milliseconds where the code formats them: \<open>cycle_time_s\<close> is
  \<open>pe_CycleTimeMs / 1000\<close>, and \<open>at_utc\<close> can be read back as an RFC 3339 date exactly when its year
  has four digits. The engine never sets \<open>reject_reason\<close>.
\<close>

record ProductionEvent =
  pe_SourceID :: string
  pe_AtMs :: int
  pe_Good :: bool
  pe_CycleTimeMs :: int
  pe_JobID :: string

definition MaxCycleTimeSeconds :: int where
  "MaxCycleTimeSeconds = 604800"

definition identifierChar :: "char \<Rightarrow> bool" where
  "identifierChar c \<longleftrightarrow>
     (let n = (of_char c :: nat) in
      (65 \<le> n \<and> n \<le> 90) \<or> (97 \<le> n \<and> n \<le> 122) \<or> (48 \<le> n \<and> n \<le> 57)
      \<or> c = CHR ''.'' \<or> c = CHR ''_'' \<or> c = CHR '':'' \<or> c = CHR ''-'')"

definition productionIdentifier :: "string \<Rightarrow> bool" where
  "productionIdentifier s \<longleftrightarrow> 1 \<le> length s \<and> length s \<le> 64 \<and> list_all identifierChar s"

definition fourDigitYear :: "int \<Rightarrow> bool" where
  "fourDigitYear ms \<longleftrightarrow> - 62167219200000 \<le> ms \<and> ms \<le> 253402300799999"

definition ProductionValidate :: "ProductionEvent \<Rightarrow> bool" where
  "ProductionValidate p \<longleftrightarrow>
     productionIdentifier (pe_SourceID p)
   \<and> \<not> (pe_JobID p \<noteq> [] \<and> \<not> productionIdentifier (pe_JobID p))
   \<and> fourDigitYear (pe_AtMs p)
   \<and> \<not> (pe_CycleTimeMs p \<le> 0 \<or> pe_CycleTimeMs p > MaxCycleTimeSeconds * 1000)"

definition productionEventLocked :: "job \<Rightarrow> 's engine \<Rightarrow> ProductionEvent option" where
  "productionEventLocked j e =
     (if \<not> eng_productionOn e then None
      else
        let event = \<lparr>pe_SourceID = job_AssignedRobot j, pe_AtMs = job_CompletedAtMs j,
              pe_Good = (job_Status j = StatusDone),
              pe_CycleTimeMs = job_CompletedAtMs j - job_AssignedAtMs j, pe_JobID = job_ID j\<rparr>
        in if job_AssignedAtMs j = 0 then None
           else if \<not> ProductionValidate event then None
           else Some event)"

definition ProductionEventsEnabled :: "'s engine \<Rightarrow> bool" where
  "ProductionEventsEnabled e = eng_productionOn e"

subsection \<open>Completion\<close>

definition CompleteJobAttempt ::
  "string \<Rightarrow> bool \<Rightarrow> string \<Rightarrow> int \<Rightarrow> instant \<Rightarrow> 's engine \<Rightarrow>
   ('s engine \<times> engError option \<times> ProductionEvent option) option" where
  "CompleteJobAttempt jid success rid attempt now e =
     (case getJob e jid of
        None \<Rightarrow> Some (e, Some (ErrUnknownJob jid), None)
      | Some j \<Rightarrow>
          if job_Status j \<noteq> StatusAssigned \<and> job_Status j \<noteq> StatusUnknown
          then Some (e, Some (ErrJobNotAssigned jid (job_Status j)), None)
          else if rid \<noteq> job_AssignedRobot j
          then Some (e, Some (ErrRobotMismatch jid (job_AssignedRobot j) rid), None)
          else if attempt \<noteq> 0 \<and> attempt \<noteq> job_Attempt j
          then Some (e, Some (ErrAttemptMismatch jid (job_Attempt j) attempt), None)
          else case getRobot e (job_AssignedRobot j) of
            None \<Rightarrow> Some (e, Some (ErrUnknownRobot (job_AssignedRobot j)), None)
          | Some robot \<Rightarrow>
             (let r1 = robot\<lparr>rob_Load := rob_Load robot + 1\<rparr>;
                  e1 = setRobot r1 (beginBatchLocked e);
                  j1 = j\<lparr>job_CompletedAtMs := unixMilli now,
                         job_Status := (if success then StatusDone else StatusFailed)\<rparr>;
                  e2 = setJob j1 e1;
                  event = productionEventLocked j1 e2;
                  e3 = emitLocked (if success then EventDone else EventFailed) j1 e2;
                  (active, e4) = robotHasActiveAssignmentLocked (rob_ID robot) e3;
                  r2 = (if \<not> active \<and> \<not> rob_selfReportedUnavailable r1
                        then r1\<lparr>rob_Available := True\<rparr> else r1);
                  (e6, jobErr) = persistJobLocked j1 (setRobot r2 e4);
                  (e7, robotErr) = persistRobotLocked r2 e6
              in case refreshBlocked e7 of
                   None \<Rightarrow> None
                 | Some (e8, refreshErr) \<Rightarrow>
                    (let (e9, commitErr) = commitBatchLocked e8
                     in Some (recordPersistOutcome [jobErr, robotErr, refreshErr, commitErr] e9,
                              None, event))))"

definition CompleteJob ::
  "string \<Rightarrow> bool \<Rightarrow> string \<Rightarrow> instant \<Rightarrow> 's engine \<Rightarrow>
   ('s engine \<times> engError option \<times> ProductionEvent option) option" where
  "CompleteJob jid success rid now e = CompleteJobAttempt jid success rid 0 now e"

definition CancelJob :: "string \<Rightarrow> instant \<Rightarrow> 's engine \<Rightarrow> ('s engine \<times> engError option) option" where
  "CancelJob jid now e =
     (case getJob e jid of
        None \<Rightarrow> Some (e, Some (ErrUnknownJob jid))
      | Some j \<Rightarrow>
         (if job_Status j = StatusCancelled then Some (e, None)
          else if job_Status j = StatusAssigned \<or> job_Status j = StatusUnknown
          then Some (e, Some (ErrJobInFlight jid (job_Status j)))
          else if job_Status j = StatusDone \<or> job_Status j = StatusFailed
          then Some (e, Some (ErrJobFinished jid (job_Status j)))
          else
            (let j1 = j\<lparr>job_Status := StatusCancelled, job_AssignedRobot := [],
                        job_CompletedAtMs := unixMilli now\<rparr>;
                 (e2, jobErr) = persistJobLocked j1 (setJob j1 (beginBatchLocked e))
             in case refreshBlocked e2 of
                  None \<Rightarrow> None
                | Some (e3, refreshErr) \<Rightarrow>
                   (let (e4, commitErr) = commitBatchLocked e3
                    in Some (recordPersistOutcome [jobErr, refreshErr, commitErr] e4, None)))))"

subsection \<open>The invariant in the middle of an operation\<close>

lemma base_ok_setRobot:
  assumes b: "base_ok e" and ne: "rob_ID r \<noteq> []"
    and avail: "rob_Available r \<Longrightarrow>
      (\<exists>x. getRobot e (rob_ID r) = Some x \<and> rob_Available x) \<or> \<not> activeOn (rob_ID r) e"
  shows "base_ok (setRobot r e)"
proof -
  note b' = base_okD [OF b]
  have "eng_robots (setRobot r e) = go_put (rob_ID r) r (eng_robots e)" by (simp add: setRobot_def)
  then show ?thesis
    using b robots_ok_put [OF b'(2) refl ne] reserved_put_robot [OF b'(3), of r "rob_ID r"] avail
    by (simp add: base_ok_def activeOn_def) blast
qed

text \<open>A job that ends: it had started or waits, and takes a final status with the same robot or none.\<close>

lemma base_ok_endJob:
  assumes b: "base_ok e" and j: "getJob e jid = Some j"
    and j1: "job_ID j1 = jid" "job_DependsOn j1 = job_DependsOn j" "job_seq j1 = job_seq j"
      "job_DedupKey j1 = job_DedupKey j"
      "job_AssignedRobot j1 = job_AssignedRobot j \<or> job_AssignedRobot j1 = []"
    and s: "job_Status j \<noteq> StatusDone" "\<not> inFlight (job_Status j1)"
      "started (job_Status j1) \<Longrightarrow> started (job_Status j)"
  shows "base_ok (setJob j1 e)"
proof -
  note b' = base_okD [OF b]
  have eq: "eng_jobs (setJob j1 e) = go_put jid j1 (eng_jobs e)" using j1(1) by (simp add: setJob_def)
  show ?thesis
  proof (rule base_okI)
    show "queue_ok (eng_jobs (setJob j1 e))"
      unfolding eq using s j1 by (intro queue_ok_put [OF b'(1) j]) auto
    show "robots_ok (eng_robots (setJob j1 e))" using b'(2) by simp
    show "reserved_ok (eng_jobs (setJob j1 e)) (eng_robots (setJob j1 e))"
      unfolding eq setJob_frame(1) by (rule reserved_put_job [OF b'(3)]) (use s(2) in simp)
    show "seqs_ok (eng_nextSeq (setJob j1 e)) (eng_jobs (setJob j1 e))"
      unfolding eq using seqs_ok_put [OF b'(4) j j1(3)] by simp
    show "dedup_ok (eng_jobs (setJob j1 e)) (eng_dedupIndex (setJob j1 e))"
      unfolding eq setJob_frame(3) by (rule dedup_ok_put [OF b'(5)]) (use j j1(4) in simp)
    show "heldBy_ok (eng_jobs (setJob j1 e)) (eng_heldBy (setJob j1 e))"
      unfolding eq using heldBy_ok_put [OF b'(6), of j1] j j1 by auto
    show "costsOrdered (eng_location (setJob j1 e))" using b'(7) by simp
  qed
qed

text \<open>
  The end of an operation that re-evaluates the queue in a batch: it returns, with the invariant,
  and only waiting jobs have changed since \<open>e7\<close>.
\<close>

lemma finishBatch:
  assumes b: "base_ok e7"
  shows "\<exists>e8 refreshErr. refreshBlocked e7 = Some (e8, refreshErr)
    \<and> (\<forall>errs. engine_ok (recordPersistOutcome errs (fst (commitBatchLocked e8))))
    \<and> sameButWaiting (eng_jobs e7) (eng_jobs e8) \<and> eng_robots e8 = eng_robots e7"
proof -
  obtain e8 err where r: "refreshBlocked e7 = Some (e8, err)" using refreshBlocked_total [OF b] by blast
  note res = refreshBlocked_result [OF r base_jobs_wf [OF b]]
  have "base_ok e8 \<and> stable (eng_jobs e8)" using refreshBlocked_base [OF r b] .
  then have "\<forall>errs. engine_ok (recordPersistOutcome errs (fst (commitBatchLocked e8)))"
    by (simp add: engine_ok_commit)
  then show ?thesis using r res(2) onlyJobs_fields(1) [OF res(3)] by blast
qed

subsection \<open>What a completion does\<close>

definition completed :: "bool \<Rightarrow> instant \<Rightarrow> job \<Rightarrow> job" where
  "completed success now j = j\<lparr>job_CompletedAtMs := unixMilli now,
     job_Status := (if success then StatusDone else StatusFailed)\<rparr>"

lemma completed_fields [simp]:
  "job_ID (completed s now j) = job_ID j" "job_DependsOn (completed s now j) = job_DependsOn j"
  "job_seq (completed s now j) = job_seq j" "job_DedupKey (completed s now j) = job_DedupKey j"
  "job_AssignedRobot (completed s now j) = job_AssignedRobot j"
  "job_Attempt (completed s now j) = job_Attempt j"
  "job_Status (completed s now j) = (if s then StatusDone else StatusFailed)"
  "job_CompletedAtMs (completed s now j) = unixMilli now"
  by (simp_all add: completed_def)

text \<open>The error of a report, from the checks in their order.\<close>

definition reportError :: "string \<Rightarrow> string \<Rightarrow> int \<Rightarrow> 's engine \<Rightarrow> engError option" where
  "reportError jid rid attempt e =
     (case getJob e jid of
        None \<Rightarrow> Some (ErrUnknownJob jid)
      | Some j \<Rightarrow>
          if \<not> inFlight (job_Status j) then Some (ErrJobNotAssigned jid (job_Status j))
          else if rid \<noteq> job_AssignedRobot j then Some (ErrRobotMismatch jid (job_AssignedRobot j) rid)
          else if attempt \<noteq> 0 \<and> attempt \<noteq> job_Attempt j
          then Some (ErrAttemptMismatch jid (job_Attempt j) attempt)
          else None)"

lemma inFlight_iff: "inFlight s \<longleftrightarrow> \<not> (s \<noteq> StatusAssigned \<and> s \<noteq> StatusUnknown)"
  by (auto simp: inFlight_def)

lemma CompleteJob_refused:
  assumes "engine_ok e" and "reportError jid rid attempt e = Some err"
  shows "CompleteJobAttempt jid success rid attempt now e = Some (e, Some err, None)"
  using assms(2)
  by (auto simp: CompleteJobAttempt_def reportError_def inFlight_iff split: option.splits if_splits)

text \<open>
  The robot after its report: one more finished job, and available again unless another job holds
  it or it said itself that it is not.
\<close>

definition otherActive :: "string \<Rightarrow> string \<Rightarrow> 's engine \<Rightarrow> bool" where
  "otherActive rid jid e \<longleftrightarrow> (\<exists>x j. x \<noteq> jid \<and> getJob e x = Some j \<and> job_AssignedRobot j = rid
     \<and> job_Status j = StatusAssigned)"

definition freed :: "string \<Rightarrow> string \<Rightarrow> 's engine \<Rightarrow> robot \<Rightarrow> robot" where
  "freed rid jid e r = r\<lparr>rob_Load := rob_Load r + 1,
     rob_Available := (if \<not> otherActive rid jid e \<and> \<not> rob_selfReportedUnavailable r then True
                       else rob_Available r)\<rparr>"

lemma CompleteJob_accepted:
  assumes ok: "engine_ok e" and rep: "reportError jid rid attempt e = None"
    and j: "getJob e jid = Some j" and r: "getRobot e rid = Some r"
  shows "\<exists>e' ev. CompleteJobAttempt jid success rid attempt now e = Some (e', None, ev)
    \<and> engine_ok e' \<and> getJob e' jid = Some (completed success now j)
    \<and> (\<forall>x. x \<noteq> jid \<longrightarrow> rel_option statusOnly (getJob e x) (getJob e' x))
    \<and> getRobot e' = (getRobot e)(rid \<mapsto> freed rid jid e r)
    \<and> ev = productionEventLocked (completed success now j) e"
proof -
  have fl: "inFlight (job_Status j)" and ar: "job_AssignedRobot j = rid"
    and att: "\<not> (attempt \<noteq> 0 \<and> attempt \<noteq> job_Attempt j)"
    using rep j by (auto simp: reportError_def split: if_splits)
  note b0 = engine_okD(1) [OF ok]
  have jid: "job_ID j = jid" using b0 j by (rule base_job_ID)
  have rid: "rob_ID r = rid" using b0 r by (rule base_robot_ID)
  have ne: "rid \<noteq> []" using base_okD(2) [OF b0] r by (rule robots_ok_known)
  let ?r1 = "r\<lparr>rob_Load := rob_Load r + 1\<rparr>" and ?j1 = "completed success now j"
  let ?e1 = "setRobot ?r1 (beginBatchLocked e)"
  let ?e2 = "setJob ?j1 ?e1"
  let ?kind = "if success then EventDone else EventFailed"
  let ?e3 = "emitLocked ?kind ?j1 ?e2"
  let ?act = "robotHasActiveAssignmentLocked rid ?e3"
  let ?e4 = "snd ?act"
  let ?r2 = "if \<not> fst ?act \<and> \<not> rob_selfReportedUnavailable ?r1 then ?r1\<lparr>rob_Available := True\<rparr> else ?r1"
  let ?p6 = "persistJobLocked ?j1 (setRobot ?r2 ?e4)"
  let ?p7 = "persistRobotLocked ?r2 (fst ?p6)"
  have b1: "base_ok ?e1" using b0 r rid ne by (intro base_ok_setRobot) auto
  have j1: "getJob ?e1 jid = Some j" using j by simp
  have b2: "base_ok ?e2"
    using fl jid inFlight_started by (intro base_ok_endJob [OF b1 j1]) (auto simp: inFlight_def)
  have b3: "base_ok ?e3" using b2 by simp
  have act: "fst ?act \<longleftrightarrow> activeOn rid ?e3"
    unfolding activeOn_def using robotHasActive_iff [OF base_jobs_wf [OF b3] base_okD(6) [OF b3] ne] .
  have act': "activeOn rid ?e3 = otherActive rid jid e"
    using jid by (auto simp: activeOn_def otherActive_def)
  have e3r: "getRobot ?e3 rid = Some ?r1" using rid by simp
  have r2: "?r2 = freed rid jid e r" unfolding act act' by (simp add: freed_def)
  have b4: "base_ok ?e4" using b3 by (rule base_ok_robotHasActive)
  have act4: "activeOn rid ?e4 = fst ?act" unfolding act by (simp add: activeOn_def)
  have b5: "base_ok (setRobot ?r2 ?e4)"
    using ne rid e3r act4 by (intro base_ok_setRobot b4) auto
  then have b7: "base_ok (fst ?p7)" by simp
  obtain e8 refreshErr where f: "refreshBlocked (fst ?p7) = Some (e8, refreshErr)"
      "\<forall>errs. engine_ok (recordPersistOutcome errs (fst (commitBatchLocked e8)))"
      "sameButWaiting (eng_jobs (fst ?p7)) (eng_jobs e8)" "eng_robots e8 = eng_robots (fst ?p7)"
    using finishBatch [OF b7] by blast
  let ?ev = "productionEventLocked ?j1 ?e2"
  let ?out = "recordPersistOutcome [snd ?p6, snd ?p7, refreshErr, snd (commitBatchLocked e8)]
      (fst (commitBatchLocked e8))"
  have ns: "\<not> (job_Status j \<noteq> StatusAssigned \<and> job_Status j \<noteq> StatusUnknown)"
    using fl inFlight_iff by blast
  have run: "CompleteJobAttempt jid success rid attempt now e = Some (?out, None, ?ev)"
    using j r ar att ns f(1) rid
    by (simp add: CompleteJobAttempt_def case_prod_unfold Let_def flip: completed_def)
  have e7: "getJob (fst ?p7) x = (if x = jid then Some ?j1 else getJob e x)" for x using jid by simp
  have "rel_option statusOnly (getJob (fst ?p7) x) (getJob ?out x)" for x
    using f(3) by (simp add: sameButWaiting_def)
  note rel = this [unfolded e7]
  have "rel_option statusOnly (Some ?j1) (getJob ?out jid)" using rel [of jid] by simp
  then have "getJob ?out jid = Some ?j1"
    using statusOnly_fields(8) by (cases success) (auto simp: option_rel_Some1)
  moreover have "rel_option statusOnly (getJob e x) (getJob ?out x)" if "x \<noteq> jid" for x
    using rel [of x] that by simp
  moreover have "getRobot ?out = (getRobot e)(rid \<mapsto> freed rid jid e r)"
  proof -
    have "getRobot ?out = getRobot (setRobot ?r2 ?e4)" using f(4) by simp
    also have "\<dots> = (getRobot e)(rid \<mapsto> ?r2)" using rid by simp
    finally show ?thesis unfolding r2 .
  qed
  moreover have "?ev = productionEventLocked ?j1 e" by (simp add: productionEventLocked_def)
  ultimately show ?thesis using run f(2) by blast
qed

text \<open>On every input: it returns, keeps the invariant, and the robot of the job is registered.\<close>

lemma report_robot:
  assumes ok: "engine_ok e" and rep: "reportError jid rid attempt e = None"
  shows "\<exists>j r. getJob e jid = Some j \<and> inFlight (job_Status j) \<and> job_AssignedRobot j = rid
    \<and> getRobot e rid = Some r"
proof -
  obtain j where j: "getJob e jid = Some j" "inFlight (job_Status j)" "job_AssignedRobot j = rid"
    using rep by (auto simp: reportError_def split: option.splits if_splits)
  then show ?thesis using reserved_robot(2) [OF base_okD(3) [OF engine_okD(1) [OF ok]] j(1,2)] by auto
qed

lemma CompleteJob_ok:
  assumes ok: "engine_ok e"
  shows "\<exists>e' ev. CompleteJobAttempt jid success rid attempt now e = Some (e', reportError jid rid attempt e, ev)
    \<and> engine_ok e'"
proof (cases "reportError jid rid attempt e")
  case None
  then show ?thesis using report_robot [OF ok None] CompleteJob_accepted [OF ok None] by fastforce
next
  case (Some err)
  then show ?thesis using CompleteJob_refused [OF ok Some] ok by auto
qed

subsection \<open>What a cancellation does\<close>

definition cancelled :: "instant \<Rightarrow> job \<Rightarrow> job" where
  "cancelled now j = j\<lparr>job_Status := StatusCancelled, job_AssignedRobot := [],
     job_CompletedAtMs := unixMilli now\<rparr>"

lemma cancelled_fields [simp]:
  "job_ID (cancelled now j) = job_ID j" "job_DependsOn (cancelled now j) = job_DependsOn j"
  "job_seq (cancelled now j) = job_seq j" "job_DedupKey (cancelled now j) = job_DedupKey j"
  "job_AssignedRobot (cancelled now j) = []" "job_Status (cancelled now j) = StatusCancelled"
  by (simp_all add: cancelled_def)

definition cancelError :: "string \<Rightarrow> 's engine \<Rightarrow> engError option" where
  "cancelError jid e =
     (case getJob e jid of
        None \<Rightarrow> Some (ErrUnknownJob jid)
      | Some j \<Rightarrow>
          if inFlight (job_Status j) then Some (ErrJobInFlight jid (job_Status j))
          else if job_Status j = StatusDone \<or> job_Status j = StatusFailed
          then Some (ErrJobFinished jid (job_Status j)) else None)"

lemma CancelJob_refused:
  "cancelError jid e = Some err \<Longrightarrow> CancelJob jid now e = Some (e, Some err)"
  by (auto simp: CancelJob_def cancelError_def inFlight_def split: option.splits if_splits)

lemma CancelJob_again:
  "getJob e jid = Some j \<Longrightarrow> job_Status j = StatusCancelled \<Longrightarrow> CancelJob jid now e = Some (e, None)"
  by (simp add: CancelJob_def)

lemma CancelJob_accepted:
  assumes ok: "engine_ok e" and j: "getJob e jid = Some j" "waiting (job_Status j)"
  shows "\<exists>e'. CancelJob jid now e = Some (e', None) \<and> engine_ok e'
    \<and> getJob e' jid = Some (cancelled now j)
    \<and> (\<forall>x. x \<noteq> jid \<longrightarrow> rel_option statusOnly (getJob e x) (getJob e' x))
    \<and> eng_robots e' = eng_robots e"
proof -
  note b0 = engine_okD(1) [OF ok]
  have jid: "job_ID j = jid" using b0 j(1) by (rule base_job_ID)
  let ?j1 = "cancelled now j" and ?e0 = "beginBatchLocked e"
  let ?p = "persistJobLocked ?j1 (setJob ?j1 ?e0)"
  have "getJob ?e0 jid = Some j" using j by simp
  then have "base_ok (setJob ?j1 ?e0)"
    using b0 jid j(2) by (intro base_ok_endJob) auto
  then have b2: "base_ok (fst ?p)" by simp
  obtain e3 refreshErr where f: "refreshBlocked (fst ?p) = Some (e3, refreshErr)"
      "\<forall>errs. engine_ok (recordPersistOutcome errs (fst (commitBatchLocked e3)))"
      "sameButWaiting (eng_jobs (fst ?p)) (eng_jobs e3)" "eng_robots e3 = eng_robots (fst ?p)"
    using finishBatch [OF b2] by blast
  let ?out = "recordPersistOutcome [snd ?p, refreshErr, snd (commitBatchLocked e3)]
      (fst (commitBatchLocked e3))"
  have run: "CancelJob jid now e = Some (?out, None)"
    using j f(1) by (cases "job_Status j") (simp_all add: CancelJob_def case_prod_unfold Let_def flip: cancelled_def)
  have e2: "getJob (fst ?p) x = (if x = jid then Some ?j1 else getJob e x)" for x using jid by simp
  have "rel_option statusOnly (getJob (fst ?p) x) (getJob ?out x)" for x
    using f(3) by (simp add: sameButWaiting_def)
  note rel = this [unfolded e2]
  have "rel_option statusOnly (Some ?j1) (getJob ?out jid)" using rel [of jid] by simp
  then have "getJob ?out jid = Some ?j1"
    using statusOnly_fields(8) by (auto simp: option_rel_Some1)
  moreover have "rel_option statusOnly (getJob e x) (getJob ?out x)" if "x \<noteq> jid" for x
    using rel [of x] that by simp
  moreover have "eng_robots ?out = eng_robots e" using f(4) by simp
  ultimately show ?thesis using run f(2) by blast
qed

lemma CancelJob_ok:
  assumes ok: "engine_ok e"
  shows "\<exists>e'. CancelJob jid now e = Some (e', cancelError jid e) \<and> engine_ok e'"
proof (cases "cancelError jid e")
  case (Some err)
  then show ?thesis using CancelJob_refused [OF Some] ok by auto
next
  case None
  then obtain j where j: "getJob e jid = Some j" "\<not> inFlight (job_Status j)"
      "job_Status j \<noteq> StatusDone" "job_Status j \<noteq> StatusFailed"
    by (auto simp: cancelError_def split: option.splits if_splits)
  show ?thesis
  proof (cases "job_Status j = StatusCancelled")
    case True
    then show ?thesis using CancelJob_again [OF j(1) True] ok None by auto
  next
    case False
    then have "waiting (job_Status j)" using j by (cases "job_Status j") simp_all
    then show ?thesis using CancelJob_accepted [OF ok j(1)] None by fastforce
  qed
qed

end
