(* ===== verification/Archive.thy ===== *)
theory Archive
  imports Invariant
begin

section \<open>The archive of finished jobs\<close>

text \<open>
  \<open>src/src/dispatcher/archive.go\<close>: finished jobs leave the live queue after a while, unless a job
  that stays depends on them.
\<close>

definition archivable :: "JobStatus \<Rightarrow> bool" where
  "archivable s \<longleftrightarrow> s = StatusDone \<or> s = StatusFailed \<or> s = StatusCancelled"

definition expired :: "int \<Rightarrow> job \<Rightarrow> bool" where
  "expired cutoff j \<longleftrightarrow>
     archivable (job_Status j) \<and> 0 < job_CompletedAtMs j \<and> job_CompletedAtMs j \<le> cutoff"

definition candidates :: "int \<Rightarrow> (string, job) gomap \<Rightarrow> string list" where
  "candidates cutoff jobs = map fst (filter (\<lambda>(jid, j). expired cutoff j) jobs)"

text \<open>One pass over the queue: a candidate that a job outside the candidates depends on is dropped.\<close>

fun freeDeps :: "string list \<Rightarrow> string list \<Rightarrow> bool \<Rightarrow> string list \<times> bool" where
  "freeDeps [] cand changed = (cand, changed)"
| "freeDeps (dep # deps) cand changed =
     (if dep \<in> set cand then freeDeps deps (removeAll dep cand) True
      else freeDeps deps cand changed)"

fun archivePass :: "job list \<Rightarrow> string list \<Rightarrow> bool \<Rightarrow> string list \<times> bool" where
  "archivePass [] cand changed = (cand, changed)"
| "archivePass (j # js) cand changed =
     (if job_ID j \<in> set cand then archivePass js cand changed
      else (case freeDeps (job_DependsOn j) cand changed of (cand', changed') \<Rightarrow>
              archivePass js cand' changed'))"

lemma freeDeps_length:
  "length (fst (freeDeps deps cand ch)) \<le> length cand
   \<and> (snd (freeDeps deps cand ch) \<longrightarrow> ch \<or> length (fst (freeDeps deps cand ch)) < length cand)"
proof (induction deps cand ch rule: freeDeps.induct)
  case (2 dep deps cand changed)
  have "dep \<in> set cand \<Longrightarrow> length (removeAll dep cand) < length cand" by (rule length_removeAll_less)
  then show ?case using 2 by (cases "dep \<in> set cand") fastforce+
qed simp

lemma archivePass_length:
  "length (fst (archivePass js cand ch)) \<le> length cand
   \<and> (snd (archivePass js cand ch) \<longrightarrow> ch \<or> length (fst (archivePass js cand ch)) < length cand)"
proof (induction js arbitrary: cand ch)
  case (Cons j js)
  show ?case
  proof (cases "job_ID j \<in> set cand")
    case True
    then show ?thesis using Cons by simp
  next
    case False
    let ?f = "freeDeps (job_DependsOn j) cand ch"
    have "archivePass (j # js) cand ch = archivePass js (fst ?f) (snd ?f)"
      using False by (simp add: case_prod_unfold)
    then show ?thesis
      using Cons [of "fst ?f" "snd ?f"] freeDeps_length [of "job_DependsOn j" cand ch] by force
  qed
qed simp

lemma archivePass_less:
  "(cand', True) = archivePass js cand False \<Longrightarrow> length cand' < length cand"
  using archivePass_length [of js cand False] by (metis fst_conv snd_conv)

function archiveLoop :: "job list \<Rightarrow> string list \<Rightarrow> string list" where
  "archiveLoop js cand =
     (if cand = [] then []
      else case archivePass js cand False of (cand', changed) \<Rightarrow>
        if changed then archiveLoop js cand' else cand')"
  by pat_completeness auto
termination
  by (relation "measure (\<lambda>(js, cand). length cand)") (auto dest: archivePass_less)

declare archiveLoop.simps [simp del]

definition archiveRemove :: "string \<Rightarrow> 's engine \<Rightarrow> 's engine" where
  "archiveRemove jid e =
     (case getJob e jid of
        None \<Rightarrow> e
      | Some j \<Rightarrow>
          e\<lparr>eng_dedupIndex :=
              (if job_DedupKey j \<noteq> [] \<and> go_get (eng_dedupIndex e) (job_DedupKey j) = Some jid
               then go_del (job_DedupKey j) (eng_dedupIndex e) else eng_dedupIndex e),
            eng_stopReq := go_del jid (eng_stopReq e),
            eng_jobs := go_del jid (eng_jobs e)\<rparr>)"

definition ArchiveFinished :: "instant \<Rightarrow> 's engine \<Rightarrow> 's engine \<times> (engError + string list)" where
  "ArchiveFinished now e =
     (case eng_store e of
        None \<Rightarrow> (e, Inr [])
      | Some sv \<Rightarrow>
         (case sv_ArchiveJobs sv of
            None \<Rightarrow> (e, Inr [])
          | Some archive \<Rightarrow>
              if eng_archiveAfter e \<le> 0 then (e, Inr [])
              else
                let nowMs = unixMilli now;
                    cutoff = nowMs - milliseconds (eng_archiveAfter e);
                    ids = archiveLoop (go_vals (eng_jobs e)) (candidates cutoff (eng_jobs e))
                in if ids = [] then (e, Inr [])
                   else
                     (let (s, err) = archive (sv_state sv) ids nowMs;
                          e1 = e\<lparr>eng_store := Some (sv\<lparr>sv_state := s\<rparr>)\<rparr>
                      in case err of
                           Some x \<Rightarrow> (e1\<lparr>eng_lastPersistErr := Some x\<rparr>, Inl (ErrStore x))
                         | None \<Rightarrow> (fold archiveRemove ids e1, Inr ids))))"

definition archivedJob :: "JobRecord \<Rightarrow> job" where
  "archivedJob r = (rec_Job r)\<lparr>job_seq := rec_Seq r\<rparr>"

definition ArchivedPage :: "int \<Rightarrow> int \<Rightarrow> 's engine \<Rightarrow> engError + (job list \<times> int)" where
  "ArchivedPage offset limit e =
     (case eng_store e of
        None \<Rightarrow> Inl ErrNoArchive
      | Some sv \<Rightarrow>
         (case sv_LoadArchived sv of
            None \<Rightarrow> Inl ErrNoArchive
          | Some load \<Rightarrow>
             (case load (sv_state sv) offset limit of
                Inl err \<Rightarrow> Inl (ErrStore err)
              | Inr (records, n) \<Rightarrow> Inr (map archivedJob records, n))))"

subsection \<open>Which jobs stay\<close>

text \<open>
  \<open>kept jobs C\<close>: the jobs that stay when \<open>C\<close> are the candidates: those that are no candidates, and
  what they depend on, directly or not.
\<close>

inductive kept :: "(string, job) gomap \<Rightarrow> string set \<Rightarrow> string \<Rightarrow> bool" for jobs C where
  outside: "go_get jobs jid = Some j \<Longrightarrow> jid \<notin> C \<Longrightarrow> kept jobs C jid"
| needed: "kept jobs C jid \<Longrightarrow> (d, jid) \<in> depRel jobs \<Longrightarrow> kept jobs C d"

lemma freeDeps_mem:
  "set (fst (freeDeps deps cand ch)) = set cand - set deps"
  "snd (freeDeps deps cand ch) \<longleftrightarrow> ch \<or> set deps \<inter> set cand \<noteq> {}"
  by (induction deps cand ch rule: freeDeps.induct) auto

lemma freeDeps_distinct: "distinct cand \<Longrightarrow> distinct (fst (freeDeps deps cand ch))"
  by (induction deps cand ch rule: freeDeps.induct) (simp_all add: distinct_removeAll)

lemma archivePass_distinct: "distinct cand \<Longrightarrow> distinct (fst (archivePass js cand ch))"
  by (induction js arbitrary: cand ch) (auto simp: case_prod_unfold freeDeps_distinct)

text \<open>What a pass drops is kept, and a pass that drops nothing has found no reason to.\<close>

lemma archivePass_sound:
  assumes "\<forall>j \<in> set js. go_get jobs (job_ID j) = Some j"
    and "\<forall>x. go_get jobs x \<noteq> None \<longrightarrow> x \<notin> set cand \<longrightarrow> kept jobs C x"
  shows "set (fst (archivePass js cand ch)) \<subseteq> set cand
    \<and> (\<forall>x. go_get jobs x \<noteq> None \<longrightarrow> x \<notin> set (fst (archivePass js cand ch)) \<longrightarrow> kept jobs C x)"
  using assms
proof (induction js arbitrary: cand ch)
  case (Cons j js)
  show ?case
  proof (cases "job_ID j \<in> set cand")
    case True
    then show ?thesis using Cons by simp
  next
    case False
    let ?f = "freeDeps (job_DependsOn j) cand ch"
    have j: "go_get jobs (job_ID j) = Some j" using Cons.prems(1) by simp
    have kj: "kept jobs C (job_ID j)" using Cons.prems(2) j False by simp
    have "kept jobs C x" if "go_get jobs x \<noteq> None" "x \<notin> set (fst ?f)" for x
    proof (cases "x \<in> set cand")
      case True
      then have "x \<in> set (job_DependsOn j)" using that(2) by (simp add: freeDeps_mem)
      then have "(x, job_ID j) \<in> depRel jobs" using j by (auto simp: depRel_def)
      then show ?thesis using kj kept.needed by blast
    next
      case False
      then show ?thesis using Cons.prems(2) that(1) by blast
    qed
    then have "set (fst (archivePass js (fst ?f) (snd ?f))) \<subseteq> set (fst ?f)
      \<and> (\<forall>x. go_get jobs x \<noteq> None \<longrightarrow> x \<notin> set (fst (archivePass js (fst ?f) (snd ?f))) \<longrightarrow> kept jobs C x)"
      using Cons.IH [of "fst ?f" "snd ?f"] Cons.prems(1) by simp
    then show ?thesis using False by (auto simp: case_prod_unfold freeDeps_mem)
  qed
qed simp

lemma archivePass_done:
  assumes "\<not> snd (archivePass js cand ch)"
  shows "\<not> ch \<and> set (fst (archivePass js cand ch)) = set cand
    \<and> (\<forall>j \<in> set js. job_ID j \<notin> set cand \<longrightarrow> set (job_DependsOn j) \<inter> set cand = {})"
  using assms
proof (induction js arbitrary: cand ch)
  case (Cons j js)
  show ?case
  proof (cases "job_ID j \<in> set cand")
    case True
    then have eq: "archivePass (j # js) cand ch = archivePass js cand ch" by simp
    show ?thesis using Cons.IH [of cand ch] Cons.prems True unfolding eq list.set by blast
  next
    case False
    let ?f = "freeDeps (job_DependsOn j) cand ch"
    have pe: "archivePass (j # js) cand ch = archivePass js (fst ?f) (snd ?f)"
      using False by (simp add: case_prod_unfold)
    have "\<not> snd (archivePass js (fst ?f) (snd ?f))" using Cons.prems unfolding pe .
    note IH = Cons.IH [OF this]
    have none: "\<not> ch" "set (job_DependsOn j) \<inter> set cand = {}"
      using IH by (simp_all add: freeDeps_mem)
    then have fc: "set (fst ?f) = set cand" by (auto simp: freeDeps_mem)
    show ?thesis using IH [unfolded fc] none False unfolding pe list.set(2) by blast
  qed
qed simp

lemma kept_stays:
  assumes "kept jobs C x" and "\<And>y. y \<in> S \<Longrightarrow> y \<in> C"
    and "\<And>y d. y \<notin> S \<Longrightarrow> (d, y) \<in> depRel jobs \<Longrightarrow> d \<notin> S"
  shows "x \<notin> S"
  using assms(1) by (induction rule: kept.induct) (use assms(2,3) in blast)+

text \<open>The loop leaves exactly the candidates that are not kept.\<close>

lemma archiveLoop_set:
  assumes wf: "go_wf job_ID jobs" and sub: "set cand \<subseteq> C"
    and out: "\<forall>x. go_get jobs x \<noteq> None \<longrightarrow> x \<notin> set cand \<longrightarrow> kept jobs C x"
    and known: "\<forall>x \<in> C. go_get jobs x \<noteq> None"
  shows "set (archiveLoop (go_vals jobs) cand) = {x \<in> C. \<not> kept jobs C x}"
  using sub out
proof (induction "go_vals jobs" cand rule: archiveLoop.induct)
  case (1 cand)
  let ?p = "archivePass (go_vals jobs) cand False"
  have vals: "\<forall>j \<in> set (go_vals jobs). go_get jobs (job_ID j) = Some j"
    using go_wf_vals [OF wf] by blast
  show ?case
  proof (cases "cand = []")
    case True
    then show ?thesis using 1(3) known by (subst archiveLoop.simps) auto
  next
    case False
    note s = archivePass_sound [OF vals 1(3), of False]
    show ?thesis
    proof (cases "snd ?p")
      case True
      have "archiveLoop (go_vals jobs) cand = archiveLoop (go_vals jobs) (fst ?p)"
        using False True by (subst archiveLoop.simps) (simp add: case_prod_unfold)
      also have "set \<dots> = {x \<in> C. \<not> kept jobs C x}"
        using 1(1) [of "fst ?p" "snd ?p", OF False _ True] s 1(2) by auto
      finally show ?thesis .
    next
      case no: False
      note d = archivePass_done [OF no]
      have eq: "set (archiveLoop (go_vals jobs) cand) = set cand"
        using False no d by (subst archiveLoop.simps) (simp add: case_prod_unfold)
      have "kept jobs C x \<Longrightarrow> x \<notin> set cand" for x
      proof (rule kept_stays)
        show "y \<in> set cand \<Longrightarrow> y \<in> C" for y using 1(2) by blast
        fix y z assume "y \<notin> set cand" "(z, y) \<in> depRel jobs"
        then obtain j where "go_get jobs y = Some j" "z \<in> set (job_DependsOn j)" by (auto simp: depRel_def)
        then show "z \<notin> set cand"
          using d go_wf_vals_ex [OF wf, of j] go_wf_key [OF wf, of y j] \<open>y \<notin> set cand\<close> by blast
      qed
      then show ?thesis unfolding eq using 1(2,3) known by blast
    qed
  qed
qed

lemma archiveLoop_distinct: "distinct cand \<Longrightarrow> distinct (archiveLoop js cand)"
proof (induction js cand rule: archiveLoop.induct)
  case (1 js cand)
  let ?p = "archivePass js cand False"
  have d: "distinct (fst ?p)" by (rule archivePass_distinct [OF 1(2)])
  consider "cand = []" | "cand \<noteq> []" "snd ?p" | "cand \<noteq> []" "\<not> snd ?p" by blast
  then show ?case
  proof cases
    case 2
    have "distinct (archiveLoop js (fst ?p))" by (rule 1(1) [OF 2(1) prod.collapse 2(2) d])
    then show ?thesis using 2 by (subst archiveLoop.simps) (simp add: case_prod_unfold)
  qed (use d in \<open>subst archiveLoop.simps, simp add: case_prod_unfold\<close>)+
qed

subsection \<open>The invariant\<close>

text \<open>
  Removing jobs that nothing left behind depends on. \<open>dropped e ids e'\<close>: the queue without them.
\<close>

lemma archiveRemove_frame [frame, simp]:
  "eng_robots (archiveRemove jid e) = eng_robots e" "eng_nextSeq (archiveRemove jid e) = eng_nextSeq e"
  "eng_heldBy (archiveRemove jid e) = eng_heldBy e" "eng_location (archiveRemove jid e) = eng_location e"
  "eng_pending (archiveRemove jid e) = eng_pending e" "eng_store (archiveRemove jid e) = eng_store e"
  by (simp_all add: archiveRemove_def split: option.splits)

lemma archiveRemove_jobs: "getJob (archiveRemove jid e) = (getJob e)(jid := None)"
  by (rule ext) (simp add: archiveRemove_def split: option.splits)

lemma fold_archiveRemove_frame:
  "eng_robots (fold archiveRemove ids e) = eng_robots e \<and> eng_nextSeq (fold archiveRemove ids e) = eng_nextSeq e
   \<and> eng_heldBy (fold archiveRemove ids e) = eng_heldBy e \<and> eng_location (fold archiveRemove ids e) = eng_location e
   \<and> eng_pending (fold archiveRemove ids e) = eng_pending e \<and> eng_store (fold archiveRemove ids e) = eng_store e"
  by (induction ids arbitrary: e) simp_all

lemma fold_archiveRemove_jobs:
  "getJob (fold archiveRemove ids e) x = (if x \<in> set ids then None else getJob e x)"
  by (induction ids arbitrary: e) (simp_all add: archiveRemove_jobs)

lemma archiveRemove_wf: "go_wf job_ID (eng_jobs e) \<Longrightarrow> go_wf job_ID (eng_jobs (archiveRemove jid e))"
  by (simp add: archiveRemove_def go_wf_del split: option.splits)

lemma archiveRemove_dedup:
  assumes "dedup_ok (eng_jobs e) (eng_dedupIndex e)"
  shows "dedup_ok (eng_jobs (archiveRemove jid e)) (eng_dedupIndex (archiveRemove jid e))"
proof (cases "getJob e jid")
  case None
  then show ?thesis using assms by (simp add: archiveRemove_def)
next
  case (Some j)
  have old: "map_option job_DedupKey (getJob e x) = Some k" if "go_get (eng_dedupIndex e) k = Some x" for k x
    using assms that unfolding dedup_ok_def by blast
  show ?thesis unfolding dedup_ok_def
  proof (intro conjI allI impI)
    fix k x assume k: "go_get (eng_dedupIndex (archiveRemove jid e)) k = Some x"
    then have o: "go_get (eng_dedupIndex e) k = Some x"
      using Some by (auto simp: archiveRemove_def split: if_splits)
    have "k \<noteq> []" using o assms by (auto simp: dedup_ok_def)
    have "x \<noteq> jid"
    proof
      assume "x = jid"
      then have "job_DedupKey j = k" using old [OF o] Some by simp
      then show False using k o \<open>x = jid\<close> \<open>k \<noteq> []\<close> Some by (simp add: archiveRemove_def)
    qed
    then show "map_option job_DedupKey (getJob (archiveRemove jid e) x) = Some k"
      using old [OF o] by (simp add: archiveRemove_jobs)
  next
    show "go_get (eng_dedupIndex (archiveRemove jid e)) [] = None"
      using assms Some by (simp add: archiveRemove_def dedup_ok_def)
  qed
qed

lemma fold_archiveRemove_ok:
  assumes "go_wf job_ID (eng_jobs e)" and "dedup_ok (eng_jobs e) (eng_dedupIndex e)"
  shows "go_wf job_ID (eng_jobs (fold archiveRemove ids e)) \<and>
    dedup_ok (eng_jobs (fold archiveRemove ids e)) (eng_dedupIndex (fold archiveRemove ids e))"
  using assms by (induction ids arbitrary: e) (simp_all add: archiveRemove_wf archiveRemove_dedup)

lemma removed_ok:
  assumes ok: "engine_ok e" and ids: "\<And>jid j d. jid \<notin> ids \<Longrightarrow> getJob e jid = Some j \<Longrightarrow>
      d \<in> set (job_DependsOn j) \<Longrightarrow> d \<notin> ids"
    and jobs: "\<And>x. getJob e' x = (if x \<in> ids then None else getJob e x)"
    and wf: "go_wf job_ID (eng_jobs e')" and dd: "dedup_ok (eng_jobs e') (eng_dedupIndex e')"
    and same: "eng_robots e' = eng_robots e" "eng_nextSeq e' = eng_nextSeq e"
      "eng_heldBy e' = eng_heldBy e" "eng_location e' = eng_location e"
      "eng_pending e' = eng_pending e"
  shows "engine_ok e'"
proof -
  note b = base_okD [OF engine_okD(1) [OF ok]]
  have old: "getJob e x = Some j \<and> x \<notin> ids" if "getJob e' x = Some j" for x j
    using that jobs [of x] by (simp split: if_splits)
  have dep: "depIs P (eng_jobs e') d = depIs P (eng_jobs e) d" if "d \<notin> ids" for P d
    using that by (simp add: depIs_def jobs)
  have deps: "d \<notin> ids" if "getJob e' x = Some j" "d \<in> set (job_DependsOn j)" for x j d
    using ids old [OF that(1)] that(2) by blast
  have "depRel (eng_jobs e') \<subseteq> depRel (eng_jobs e)" using old by (auto simp: depRel_def)
  then have "acyclic (depRel (eng_jobs e'))" using queue_okD(3) [OF b(1)] acyclic_subset by blast
  moreover have "deps_closed (eng_jobs e')"
    unfolding deps_closed_def using deps deps_closedD [OF queue_okD(2) [OF b(1)]] old jobs
    by (metis (full_types))
  moreover have "started_ok (eng_jobs e')"
    unfolding started_ok_def using deps dep started_okD [OF queue_okD(4) [OF b(1)]] old by blast
  moreover have "reserved_ok (eng_jobs e') (eng_robots e')"
    by (rule reserved_okI) (use old reserved_robot [OF b(3)] reserved_one [OF b(3)] same in metis)+
  moreover have "seqs_ok (eng_nextSeq e') (eng_jobs e')"
    using b(4) old same unfolding seqs_ok_def by metis
  moreover have "heldBy_ok (eng_jobs e') (eng_heldBy e')"
    using old heldBy_okD [OF b(6)] heldBy_ok_distinct [OF b(6)] same by (intro heldBy_okI) auto
  moreover have "stable (eng_jobs e')"
  proof -
    have "computeStatus (eng_jobs e') j = computeStatus (eng_jobs e) j" if "getJob e' x = Some j" for x j
      by (rule computeStatus_class) (use deps [OF that] dep in auto)
    then show ?thesis using engine_okD(2) [OF ok] old
      by (fastforce simp: stable_def stableAt_def split: option.splits)
  qed
  ultimately show ?thesis
    using ok wf dd same by (simp add: engine_ok_def base_ok_def queue_ok_def)
qed

subsection \<open>What the archive does\<close>

lemma mem_candidates:
  assumes "go_wf job_ID jobs"
  shows "set (candidates cutoff jobs) = {jid. \<exists>j. go_get jobs jid = Some j \<and> expired cutoff j}"
  using go_wf_mem [OF assms] by (force simp: candidates_def)

lemma distinct_candidates: "go_wf job_ID jobs \<Longrightarrow> distinct (candidates cutoff jobs)"
  unfolding candidates_def by (rule distinct_map_filter) (rule go_wf_distinct)

definition archiveCutoff :: "instant \<Rightarrow> 's engine \<Rightarrow> int" where
  "archiveCutoff now e = unixMilli now - milliseconds (eng_archiveAfter e)"

definition toArchive :: "instant \<Rightarrow> 's engine \<Rightarrow> string set" where
  "toArchive now e = {jid. \<exists>j. getJob e jid = Some j \<and> expired (archiveCutoff now e) j}"

lemma archiveLoop_toArchive:
  assumes wf: "go_wf job_ID (eng_jobs e)"
  shows "set (archiveLoop (go_vals (eng_jobs e)) (candidates (archiveCutoff now e) (eng_jobs e))) =
    {jid \<in> toArchive now e. \<not> kept (eng_jobs e) (toArchive now e) jid}"
proof (rule archiveLoop_set [OF wf])
  have c: "set (candidates (archiveCutoff now e) (eng_jobs e)) = toArchive now e"
    by (simp add: mem_candidates [OF wf] toArchive_def)
  show "set (candidates (archiveCutoff now e) (eng_jobs e)) \<subseteq> toArchive now e" using c by simp
  show "\<forall>x. getJob e x \<noteq> None \<longrightarrow> x \<notin> set (candidates (archiveCutoff now e) (eng_jobs e)) \<longrightarrow>
      kept (eng_jobs e) (toArchive now e) x"
    using c by (auto intro: kept.outside)
  show "\<forall>x \<in> toArchive now e. getJob e x \<noteq> None" by (auto simp: toArchive_def)
qed

text \<open>
  An archive that succeeds removes exactly the expired jobs that nothing kept depends on; one that
  fails removes nothing. The invariant holds afterwards either way.
\<close>

lemma ArchiveFinished_effect:
  assumes ok: "engine_ok e" and d: "ArchiveFinished now e = (e', r)"
  shows "engine_ok e'"
    "\<And>err. r = Inl err \<Longrightarrow> eng_jobs e' = eng_jobs e \<and> (\<exists>x. err = ErrStore x \<and> eng_lastPersistErr e' = Some x)"
    "\<And>ids x. r = Inr ids \<Longrightarrow> getJob e' x = (if x \<in> set ids then None else getJob e x)"
    "\<And>ids. r = Inr ids \<Longrightarrow> ids \<noteq> [] \<Longrightarrow>
       set ids = {jid \<in> toArchive now e. \<not> kept (eng_jobs e) (toArchive now e) jid} \<and> distinct ids"
proof -
  let ?ids = "archiveLoop (go_vals (eng_jobs e)) (candidates (archiveCutoff now e) (eng_jobs e))"
  note wf = base_jobs_wf [OF engine_okD(1) [OF ok]]
  note s = archiveLoop_toArchive [OF wf, of now]
  have closed: "y \<notin> set ?ids" if "x \<notin> set ?ids" "getJob e x = Some j" "y \<in> set (job_DependsOn j)" for x y j
  proof -
    have "kept (eng_jobs e) (toArchive now e) x"
      using that(1,2) s kept.outside [of "eng_jobs e" x j "toArchive now e"] by blast
    moreover have "(y, x) \<in> depRel (eng_jobs e)" using that(2,3) by (auto simp: depRel_def)
    ultimately show ?thesis using s kept.needed by fast
  qed
  have all: "engine_ok e' \<and> (\<forall>err. r = Inl err \<longrightarrow> eng_jobs e' = eng_jobs e \<and>
        (\<exists>x. err = ErrStore x \<and> eng_lastPersistErr e' = Some x))
    \<and> (\<forall>ids. r = Inr ids \<longrightarrow> (\<forall>x. getJob e' x = (if x \<in> set ids then None else getJob e x))
        \<and> (ids \<noteq> [] \<longrightarrow> ids = ?ids))"
  proof (cases "e' = e \<and> r = Inr []")
    case True
    then show ?thesis using ok by simp
  next
    case False
    then obtain sv archive where sv: "eng_store e = Some sv" "sv_ArchiveJobs sv = Some archive"
        "\<not> eng_archiveAfter e \<le> 0" "?ids \<noteq> []"
      using d by (auto simp: ArchiveFinished_def archiveCutoff_def Let_def split: option.splits if_splits)
    let ?a = "archive (sv_state sv) ?ids (unixMilli now)"
    let ?e1 = "e\<lparr>eng_store := Some (sv\<lparr>sv_state := fst ?a\<rparr>)\<rparr>"
    have run: "(e', r) = (case snd ?a of Some x \<Rightarrow> (?e1\<lparr>eng_lastPersistErr := Some x\<rparr>, Inl (ErrStore x))
        | None \<Rightarrow> (fold archiveRemove ?ids ?e1, Inr ?ids))"
      using d sv
      by (cases "snd ?a") (auto simp: ArchiveFinished_def archiveCutoff_def case_prod_unfold Let_def)
    have ok1: "engine_ok ?e1" using ok by (simp add: engine_ok_def base_ok_def)
    show ?thesis
    proof (cases "snd ?a")
      case (Some x)
      then show ?thesis using run ok by (simp add: engine_ok_def base_ok_def)
    next
      case None
      then have e': "e' = fold archiveRemove ?ids ?e1" "r = Inr ?ids" using run by simp_all
      have jobs: "getJob e' x = (if x \<in> set ?ids then None else getJob ?e1 x)" for x
        unfolding e' by (rule fold_archiveRemove_jobs)
      note f = fold_archiveRemove_frame [of ?ids ?e1]
      have w: "go_wf job_ID (eng_jobs e') \<and> dedup_ok (eng_jobs e') (eng_dedupIndex e')"
        unfolding e' using wf base_okD(5) [OF engine_okD(1) [OF ok]] by (intro fold_archiveRemove_ok) simp_all
      have "engine_ok e'"
        by (rule removed_ok [where ids = "set ?ids", OF ok1 _ jobs]) (use closed w f e' in auto)
      then show ?thesis using e'(2) jobs by simp
    qed
  qed
  show "engine_ok e'" using all by blast
  show "\<And>err. r = Inl err \<Longrightarrow> eng_jobs e' = eng_jobs e \<and> (\<exists>x. err = ErrStore x \<and> eng_lastPersistErr e' = Some x)"
    "\<And>ids x. r = Inr ids \<Longrightarrow> getJob e' x = (if x \<in> set ids then None else getJob e x)"
    using all by blast+
  show "\<And>ids. r = Inr ids \<Longrightarrow> ids \<noteq> [] \<Longrightarrow>
       set ids = {jid \<in> toArchive now e. \<not> kept (eng_jobs e) (toArchive now e) jid} \<and> distinct ids"
    using all s archiveLoop_distinct [OF distinct_candidates [OF wf]] by blast
qed

end
