(* ===== verification/Queries.thy ===== *)
theory Queries
  imports Silence
begin

section \<open>Reading the queue\<close>

text \<open>
  The read-only views of \<open>dispatcher.go\<close> (\<open>JobsPageFor\<close>, \<open>JobsPage\<close>, \<open>Job\<close>, \<open>Jobs\<close>, \<open>Robots\<close>)
  and \<open>State\<close> (\<open>state.go\<close>). A page asked for one robot reads the robot index and prunes it, so it
  returns the engine; it is shown to be the same page that a scan of the queue gives.
\<close>

definition pageOf :: "int \<Rightarrow> int \<Rightarrow> 'a list \<Rightarrow> 'a list" where
  "pageOf offset limit xs =
     (let len = int (length xs);
          off = (if offset < 0 then 0 else offset);
          off = (if off > len then len else off);
          rest = drop (nat off) xs
      in if limit > 0 \<and> limit < int (length rest) then take (nat limit) rest else rest)"

definition JobsPageFor ::
  "string \<Rightarrow> string \<Rightarrow> int \<Rightarrow> int \<Rightarrow> 's engine \<Rightarrow> (job list \<times> int) \<times> 's engine" where
  "JobsPageFor robot status offset limit e =
     (let (held, e1) = jobsHeldByLocked robot e;
          cands = (if robot = [] then go_vals (eng_jobs e1) else held);
          matching = sort_key job_seq
            (filter (\<lambda>j. status = [] \<or> statusText (job_Status j) = status) cands)
      in ((pageOf offset limit matching, int (length matching)), e1))"

definition JobsPage :: "string \<Rightarrow> int \<Rightarrow> int \<Rightarrow> 's engine \<Rightarrow> (job list \<times> int) \<times> 's engine" where
  "JobsPage status offset limit e = JobsPageFor [] status offset limit e"

definition Job :: "string \<Rightarrow> 's engine \<Rightarrow> job option" where
  "Job jid e = getJob e jid"

definition Jobs :: "'s engine \<Rightarrow> job list" where
  "Jobs e = sort_key job_seq (go_vals (eng_jobs e))"

definition Robots :: "'s engine \<Rightarrow> robot list" where
  "Robots e = sort_key rob_ID (go_vals (eng_robots e))"

record QueueState =
  st_Schema :: string
  st_Counts :: "(string, nat) gomap"
  st_ByRobot :: "(string, string list) gomap"

definition StateSchema :: string where
  "StateSchema = ''job-dispatch-state/1''"

definition countStatus :: "job \<Rightarrow> (string, nat) gomap \<Rightarrow> (string, nat) gomap" where
  "countStatus j counts =
     (let s = statusText (job_Status j)
      in go_put s ((case go_get counts s of None \<Rightarrow> 0 | Some n \<Rightarrow> n) + 1) counts)"

definition noteHeld :: "job \<Rightarrow> (string, job list) gomap \<Rightarrow> (string, job list) gomap" where
  "noteHeld j held =
     (if job_Status j = StatusAssigned \<and> job_AssignedRobot j \<noteq> []
      then go_put (job_AssignedRobot j)
             ((case go_get held (job_AssignedRobot j) of None \<Rightarrow> [] | Some js \<Rightarrow> js) @ [j]) held
      else held)"

definition State :: "'s engine \<Rightarrow> QueueState" where
  "State e =
     (let js = go_vals (eng_jobs e)
      in \<lparr>st_Schema = StateSchema, st_Counts = fold countStatus js [],
          st_ByRobot = map (\<lambda>(rid, js). (rid, map job_ID (sort_key job_seq js))) (fold noteHeld js [])\<rparr>)"

subsection \<open>Pages\<close>

lemma pageOf_take:
  "0 < limit \<Longrightarrow> 0 \<le> offset \<Longrightarrow> pageOf offset limit xs = take (nat limit) (drop (nat offset) xs)"
  by (auto simp: pageOf_def Let_def)

lemma pageOf_all: "limit \<le> 0 \<Longrightarrow> offset \<le> 0 \<Longrightarrow> pageOf offset limit xs = xs"
  by (auto simp: pageOf_def Let_def)

text \<open>Consecutive pages put together are the beginning of the list, nothing twice, nothing left out.\<close>

lemma pages_cover:
  assumes "0 < (l :: nat)"
  shows "concat (map (\<lambda>k. pageOf (int (k * l)) (int l) xs) [0..<n]) = take (n * l) xs"
proof (induction n)
  case (Suc n)
  have "pageOf (int (n * l)) (int l) xs = take l (drop (n * l) xs)"
    using assms pageOf_take [of "int l" "int (n * l)" xs] by (simp del: of_nat_mult)
  moreover have "take (Suc n * l) xs = take (n * l) xs @ take l (drop (n * l) xs)"
    using take_add [of "n * l" l xs] by (simp add: add.commute)
  ultimately show ?case using Suc by simp
qed simp

definition listing :: "string \<Rightarrow> string \<Rightarrow> 's engine \<Rightarrow> job list" where
  "listing robot status e =
     filter (\<lambda>j. (robot = [] \<or> job_AssignedRobot j = robot) \<and>
       (status = [] \<or> statusText (job_Status j) = status)) (Jobs e)"

lemma sort_key_filter: "sort_key f (filter P xs) = filter P (sort_key f xs)"
  by (simp add: filter_sort)

lemma seqs_ok_inj:
  "seqs_ok n jobs \<Longrightarrow> go_get jobs a = Some x \<Longrightarrow> go_get jobs b = Some y \<Longrightarrow> job_seq x = job_seq y \<Longrightarrow> a = b"
  unfolding seqs_ok_def by blast

lemma job_seq_inj:
  assumes "base_ok e"
  shows "inj_on job_seq (set (go_vals (eng_jobs e)))"
proof (rule inj_onI)
  note v = iffD1 [OF go_wf_vals [OF base_jobs_wf [OF assms]]]
  fix x y assume x: "x \<in> set (go_vals (eng_jobs e))" and y: "y \<in> set (go_vals (eng_jobs e))"
    and eq: "job_seq x = job_seq y"
  have "job_ID x = job_ID y"
    by (rule seqs_ok_inj [OF base_okD(4) [OF assms] v [OF x] v [OF y] eq])
  then show "x = y" using v [OF x] v [OF y] by (metis option.inject)
qed

text \<open>The page read from the index is the page of the whole listing.\<close>

lemma distinct_vals: "go_wf key m \<Longrightarrow> distinct (go_vals m)"
  using go_wf_vals_distinct [of key m] by (simp only: distinct_map)

lemma held_sorted:
  assumes b: "base_ok e" and ne: "robot \<noteq> []"
  shows "sort_key job_seq (filter P (fst (jobsHeldByLocked robot e))) =
    sort_key job_seq (filter P (filter (\<lambda>j. job_AssignedRobot j = robot) (go_vals (eng_jobs e))))"
proof (rule sort_key_unique)
  let ?h = "fst (jobsHeldByLocked robot e)" and ?n = "jobsNaming robot (eng_jobs e)"
  note wf = base_jobs_wf [OF b]
  have dn: "distinct ?n" unfolding jobsNaming_def using distinct_vals [OF wf] by simp
  have "distinct (map job_ID ?h)" using wf base_okD(6) [OF b] by (rule distinct_jobsHeldBy)
  then have dh: "distinct ?h" by (simp only: distinct_map)
  have "mset ?h = mset ?n"
    using set_jobsHeldBy [OF wf base_okD(6) [OF b] ne] dn dh by (simp only: set_eq_iff_mset_eq_distinct)
  then show "mset (filter P ?h) = mset (filter P (filter (\<lambda>j. job_AssignedRobot j = robot) (go_vals (eng_jobs e))))"
    by (simp only: mset_filter jobsNaming_def)
  show "inj_on job_seq (set (filter P ?h))"
  proof (rule inj_on_subset [OF job_seq_inj [OF b]])
    have "set ?h \<subseteq> set (go_vals (eng_jobs e))"
      using set_jobsHeldBy [OF wf base_okD(6) [OF b] ne] by (auto simp: jobsNaming_def simp del: set_map)
    then show "set (filter P ?h) \<subseteq> set (go_vals (eng_jobs e))" by (simp only: set_filter) blast
  qed
qed

lemma JobsPageFor_listing:
  assumes b: "base_ok e"
  shows "fst (JobsPageFor robot status offset limit e) =
    (pageOf offset limit (listing robot status e), int (length (listing robot status e)))"
proof -
  let ?st = "\<lambda>j. status = [] \<or> statusText (job_Status j) = status"
  have m: "sort_key job_seq (filter ?st (if robot = [] then go_vals (eng_jobs e)
      else fst (jobsHeldByLocked robot e))) = listing robot status e"
  proof (cases "robot = []")
    case True
    then show ?thesis by (simp add: listing_def Jobs_def sort_key_filter)
  next
    case False
    have "sort_key job_seq (filter ?st (fst (jobsHeldByLocked robot e))) =
        sort_key job_seq (filter ?st (filter (\<lambda>j. job_AssignedRobot j = robot) (go_vals (eng_jobs e))))"
      by (rule held_sorted [OF b False])
    also have "\<dots> = listing robot status e"
      using False by (simp add: listing_def Jobs_def sort_key_filter)
    finally show ?thesis using False by simp
  qed
  show ?thesis
    by (simp only: JobsPageFor_def case_prod_unfold Let_def fst_conv jobsHeldBy_frame m)
qed

lemma JobsPageFor_ok: "engine_ok e \<Longrightarrow> engine_ok (snd (JobsPageFor robot status offset limit e))"
  by (simp add: JobsPageFor_def case_prod_unfold Let_def engine_ok_jobsHeldBy)

lemma mem_Jobs: "base_ok e \<Longrightarrow> j \<in> set (Jobs e) \<longleftrightarrow> getJob e (job_ID j) = Some j"
  using go_wf_vals [OF base_jobs_wf, of e j] by (simp add: Jobs_def del: set_map)

subsection \<open>The state document\<close>

lemma countStatus_count:
  "go_get (fold countStatus js counts) s =
     (let n = length (filter (\<lambda>j. statusText (job_Status j) = s) js)
      in case go_get counts s of None \<Rightarrow> if n = 0 then None else Some n | Some m \<Rightarrow> Some (m + n))"
proof (induction js arbitrary: counts)
  case (Cons j js)
  then show ?case by (auto simp: countStatus_def Let_def split: option.splits)
qed (simp split: option.splits)

definition holds :: "string \<Rightarrow> job \<Rightarrow> bool" where
  "holds rid j \<longleftrightarrow> job_Status j = StatusAssigned \<and> job_AssignedRobot j = rid \<and> rid \<noteq> []"

lemma noteHeld_get:
  "go_get (fold noteHeld js held) rid =
     (let new = filter (holds rid) js
      in case go_get held rid of None \<Rightarrow> if new = [] then None else Some new | Some old \<Rightarrow> Some (old @ new))"
proof (induction js arbitrary: held)
  case (Cons j js)
  then show ?case by (auto simp: noteHeld_def holds_def Let_def split: option.splits)
qed (simp split: option.splits)

lemma get_map_snd: "go_get (map (\<lambda>(k, v). (k, f v)) m) k = map_option f (go_get m k)"
  by (induction m) auto

lemma State_counts:
  "go_get (st_Counts (State e)) s =
     (let n = length (filter (\<lambda>j. statusText (job_Status j) = s) (go_vals (eng_jobs e)))
      in if n = 0 then None else Some n)"
  by (simp add: State_def Let_def countStatus_count)

lemma distinct_all_eq:
  assumes "distinct xs" and "\<And>x y. x \<in> set xs \<Longrightarrow> y \<in> set xs \<Longrightarrow> x = y"
  shows "xs = [] \<or> (\<exists>x. xs = [x])"
proof (cases xs)
  case (Cons x ys)
  show ?thesis
  proof (cases ys)
    case Nil
    then show ?thesis using Cons by simp
  next
    case (Cons y zs)
    then have "x = y" using assms(2) [of x y] \<open>xs = x # ys\<close> by simp
    then show ?thesis using assms(1) \<open>xs = x # ys\<close> Cons by simp
  qed
qed simp

lemma State_byRobot:
  assumes ok: "engine_ok e"
  shows "go_get (st_ByRobot (State e)) rid = Some ids \<longleftrightarrow>
    (\<exists>jid j. ids = [jid] \<and> getJob e jid = Some j \<and> job_Status j = StatusAssigned
      \<and> job_AssignedRobot j = rid)"
proof -
  let ?vals = "go_vals (eng_jobs e)"
  let ?new = "filter (holds rid) ?vals"
  note b = engine_okD(1) [OF ok]
  note wf = base_jobs_wf [OF b]
  have get: "go_get (st_ByRobot (State e)) rid =
      (if ?new = [] then None else Some (map job_ID (sort_key job_seq ?new)))"
    by (simp add: State_def Let_def get_map_snd noteHeld_get)
  have mem: "j \<in> set ?new \<longleftrightarrow> getJob e (job_ID j) = Some j \<and> job_Status j = StatusAssigned
      \<and> job_AssignedRobot j = rid" for j
    using go_wf_vals [OF wf, of j] reserved_robot(1) [OF base_okD(3) [OF b], of "job_ID j" j]
    by (auto simp: holds_def simp del: set_map)
  have one: "j = j'" if "j \<in> set ?new" "j' \<in> set ?new" for j j'
  proof -
    have *: "getJob e (job_ID j) = Some j \<and> job_Status j = StatusAssigned \<and> job_AssignedRobot j = rid"
      "getJob e (job_ID j') = Some j' \<and> job_Status j' = StatusAssigned \<and> job_AssignedRobot j' = rid"
      using that unfolding mem by simp_all
    then have "job_ID j = job_ID j'"
      using reserved_one [OF base_okD(3) [OF b], of "job_ID j" j "job_ID j'" j'] by metis
    then show ?thesis using * by (metis option.inject)
  qed
  have "distinct ?new" using distinct_vals [OF wf] by simp
  then consider "?new = []" | j where "?new = [j]"
    using distinct_all_eq [OF _ one] by blast
  then show ?thesis
  proof cases
    case 1
    have "\<not> (getJob e jid = Some j \<and> job_Status j = StatusAssigned \<and> job_AssignedRobot j = rid)" for jid j
      using mem [of j] go_wf_key [OF wf, of jid j] unfolding 1 by auto
    then show ?thesis unfolding get 1 by auto
  next
    case (2 j)
    have j: "getJob e (job_ID j) = Some j" "job_Status j = StatusAssigned" "job_AssignedRobot j = rid"
      using mem [of j] unfolding 2 by simp_all
    have only: "jid = job_ID j" if "getJob e jid = Some x" "job_Status x = StatusAssigned"
        "job_AssignedRobot x = rid" for jid x
      using reserved_one [OF base_okD(3) [OF b] that(1) j(1) that(2) j(2)] that(3) j(3) by simp
    have "go_get (st_ByRobot (State e)) rid = Some [job_ID j]" unfolding get 2 by simp
    then show ?thesis using j only by (metis option.inject)
  qed
qed

end
