(* ===== verification/Float64.thy ===== *)
theory Float64
  imports Model "HOL-Library.Log_Nat"
begin

section \<open>Double precision arithmetic\<close>

text \<open>
  The estimates and the configuration compute with \<open>float64\<close>. A finite value is the rational it
  stands for, and \<open>rnd64\<close> rounds a rational to the nearest value of 53 binary digits, ties to
  even, as the hardware does after every operation (\<open>quantum\<close> is the exponent of the last digit,
  at least -1074, where the subnormal numbers begin). An operation of the program is the exact one
  followed by \<open>rnd64\<close>; no two operations are fused, as on amd64.
\<close>

definition halfEven :: "rat \<Rightarrow> int" where
  "halfEven x =
     (let f = \<lfloor>x\<rfloor>; d = x - of_int f
      in if d < 1 / 2 then f else if 1 / 2 < d then f + 1 else if even f then f else f + 1)"

definition quantum :: "rat \<Rightarrow> int" where
  "quantum x =
     (let (a, b) = quotient_of x; k = bitlen a - bitlen b - 53
      in max (- 1074) (if x < 2 powi (k + 53) then k else k + 1))"

definition rndPos :: "rat \<Rightarrow> rat" where
  "rndPos x = of_int (halfEven (x / 2 powi quantum x)) * 2 powi quantum x"

definition rnd64 :: "rat \<Rightarrow> rat" where
  "rnd64 x = (if x = 0 then 0 else if x < 0 then - rndPos (- x) else rndPos x)"

text \<open>A conversion to an integer drops the fraction.\<close>

definition toInt :: "rat \<Rightarrow> int" where
  "toInt x = (if x < 0 then - \<lfloor>- x\<rfloor> else \<lfloor>x\<rfloor>)"

subsection \<open>Rounding to an integer\<close>

lemma halfEven_cases: "halfEven x = \<lfloor>x\<rfloor> \<and> x - of_int \<lfloor>x\<rfloor> \<le> 1 / 2
    \<or> halfEven x = \<lfloor>x\<rfloor> + 1 \<and> 1 / 2 \<le> x - of_int \<lfloor>x\<rfloor>"
  by (auto simp: halfEven_def Let_def)

lemma halfEven_int [simp]: "halfEven (of_int n) = n"
  by (simp add: halfEven_def)

lemma halfEven_mono:
  assumes "x \<le> y"
  shows "halfEven x \<le> halfEven y"
proof (cases "\<lfloor>x\<rfloor> = \<lfloor>y\<rfloor>")
  case True
  then show ?thesis using assms by (auto simp: halfEven_def Let_def)
next
  case False
  then have "\<lfloor>x\<rfloor> + 1 \<le> \<lfloor>y\<rfloor>" using floor_mono [OF assms] by simp
  then show ?thesis using halfEven_cases [of x] halfEven_cases [of y] by linarith
qed

lemma halfEven_lower: "of_int n \<le> x \<Longrightarrow> n \<le> halfEven x"
  using halfEven_mono [of "of_int n" x] by simp

lemma halfEven_upper: "x \<le> of_int n \<Longrightarrow> halfEven x \<le> n"
  using halfEven_mono [of x "of_int n"] by simp

subsection \<open>The exponent\<close>

lemma bitlen_rat:
  assumes "0 < a"
  shows "(2 :: rat) powi (bitlen a - 1) \<le> of_int a" "of_int a < (2 :: rat) powi bitlen a"
proof -
  have b: "0 \<le> bitlen a - 1" "0 \<le> bitlen a" using bitlen_bounds [OF assms] assms bitlen_ge_iff_power [of 1 a] by auto
  have "(2 :: int) ^ nat (bitlen a - 1) \<le> a" "a < 2 ^ nat (bitlen a)" using bitlen_bounds [OF assms] by auto
  then have "of_int (2 ^ nat (bitlen a - 1)) \<le> (of_int a :: rat)" "(of_int a :: rat) < of_int (2 ^ nat (bitlen a))"
    by (simp_all only: of_int_le_iff of_int_less_iff)
  then show "(2 :: rat) powi (bitlen a - 1) \<le> of_int a" "of_int a < (2 :: rat) powi bitlen a"
    using b by (simp_all add: power_int_def)
qed

text \<open>A positive number lies within one binary decade of its quantum.\<close>

lemma quantum_bounds:
  assumes x: "0 < x"
  shows "x < 2 powi (quantum x + 53)" "quantum x = - 1074 \<or> 2 powi (quantum x + 52) \<le> x"
proof -
  obtain a b where q: "quotient_of x = (a, b)" by fastforce
  have b: "0 < b" using quotient_of_denom_pos [OF q] .
  have xq: "x = of_int a / of_int b" using quotient_of_div [OF q] .
  then have a: "0 < a" using x b by (simp add: zero_less_divide_iff)
  define k where "k = bitlen a - bitlen b - 53"
  note A = bitlen_rat [OF a] and B = bitlen_rat [OF b]
  have lo: "2 powi (k + 52) \<le> x"
  proof -
    have "(2 :: rat) powi (k + 52) * of_int b \<le> 2 powi (k + 52) * 2 powi bitlen b"
      using B(2) by (intro mult_left_mono) auto
    also have "\<dots> = 2 powi (bitlen a - 1)" by (simp add: k_def flip: power_int_add)
    also have "\<dots> \<le> of_int a" by (rule A(1))
    finally show ?thesis using b by (simp add: xq pos_le_divide_eq)
  qed
  have hi: "x < 2 powi (k + 54)"
  proof -
    have "(of_int a :: rat) < 2 powi bitlen a" by (rule A(2))
    also have "\<dots> = 2 powi (k + 54) * 2 powi (bitlen b - 1)" by (simp add: k_def flip: power_int_add)
    also have "\<dots> \<le> 2 powi (k + 54) * of_int b" using B(1) by (intro mult_left_mono) auto
    finally show ?thesis using b by (simp add: xq pos_divide_less_eq)
  qed
  define m where "m = (if x < 2 powi (k + 53) then k else k + 1)"
  have m: "2 powi (m + 52) \<le> x" "x < 2 powi (m + 53)"
    using lo hi by (auto simp: m_def add.assoc add.commute)
  have qm: "quantum x = max (- 1074) m" by (simp add: quantum_def q k_def m_def Let_def)
  have "x < 2 powi (max (- 1074) m + 53)"
    using m(2) power_int_increasing [of "m + 53" "max (- 1074) m + 53" "2 :: rat"] by (simp add: less_le_trans)
  then show "x < 2 powi (quantum x + 53)" unfolding qm .
  show "quantum x = - 1074 \<or> 2 powi (quantum x + 52) \<le> x" using m(1) unfolding qm by (auto simp: max_def)
qed

lemma quantum_ge: "- 1074 \<le> quantum x"
  by (simp add: quantum_def split_beta Let_def)

lemma quantum_mono:
  assumes "0 < x" and "x \<le> y"
  shows "quantum x \<le> quantum y"
proof (rule ccontr)
  assume "\<not> quantum x \<le> quantum y"
  then have l: "quantum y + 53 \<le> quantum x + 52" "quantum x \<noteq> - 1074" using quantum_ge [of y] by auto
  have "x \<le> y" by (rule assms(2))
  also have "y < 2 powi (quantum y + 53)" using quantum_bounds(1) [of y] assms by simp
  also have "\<dots> \<le> 2 powi (quantum x + 52)" using l(1) by (intro power_int_increasing) auto
  also have "\<dots> \<le> x" using quantum_bounds(2) [OF assms(1)] l(2) by simp
  finally show False by simp
qed

subsection \<open>Rounding\<close>

lemma rndPos_mono:
  assumes "0 < x" and "x \<le> y"
  shows "rndPos x \<le> rndPos y"
proof (cases "quantum x = quantum y")
  case True
  have "halfEven (x / 2 powi quantum y) \<le> halfEven (y / 2 powi quantum y)"
    using assms(2) by (intro halfEven_mono divide_right_mono) auto
  then show ?thesis unfolding rndPos_def True by (intro mult_right_mono) auto
next
  case False
  then have l: "quantum x + 53 \<le> quantum y + 52" "quantum y \<noteq> - 1074"
    using quantum_mono [OF assms] quantum_ge [of x] by auto
  have y: "0 < y" using assms by simp
  have "x / 2 powi quantum x \<le> of_int (2 ^ 53)"
    using quantum_bounds(1) [OF assms(1)] by (simp add: pos_divide_le_eq power_int_add)
  from halfEven_upper [OF this] have "(of_int (halfEven (x / 2 powi quantum x)) :: rat) \<le> of_int (2 ^ 53)"
    by (simp only: of_int_le_iff)
  then have "rndPos x \<le> of_int (2 ^ 53) * 2 powi quantum x"
    unfolding rndPos_def by (intro mult_right_mono) auto
  also have "\<dots> = 2 powi (quantum x + 53)" by (simp add: power_int_add)
  also have "\<dots> \<le> 2 powi (quantum y + 52)" using l(1) by (intro power_int_increasing) auto
  also have "\<dots> = of_int (2 ^ 52) * 2 powi quantum y" by (simp add: power_int_add)
  also have "\<dots> \<le> rndPos y"
  proof -
    have "of_int (2 ^ 52) \<le> y / 2 powi quantum y"
      using quantum_bounds(2) [OF y] l(2) by (simp add: pos_le_divide_eq power_int_add)
    from halfEven_lower [OF this] have "(of_int (2 ^ 52) :: rat) \<le> of_int (halfEven (y / 2 powi quantum y))"
      by (simp only: of_int_le_iff)
    then show ?thesis unfolding rndPos_def by (intro mult_right_mono) auto
  qed
  finally show ?thesis .
qed

lemma rndPos_nonneg: "0 < x \<Longrightarrow> 0 \<le> rndPos x"
  using halfEven_lower [of 0 "x / 2 powi quantum x"] unfolding rndPos_def by (simp add: zero_le_mult_iff)

text \<open>A number of up to 53 digits is exact.\<close>

lemma rndPos_exact:
  assumes "0 < n" and "n < 2 ^ 53" and "- 1074 \<le> k"
  shows "rndPos (of_int n * 2 powi k) = of_int n * 2 powi k"
proof -
  let ?x = "of_int n * 2 powi k :: rat"
  let ?q = "quantum ?x"
  have pos: "0 < ?x" using assms(1) by simp
  have q: "?q \<le> k"
  proof (rule ccontr)
    assume gt: "\<not> ?q \<le> k"
    then have "?q \<noteq> - 1074" using assms(3) by auto
    then have "(2 :: rat) powi (?q + 52) \<le> ?x" using quantum_bounds(2) [OF pos] by blast
    moreover have "(2 :: rat) powi (k + 53) \<le> 2 powi (?q + 52)" using gt by (intro power_int_increasing) auto
    moreover have "(2 :: rat) powi (k + 53) = of_int (2 ^ 53) * 2 powi k" by (simp add: power_int_add)
    ultimately have "(of_int (2 ^ 53) :: rat) * 2 powi k \<le> of_int n * 2 powi k" by linarith
    then have "(of_int (2 ^ 53) :: rat) \<le> of_int n" by simp
    then show False using assms(2) by (simp only: of_int_le_iff)
  qed
  have "?x / 2 powi ?q = of_int n * (2 powi (k - ?q))" by (simp add: power_int_diff)
  also have "2 powi (k - ?q) = (of_int (2 ^ nat (k - ?q)) :: rat)" using q by (simp add: power_int_def)
  finally have eq: "?x / 2 powi ?q = of_int (n * 2 ^ nat (k - ?q))" by simp
  then have "rndPos ?x = of_int (n * 2 ^ nat (k - ?q)) * 2 powi ?q" by (simp only: rndPos_def halfEven_int)
  also have "\<dots> = (?x / 2 powi ?q) * 2 powi ?q" by (simp only: eq)
  also have "\<dots> = ?x" by simp
  finally show ?thesis .
qed

lemma rndPos_int: "0 < n \<Longrightarrow> n < 2 ^ 53 \<Longrightarrow> rndPos (of_int n) = of_int n"
  using rndPos_exact [of n 0] by simp

lemma rnd64_0 [simp]: "rnd64 0 = 0"
  by (simp add: rnd64_def)

lemma rnd64_nonneg: "0 \<le> x \<Longrightarrow> 0 \<le> rnd64 x"
  using rndPos_nonneg [of x] by (cases "x = 0") (auto simp: rnd64_def)

lemma rnd64_mono: "0 \<le> x \<Longrightarrow> x \<le> y \<Longrightarrow> rnd64 x \<le> rnd64 y"
  using rndPos_mono [of x y] rnd64_nonneg [of y] by (cases "x = 0") (auto simp: rnd64_def)

lemma rnd64_int: "0 \<le> n \<Longrightarrow> n < 2 ^ 53 \<Longrightarrow> rnd64 (of_int n) = of_int n"
  using rndPos_int [of n] by (cases "n = 0") (auto simp: rnd64_def)

lemma rnd64_le_int: "0 \<le> x \<Longrightarrow> x \<le> of_int n \<Longrightarrow> n < 2 ^ 53 \<Longrightarrow> rnd64 x \<le> of_int n"
  using rnd64_mono [of x "of_int n"] rnd64_int [of n] by (metis of_int_0_le_iff order_trans)

lemma rnd64_ge_int: "0 \<le> n \<Longrightarrow> n < 2 ^ 53 \<Longrightarrow> of_int n \<le> x \<Longrightarrow> of_int n \<le> rnd64 x"
  using rnd64_mono [of "of_int n" x] rnd64_int [of n] by simp

lemma toInt_int [simp]: "toInt (of_int n) = n"
  by (simp add: toInt_def flip: of_int_minus)

lemma toInt_mono: "0 \<le> x \<Longrightarrow> x \<le> y \<Longrightarrow> toInt x \<le> toInt y"
  by (auto simp: toInt_def floor_mono)

lemma toInt_nonneg: "0 \<le> x \<Longrightarrow> 0 \<le> toInt x"
  by (simp add: toInt_def)

end
