(* ===== verification/ETA.thy ===== *)
theory ETA
  imports Selection Float64
begin

section \<open>Estimated times\<close>

text \<open>
  \<open>src/src/dispatcher/eta.go\<close>: the durations observed for each tool, the plan that lays the
  unfinished jobs out in time, the ranges and the whole answer. A nil pointer in \<open>results\<close> is a
  missing entry, an empty basis or reason a constructor of its own.
\<close>

subsection \<open>Settings\<close>

definition DefaultIntervalLow :: int where "DefaultIntervalLow = 25"
definition DefaultIntervalHigh :: int where "DefaultIntervalHigh = 75"
definition DefaultIntervalMinSamples :: int where "DefaultIntervalMinSamples = 3"
definition DefaultETAWindow :: int where "DefaultETAWindow = 20"

definition withDefaults :: "IntervalConfig \<Rightarrow> IntervalConfig" where
  "withDefaults c =
     (let c1 = (if iv_LowPercentile c = 0 \<and> iv_HighPercentile c = 0
                then c\<lparr>iv_LowPercentile := DefaultIntervalLow, iv_HighPercentile := DefaultIntervalHigh\<rparr>
                else c)
      in if iv_MinSamples c1 = 0 then c1\<lparr>iv_MinSamples := DefaultIntervalMinSamples\<rparr> else c1)"

definition IntervalValid :: "IntervalConfig \<Rightarrow> bool" where
  "IntervalValid c =
     (let c = withDefaults c
      in 0 \<le> iv_LowPercentile c \<and> iv_LowPercentile c < iv_HighPercentile c
       \<and> iv_HighPercentile c \<le> 100 \<and> 1 \<le> iv_MinSamples c)"

definition SetETA :: "ETAConfig \<Rightarrow> 's engine \<Rightarrow> 's engine" where
  "SetETA c e =
     (let c1 = (if eta_Window c \<le> 0 then c\<lparr>eta_Window := DefaultETAWindow\<rparr> else c);
          c2 = (if eta_DefaultDuration c1 < 0 then c1\<lparr>eta_DefaultDuration := 0\<rparr> else c1);
          c3 = (if iv_Enabled (eta_Interval c2)
                then (let i = withDefaults (eta_Interval c2)
                      in if IntervalValid i then c2\<lparr>eta_Interval := i\<rparr>
                         else c2\<lparr>eta_Interval := withDefaults
                           \<lparr>iv_Enabled = True, iv_LowPercentile = 0, iv_HighPercentile = 0,
                            iv_MinSamples = 0\<rparr>\<rparr>)
                else c2)
      in e\<lparr>eng_eta := c3\<rparr>)"

definition ETAEnabled :: "'s engine \<Rightarrow> bool" where
  "ETAEnabled e = eta_Enabled (eng_eta e)"

subsection \<open>The observed durations\<close>

record ToolDuration =
  td_Tool :: string
  td_Samples :: int
  td_MeanMs :: int
  td_LowMs :: int
  td_HighMs :: int

record durationSample =
  ds_tool :: string
  ds_completedAt :: int
  ds_ms :: int

record sampleSums =
  sm_sum :: "(string, int) gomap"
  sm_window :: "(string, int list) gomap"
  sm_count :: "(string, int) gomap"
  sm_allSum :: int
  sm_allCount :: int

text \<open>Reading a key that a Go map does not have gives the zero value.\<close>

definition getOr :: "'v \<Rightarrow> ('k, 'v) gomap \<Rightarrow> 'k \<Rightarrow> 'v" where
  "getOr d m k = (case go_get m k of None \<Rightarrow> d | Some v \<Rightarrow> v)"

text \<open>Division of integers drops the fraction.\<close>

definition quotInt :: "int \<Rightarrow> int \<Rightarrow> int" where
  "quotInt a b = sgn a * sgn b * (\<bar>a\<bar> div \<bar>b\<bar>)"

definition samplesOf :: "(string, job) gomap \<Rightarrow> durationSample list" where
  "samplesOf jobs =
     map (\<lambda>j. \<lparr>ds_tool = job_RequiredTool j, ds_completedAt = job_CompletedAtMs j,
               ds_ms = job_CompletedAtMs j - job_AssignedAtMs j\<rparr>)
       (filter (\<lambda>j. job_Status j = StatusDone \<and> 0 < job_AssignedAtMs j
                  \<and> job_AssignedAtMs j \<le> job_CompletedAtMs j) (go_vals jobs))"

definition addSample :: "int \<Rightarrow> durationSample \<Rightarrow> sampleSums \<Rightarrow> sampleSums" where
  "addSample win s m =
     (let t = ds_tool s;
          m1 = (if getOr 0 (sm_count m) t < win
                then m\<lparr>sm_sum := go_put t (getOr 0 (sm_sum m) t + ds_ms s) (sm_sum m),
                       sm_count := go_put t (getOr 0 (sm_count m) t + 1) (sm_count m),
                       sm_window := go_put t (getOr [] (sm_window m) t @ [ds_ms s]) (sm_window m)\<rparr>
                else m)
      in if sm_allCount m1 < win
         then m1\<lparr>sm_allSum := sm_allSum m1 + ds_ms s, sm_allCount := sm_allCount m1 + 1\<rparr> else m1)"

record observations =
  ob_byTool :: "(string, int) gomap"
  ob_all :: int
  ob_samples :: "(string, int) gomap"
  ob_observed :: "ToolDuration list"
  ob_window :: "(string, int list) gomap"

definition durationModelLocked :: "'s engine \<Rightarrow> observations" where
  "durationModelLocked e =
     (let win = (if eta_Window (eng_eta e) \<le> 0 then DefaultETAWindow else eta_Window (eng_eta e));
          newest = sort_key (\<lambda>s. - ds_completedAt s) (samplesOf (eng_jobs e));
          m = fold (addSample win) newest
                \<lparr>sm_sum = [], sm_window = [], sm_count = [], sm_allSum = 0, sm_allCount = 0\<rparr>;
          byTool = map (\<lambda>(tool, n). (tool, quotInt (getOr 0 (sm_sum m) tool) n)) (sm_count m);
          observed = map (\<lambda>(tool, n). \<lparr>td_Tool = tool, td_Samples = n,
                         td_MeanMs = getOr 0 byTool tool, td_LowMs = 0, td_HighMs = 0\<rparr>) (sm_count m)
      in \<lparr>ob_byTool = byTool,
          ob_all = (if 0 < sm_allCount m then quotInt (sm_allSum m) (sm_allCount m) else 0),
          ob_samples = sm_count m, ob_observed = sort_key td_Tool observed,
          ob_window = sm_window m\<rparr>)"

definition percentile :: "int list \<Rightarrow> int \<Rightarrow> int" where
  "percentile vals p =
     (if vals = [] then 0
      else
        let sorted = sort vals; n = length sorted;
            pos = rnd64 (rnd64 (of_int p / 100) * rnd64 (of_int (int n - 1)));
            lo = toInt pos
        in if int n - 1 \<le> lo then last sorted
           else
             let frac = rnd64 (pos - rnd64 (of_int lo));
                 a = sorted ! nat lo;
                 b = sorted ! (nat lo + 1)
             in a + toInt (rnd64 (frac * rnd64 (of_int (b - a)))))"

datatype etaBasis = NoBasis | BasisObservedTool | BasisObservedAll | BasisDefault

record durationModel =
  dm_byTool :: "(string, int) gomap"
  dm_all :: int
  dm_def :: duration

definition forTool :: "durationModel \<Rightarrow> string \<Rightarrow> int \<times> etaBasis" where
  "forTool m tool =
     (case go_get (dm_byTool m) tool of
        Some ms \<Rightarrow> (ms, BasisObservedTool)
      | None \<Rightarrow>
          if 0 < dm_all m then (dm_all m, BasisObservedAll)
          else if 0 < dm_def m then (milliseconds (dm_def m), BasisDefault)
          else (0, NoBasis))"

subsection \<open>The plan\<close>

datatype etaReason =
    NoReason
  | ETANoRobotWithTool
  | ETANoRobotAvailable
  | ETANoDuration
  | ETADependency
  | ETAOutcomeUnknown

datatype intervalReason = NoIntervalReason | IntervalTooFewSamples | IntervalNoHistory

record JobETA =
  je_JobID :: string
  je_Status :: JobStatus
  je_Estimated :: bool
  je_Reason :: etaReason
  je_RobotID :: string
  je_StartMs :: int
  je_EndMs :: int
  je_DurationMs :: int
  je_Basis :: etaBasis
  je_Overdue :: bool
  je_StartLowMs :: int
  je_StartHighMs :: int
  je_EndLowMs :: int
  je_EndHighMs :: int
  je_DurationLowMs :: int
  je_DurationHighMs :: int
  je_IntervalReason :: intervalReason

definition newETA :: "job \<Rightarrow> JobETA" where
  "newETA j =
     \<lparr>je_JobID = job_ID j, je_Status = job_Status j, je_Estimated = False, je_Reason = NoReason,
      je_RobotID = [], je_StartMs = 0, je_EndMs = 0, je_DurationMs = 0, je_Basis = NoBasis,
      je_Overdue = False, je_StartLowMs = 0, je_StartHighMs = 0, je_EndLowMs = 0,
      je_EndHighMs = 0, je_DurationLowMs = 0, je_DurationHighMs = 0,
      je_IntervalReason = NoIntervalReason\<rparr>"

record etaPlan =
  pl_results :: "(string, JobETA) gomap"
  pl_order :: "string list"
  pl_free :: "(string, int) gomap"
  pl_assignedOn :: "string list"
  pl_planned :: "string list"

definition setResult :: "string \<Rightarrow> JobETA \<Rightarrow> etaPlan \<Rightarrow> etaPlan" where
  "setResult jid r p = p\<lparr>pl_results := go_put jid r (pl_results p)\<rparr>"

definition addETA :: "job \<Rightarrow> etaPlan \<Rightarrow> etaPlan" where
  "addETA j p = (setResult (job_ID j) (newETA j) p)\<lparr>pl_order := pl_order p @ [job_ID j]\<rparr>"

text \<open>An assigned job occupies its robot until its expected end, or until now when it is late.\<close>

definition planAssigned :: "durationModel \<Rightarrow> int \<Rightarrow> 's engine \<Rightarrow> job \<Rightarrow> etaPlan \<Rightarrow> etaPlan" where
  "planAssigned model nowMs e j p0 =
     (let p = addETA j p0;
          (ms, basis) = forTool model (job_RequiredTool j);
          robot = getRobot e (job_AssignedRobot j)
      in if basis = NoBasis
         then
           (let p1 = setResult (job_ID j) ((newETA j)\<lparr>je_Reason := ETANoDuration\<rparr>) p
            in case robot of None \<Rightarrow> p1
               | Some r \<Rightarrow> p1\<lparr>pl_assignedOn := go_add (rob_ID r) (pl_assignedOn p1),
                              pl_free := go_put (rob_ID r) nowMs (pl_free p1)\<rparr>)
         else
           (let start = job_AssignedAtMs j; end0 = start + ms; late = end0 < nowMs;
                finish = (if late then nowMs else end0);
                p1 = setResult (job_ID j)
                  ((newETA j)\<lparr>je_Estimated := True, je_RobotID := job_AssignedRobot j,
                     je_StartMs := start, je_DurationMs := ms, je_Basis := basis,
                     je_Overdue := late, je_EndMs := finish\<rparr>) p
            in case robot of None \<Rightarrow> p1
               | Some r \<Rightarrow>
                   (let p2 = p1\<lparr>pl_assignedOn := go_add (rob_ID r) (pl_assignedOn p1)\<rparr>
                    in if getOr 0 (pl_free p2) (rob_ID r) < finish
                       then p2\<lparr>pl_free := go_put (rob_ID r) finish (pl_free p2)\<rparr> else p2)))"

definition robotHeardFromLocked :: "robot \<Rightarrow> instant \<Rightarrow> 's engine \<Rightarrow> bool" where
  "robotHeardFromLocked r now e =
     (if eng_robotFreshness e \<le> 0 then True
      else \<not> (case rob_LastHeartbeat r of None \<Rightarrow> True
           | Some hb \<Rightarrow> heartbeatFromFuture now hb \<or> eng_robotFreshness e < time_sub now hb))"

definition planFree :: "instant \<Rightarrow> 's engine \<Rightarrow> string \<times> robot \<Rightarrow> etaPlan \<Rightarrow> etaPlan" where
  "planFree now e idr p =
     (case idr of (rid, r) \<Rightarrow>
        if rid \<in> set (pl_assignedOn p) then p
        else if rob_Available r \<and> robotHeardFromLocked r now e
        then p\<lparr>pl_free := go_put rid (unixMilli now) (pl_free p)\<rparr> else p)"

definition planUnknown :: "job \<Rightarrow> etaPlan \<Rightarrow> etaPlan" where
  "planUnknown j p =
     setResult (job_ID j) ((newETA j)\<lparr>je_Reason := ETAOutcomeUnknown\<rparr>) (addETA j p)"

text \<open>\<open>depReady\<close>: when the dependencies end, whether that is known, and whether one never will.\<close>

fun depReady ::
  "(string, job) gomap \<Rightarrow> (string, JobETA) gomap \<Rightarrow> string list \<Rightarrow> int \<Rightarrow> bool \<Rightarrow> int \<times> bool \<times> bool" where
  "depReady jobs results [] ready known = (ready, known, False)"
| "depReady jobs results (dep # deps) ready known =
     (case go_get jobs dep of
        None \<Rightarrow> depReady jobs results deps ready known
      | Some d \<Rightarrow>
          if job_Status d = StatusDone then depReady jobs results deps ready known
          else if job_Status d \<in> {StatusFailed, StatusUnreachable, StatusCancelled, StatusUnknown}
          then (0, False, True)
          else
            (case go_get results dep of
               None \<Rightarrow> depReady jobs results deps ready False
             | Some r \<Rightarrow>
                 if \<not> je_Estimated r \<and> je_Reason r = NoReason
                 then depReady jobs results deps ready False
                 else if \<not> je_Estimated r then (0, False, True)
                 else depReady jobs results deps (if ready < je_EndMs r then je_EndMs r else ready) known))"

text \<open>The robot that is free first, with \<open>preferLocked\<close> among those free at the same time.\<close>

fun earliestLoop ::
  "'s engine \<Rightarrow> job \<Rightarrow> int \<Rightarrow> (string, int) gomap \<Rightarrow> robot list \<Rightarrow> (robot \<times> int) option \<Rightarrow> bool \<Rightarrow>
   (robot \<times> int) option \<times> bool" where
  "earliestLoop e j ready free [] best toolExists = (best, toolExists)"
| "earliestLoop e j ready free (r # rs) best toolExists =
     (if job_RequiredTool j \<noteq> [] \<and> rob_Tool r \<noteq> job_RequiredTool j
      then earliestLoop e j ready free rs best toolExists
      else
        (case go_get free (rob_ID r) of
           None \<Rightarrow> earliestLoop e j ready free rs best True
         | Some f \<Rightarrow>
             (let start = (if f < ready then ready else f)
              in if (case best of None \<Rightarrow> True
                     | Some (b, bestStart) \<Rightarrow> start < bestStart
                         \<or> start = bestStart \<and> preferLocked e j r (Some b))
                 then earliestLoop e j ready free rs (Some (r, start)) True
                 else earliestLoop e j ready free rs best True)))"

text \<open>The body of the loop for one waiting job; the flag says that it was settled.\<close>

definition planOne :: "durationModel \<Rightarrow> 's engine \<Rightarrow> job \<Rightarrow> etaPlan \<Rightarrow> etaPlan \<times> bool" where
  "planOne model e j p =
     (let jid = job_ID j;
          res = (case go_get (pl_results p) jid of None \<Rightarrow> newETA j | Some r \<Rightarrow> r)
      in if jid \<in> set (pl_planned p) then (p, False)
         else
           (case depReady (eng_jobs e) (pl_results p) (job_DependsOn j) 0 True of (ready, known, dead) \<Rightarrow>
              if dead
              then ((setResult jid (res\<lparr>je_Reason := ETADependency\<rparr>) p)
                      \<lparr>pl_planned := go_add jid (pl_planned p)\<rparr>, True)
              else if \<not> known then (p, False)
              else
                (let p1 = p\<lparr>pl_planned := go_add jid (pl_planned p)\<rparr>;
                     (ms, basis) = forTool model (job_RequiredTool j)
                 in if basis = NoBasis then (setResult jid (res\<lparr>je_Reason := ETANoDuration\<rparr>) p1, True)
                    else
                      (case earliestLoop e j ready (pl_free p1) (go_vals (eng_robots e)) None False of
                         (None, toolExists) \<Rightarrow>
                           (setResult jid (res\<lparr>je_Reason := if toolExists then ETANoRobotAvailable
                              else ETANoRobotWithTool\<rparr>) p1, True)
                       | (Some (r, start), toolExists) \<Rightarrow>
                           ((setResult jid (res\<lparr>je_Estimated := True, je_RobotID := rob_ID r,
                               je_StartMs := start, je_DurationMs := ms, je_Basis := basis,
                               je_EndMs := start + ms\<rparr>) p1)
                              \<lparr>pl_free := go_put (rob_ID r) (start + ms) (pl_free p1)\<rparr>, True)))))"

fun planPass :: "durationModel \<Rightarrow> 's engine \<Rightarrow> job list \<Rightarrow> etaPlan \<Rightarrow> bool \<Rightarrow> etaPlan \<times> bool" where
  "planPass model e [] p progress = (p, progress)"
| "planPass model e (j # js) p progress =
     (case planOne model e j p of (p', moved) \<Rightarrow> planPass model e js p' (progress \<or> moved))"

definition unplanned :: "job list \<Rightarrow> etaPlan \<Rightarrow> job list" where
  "unplanned js p = filter (\<lambda>j. job_ID j \<notin> set (pl_planned p)) js"

lemma setResult_frame [simp]:
  "pl_planned (setResult jid r p) = pl_planned p" "pl_order (setResult jid r p) = pl_order p"
  "pl_free (setResult jid r p) = pl_free p" "pl_assignedOn (setResult jid r p) = pl_assignedOn p"
  "pl_results (setResult jid r p) = go_put jid r (pl_results p)"
  by (simp_all add: setResult_def)

lemma planOne_planned:
  "planOne model e j p = (p', moved) \<Longrightarrow>
     set (pl_planned p') = (if moved then insert (job_ID j) (set (pl_planned p)) else set (pl_planned p))
   \<and> (moved \<longrightarrow> job_ID j \<notin> set (pl_planned p))"
  by (auto simp: planOne_def Let_def split: if_splits prod.splits option.splits)

lemma planPass_planned:
  "planPass model e js p progress = (p', progress') \<Longrightarrow>
     set (pl_planned p) \<subseteq> set (pl_planned p') \<and> (progress \<longrightarrow> progress')
   \<and> (progress' \<longrightarrow> progress \<or> (\<exists>j \<in> set js. job_ID j \<notin> set (pl_planned p) \<and> job_ID j \<in> set (pl_planned p')))"
proof (induction js arbitrary: p progress)
  case (Cons j js)
  obtain p1 s where 1: "planOne model e j p = (p1, s)" by fastforce
  note o = planOne_planned [OF 1]
  have "planPass model e js p1 (progress \<or> s) = (p', progress')" using Cons.prems 1 by simp
  note ih = Cons.IH [OF this]
  show ?case using ih o by (cases s) auto
qed simp

lemma length_unplanned:
  assumes "set (pl_planned p) \<subseteq> set (pl_planned p')"
  shows "length (unplanned js p') \<le> length (unplanned js p)"
  using assms by (induction js) (auto simp: unplanned_def)

lemma planPass_less:
  assumes "(p', True) = planPass model e js p False"
  shows "length (unplanned js p') < length (unplanned js p)"
proof -
  obtain j where j: "j \<in> set js" "job_ID j \<notin> set (pl_planned p)" "job_ID j \<in> set (pl_planned p')"
    and sub: "set (pl_planned p) \<subseteq> set (pl_planned p')"
    using planPass_planned [OF assms [symmetric]] by auto
  obtain xs ys where js: "js = xs @ j # ys" using split_list [OF j(1)] by blast
  show ?thesis
    using length_unplanned [OF sub, of xs] length_unplanned [OF sub, of ys] j(2,3)
    unfolding js by (simp add: unplanned_def)
qed

text \<open>The loop goes on while a pass settles some job, so it ends.\<close>

function planLoop :: "durationModel \<Rightarrow> 's engine \<Rightarrow> job list \<Rightarrow> etaPlan \<Rightarrow> etaPlan" where
  "planLoop model e waitingJobs p =
     (case planPass model e waitingJobs p False of (p', progress) \<Rightarrow>
        if progress then planLoop model e waitingJobs p' else p')"
  by pat_completeness auto
termination
  by (relation "measure (\<lambda>(model, e, js, p). length (unplanned js p))") (auto dest: planPass_less)

declare planLoop.simps [simp del]

definition startedJobs :: "'s engine \<Rightarrow> job list" where
  "startedJobs e = sort_key job_seq (filter (\<lambda>j. job_Status j = StatusAssigned) (go_vals (eng_jobs e)))"

definition unknownJobs :: "'s engine \<Rightarrow> job list" where
  "unknownJobs e = filter (\<lambda>j. job_Status j = StatusUnknown) (go_vals (eng_jobs e))"

definition waitingOrder :: "'s engine \<Rightarrow> job list" where
  "waitingOrder e =
     sort_key dispatchKey
       (filter (\<lambda>j. job_Status j = StatusPending \<or> job_Status j = StatusBlocked) (go_vals (eng_jobs e)))"

definition planStart :: "durationModel \<Rightarrow> instant \<Rightarrow> 's engine \<Rightarrow> etaPlan" where
  "planStart model now e =
     (let p0 = \<lparr>pl_results = [], pl_order = [], pl_free = [], pl_assignedOn = [], pl_planned = []\<rparr>;
          p1 = fold (planAssigned model (unixMilli now) e) (startedJobs e) p0;
          p2 = fold (planFree now e) (eng_robots e) p1;
          p3 = fold planUnknown (unknownJobs e) p2
      in fold addETA (waitingOrder e) p3)"

definition planLocked :: "durationModel \<Rightarrow> instant \<Rightarrow> 's engine \<Rightarrow> (string, JobETA) gomap \<times> string list" where
  "planLocked model now e =
     (let p = planLoop model e (waitingOrder e) (planStart model now e)
      in (pl_results p, pl_order p))"

subsection \<open>The answer\<close>

record QueueETA =
  qe_GeneratedAtMs :: int
  qe_DrainMs :: int
  qe_DrainLowMs :: int
  qe_DrainHighMs :: int
  qe_Observed :: "ToolDuration list"
  qe_Jobs :: "JobETA list"

definition attachIntervalLocked ::
  "JobETA \<Rightarrow> JobETA option \<Rightarrow> JobETA option \<Rightarrow> (string, int) gomap \<Rightarrow> 's engine \<Rightarrow> JobETA" where
  "attachIntervalLocked r low high counts e =
     (case getJob e (je_JobID r) of
        None \<Rightarrow> r
      | Some job \<Rightarrow>
          if je_Basis r \<noteq> BasisObservedTool then r\<lparr>je_IntervalReason := IntervalNoHistory\<rparr>
          else if getOr 0 counts (job_RequiredTool job) < iv_MinSamples (eta_Interval (eng_eta e))
          then r\<lparr>je_IntervalReason := IntervalTooFewSamples\<rparr>
          else
            (case (low, high) of
               (Some l, Some h) \<Rightarrow>
                 if \<not> je_Estimated l \<or> \<not> je_Estimated h then r\<lparr>je_IntervalReason := IntervalNoHistory\<rparr>
                 else r\<lparr>je_StartLowMs := min (je_StartMs l) (je_StartMs r),
                        je_StartHighMs := max (je_StartMs h) (je_StartMs r),
                        je_EndLowMs := min (je_EndMs l) (je_EndMs r),
                        je_EndHighMs := max (je_EndMs h) (je_EndMs r),
                        je_DurationLowMs := min (je_DurationMs l) (je_DurationMs r),
                        je_DurationHighMs := max (je_DurationMs h) (je_DurationMs r)\<rparr>
             | _ \<Rightarrow> r\<lparr>je_IntervalReason := IntervalNoHistory\<rparr>))"

text \<open>The low and the high durations of every tool: the percentiles where there is enough history.\<close>

definition percentileModel :: "int \<Rightarrow> observations \<Rightarrow> IntervalConfig \<Rightarrow> duration \<Rightarrow> durationModel" where
  "percentileModel p ob iv def =
     \<lparr>dm_byTool = map (\<lambda>(tool, mean).
        (tool, if iv_MinSamples iv \<le> getOr 0 (ob_samples ob) tool
               then percentile (getOr [] (ob_window ob) tool) p else mean)) (ob_byTool ob),
      dm_all = ob_all ob, dm_def = def\<rparr>"

definition observedRange ::
  "observations \<Rightarrow> IntervalConfig \<Rightarrow> durationModel \<Rightarrow> durationModel \<Rightarrow> ToolDuration \<Rightarrow> ToolDuration" where
  "observedRange ob iv lowModel highModel td =
     (if iv_MinSamples iv \<le> getOr 0 (ob_samples ob) (td_Tool td)
      then td\<lparr>td_LowMs := getOr 0 (dm_byTool lowModel) (td_Tool td),
              td_HighMs := getOr 0 (dm_byTool highModel) (td_Tool td)\<rparr> else td)"

definition emitETA ::
  "(string, JobETA) gomap \<Rightarrow> (string, JobETA) gomap \<Rightarrow> (string, JobETA) gomap \<Rightarrow> (string, int) gomap \<Rightarrow>
   's engine \<Rightarrow> string \<Rightarrow> QueueETA \<Rightarrow> QueueETA" where
  "emitETA results lowRes highRes counts e jid out =
     (case go_get results jid of
        None \<Rightarrow> out
      | Some r \<Rightarrow>
         (let out1 = (if je_Estimated r \<and> qe_DrainMs out < je_EndMs r
                      then out\<lparr>qe_DrainMs := je_EndMs r\<rparr> else out);
              on = iv_Enabled (eta_Interval (eng_eta e)) \<and> je_Estimated r;
              r1 = (if on then attachIntervalLocked r (go_get lowRes jid) (go_get highRes jid) counts e else r);
              out2 = (if on \<and> 0 < je_EndLowMs r1 \<and> (qe_DrainLowMs out1 = 0 \<or> qe_DrainLowMs out1 < je_EndLowMs r1)
                      then out1\<lparr>qe_DrainLowMs := je_EndLowMs r1\<rparr> else out1);
              out3 = (if on \<and> 0 < je_EndLowMs r1 \<and> qe_DrainHighMs out2 < je_EndHighMs r1
                      then out2\<lparr>qe_DrainHighMs := je_EndHighMs r1\<rparr> else out2)
          in out3\<lparr>qe_Jobs := qe_Jobs out3 @ [r1]\<rparr>))"

definition queueETA :: "instant \<Rightarrow> 's engine \<Rightarrow> QueueETA option" where
  "queueETA now e =
     (if \<not> eta_Enabled (eng_eta e) then None
      else
        let ob = durationModelLocked e;
            def = eta_DefaultDuration (eng_eta e);
            iv = eta_Interval (eng_eta e);
            (results, order) = planLocked \<lparr>dm_byTool = ob_byTool ob, dm_all = ob_all ob, dm_def = def\<rparr> now e;
            lowModel = percentileModel (iv_LowPercentile iv) ob iv def;
            highModel = percentileModel (iv_HighPercentile iv) ob iv def;
            lowRes = (if iv_Enabled iv then fst (planLocked lowModel now e) else []);
            highRes = (if iv_Enabled iv then fst (planLocked highModel now e) else []);
            observed = (if iv_Enabled iv then map (observedRange ob iv lowModel highModel) (ob_observed ob)
                        else ob_observed ob)
        in Some (fold (emitETA results lowRes highRes (ob_samples ob) e) order
             \<lparr>qe_GeneratedAtMs = unixMilli now, qe_DrainMs = 0, qe_DrainLowMs = 0, qe_DrainHighMs = 0,
              qe_Observed = observed, qe_Jobs = []\<rparr>))"

end
