(* ===== verification/Lifecycle.thy ===== *)
theory Lifecycle
  imports Submission Dispatch Completion Archive Queries ETA
begin

section \<open>The engine as a state machine\<close>

text \<open>
  Every exported method of the engine holds its mutex from start to end, so a run of the service is
  a sequence of the steps below, in any order and with any arguments. The IDs of robots are not
  empty: \<open>src/src/api/api.go\<close> refuses such a heartbeat before it reaches the engine.
\<close>

inductive engine_step :: "'s engine \<Rightarrow> 's engine \<Rightarrow> bool" where
  add: "engine_step e (fst (AddJob j now e))"
| submit: "SubmitJob j now e = Some (e', r) \<Longrightarrow> engine_step e e'"
| heartbeat: "upd_ID u \<noteq> [] \<Longrightarrow> engine_step e (UpdateRobot u now e)"
| upsert: "rob_ID r \<noteq> [] \<Longrightarrow> engine_step e (UpsertRobot r now e)"
| remove: "engine_step e (fst (RemoveRobot rid e))"
| dispatch: "engine_step e (fst (DispatchOnce clk e))"
| complete: "CompleteJobAttempt jid success rid attempt now e = Some (e', err, ev) \<Longrightarrow> engine_step e e'"
| cancel: "CancelJob jid now e = Some (e', err) \<Longrightarrow> engine_step e e'"
| requeue: "engine_step e (fst (RequeueJob jid rid e))"
| replan: "engine_step e (fst (ReplanRobot rid e))"
| ackStop: "engine_step e (fst (AckStop rid jid e))"
| sweep: "engine_step e (fst (DetectStaleAssignmentsStop timeout now e))"
| archive: "engine_step e (fst (ArchiveFinished now e))"
| page: "engine_step e (snd (JobsPageFor rid status offset limit e))"
| confirm: "engine_step e (fst (confirmRecord fetch ids now e))"
| setTools: "engine_step e (SetToolCatalog c e)"
| setFreshness: "engine_step e (SetRobotFreshness d e)"
| setReplan: "engine_step e (SetReplan rc e)"
| setArchive: "engine_step e (SetArchiveAfter d e)"
| setSink: "engine_step e (SetProductionEvents on e)"
| setEvents: "engine_step e (SetEvents h e)"
| setCosts: "engine_step e (fst (SetLocationCosts lc e))"
| setConfirm: "engine_step e (fst (SetToolConfirmation cfg hasFetch e))"
| setETA: "engine_step e (SetETA ec e)"

inductive reachable :: "'s engine \<Rightarrow> 's engine \<Rightarrow> bool" for e0 where
  start: "reachable e0 e0"
| step: "reachable e0 e \<Longrightarrow> engine_step e e' \<Longrightarrow> reachable e0 e'"

subsection \<open>Every step keeps the invariant\<close>

lemma settings_ok:
  assumes "engine_ok e"
  shows "engine_ok (SetToolCatalog c e)" "engine_ok (SetRobotFreshness d e)"
    "engine_ok (SetReplan rc e)" "engine_ok (SetArchiveAfter d e)"
    "engine_ok (SetProductionEvents on e)" "engine_ok (SetEvents h e)"
    "engine_ok (fst (SetLocationCosts lc e))" "engine_ok (fst (SetToolConfirmation cfg hf e))"
    "engine_ok (fst (confirmRecord fetch ids now e))"
    "engine_ok (SetETA ec e)"
proof -
  show "engine_ok (SetToolCatalog c e)" "engine_ok (SetRobotFreshness d e)"
    "engine_ok (SetReplan rc e)" "engine_ok (SetArchiveAfter d e)"
    "engine_ok (SetProductionEvents on e)" "engine_ok (SetEvents h e)"
    using assms
    by (simp_all add: SetToolCatalog_def SetRobotFreshness_def SetReplan_def SetArchiveAfter_def
        SetProductionEvents_def SetEvents_def engine_ok_def base_ok_def)
  show "engine_ok (SetETA ec e)"
    using assms by (simp add: SetETA_def Let_def engine_ok_def base_ok_def)
  show "engine_ok (fst (SetLocationCosts lc e))"
    using assms LocationValidate_ordered [of lc]
    by (cases "LocationValidate lc") (simp_all add: SetLocationCosts_def engine_ok_def base_ok_def)
  show "engine_ok (fst (SetToolConfirmation cfg hf e))"
    using assms by (auto simp: SetToolConfirmation_def engine_ok_def base_ok_def split: option.splits)
  show "engine_ok (fst (confirmRecord fetch ids now e))"
    using assms by (auto simp: confirmRecord_def Let_def engine_ok_def base_ok_def)
qed

lemma ReplanRobot_ok:
  assumes "engine_ok e"
  shows "engine_ok (fst (ReplanRobot rid e))"
proof (cases "rp_Enabled (eng_replan e) \<and> getRobot e rid \<noteq> None")
  case True
  then show ?thesis using ReplanRobot_effect [OF assms, of rid] by fastforce
next
  case False
  then show ?thesis using assms by (auto simp: ReplanRobot_def)
qed

lemma engine_step_ok:
  assumes "engine_step e e'" and ok: "engine_ok e"
  shows "engine_ok e'"
  using assms(1)
proof cases
  case (add j now)
  then show ?thesis using AddJob_ok [OF ok] by simp
next
  case (submit j now r)
  then show ?thesis using SubmitJob_ok [OF ok, of j now] by auto
next
  case (heartbeat u now)
  then show ?thesis using UpdateRobot_ok [OF ok] by simp
next
  case (upsert r now)
  then show ?thesis using UpsertRobot_ok [OF ok] by simp
next
  case (remove rid)
  then show ?thesis using RemoveRobot_effect(1) [OF ok] by (metis prod.collapse)
next
  case (dispatch clk)
  then show ?thesis using DispatchOnce_pass(1) [OF ok] by (metis prod.collapse)
next
  case (complete jid success rid attempt now err ev)
  then show ?thesis using CompleteJob_ok [OF ok, of jid success rid attempt now] by auto
next
  case (cancel jid now err)
  then show ?thesis using CancelJob_ok [OF ok, of jid now] by auto
next
  case (requeue jid rid)
  then show ?thesis using RequeueJob_effect [OF ok] by simp
next
  case (replan rid)
  then show ?thesis using ReplanRobot_ok [OF ok] by simp
next
  case (ackStop rid jid)
  then show ?thesis using AckStop_effect [OF ok] by simp
next
  case (sweep timeout now)
  then show ?thesis using DetectStale_ok [OF ok] by simp
next
  case (archive now)
  then show ?thesis using ArchiveFinished_effect(1) [OF ok] by (metis prod.collapse)
next
  case (page rid status offset limit)
  then show ?thesis using JobsPageFor_ok [OF ok] by simp
qed (simp_all add: settings_ok [OF ok])

lemma reachable_ok: "reachable e0 e \<Longrightarrow> engine_ok e0 \<Longrightarrow> engine_ok e"
  by (induction rule: reachable.induct) (auto intro: engine_step_ok)

subsection \<open>The life of a job\<close>

text \<open>
  The moves a job can make in one step. A done job is final; a failed or cancelled one can only
  start over; a job in flight ends, is given up as unknown or goes back to pending.
\<close>

definition moves :: "JobStatus \<Rightarrow> JobStatus \<Rightarrow> bool" where
  "moves s t \<longleftrightarrow> s = t
   \<or> waiting s \<and> (waiting t \<or> t = StatusCancelled) \<or> s = StatusPending \<and> t = StatusAssigned
   \<or> s = StatusAssigned \<and> (t = StatusDone \<or> t = StatusFailed \<or> t = StatusUnknown \<or> t = StatusPending)
   \<or> s = StatusUnknown \<and> (t = StatusDone \<or> t = StatusFailed \<or> t = StatusPending)
   \<or> (s = StatusFailed \<or> s = StatusCancelled) \<and> waiting t"

definition jobMove :: "job \<Rightarrow> job \<Rightarrow> bool" where
  "jobMove j j' \<longleftrightarrow>
     moves (job_Status j) (job_Status j')
   \<and> job_ID j' = job_ID j \<and> job_seq j' = job_seq j \<and> job_DedupKey j' = job_DedupKey j
   \<and> job_Attempt j' =
       (if job_Status j' = StatusAssigned \<and> job_Status j \<noteq> StatusAssigned
        then job_Attempt j + 1 else job_Attempt j)
   \<and> (inFlight (job_Status j) \<longrightarrow> inFlight (job_Status j') \<longrightarrow>
        job_AssignedRobot j' = job_AssignedRobot j)
   \<and> (job_Status j = StatusDone \<longrightarrow> j' = j)"

definition allMove :: "'s engine \<Rightarrow> 's engine \<Rightarrow> bool" where
  "allMove e e' \<longleftrightarrow>
     (\<forall>jid j j'. getJob e jid = Some j \<longrightarrow> getJob e' jid = Some j' \<longrightarrow> jobMove j j')"

lemma jobMove_refl [simp]: "jobMove j j"
  by (simp add: jobMove_def moves_def)

lemma allMove_same: "getJob e' = getJob e \<Longrightarrow> allMove e e'"
  by (simp add: allMove_def)

lemma jobMove_statusOnly:
  assumes "statusOnly j j'"
  shows "jobMove j j'"
proof (cases "waiting (job_Status j)")
  case True
  then show ?thesis using statusOnly_fields [OF assms] inFlight_not_waiting
    by (auto simp: jobMove_def moves_def)
next
  case False
  then show ?thesis using statusOnly_fields(8) [OF assms] by simp
qed

lemma jobMove_pendingAgain: "inFlight (job_Status j) \<Longrightarrow> jobMove j (pendingAgain j)"
  by (auto simp: jobMove_def moves_def pendingAgain_def inFlight_def)

lemma jobMove_unknown: "job_Status j = StatusAssigned \<Longrightarrow> jobMove j (unknownAgain j)"
  by (auto simp: jobMove_def moves_def unknownAgain_def)

lemma jobMove_assigned: "job_Status j = StatusPending \<Longrightarrow> jobMove j (assigned j rid ms)"
  by (auto simp: jobMove_def moves_def)

lemma jobMove_unnamed: "job_Status j = StatusPending \<Longrightarrow> jobMove j (j\<lparr>job_AssignedRobot := []\<rparr>)"
  by (auto simp: jobMove_def moves_def)

lemma jobMove_completed: "inFlight (job_Status j) \<Longrightarrow> jobMove j (completed success now j)"
  by (auto simp: jobMove_def moves_def inFlight_def)

lemma jobMove_cancelled: "waiting (job_Status j) \<Longrightarrow> jobMove j (cancelled now j)"
  by (auto simp: jobMove_def moves_def cancelled_def)

lemma jobMove_retried:
  assumes st: "job_Status j = StatusFailed \<or> job_Status j = StatusCancelled"
    and s: "statusOnly (retried j x now jobs) j'"
  shows "jobMove j j'"
  using st statusOnly_fields [OF s] by (auto simp: jobMove_def moves_def)

lemma allMove_statusOnly:
  assumes "\<And>x. x \<noteq> jid \<Longrightarrow> rel_option statusOnly (getJob e x) (getJob e' x)"
    and "\<And>j j'. getJob e jid = Some j \<Longrightarrow> getJob e' jid = Some j' \<Longrightarrow> jobMove j j'"
  shows "allMove e e'"
  unfolding allMove_def
proof (intro allI impI)
  fix x j j' assume x: "getJob e x = Some j" "getJob e' x = Some j'"
  show "jobMove j j'"
  proof (cases "x = jid")
    case True
    then show ?thesis using assms(2) x by simp
  next
    case False
    then show ?thesis using assms(1) [OF False] x jobMove_statusOnly by simp
  qed
qed

lemma allMove_backIn: "backIn e jids e' \<Longrightarrow> allInFlight e jids \<Longrightarrow> allMove e e'"
  unfolding allMove_def backIn_def allInFlight_def
  using jobMove_pendingAgain by (force split: if_splits)

lemma allMove_untouched:
  assumes "\<And>x. x \<notin> A \<Longrightarrow> untouched e e' x"
    and "\<And>x j j'. x \<in> A \<Longrightarrow> getJob e x = Some j \<Longrightarrow> getJob e' x = Some j' \<Longrightarrow> jobMove j j'"
  shows "allMove e e'"
  unfolding allMove_def
proof (intro allI impI)
  fix x j j' assume x: "getJob e x = Some j" "getJob e' x = Some j'"
  show "jobMove j j'"
  proof (cases "x \<in> A")
    case True
    then show ?thesis using assms(2) x by blast
  next
    case False
    then show ?thesis using assms(1) [OF False] x jobMove_unnamed by (auto simp: untouched_def)
  qed
qed

lemma sweep_moves:
  fixes e :: "'s engine"
  assumes ok: "engine_ok e"
  shows "allMove e (fst (DetectStaleAssignmentsStop timeout now e))"
proof -
  obtain e' r where d: "DetectStaleAssignmentsStop timeout now e = (e', r)" by fastforce
  let ?js = "silentJobs timeout now e"
  note mem = mem_silentJobs [OF engine_okD(1) [OF ok]]
  have asg: "job_Status j = StatusAssigned" if "x \<in> set (map job_ID ?js)" "getJob e x = Some j" for x j
    using that by (auto simp: mem silentJob_def)
  show ?thesis
  proof (cases "rp_Enabled (eng_replan e) \<and> rp_OnStale (eng_replan e)")
    case False
    have m: "marked e (map job_ID ?js) e'" by (rule DetectStale_off(2) [OF ok False d])
    show ?thesis unfolding allMove_def d fst_conv
    proof (intro allI impI)
      fix x j j' assume x: "getJob e x = Some j" "getJob e' x = Some j'"
      show "jobMove j j'"
      proof (cases "x \<in> set (map job_ID ?js)")
        case True
        then have "j' = unknownAgain j" using m x unfolding marked_def by simp
        then show ?thesis using jobMove_unknown asg [OF True x(1)] by simp
      next
        case no: False
        then show ?thesis using m x unfolding marked_def by simp
      qed
    qed
  next
    case True
    note on = DetectStale_on [OF ok conjunct1 [OF True] conjunct2 [OF True] d]
    obtain e3 where m: "backIn e (res_Requeued r) e3" "marked e3 (res_Unknown r) e'"
      "res_Requeued r = decided now e stopRequeue ?js" "res_Unknown r = decided now e stopUnknown ?js"
      using on by blast
    have sub: "\<exists>j. getJob e x = Some j \<and> job_Status j = StatusAssigned
        \<and> snd (stopDecisionLocked j now e) = dd"
      if "x \<in> set (decided now e dd ?js)" for x dd
      using that by (auto simp: decided_def mem silentJob_def)
    show ?thesis unfolding allMove_def d fst_conv
    proof (intro allI impI)
      fix x j j' assume x: "getJob e x = Some j" "getJob e' x = Some j'"
      consider (q) "x \<in> set (res_Requeued r)" | (u) "x \<in> set (res_Unknown r)" "x \<notin> set (res_Requeued r)"
        | (n) "x \<notin> set (res_Requeued r)" "x \<notin> set (res_Unknown r)" by blast
      then show "jobMove j j'"
      proof cases
        case q
        then have "x \<notin> set (res_Unknown r)" "job_Status j = StatusAssigned"
          using sub [of x stopRequeue] sub [of x stopUnknown] m(3,4) x(1) by auto
        moreover have "getJob e3 x = Some (pendingAgain j)" using m(1) q x(1) unfolding backIn_def by simp
        ultimately have "j' = pendingAgain j" using m(2) x(2) unfolding marked_def by simp
        then show ?thesis using jobMove_pendingAgain \<open>job_Status j = StatusAssigned\<close> by simp
      next
        case u
        then have "job_Status j = StatusAssigned" using sub [of x stopUnknown] m(4) x(1) by auto
        moreover have "getJob e3 x = Some j" using m(1) u x(1) unfolding backIn_def by simp
        moreover have "j' = unknownAgain j"
          using m(2) u(1) x(2) calculation(2) unfolding marked_def by simp
        ultimately show ?thesis using jobMove_unknown by simp
      next
        case n
        have "getJob e3 x = Some j" using m(1) n x(1) unfolding backIn_def by simp
        then show ?thesis using m(2) n x(2) unfolding marked_def by simp
      qed
    qed
  qed
qed

text \<open>The other steps.\<close>

lemma settings_jobs:
  "eng_jobs (SetToolCatalog c e) = eng_jobs e" "eng_jobs (SetRobotFreshness d e) = eng_jobs e"
  "eng_jobs (SetReplan rc e) = eng_jobs e" "eng_jobs (SetArchiveAfter d e) = eng_jobs e"
  "eng_jobs (SetProductionEvents on e) = eng_jobs e" "eng_jobs (SetEvents h e) = eng_jobs e"
  "eng_jobs (fst (SetLocationCosts lc e)) = eng_jobs e"
  "eng_jobs (fst (SetToolConfirmation cfg hf e)) = eng_jobs e"
  "eng_jobs (fst (confirmRecord fetch ids now e)) = eng_jobs e"
  "eng_jobs (snd (JobsPageFor rid status offset limit e)) = eng_jobs e"
  "eng_jobs (SetETA ec e) = eng_jobs e"
  by (auto simp: SetETA_def SetToolCatalog_def SetRobotFreshness_def SetReplan_def SetArchiveAfter_def
      SetProductionEvents_def SetEvents_def SetLocationCosts_def SetToolConfirmation_def
      confirmRecord_def JobsPageFor_def Let_def case_prod_unfold split: option.splits)

lemma add_moves:
  assumes ok: "engine_ok e" and a: "addJobLocked j now e = (e', r)"
  shows "allMove e e'"
proof (cases r)
  case (Inl err)
  show ?thesis using addJobLocked_Inl(1) [OF a [unfolded Inl]] by (intro allMove_same) simp
next
  case (Inr stored)
  have "getJob e (job_ID j) = None" "eng_jobs e' = go_put (job_ID j) stored (eng_jobs e)"
    using addJobLocked_Inr(3,6) [OF a [unfolded Inr]] .
  then show ?thesis by (auto simp: allMove_def)
qed

lemma submitNew_moves: "engine_ok e \<Longrightarrow> allMove e (fst (submitNew j now e))"
  using add_moves [of e j now] by (simp add: submitNew_def split: prod.splits sum.splits)

lemma submit_moves:
  assumes ok: "engine_ok e" and s: "SubmitJob j now e = Some (e', r)"
  shows "allMove e e'"
proof (rule SubmitJob_cases [OF ok, of j now])
  assume "SubmitJob j now e = Some (submitNew j now e)"
  then show ?thesis using s submitNew_moves [OF ok, of j now] by (metis fst_conv option.inject)
next
  fix x assume "SubmitJob j now e = Some (e, Inr (x, SubmitDuplicate))"
  then show ?thesis using s by (simp add: allMove_same)
next
  fix x
  assume x: "getJob e (job_ID x) = Some x" "job_Status x = StatusFailed \<or> job_Status x = StatusCancelled"
    "SubmitJob j now e = retryJob x j now e"
  show ?thesis
  proof (cases "retryable x j e")
    case True
    then obtain j' where j': "getJob e' (job_ID x) = Some j'" "statusOnly (retried x j now (eng_jobs e)) j'"
      "\<forall>y. y \<noteq> job_ID x \<longrightarrow> rel_option statusOnly (getJob e y) (getJob e' y)"
      using retryJob_effect [OF ok x(1,2), of j now] x(3) s by auto
    have "jobMove x j'" by (rule jobMove_retried [OF x(2) j'(2)])
    then show ?thesis using j' x(1) by (intro allMove_statusOnly [of "job_ID x"]) simp_all
  next
    case False
    then show ?thesis using retryJob_effect [OF ok x(1,2), of j now] x(3) s
      by (auto intro: allMove_same)
  qed
qed

lemma upsert_moves:
  assumes ok: "engine_ok e"
  shows "allMove e (upsertRobotLocked r given now e)"
proof (cases "getRobot e (rob_ID r)")
  case None
  then show ?thesis using upsertRobot_new(2) [OF None, of given now] by (intro allMove_same) simp
next
  case (Some x)
  show ?thesis
  proof (cases "faulted r given e \<and> rp_Enabled (eng_replan e) \<and> rp_OnFault (eng_replan e)")
    case False
    then show ?thesis using upsertRobot_known(2) [OF ok Some False] by (intro allMove_same) simp
  next
    case True
    obtain jids where jids: "set jids = {jid. \<exists>j. getJob e jid = Some j \<and> job_AssignedRobot j = rob_ID r
        \<and> job_Status j = StatusAssigned}"
      "\<forall>y. getJob (upsertRobotLocked r given now e) y =
         (if y \<in> set jids then map_option pendingAgain (getJob e y) else getJob e y)"
      using upsertRobot_fault [OF ok Some] True by blast
    have "jobMove j (pendingAgain j)" if "getJob e y = Some j" "y \<in> set jids" for y j
      using that jids(1) by (intro jobMove_pendingAgain) auto
    then show ?thesis using jids(2) by (auto simp: allMove_def)
  qed
qed

lemma dispatch_moves:
  assumes ok: "engine_ok e" and d: "DispatchOnce clk e = (e', out)"
  shows "allMove e e'"
proof -
  obtain e1 where p: "passOf clk (map job_ID (dispatchOrder e)) e e1 out" "eng_jobs e' = eng_jobs e1"
    using DispatchOnce_pass(2) [OF ok d] by blast
  have "allMove e e1"
  proof (rule allMove_untouched [of "asg_JobID ` set out"])
    show "untouched e e1 x" if "x \<notin> asg_JobID ` set out" for x
      using p(1) that by (simp add: passOf_def)
    show "jobMove j j'" if w: "x \<in> asg_JobID ` set out" "getJob e x = Some j" "getJob e1 x = Some j'" for x j j'
    proof -
      obtain a where a: "a \<in> set out" "x = asg_JobID a" using w(1) by blast
      then have "givenBy clk e e1 a" using p(1) by (simp add: passOf_def)
      then show ?thesis using w(2,3) a(2) jobMove_assigned by (auto simp: givenBy_def)
    qed
  qed
  then show ?thesis using p(2) by (simp add: allMove_def)
qed

lemma complete_moves:
  assumes ok: "engine_ok e" and c: "CompleteJobAttempt jid success rid attempt now e = Some (e', err, ev)"
  shows "allMove e e'"
proof (cases "reportError jid rid attempt e")
  case (Some x)
  then show ?thesis using CompleteJob_refused [OF ok Some] c by (auto intro: allMove_same)
next
  case None
  obtain j r where j: "getJob e jid = Some j" "inFlight (job_Status j)" "getRobot e rid = Some r"
    using report_robot [OF ok None] by blast
  show ?thesis
  proof (rule allMove_statusOnly [of jid])
    show "rel_option statusOnly (getJob e x) (getJob e' x)" if "x \<noteq> jid" for x
      using CompleteJob_accepted [OF ok None j(1,3), of success now] c that by auto
    show "jobMove i i'" if "getJob e jid = Some i" "getJob e' jid = Some i'" for i i'
      using CompleteJob_accepted [OF ok None j(1,3), of success now] c that j(1,2)
      by (auto simp: jobMove_completed)
  qed
qed

lemma cancel_moves:
  assumes ok: "engine_ok e" and c: "CancelJob jid now e = Some (e', err)"
  shows "allMove e e'"
proof (cases "\<exists>j. getJob e jid = Some j \<and> waiting (job_Status j)")
  case True
  then obtain j where j: "getJob e jid = Some j" "waiting (job_Status j)" by blast
  show ?thesis
  proof (rule allMove_statusOnly [of jid])
    show "rel_option statusOnly (getJob e x) (getJob e' x)" if "x \<noteq> jid" for x
      using CancelJob_accepted [OF ok j, of now] c that by auto
    show "jobMove i i'" if "getJob e jid = Some i" "getJob e' jid = Some i'" for i i'
      using CancelJob_accepted [OF ok j, of now] c that j by (auto simp: jobMove_cancelled)
  qed
next
  case False
  have "e' = e"
  proof (cases "cancelError jid e")
    case (Some x)
    then show ?thesis using CancelJob_refused [OF Some] c by simp
  next
    case None
    then obtain j where j: "getJob e jid = Some j" "job_Status j = StatusCancelled"
      using False by (cases "getJob e jid"; cases "job_Status (the (getJob e jid))")
        (auto simp: cancelError_def waiting_def inFlight_def)
    then show ?thesis using CancelJob_again [OF j] c by simp
  qed
  then show ?thesis by (simp add: allMove_same)
qed

lemma requeue_moves: "engine_ok e \<Longrightarrow> allMove e (fst (RequeueJob jid rid e))"
  using RequeueJob_effect [of e jid rid] allMove_backIn [of e "[jid]"]
  by (auto split: if_splits intro: allMove_same)

lemma ackStop_moves:
  assumes ok: "engine_ok e"
  shows "allMove e (fst (AckStop rid jid e))"
proof (cases "snd (AckStop rid jid e)")
  case None
  then obtain j where "backIn e [jid] (fst (AckStop rid jid e))" "getJob e jid = Some j" "stopOpen rid j e"
    using AckStop_effect [OF ok, of rid jid] by auto
  then show ?thesis by (intro allMove_backIn [of e "[jid]"]) (auto simp: allInFlight_def stopOpen_def)
next
  case (Some x)
  then show ?thesis using AckStop_effect [OF ok, of rid jid] by (auto intro: allMove_same)
qed

lemma replan_moves:
  assumes ok: "engine_ok e"
  shows "allMove e (fst (ReplanRobot rid e))"
proof (cases "rp_Enabled (eng_replan e) \<and> getRobot e rid \<noteq> None")
  case True
  then obtain r where r: "getRobot e rid = Some r" by blast
  obtain ids where ids: "set ids = {jid. \<exists>j. getJob e jid = Some j \<and> job_AssignedRobot j = rid \<and> inFlight (job_Status j)}"
    "\<forall>x. getJob (fst (ReplanRobot rid e)) x =
      (if x \<in> set ids then map_option pendingAgain (getJob e x) else getJob e x)"
    using ReplanRobot_effect [OF ok conjunct1 [OF True] r] by auto
  have "jobMove j (pendingAgain j)" if "getJob e y = Some j" "y \<in> set ids" for y j
    using that ids(1) by (intro jobMove_pendingAgain) auto
  then show ?thesis using ids(2) by (auto simp: allMove_def)
next
  case False
  then show ?thesis by (auto simp: ReplanRobot_def intro: allMove_same)
qed

lemma archive_moves:
  assumes ok: "engine_ok e"
  shows "allMove e (fst (ArchiveFinished now e))"
proof -
  obtain e' r where d: "ArchiveFinished now e = (e', r)" by fastforce
  have "getJob e' x = getJob e x \<or> getJob e' x = None" for x
  proof (cases r)
    case (Inl err)
    then show ?thesis using ArchiveFinished_effect(2) [OF ok d Inl] by simp
  next
    case (Inr ids)
    then show ?thesis using ArchiveFinished_effect(3) [OF ok d Inr, of x] by simp
  qed
  then show ?thesis unfolding allMove_def d fst_conv by (metis jobMove_refl option.distinct(1) option.inject)
qed

theorem engine_step_moves:
  assumes "engine_step e e'" and ok: "engine_ok e"
  shows "allMove e e'"
  using assms(1)
proof cases
  case (add j now)
  then show ?thesis using add_moves [OF ok, of j now] by (simp add: AddJob_def split: prod.splits sum.splits)
next
  case (submit j now r)
  then show ?thesis using submit_moves [OF ok] by simp
next
  case (heartbeat u now)
  then show ?thesis using upsert_moves [OF ok] by (simp add: UpdateRobot_def Let_def split: option.splits)
next
  case (upsert r now)
  then show ?thesis using upsert_moves [OF ok] by (simp add: UpsertRobot_def)
next
  case (remove rid)
  then show ?thesis using RemoveRobot_effect(2) [OF ok] by (metis allMove_same prod.collapse)
next
  case (dispatch clk)
  then show ?thesis using dispatch_moves [OF ok] by (metis prod.collapse)
next
  case (complete jid success rid attempt now err ev)
  then show ?thesis using complete_moves [OF ok] by simp
next
  case (cancel jid now err)
  then show ?thesis using cancel_moves [OF ok] by simp
next
  case (requeue jid rid)
  then show ?thesis using requeue_moves [OF ok] by simp
next
  case (replan rid)
  then show ?thesis using replan_moves [OF ok] by simp
next
  case (ackStop rid jid)
  then show ?thesis using ackStop_moves [OF ok] by simp
next
  case (sweep timeout now)
  then show ?thesis using sweep_moves [OF ok] by simp
next
  case (archive now)
  then show ?thesis using archive_moves [OF ok] by simp
qed (intro allMove_same; auto simp: settings_jobs)+

end
