(* ===== verification/Restart.thy ===== *)
theory Restart
  imports Lifecycle
begin

section \<open>Starting from what was stored\<close>

text \<open>
  The service starts with an empty engine or with what its store holds. The engine that
  \<open>NewEngineWithStore\<close> builds has exactly the stored jobs and robots, and it satisfies the
  invariant when the stored records are consistent: the condition speaks of the records only, the
  indexes and the submission number are rebuilt by the code.
\<close>

definition loadedJob :: "JobRecord \<Rightarrow> job" where
  "loadedJob r = (rec_Job r)\<lparr>job_seq := rec_Seq r\<rparr>"

definition loadedJobs :: "JobRecord list \<Rightarrow> (string, job) gomap" where
  "loadedJobs records = fold (\<lambda>r. go_put (job_ID (rec_Job r)) (loadedJob r)) records []"

definition loadedRobots :: "robot list \<Rightarrow> (string, robot) gomap" where
  "loadedRobots robots = fold (\<lambda>r. go_put (rob_ID r) r) robots []"

definition consistent :: "JobRecord list \<Rightarrow> robot list \<Rightarrow> bool" where
  "consistent records robots \<longleftrightarrow>
     distinct (map (\<lambda>r. job_ID (rec_Job r)) records) \<and> distinct (map rec_Seq records)
   \<and> queue_ok (loadedJobs records) \<and> stable (loadedJobs records)
   \<and> robots_ok (loadedRobots robots) \<and> reserved_ok (loadedJobs records) (loadedRobots robots)"

subsection \<open>One record\<close>

lemma loadedJob_ID [simp]: "job_ID (loadedJob r) = job_ID (rec_Job r)" "job_seq (loadedJob r) = rec_Seq r"
  by (simp_all add: loadedJob_def)

lemma loadRecord_frame [simp]:
  "eng_jobs (loadRecord r e) = go_put (job_ID (rec_Job r)) (loadedJob r) (eng_jobs e)"
  "eng_robots (loadRecord r e) = eng_robots e" "eng_store (loadRecord r e) = eng_store e"
  "eng_pending (loadRecord r e) = eng_pending e" "eng_location (loadRecord r e) = eng_location e"
  "eng_nextSeq (loadRecord r e) = (if eng_nextSeq e \<le> rec_Seq r then rec_Seq r + 1 else eng_nextSeq e)"
  by (simp_all add: loadRecord_def loadedJob_def Let_def setJob_def noteAssignedLocked_def)

lemma loadRecord_dedup:
  "eng_dedupIndex (loadRecord r e) =
     (if job_DedupKey (rec_Job r) = [] then eng_dedupIndex e
      else go_put (job_DedupKey (rec_Job r)) (job_ID (rec_Job r)) (eng_dedupIndex e))"
  by (simp add: loadRecord_def Let_def setJob_def noteAssignedLocked_def)

lemma loadRecord_held:
  "heldIds (eng_heldBy (loadRecord r e)) rid = heldIds (eng_heldBy (noteAssignedLocked (loadedJob r) e)) rid"
  by (auto simp: loadRecord_def loadedJob_def Let_def noteAssignedLocked_def setJob_def)

text \<open>What the loop keeps: the indexes are right for the jobs loaded so far.\<close>

definition loading_ok :: "'s engine \<Rightarrow> bool" where
  "loading_ok e \<longleftrightarrow>
     dedup_ok (eng_jobs e) (eng_dedupIndex e) \<and> heldBy_ok (eng_jobs e) (eng_heldBy e)
   \<and> (\<forall>jid j. getJob e jid = Some j \<longrightarrow> job_seq j \<le> eng_nextSeq e)"

lemma loadRecord_ok:
  assumes ok: "loading_ok e" and new: "getJob e (job_ID (rec_Job r)) = None"
  shows "loading_ok (loadRecord r e)"
proof -
  have d: "dedup_ok (eng_jobs e) (eng_dedupIndex e)" and h: "heldBy_ok (eng_jobs e) (eng_heldBy e)"
    and s: "\<And>jid j. getJob e jid = Some j \<Longrightarrow> job_seq j \<le> eng_nextSeq e"
    using ok by (auto simp: loading_ok_def)
  have key: "job_DedupKey (loadedJob r) = job_DedupKey (rec_Job r)" by (simp add: loadedJob_def)
  have other: "jid \<noteq> job_ID (rec_Job r)" if "go_get (eng_dedupIndex e) k = Some jid" for k jid
    using d new that by (metis dedup_ok_def option.simps(3,8))
  have "dedup_ok (eng_jobs (loadRecord r e)) (eng_dedupIndex (loadRecord r e))"
    using d other key by (auto simp: dedup_ok_def loadRecord_dedup)
  moreover have "heldBy_ok (eng_jobs (loadRecord r e)) (eng_heldBy (loadRecord r e))"
    using heldBy_okD [OF h] heldBy_ok_distinct [OF h]
    by (intro heldBy_okI) (auto simp: loadRecord_held heldIds_noteAssigned split: if_splits)
  moreover have "job_seq j \<le> eng_nextSeq (loadRecord r e)" if "getJob (loadRecord r e) jid = Some j" for jid j
    using that s [of jid j] by (auto split: if_splits)
  ultimately show ?thesis unfolding loading_ok_def by blast
qed

lemma loadRecords_ok:
  assumes "loading_ok e" and "distinct (map (\<lambda>r. job_ID (rec_Job r)) records)"
    and "\<forall>r \<in> set records. getJob e (job_ID (rec_Job r)) = None"
  shows "loading_ok (fold loadRecord records e)"
  using assms
proof (induction records arbitrary: e)
  case (Cons r rs)
  show ?case unfolding fold_Cons comp_apply
  proof (rule Cons.IH)
    show "loading_ok (loadRecord r e)" using Cons.prems by (intro loadRecord_ok) simp_all
    show "\<forall>x \<in> set rs. getJob (loadRecord r e) (job_ID (rec_Job x)) = None"
      using Cons.prems by (force simp: image_iff)
  qed (use Cons.prems in simp)
qed simp

lemma loadRecords_frame:
  "eng_jobs (fold loadRecord records e) = fold (\<lambda>r. go_put (job_ID (rec_Job r)) (loadedJob r)) records (eng_jobs e)
 \<and> eng_robots (fold loadRecord records e) = eng_robots e \<and> eng_store (fold loadRecord records e) = eng_store e
 \<and> eng_pending (fold loadRecord records e) = eng_pending e \<and> eng_location (fold loadRecord records e) = eng_location e"
  by (induction records arbitrary: e) simp_all

lemma setRobots_frame:
  "eng_robots (fold setRobot robots e) = fold (\<lambda>r. go_put (rob_ID r) r) robots (eng_robots e)
 \<and> eng_jobs (fold setRobot robots e) = eng_jobs e \<and> eng_store (fold setRobot robots e) = eng_store e
 \<and> eng_pending (fold setRobot robots e) = eng_pending e \<and> eng_location (fold setRobot robots e) = eng_location e
 \<and> eng_dedupIndex (fold setRobot robots e) = eng_dedupIndex e \<and> eng_heldBy (fold setRobot robots e) = eng_heldBy e
 \<and> eng_nextSeq (fold setRobot robots e) = eng_nextSeq e"
  by (induction robots arbitrary: e) (simp_all add: setRobot_def)

subsection \<open>The maps that are loaded\<close>

lemma get_fold_put:
  assumes "distinct (map k xs)"
  shows "go_get (fold (\<lambda>x. go_put (k x) (v x)) xs m) a =
     (case find (\<lambda>x. k x = a) xs of None \<Rightarrow> go_get m a | Some x \<Rightarrow> Some (v x))"
  using assms
proof (induction xs arbitrary: m)
  case (Cons x xs)
  show ?case
  proof (cases "k x = a")
    case True
    then have "find (\<lambda>y. k y = a) xs = None" using Cons.prems by (simp add: find_None_iff image_iff) metis
    then show ?thesis using Cons True by simp
  qed (use Cons in \<open>auto split: option.splits\<close>)
qed simp

lemma key_inj: "distinct (map k xs) \<Longrightarrow> x \<in> set xs \<Longrightarrow> y \<in> set xs \<Longrightarrow> k x = k y \<Longrightarrow> x = y"
  by (auto simp: distinct_map dest: inj_onD)

lemma find_key: "distinct (map k xs) \<Longrightarrow> find (\<lambda>x. k x = a) xs = Some x \<longleftrightarrow> x \<in> set xs \<and> k x = a"
  by (induction xs) (auto simp: find_Some_iff)

lemma get_loadedJobs:
  "distinct (map (\<lambda>r. job_ID (rec_Job r)) records) \<Longrightarrow>
     go_get (loadedJobs records) jid = Some j \<longleftrightarrow>
       (\<exists>r \<in> set records. job_ID (rec_Job r) = jid \<and> loadedJob r = j)"
  unfolding loadedJobs_def
  by (auto simp: get_fold_put [where k = "\<lambda>r. job_ID (rec_Job r)"] find_key [where k = "\<lambda>r. job_ID (rec_Job r)"]
      find_None_iff dest: key_inj [where k = "\<lambda>r. job_ID (rec_Job r)"] split: option.splits)

lemma get_loadedRobots:
  "distinct (map rob_ID robots) \<Longrightarrow>
     go_get (loadedRobots robots) rid = Some b \<longleftrightarrow> b \<in> set robots \<and> rob_ID b = rid"
  unfolding loadedRobots_def
  by (auto simp: get_fold_put [where k = rob_ID] find_key [where k = rob_ID] find_None_iff
      dest: key_inj [where k = rob_ID] split: option.splits)

lemma seqs_loaded:
  assumes ids: "distinct (map (\<lambda>r. job_ID (rec_Job r)) records)" and s: "distinct (map rec_Seq records)"
    and "go_get (loadedJobs records) a = Some ja" "go_get (loadedJobs records) b = Some jb" "job_seq ja = job_seq jb"
  shows "a = b"
proof -
  obtain ra rb where r: "ra \<in> set records" "job_ID (rec_Job ra) = a" "loadedJob ra = ja"
      "rb \<in> set records" "job_ID (rec_Job rb) = b" "loadedJob rb = jb"
    using assms(3,4) get_loadedJobs [OF ids] by metis
  then have "rec_Seq ra = rec_Seq rb" using assms(5) by auto
  then have "ra = rb" using s r(1,4) by (auto simp: distinct_map dest: inj_onD)
  then show ?thesis using r by simp
qed

subsection \<open>The loaded engine\<close>

lemma NewEngineWithStore_loads:
  fixes e :: "'s engine"
  assumes "sv_LoadAll sv (sv_state sv) = Inr (records, robots)" and "NewEngineWithStore sv = Inr e"
  shows "eng_jobs e = loadedJobs records" "eng_robots e = loadedRobots robots" "eng_store e = Some sv"
    "eng_pending e = None" "eng_location e = eng_location (NewEngine :: 's engine)"
proof -
  have e: "e = fold setRobot robots (fold loadRecord records
      (NewEngine\<lparr>eng_store := Some sv, eng_archiveAfter := DefaultArchiveAfter\<rparr>))"
    using assms by (simp add: NewEngineWithStore_def)
  show "eng_jobs e = loadedJobs records" "eng_robots e = loadedRobots robots" "eng_store e = Some sv"
    "eng_pending e = None" "eng_location e = eng_location (NewEngine :: 's engine)"
    by (simp_all add: e setRobots_frame loadRecords_frame loadedJobs_def loadedRobots_def NewEngine_def)
qed

lemma NewEngineWithStore_ok:
  fixes e :: "'s engine"
  assumes l: "sv_LoadAll sv (sv_state sv) = Inr (records, robots)" and n: "NewEngineWithStore sv = Inr e"
    and c: "consistent records robots"
  shows "engine_ok e"
proof -
  note f = NewEngineWithStore_loads [OF l n]
  let ?e0 = "NewEngine\<lparr>eng_store := Some sv, eng_archiveAfter := DefaultArchiveAfter\<rparr>"
  let ?e1 = "fold loadRecord records ?e0"
  have e: "e = fold setRobot robots ?e1" using l n by (simp add: NewEngineWithStore_def)
  have ids: "distinct (map (\<lambda>r. job_ID (rec_Job r)) records)" and s: "distinct (map rec_Seq records)"
    using c by (simp_all add: consistent_def)
  have "loading_ok ?e0" by (simp add: loading_ok_def NewEngine_def dedup_ok_def)
  then have "loading_ok ?e1" by (rule loadRecords_ok [OF _ ids]) (simp add: NewEngine_def)
  then have lo: "loading_ok e" by (simp add: e loading_ok_def setRobots_frame)
  have "seqs_ok (eng_nextSeq e) (eng_jobs e)"
    using lo seqs_loaded [OF ids s] unfolding seqs_ok_def loading_ok_def f(1) by metis
  moreover have "costsOrdered (eng_location e)"
    using engine_ok_NewEngine [where 'a = 's] by (simp add: f(5) engine_ok_def base_ok_def)
  ultimately show ?thesis
    using c lo f by (simp add: engine_ok_def base_ok_def consistent_def loading_ok_def)
qed

subsection \<open>A running service\<close>

inductive serviceStart :: "'s engine \<Rightarrow> bool" where
  fresh: "serviceStart NewEngine"
| loaded: "sv_LoadAll sv (sv_state sv) = Inr (records, robots) \<Longrightarrow> consistent records robots \<Longrightarrow>
    NewEngineWithStore sv = Inr e \<Longrightarrow> serviceStart e"

inductive running :: "'s engine \<Rightarrow> bool" where
  start: "serviceStart e \<Longrightarrow> running e"
| step: "running e \<Longrightarrow> engine_step e e' \<Longrightarrow> running e'"

lemma serviceStart_ok: "serviceStart e \<Longrightarrow> engine_ok e"
  by (induction rule: serviceStart.induct) (auto intro: NewEngineWithStore_ok simp: engine_ok_NewEngine)

lemma running_ok: "running e \<Longrightarrow> engine_ok e"
  by (induction rule: running.induct) (auto intro: serviceStart_ok engine_step_ok)

lemma reachable_running: "reachable e0 e \<Longrightarrow> running e0 \<Longrightarrow> running e"
  by (induction rule: reachable.induct) (auto intro: running.step)

lemma running_NewEngine: "running NewEngine"
  by (intro running.start serviceStart.fresh)

lemma consistent_Nil [simp]: "consistent [] []"
  using engine_ok_NewEngine [where 'a = unit]
  by (simp add: engine_ok_def base_ok_def consistent_def loadedJobs_def loadedRobots_def NewEngine_def)

end
