(* ===== verification/Demo.thy ===== *)
theory Demo
  imports Restart
begin

section \<open>A small plant\<close>

text \<open>
  A concrete run of the engine without a store: three robots, five jobs of which one waits for
  another, and the stages that the run goes through. The theorems of the development are applied
  to these engines, to show that their hypotheses can hold.
\<close>

definition aJob :: "string \<Rightarrow> int \<Rightarrow> string \<Rightarrow> string list \<Rightarrow> string \<Rightarrow> job" where
  "aJob jid prio tool deps key =
     \<lparr>job_ID = jid, job_Priority = prio, job_RequiredTool = tool, job_Location = [],
      job_DependsOn = deps, job_Status = StatusPending, job_AssignedRobot = [],
      job_DedupKey = key, job_SubmittedAtMs = 0, job_AssignedAtMs = 0, job_CompletedAtMs = 0,
      job_Attempt = 0, job_seq = 0\<rparr>"

definition aRobot :: "string \<Rightarrow> string \<Rightarrow> robot" where
  "aRobot rid tool =
     \<lparr>rob_ID = rid, rob_Location = [], rob_Tool = tool, rob_Available = True, rob_Load = 0,
      rob_StopCapable = False, rob_selfReportedUnavailable = False, rob_LastHeartbeat = None\<rparr>"

definition jobA :: job where "jobA = aJob ''a'' 5 [] [] ''k''"
definition jobB :: job where "jobB = aJob ''b'' 1 ''weld'' [''a''] []"
definition jobC :: job where "jobC = aJob ''c'' 9 ''weld'' [] []"
definition jobD :: job where "jobD = aJob ''d'' 0 ''weld'' [] []"
definition jobF :: job where "jobF = aJob ''f'' 4 [] [] []"

text \<open>The stages: the robots, the queue, after one pass, after the report on \<open>a\<close>, after its failure.\<close>

definition plant0 :: "unit engine" where
  "plant0 = UpsertRobot (aRobot ''w'' ''weld'') 0
     (UpsertRobot (aRobot ''n'' []) 0 (UpsertRobot (aRobot ''m'' []) 0 NewEngine))"

definition plant1 :: "unit engine" where
  "plant1 = fst (AddJob jobF 5 (fst (AddJob jobD 4 (fst (AddJob jobC 3
     (fst (AddJob jobB 2 (fst (AddJob jobA 1 plant0)))))))))"

definition plant2 :: "unit engine" where
  "plant2 = fst (DispatchOnce (\<lambda>_. 10) plant1)"

definition plantDone :: "unit engine" where
  "plantDone = fst (the (CompleteJobAttempt ''a'' True ''m'' 1 20 plant2))"

definition plantFailed :: "unit engine" where
  "plantFailed = fst (the (CompleteJobAttempt ''a'' False ''m'' 1 20 plant2))"

text \<open>Both reports come in and the next pass gives \<open>b\<close> away.\<close>

definition plant3 :: "unit engine" where
  "plant3 = fst (DispatchOnce (\<lambda>_. 40) (fst (the (CompleteJobAttempt ''c'' True ''w'' 0 30 plantDone))))"

lemma plant0_ok: "engine_ok plant0"
  by (simp add: plant0_def UpsertRobot_ok engine_ok_NewEngine aRobot_def)

lemma plant1_ok: "engine_ok plant1"
  unfolding plant1_def by (intro AddJob_ok plant0_ok)

lemma plant2_ok: "engine_ok plant2"
  using DispatchOnce_pass(1) [OF plant1_ok] unfolding plant2_def by (metis prod.collapse)

lemma plantDone_ok: "engine_ok plantDone"
  using CompleteJob_ok [OF plant2_ok, of "''a''" True "''m''" 1 20] unfolding plantDone_def by auto

lemma plantFailed_ok: "engine_ok plantFailed"
  using CompleteJob_ok [OF plant2_ok, of "''a''" False "''m''" 1 20] unfolding plantFailed_def by auto

text \<open>What the first pass does, and the choices it leaves.\<close>

lemma plant2_pass:
  "DispatchOnce (\<lambda>_. 10) plant1 = (plant2,
     [\<lparr>asg_JobID = ''c'', asg_RobotID = ''w''\<rparr>, \<lparr>asg_JobID = ''a'', asg_RobotID = ''m''\<rparr>,
      \<lparr>asg_JobID = ''f'', asg_RobotID = ''n''\<rparr>])"
proof -
  have "snd (DispatchOnce (\<lambda>_. 10) plant1) =
     [\<lparr>asg_JobID = ''c'', asg_RobotID = ''w''\<rparr>, \<lparr>asg_JobID = ''a'', asg_RobotID = ''m''\<rparr>,
      \<lparr>asg_JobID = ''f'', asg_RobotID = ''n''\<rparr>]"
    by code_simp
  then show ?thesis unfolding plant2_def by (metis prod.collapse)
qed

lemma getJob_at:
  "map_option f (getJob e jid) = Some v \<Longrightarrow> \<exists>j. getJob e jid = Some j \<and> f j = v"
  by auto

lemma plant0_reachable: "reachable NewEngine plant0"
  unfolding plant0_def
  by (intro reachable.step [OF _ upsert] reachable.start) (simp_all add: aRobot_def)

lemma plant1_reachable: "reachable NewEngine plant1"
  unfolding plant1_def by (intro reachable.step [OF _ engine_step.add] plant0_reachable)

lemma plant2_reachable: "reachable NewEngine plant2"
  unfolding plant2_def by (rule reachable.step [OF plant1_reachable engine_step.dispatch])

lemma complete_reachable:
  assumes "reachable NewEngine e"
  shows "reachable NewEngine (fst (the (CompleteJobAttempt jid s rid att now e)))"
proof -
  obtain e' ev where "CompleteJobAttempt jid s rid att now e = Some (e', reportError jid rid att e, ev)"
    using CompleteJob_ok [OF reachable_ok [OF assms engine_ok_NewEngine]] by blast
  then show ?thesis using reachable.step [OF assms engine_step.complete] by simp
qed

lemma plant3_reachable: "reachable NewEngine plant3"
  unfolding plant3_def plantDone_def
  by (intro reachable.step [OF _ engine_step.dispatch] complete_reachable plant2_reachable)

lemmas plants_running = plant1_reachable [THEN reachable_running, OF running_NewEngine]
  plant2_reachable [THEN reachable_running, OF running_NewEngine]
  plant3_reachable [THEN reachable_running, OF running_NewEngine]

end
