(* ===== verification/DispatchTheorems.thy ===== *)
theory DispatchTheorems
  imports Demo
begin

section \<open>What a scheduling pass guarantees\<close>

text \<open>
  The theorems about \<open>DispatchOnce\<close>, \<open>bestRobotFor\<close> and \<open>WaitingJobs\<close>: safety of the
  assignments, completeness of a pass, no inversion of priorities, and the choice of the robot.
\<close>

text \<open>
  C5: every assignment a pass returns is of a pending job whose dependencies are all done, to a
  robot that was available, carried the required tool and was eligible at an instant of the pass.
  Afterwards the job is assigned to that robot with its attempt counted, and the robot is reserved.
\<close>

theorem dispatch_assigns_ready_jobs:
  assumes ok: "engine_ok e" and d: "DispatchOnce clk e = (e', out)" and a: "a \<in> set out"
  shows "\<exists>j r i. getJob e (asg_JobID a) = Some j \<and> job_Status j = StatusPending
    \<and> (\<forall>dep \<in> set (job_DependsOn j). depIs isDone (eng_jobs e) dep)
    \<and> getRobot e (asg_RobotID a) = Some r \<and> rob_Available r \<and> hasTool j r
    \<and> robotEligibleLocked e r j (clk (2 * i))
    \<and> getJob e' (asg_JobID a) = Some (assigned j (asg_RobotID a) (unixMilli (clk (2 * i + 1))))
    \<and> getRobot e' (asg_RobotID a) = Some (reservedRobot r)"
proof -
  obtain e1 where p: "passOf clk (map job_ID (dispatchOrder e)) e e1 out"
    and e': "eng_jobs e' = eng_jobs e1" "eng_robots e' = eng_robots e1"
    using DispatchOnce_pass(2) [OF ok d] by blast
  then have "givenBy clk e e1 a" using a by (simp add: passOf_def)
  then obtain j r i where g: "getJob e (asg_JobID a) = Some j" "job_Status j = StatusPending"
    "getRobot e (asg_RobotID a) = Some r" "robotEligibleLocked e r j (clk (2 * i))"
    "getJob e1 (asg_JobID a) = Some (assigned j (asg_RobotID a) (unixMilli (clk (2 * i + 1))))"
    "getRobot e1 (asg_RobotID a) = Some (reservedRobot r)"
    unfolding givenBy_def by blast
  have "rob_Available r \<and> hasTool j r"
    using g(4) by (auto simp: robotEligibleLocked_def hasTool_def split: if_splits)
  moreover have "depIs isDone (eng_jobs e) dep" if "dep \<in> set (job_DependsOn j)" for dep
  proof -
    have "\<not> depIs notDone (eng_jobs e) dep"
      using pending_deps_done [OF ok g(1,2)] that computeStatus_Pending by blast
    then show ?thesis
      using deps_closedD [OF queue_okD(2) [OF base_okD(1) [OF engine_okD(1) [OF ok]]] g(1) that]
      by (auto simp: depIs_def)
  qed
  ultimately show ?thesis using g e' by (metis (no_types))
qed

lemma dispatch_assigns_ready_jobs_witness:
  "\<exists>r. getRobot plant1 ''w'' = Some r \<and> rob_Available r"
  using dispatch_assigns_ready_jobs [OF plant1_ok plant2_pass, of "\<lparr>asg_JobID = ''c'', asg_RobotID = ''w''\<rparr>"]
  by auto

text \<open>
  C6: a pass gives no robot two jobs and no job two robots, follows the order of the queue, and
  changes nothing else: every other job keeps its record (but for a stale robot name of a pending
  job whose write failed), every other robot its entry.
\<close>

theorem dispatch_frame:
  assumes ok: "engine_ok e" and d: "DispatchOnce clk e = (e', out)"
  shows "subseq (map asg_JobID out) (map job_ID (dispatchOrder e))
    \<and> distinct (map asg_JobID out) \<and> distinct (map asg_RobotID out)
    \<and> (\<forall>x. x \<notin> asg_JobID ` set out \<longrightarrow> untouched e e' x)
    \<and> (\<forall>x. x \<notin> asg_RobotID ` set out \<longrightarrow> getRobot e' x = getRobot e x)"
proof -
  obtain e1 where p: "passOf clk (map job_ID (dispatchOrder e)) e e1 out"
    and e': "eng_jobs e' = eng_jobs e1" "eng_robots e' = eng_robots e1"
    using DispatchOnce_pass(2) [OF ok d] by blast
  have "distinct (map asg_JobID out)"
    using p distinct_dispatchOrder [OF engine_okD(1) [OF ok]] subseq_distinct unfolding passOf_def by blast
  then show ?thesis using p e' by (simp add: passOf_def untouched_def)
qed

lemma dispatch_frame_witness: "untouched plant1 plant2 ''b''"
  using dispatch_frame [OF plant1_ok plant2_pass] by simp

text \<open>
  C7: a pass is complete: when no write of the pass failed, a pending job that it left without a
  robot has no eligible robot in the state it leaves behind (the clock standing still).
\<close>

theorem dispatch_complete:
  assumes ok: "engine_ok e" and d: "DispatchOnce (\<lambda>_. now) e = (e', out)"
    and w: "eng_lastPersistErr e = None" "eng_lastPersistErr e' = None"
    and j: "getJob e jid = Some j" "job_Status j = StatusPending" "jid \<notin> asg_JobID ` set out"
  shows "\<forall>r \<in> set (go_vals (eng_robots e')). \<not> robotEligibleLocked e' r j now"
proof -
  obtain e1 p where l: "dispatchLoop (\<lambda>_. now) 0 (map job_ID (dispatchOrder e)) e [] False None = (e1, out, p, None)"
    and e1: "eng_robots e' = eng_robots e1" "sameSettings e1 e'"
    using DispatchOnce_loop [OF d w ok] by blast
  have id: "job_ID j = jid" using base_job_ID [OF engine_okD(1) [OF ok] j(1)] .
  then have "j \<in> set (dispatchOrder e)" using j mem_dispatchOrder [OF engine_okD(1) [OF ok]] by simp
  then have m: "jid \<in> set (map job_ID (dispatchOrder e))" using id by force
  have "bestRobotFor e1 j now = None"
    by (rule dispatchLoop_maximal [OF ok distinct_dispatchOrder [OF engine_okD(1) [OF ok]]
        allPending_dispatchOrder [OF engine_okD(1) [OF ok]] l m j(1,3)])
  then show ?thesis unfolding bestRobotFor_None e1(1) eligible_cong [OF e1(2)] .
qed

lemma dispatch_complete_witness:
  "\<exists>j. getJob plant1 ''d'' = Some j
    \<and> (\<forall>r \<in> set (go_vals (eng_robots plant2)). \<not> robotEligibleLocked plant2 r j 10)"
proof -
  have "map_option job_Status (getJob plant1 ''d'') = Some StatusPending"
    "eng_lastPersistErr plant1 = None" "eng_lastPersistErr plant2 = None" by code_simp+
  then obtain j where "getJob plant1 ''d'' = Some j" "job_Status j = StatusPending" by auto
  with dispatch_complete [OF plant1_ok plant2_pass] \<open>eng_lastPersistErr plant1 = None\<close>
    \<open>eng_lastPersistErr plant2 = None\<close>
  show ?thesis by simp
qed





text \<open>
  The choice does not depend on the order in which Go happens to visit the map of robots.
\<close>

theorem best_robot_order_independent:
  assumes ok: "engine_ok e" and perm: "mset rs = mset (eng_robots e)"
  shows "bestRobotFor (e\<lparr>eng_robots := rs\<rparr>) j now = bestRobotFor e j now"
proof -
  let ?e = "e\<lparr>eng_robots := rs\<rparr>"
  note b = engine_okD(1) [OF ok]
  have wf: "robots_wf e" using base_robots_wf [OF b] .
  have s: "set rs = set (eng_robots e)" using perm by (metis set_mset_mset)
  have "mset (go_keys rs) = mset (go_keys (eng_robots e))" using perm by simp
  then have d: "distinct (go_keys rs)" using go_wf_distinct [OF wf] by (metis mset_eq_imp_distinct_iff)
  have wf': "robots_wf ?e" using wf d s by (auto simp: go_wf_def)
  have v: "set (go_vals (eng_robots ?e)) = set (go_vals (eng_robots e))" using s by simp
  have el: "robotEligibleLocked ?e r j now = robotEligibleLocked e r j now" for r
    by (intro eligible_cong) (simp add: sameSettings_def)
  have "bestRobotFor ?e j now = Some r \<longleftrightarrow> bestRobotFor e j now = Some r" for r
    using bestRobotFor_iff [of ?e j now r] bestRobotFor_iff [of e j now r] base_okD(7) [OF b] wf wf' v el s
    by simp
  then show ?thesis by (metis option.exhaust)
qed

lemma best_robot_order_independent_witness:
  "bestRobotFor (plant1\<lparr>eng_robots := rev (eng_robots plant1)\<rparr>) jobA 10 = bestRobotFor plant1 jobA 10"
  by (rule best_robot_order_independent [OF plant1_ok]) simp

text \<open>
  C11: the reason reported for a pending job is exact: no robot at all, a robot that the next pass
  could choose, no robot with the tool, none of those available, none of the available ones
  confirmed, or otherwise only robots that were not heard from recently.
\<close>

theorem wait_reason_exact:
  "waitReasonLocked e j now =
    (let rs = go_vals (eng_robots e);
         avail = (\<lambda>r. hasTool j r \<and> rob_Available r) in
     if eng_robots e = [] then WaitNoRobots
     else if bestRobotFor e j now \<noteq> None then WaitForItsTurn
     else if \<forall>r \<in> set rs. \<not> hasTool j r then WaitNoRobotWithTool
     else if \<forall>r \<in> set rs. \<not> avail r then WaitRobotsBusy
     else if \<forall>r \<in> set rs. avail r \<longrightarrow> \<not> toolConfirmedLocked e r j now then WaitToolUnconfirmed
     else WaitRobotsStale)"
proof (cases "eng_robots e = []")
  case True
  then show ?thesis by (simp add: waitReasonLocked_def)
next
  case ne: False
  show ?thesis
  proof (cases "bestRobotFor e j now")
    case None
    then have "\<forall>r \<in> set (go_vals (eng_robots e)). \<not> robotEligibleLocked e r j now"
      by (simp only: bestRobotFor_None)
    from waitReason_loop [OF this ne] show ?thesis using ne None by (simp only: Let_def simp_thms if_False if_True not_None_eq)
  next
    case (Some r)
    then show ?thesis using waitReason_turn [of e j now] ne by (simp add: Let_def)
  qed
qed

lemma wait_reason_exact_witness: "waitReasonLocked plant2 jobD 20 = WaitRobotsBusy"
proof -
  have "eng_robots plant2 \<noteq> []" "bestRobotFor plant2 jobD 20 = None"
    "list_ex (hasTool jobD) (go_vals (eng_robots plant2))"
    "list_all (\<lambda>r. \<not> (hasTool jobD r \<and> rob_Available r)) (go_vals (eng_robots plant2))" by code_simp+
  then show ?thesis using wait_reason_exact [of plant2 jobD 20] by (auto simp: list_ex_iff list_all_iff Let_def)
qed

end
