(* ===== verification/QueueTheorems.thy ===== *)
theory QueueTheorems
  imports Demo
begin

section \<open>What the operations on jobs guarantee\<close>

text \<open>
  The theorems about the life of a job: submission and its deduplication, the search for a cycle,
  the re-evaluation of the queue, completion, cancellation and requeueing.
\<close>

text \<open>
  C12: the life cycle. In one step of the service every job that stays in the queue makes a legal
  move: a done job never changes again, only a pending job is assigned (and that counts its
  attempt, nothing else does), a failed or cancelled one can only start over, and a job in flight
  keeps its robot until it ends or goes back to pending. IDs, keys and submission numbers stay.
\<close>

theorem job_life_cycle:
  assumes "running e" and "engine_step e e'"
    and "getJob e jid = Some j" and "getJob e' jid = Some j'"
  shows "moves (job_Status j) (job_Status j')
    \<and> job_ID j' = job_ID j \<and> job_seq j' = job_seq j \<and> job_DedupKey j' = job_DedupKey j
    \<and> job_Attempt j' = (if job_Status j' = StatusAssigned \<and> job_Status j \<noteq> StatusAssigned
        then job_Attempt j + 1 else job_Attempt j)
    \<and> (inFlight (job_Status j) \<longrightarrow> inFlight (job_Status j') \<longrightarrow> job_AssignedRobot j' = job_AssignedRobot j)
    \<and> (job_Status j = StatusDone \<longrightarrow> j' = j)"
proof -
  have "jobMove j j'"
    using engine_step_moves [OF assms(2) running_ok [OF assms(1)]] assms(3,4)
    unfolding allMove_def by blast
  then show ?thesis unfolding jobMove_def by blast
qed

lemma job_life_cycle_witness:
  "\<exists>j j'. getJob plant1 ''c'' = Some j \<and> getJob plant2 ''c'' = Some j' \<and> job_Attempt j' = job_Attempt j + 1"
proof -
  have "map_option job_Status (getJob plant1 ''c'') = Some StatusPending"
    "map_option job_Status (getJob plant2 ''c'') = Some StatusAssigned" by code_simp+
  then obtain j j' where j: "getJob plant1 ''c'' = Some j" "job_Status j = StatusPending"
    "getJob plant2 ''c'' = Some j'" "job_Status j' = StatusAssigned" by auto
  have "engine_step plant1 plant2" unfolding plant2_def by (rule engine_step.dispatch)
  from job_life_cycle [OF plants_running(1) this j(1,3)] show ?thesis using j by auto
qed

text \<open>
  C13: a submission always returns with a job or an error of the documented kinds (the nil pointer
  the code could dereference never occurs), and the engine stays in order.
\<close>

theorem submit_total:
  assumes "engine_ok e"
  shows "\<exists>e' r. SubmitJob j now e = Some (e', r) \<and> engine_ok e' \<and> r \<noteq> Inl NilDereference"
  by (rule SubmitJob_ok [OF assms])

lemma submit_total_witness: "\<exists>e' r. SubmitJob jobA 50 plantFailed = Some (e', r) \<and> engine_ok e'"
  using submit_total [OF plantFailed_ok, of jobA 50] by blast

text \<open>
  Resubmission is idempotent. After a submission with a deduplication key was answered with a
  job, submitting the same again (whatever the ID it now carries) changes nothing and answers the
  same job as a duplicate.
\<close>

theorem submit_idempotent:
  assumes "engine_ok e" and "job_DedupKey j \<noteq> []" and "SubmitJob j now e = Some (e', Inr (x, res))"
    and "job_DedupKey j2 = job_DedupKey j"
  shows "SubmitJob j2 later e' = Some (e', Inr (x, SubmitDuplicate))"
proof -
  have "go_get (eng_dedupIndex e') (job_DedupKey j2) = Some (job_ID x) \<and> getJob e' (job_ID x) = Some x
      \<and> job_Status x \<noteq> StatusFailed \<and> job_Status x \<noteq> StatusCancelled"
    using SubmitJob_indexes [OF assms(1-3)] assms(4) by simp
  then show ?thesis using assms(2,4) by (intro SubmitJob_again) simp_all
qed

lemma submit_idempotent_witness:
  "\<exists>(e' :: unit engine) x. SubmitJob (jobA\<lparr>job_ID := ''z''\<rparr>) 60 e' = Some (e', Inr (x, SubmitDuplicate))"
proof -
  have "case SubmitJob jobA 50 plantFailed of None \<Rightarrow> False | Some (e', r) \<Rightarrow> \<not> isl r" by code_simp
  then obtain e' r where "SubmitJob jobA 50 plantFailed = Some (e', r)" "\<not> isl r"
    by (auto split: option.splits)
  moreover obtain x res where "r = Inr (x, res)" using calculation(2) by (cases r) auto
  ultimately have "SubmitJob jobA 50 plantFailed = Some (e', Inr (x, res))" by simp
  moreover have "job_DedupKey jobA \<noteq> []" "job_DedupKey (jobA\<lparr>job_ID := ''z''\<rparr>) = job_DedupKey jobA"
    by (simp_all add: jobA_def aJob_def)
  ultimately show ?thesis using submit_idempotent [OF plantFailed_ok] by blast
qed

text \<open>
  C15: the retry of a failed or cancelled job is accepted exactly when its new dependencies are
  well-formed, exist and do not lead back to it. Then the job keeps its identity, number and
  attempt count, takes the new request, and every job that waits is re-evaluated; otherwise
  nothing changes at all.
\<close>

theorem retry_effect:
  assumes "engine_ok e" and "getJob e (job_ID x) = Some x"
    and "job_Status x = StatusFailed \<or> job_Status x = StatusCancelled"
    and "job_DedupKey j \<noteq> []" and "go_get (eng_dedupIndex e) (job_DedupKey j) = Some (job_ID x)"
  shows "if retryable x j e
    then \<exists>e' j'. SubmitJob j now e = Some (e', Inr (j', SubmitRetried)) \<and> engine_ok e'
      \<and> getJob e' (job_ID x) = Some j' \<and> statusOnly (retried x j now (eng_jobs e)) j'
      \<and> (\<forall>y. y \<noteq> job_ID x \<longrightarrow> rel_option statusOnly (getJob e y) (getJob e' y))
      \<and> eng_robots e' = eng_robots e
    else \<exists>err. SubmitJob j now e = Some (e, Inl err)"
proof -
  have "SubmitJob j now e = retryJob x j now e"
    using assms(2-5) by (auto simp: SubmitJob_def)
  then show ?thesis using retryJob_effect [OF assms(1-3), of j now] by (auto split: if_splits)
qed

lemma retry_effect_witness:
  "\<exists>e' j'. SubmitJob jobA 50 plantFailed = Some (e', Inr (j', SubmitRetried))"
proof -
  have f: "map_option (\<lambda>x. (job_Status x, job_ID x, retryable x jobA plantFailed)) (getJob plantFailed ''a'')
      = Some (StatusFailed, ''a'', True)"
    "go_get (eng_dedupIndex plantFailed) (job_DedupKey jobA) = Some ''a''" "job_DedupKey jobA \<noteq> []" by code_simp+
  then obtain x where x: "getJob plantFailed (job_ID x) = Some x" "job_Status x = StatusFailed"
    "job_ID x = ''a''" "retryable x jobA plantFailed" by auto
  then show ?thesis using retry_effect [OF plantFailed_ok x(1), of jobA 50] f by auto
qed

text \<open>
  C16: the search for a cycle ends and is exact: it answers yes exactly when some root is the
  target or depends on it through any number of steps.
\<close>

theorem cycle_search_exact:
  "dependsTransitivelyLocked roots target e \<longleftrightarrow>
     (\<exists>x \<in> set roots. (target, x) \<in> (depRel (eng_jobs e))\<^sup>*)"
  by (rule dependsTransitively_iff)

text \<open>
  A new job is accepted exactly when its ID is not blank and not taken and its dependencies
  are well-formed and exist (and the store, if any, takes it). It enters the queue as the newest
  one, with the status its dependencies give it and no history; a refused one leaves the queue,
  the robots and both indexes as they were.
\<close>

theorem add_job_effect:
  assumes "AddJob j now e = (e', err)"
  shows "if err = None
    then \<not> isBlank (job_ID j) \<and> getJob e (job_ID j) = None
      \<and> validateDependencyShape (job_ID j) (job_DependsOn j) = None
      \<and> (\<forall>d \<in> set (job_DependsOn j). getJob e d \<noteq> None)
      \<and> getJob e' = (getJob e)(job_ID j \<mapsto> j\<lparr>job_seq := eng_nextSeq e + 1,
          job_SubmittedAtMs := unixMilli now, job_AssignedAtMs := 0, job_CompletedAtMs := 0,
          job_Attempt := 0, job_Status := computeStatus (eng_jobs e) j\<rparr>)
      \<and> eng_robots e' = eng_robots e
    else eng_jobs e' = eng_jobs e \<and> eng_robots e' = eng_robots e
      \<and> eng_dedupIndex e' = eng_dedupIndex e \<and> eng_heldBy e' = eng_heldBy e"
proof -
  obtain r where r: "addJobLocked j now e = (e', r)" "err = (case r of Inl x \<Rightarrow> Some x | Inr _ \<Rightarrow> None)"
    using assms by (cases "snd (addJobLocked j now e)") (auto simp: AddJob_def split: prod.splits)
  show ?thesis
  proof (cases r)
    case (Inl x)
    then show ?thesis using r addJobLocked_Inl [of j now e e' x] by simp
  next
    case (Inr stored)
    note A = addJobLocked_Inr [OF r(1) [unfolded Inr]]
    have "getJob e d \<noteq> None" if "d \<in> set (job_DependsOn j)" for d
      using A(4) that go_get_None [of "eng_jobs e" d] by blast
    then show ?thesis using A(1-3,5-7) r(2) Inr by (simp add: update_conv')
  qed
qed

lemma add_job_effect_witness: "eng_jobs (fst (AddJob jobA 70 plant1)) = eng_jobs plant1"
proof -
  have "snd (AddJob jobA 70 plant1) \<noteq> None" by code_simp
  with add_job_effect [OF prod.collapse [symmetric], of jobA 70 plant1] show ?thesis by simp
qed

text \<open>
  C18: re-evaluating the queue ends whenever the dependencies have no cycle, and its result is the
  same whatever the order in which the map is visited: the one queue that differs from the given
  one in the statuses of waiting jobs only and in which every waiting job has the status its
  dependencies give it.
\<close>

theorem refresh_settles_queue:
  assumes "go_wf job_ID (eng_jobs e)" and "acyclic (depRel (eng_jobs e))"
  shows "\<exists>e' err. refreshBlocked e = Some (e', err) \<and> stable (eng_jobs e')
    \<and> sameButWaiting (eng_jobs e) (eng_jobs e') \<and> onlyJobs e e'
    \<and> (\<forall>jobs. sameButWaiting (eng_jobs e) jobs \<longrightarrow> stable jobs \<longrightarrow>
          (\<forall>x. go_get jobs x = getJob e' x))"
proof -
  obtain e' err where r: "refreshBlocked e = Some (e', err)" using refreshBlocked_returns [OF assms] by blast
  note R = refreshBlocked_result [OF r assms(1)]
  have "go_get jobs x = getJob e' x" if "sameButWaiting (eng_jobs e) jobs" "stable jobs" for jobs x
    by (rule stable_unique [OF assms(2) that(1) R(2) that(2) R(1)])
  then show ?thesis using r R by blast
qed

lemma refresh_settles_queue_witness: "\<exists>e' err. refreshBlocked plantFailed = Some (e', err) \<and> stable (eng_jobs e')"
proof -
  note q = base_okD(1) [OF engine_okD(1) [OF plantFailed_ok]]
  show ?thesis using refresh_settles_queue [OF queue_okD(1,3) [OF q]] by blast
qed

text \<open>
  C19: a completion report is judged by its job, its robot and its attempt alone. A refused report
  (unknown job, a job not in flight, another robot, an older attempt) changes nothing. An accepted
  one ends the job, frees its robot (unless it has another job or said it is not ready), counts
  the robot's load, touches no other robot, and changes at most the status of waiting jobs.
\<close>

theorem completion_effect:
  assumes ok: "engine_ok e"
  shows "case reportError jid rid attempt e of
      Some err \<Rightarrow> CompleteJobAttempt jid success rid attempt now e = Some (e, Some err, None)
    | None \<Rightarrow> (\<exists>j r e' ev. getJob e jid = Some j \<and> inFlight (job_Status j) \<and> job_AssignedRobot j = rid
        \<and> getRobot e rid = Some r
        \<and> CompleteJobAttempt jid success rid attempt now e = Some (e', None, ev)
        \<and> engine_ok e' \<and> getJob e' jid = Some (completed success now j)
        \<and> (\<forall>x. x \<noteq> jid \<longrightarrow> rel_option statusOnly (getJob e x) (getJob e' x))
        \<and> getRobot e' = (getRobot e)(rid \<mapsto> freed rid jid e r)
        \<and> ev = productionEventLocked (completed success now j) e)"
proof (cases "reportError jid rid attempt e")
  case (Some err)
  then show ?thesis using CompleteJob_refused [OF ok Some] by simp
next
  case None
  obtain j r where jr: "getJob e jid = Some j" "inFlight (job_Status j)" "job_AssignedRobot j = rid"
    "getRobot e rid = Some r" using report_robot [OF ok None] by blast
  obtain e' ev where "CompleteJobAttempt jid success rid attempt now e = Some (e', None, ev)"
    "engine_ok e'" "getJob e' jid = Some (completed success now j)"
    "\<forall>x. x \<noteq> jid \<longrightarrow> rel_option statusOnly (getJob e x) (getJob e' x)"
    "getRobot e' = (getRobot e)(rid \<mapsto> freed rid jid e r)"
    "ev = productionEventLocked (completed success now j) e"
    using CompleteJob_accepted [OF ok None jr(1,4), of success now] by blast
  then show ?thesis using None jr by (simp only: option.case) blast
qed

lemma completion_effect_witness:
  "\<exists>e' j. getJob plant2 ''a'' = Some j \<and> CompleteJobAttempt ''a'' True ''m'' 1 20 plant2 = Some (e', None, None)
     \<and> getJob e' ''a'' = Some (completed True 20 j)"
proof -
  have "reportError ''a'' ''m'' 1 plant2 = None" "eng_productionOn plant2 = False" by code_simp+
  with completion_effect [OF plant2_ok, where jid = "''a''" and rid = "''m''" and attempt = 1 and success = True and now = 20]
  show ?thesis by (auto simp: productionEventLocked_def)
qed

text \<open>
  A late report of an abandoned assignment is refused: when a job was given away again since,
  a report that carries an older attempt number changes nothing, whoever sends it.
\<close>

theorem late_report_refused:
  assumes "engine_ok e" and "getJob e jid = Some j" and "attempt \<noteq> 0" and "attempt < job_Attempt j"
  shows "\<exists>err. CompleteJobAttempt jid success rid attempt now e = Some (e, Some err, None)"
proof -
  have "reportError jid rid attempt e \<noteq> None" using assms(2-4) by (auto simp: reportError_def)
  then show ?thesis using CompleteJob_refused [OF assms(1)] by blast
qed

lemma late_report_refused_witness:
  "\<exists>err. CompleteJobAttempt ''a'' True ''m'' (- 1) 20 plant2 = Some (plant2, Some err, None)"
proof -
  have "map_option job_Attempt (getJob plant2 ''a'') = Some 1" by code_simp
  then obtain j where "getJob plant2 ''a'' = Some j" "job_Attempt j = 1" by auto
  then show ?thesis using late_report_refused [OF plant2_ok, of "''a''" j "- 1"] by simp
qed

text \<open>
  Only a job that waits can be cancelled. It then is out of the dispatch for good (but for a
  retry of its key), the jobs that wait are re-evaluated and no robot changes. Cancelling twice is
  harmless, and a job in flight or ended is refused without any change.
\<close>

theorem cancel_effect:
  assumes ok: "engine_ok e"
  shows "case cancelError jid e of
      Some err \<Rightarrow> CancelJob jid now e = Some (e, Some err)
    | None \<Rightarrow> (\<exists>j e'. getJob e jid = Some j \<and> CancelJob jid now e = Some (e', None) \<and> engine_ok e'
        \<and> (if waiting (job_Status j)
           then getJob e' jid = Some (cancelled now j)
             \<and> (\<forall>x. x \<noteq> jid \<longrightarrow> rel_option statusOnly (getJob e x) (getJob e' x))
             \<and> eng_robots e' = eng_robots e
           else job_Status j = StatusCancelled \<and> e' = e))"
proof (cases "cancelError jid e")
  case (Some err)
  then show ?thesis using CancelJob_refused [OF Some] by simp
next
  case None
  then obtain j where j: "getJob e jid = Some j" "waiting (job_Status j) \<or> job_Status j = StatusCancelled"
    by (cases "getJob e jid"; cases "job_Status (the (getJob e jid))")
      (auto simp: cancelError_def split: if_splits)
  show ?thesis
  proof (cases "waiting (job_Status j)")
    case True
    then show ?thesis using CancelJob_accepted [OF ok j(1) True, of now] None j(1) by auto
  next
    case False
    then have "job_Status j = StatusCancelled" using j(2) by simp
    then show ?thesis using CancelJob_again [OF j(1)] None j(1) ok False by auto
  qed
qed

lemma cancel_effect_witness:
  "\<exists>e' j. getJob plant1 ''a'' = Some j \<and> CancelJob ''a'' 9 plant1 = Some (e', None)"
proof -
  have "cancelError ''a'' plant1 = None" by code_simp
  with cancel_effect [OF plant1_ok, of "''a''" 9] show ?thesis by auto
qed

text \<open>
  Requeueing gives a job in flight back to the queue, pending again and with its history, and
  holds its robot until that robot's own next heartbeat; nothing else changes. It is refused for a
  job that ended or that another robot has, and does nothing to a job that waits.
\<close>

theorem requeue_effect:
  assumes "engine_ok e"
  shows "snd (RequeueJob jid rid e) = requeueAnswer jid rid e \<and> engine_ok (fst (RequeueJob jid rid e))
    \<and> (if requeueAnswer jid rid e = None \<and> allInFlight e [jid]
       then backIn e [jid] (fst (RequeueJob jid rid e)) else fst (RequeueJob jid rid e) = e)"
  using RequeueJob_effect [OF assms, of jid rid] by blast

lemma requeue_effect_witness: "backIn plant2 [''a''] (fst (RequeueJob ''a'' ''m'' plant2))"
proof -
  have "requeueAnswer ''a'' ''m'' plant2 = None" "map_option job_Status (getJob plant2 ''a'') = Some StatusAssigned"
    by code_simp+
  moreover have "allInFlight plant2 [''a'']" using calculation(2) by (auto simp: allInFlight_def)
  ultimately show ?thesis using requeue_effect [OF plant2_ok, of "''a''" "''m''"] by simp
qed

end
