(* ===== verification/RobotTheorems.thy ===== *)
theory RobotTheorems
  imports Demo
begin

section \<open>What the operations on robots guarantee\<close>

text \<open>
  The theorems about heartbeats and registrations, faults, replanning, confirmed stops, the sweep
  for silent robots and the removal of a robot.
\<close>

text \<open>
  C23: a heartbeat never takes a reserved robot out of its reservation. For a known robot it sets
  the place, the tool, the stop capability and the time; it decides about availability only while
  no job is assigned to the robot, and while one is it can only note that the robot is not ready.
  No job and no other robot changes (replanning on a fault is the next property).
\<close>

theorem heartbeat_effect:
  assumes "engine_ok e" and "getRobot e (upd_ID u) = Some x"
    and "\<not> (faulted (fromUpdate u (Some x)) (upd_Available u \<noteq> None) e
           \<and> rp_Enabled (eng_replan e) \<and> rp_OnFault (eng_replan e))"
  shows "getRobot (UpdateRobot u now e) = (getRobot e)(upd_ID u \<mapsto>
      afterHeartbeat (fromUpdate u (Some x)) (upd_Available u \<noteq> None) now e x)
    \<and> eng_jobs (UpdateRobot u now e) = eng_jobs e
    \<and> (activeOn (upd_ID u) e \<longrightarrow> map_option rob_Available (getRobot (UpdateRobot u now e) (upd_ID u))
         = Some (rob_Available x))"
proof -
  let ?r = "fromUpdate u (Some x)" and ?g = "upd_Available u \<noteq> None"
  have U: "UpdateRobot u now e = upsertRobotLocked ?r ?g now e"
    using assms(2) by (simp add: UpdateRobot_def)
  have x: "getRobot e (rob_ID ?r) = Some x" using assms(2) by simp
  note K = upsertRobot_known [OF assms(1) x assms(3), of now]
  have "activeOn (upd_ID u) e \<Longrightarrow> rob_Available (afterHeartbeat ?r ?g now e x) = rob_Available x"
    by (simp add: afterHeartbeat_def heartbeat_def)
  then show ?thesis unfolding U using K by simp
qed

definition readyAgain :: RobotUpdate where
  "readyAgain = \<lparr>upd_ID = ''m'', upd_Location = None, upd_Tool = None, upd_Available = Some True,
     upd_StopCapable = None\<rparr>"

lemma heartbeat_effect_witness:
  "map_option rob_Available (getRobot (UpdateRobot readyAgain 12 plant2) ''m'') = Some False"
proof -
  have f: "map_option rob_Available (getRobot plant2 ''m'') = Some False" "rp_Enabled (eng_replan plant2) = False"
    "map_option (\<lambda>j. (job_Status j, job_AssignedRobot j)) (getJob plant2 ''a'') = Some (StatusAssigned, ''m'')"
    by code_simp+
  then obtain x where x: "getRobot plant2 (upd_ID readyAgain) = Some x" "\<not> rob_Available x"
    by (auto simp: readyAgain_def)
  have "activeOn (upd_ID readyAgain) plant2" using f(3) by (auto simp: activeOn_def readyAgain_def)
  with heartbeat_effect [OF plant2_ok x(1), of 12] f(2)
  have "map_option rob_Available (getRobot (UpdateRobot readyAgain 12 plant2) (upd_ID readyAgain))
      = Some (rob_Available x)" by blast
  then show ?thesis using x(2) by (simp add: readyAgain_def)
qed

text \<open>
  A robot that reports itself unavailable in the middle of its job, with replanning on for
  faults: exactly its assigned jobs go back to the queue as pending, and the robot is held.
\<close>

theorem fault_replans:
  assumes "engine_ok e" and "getRobot e (rob_ID r) = Some x" and "activeOn (rob_ID r) e"
    and "\<not> rob_Available r" and "rp_Enabled (eng_replan e)" and "rp_OnFault (eng_replan e)"
  shows "(\<forall>y. getJob (UpsertRobot r now e) y =
        (if \<exists>j. getJob e y = Some j \<and> job_AssignedRobot j = rob_ID r \<and> job_Status j = StatusAssigned
         then map_option pendingAgain (getJob e y) else getJob e y))
    \<and> getRobot (UpsertRobot r now e) = (getRobot e)(rob_ID r \<mapsto> heldRobot (heartbeat r now x))"
proof -
  have f: "faulted r True e" using assms(3,4) by (simp add: faulted_def)
  show ?thesis using upsertRobot_fault [OF assms(1,2) f assms(5,6), of now] unfolding UpsertRobot_def by auto
qed

definition replanning :: ReplanConfig where
  "replanning = noReplan\<lparr>rp_Enabled := True, rp_OnFault := True, rp_OnStale := True\<rparr>"

lemma fault_replans_witness:
  "map_option job_Status (getJob (UpsertRobot ((aRobot ''m'' [])\<lparr>rob_Available := False\<rparr>) 12
      (SetReplan replanning plant2)) ''a'') = Some StatusPending"
proof -
  let ?e = "SetReplan replanning plant2" and ?r = "(aRobot ''m'' [])\<lparr>rob_Available := False\<rparr>"
  have ok: "engine_ok ?e" by (rule settings_ok(3) [OF plant2_ok])
  have f: "getRobot ?e (rob_ID ?r) \<noteq> None" "rp_Enabled (eng_replan ?e)" "rp_OnFault (eng_replan ?e)"
    "\<not> rob_Available ?r" "map_option (\<lambda>j. (job_Status j, job_AssignedRobot j)) (getJob ?e ''a'') = Some (StatusAssigned, ''m'')"
    by code_simp+
  have r: "rob_ID ?r = ''m''" by (simp add: aRobot_def)
  have "activeOn (rob_ID ?r) ?e" using f(5) r by (auto simp: activeOn_def)
  with fault_replans [OF ok _ _ f(4,2,3), of _ 12] f(1,5) r show ?thesis by auto
qed

text \<open>
  Declaring a robot failed (replanning on) gives exactly its jobs in flight back to the queue,
  each once, holds the robot and changes nothing else; the answer lists those jobs.
\<close>

theorem replan_robot_effect:
  assumes "engine_ok e" and "rp_Enabled (eng_replan e)" and "getRobot e rid = Some r"
  shows "\<exists>e' ids. ReplanRobot rid e = (e', Inr ids) \<and> engine_ok e' \<and> distinct ids
    \<and> set ids = {jid. \<exists>j. getJob e jid = Some j \<and> job_AssignedRobot j = rid \<and> inFlight (job_Status j)}
    \<and> (\<forall>x. getJob e' x = (if x \<in> set ids then map_option pendingAgain (getJob e x) else getJob e x))
    \<and> (\<forall>x. getRobot e' x = (if x = rid then Some (heldRobot r) else getRobot e x))
    \<and> (\<exists>e''. ReplanRobot rid e' = (e'', Inr []))"
proof -
  obtain e' ids where R: "ReplanRobot rid e = (e', Inr ids)" "engine_ok e'" "distinct ids"
    "set ids = {jid. \<exists>j. getJob e jid = Some j \<and> job_AssignedRobot j = rid \<and> inFlight (job_Status j)}"
    "\<forall>x. getJob e' x = (if x \<in> set ids then map_option pendingAgain (getJob e x) else getJob e x)"
    "\<forall>x. getRobot e' x = (if x = rid then Some (heldRobot r) else getRobot e x)"
    "eng_replan e' = eng_replan e"
    using ReplanRobot_effect [OF assms] by blast
  have none: "\<not> (\<exists>j. getJob e' jid = Some j \<and> job_AssignedRobot j = rid \<and> inFlight (job_Status j))" for jid
  proof (cases "jid \<in> set ids")
    case True
    then show ?thesis using R(5) by (cases "getJob e jid") auto
  next
    case False
    then show ?thesis using R(4,5) by auto
  qed
  have r': "getRobot e' rid = Some (heldRobot r)" using R(6) by simp
  obtain e'' ids' where "ReplanRobot rid e' = (e'', Inr ids')"
    "set ids' = {jid. \<exists>j. getJob e' jid = Some j \<and> job_AssignedRobot j = rid \<and> inFlight (job_Status j)}"
    using ReplanRobot_effect [OF R(2) _ r'] assms(2) R(7) by auto
  moreover have "ids' = []" using calculation(2) none by simp
  ultimately show ?thesis using R by blast
qed

lemma replan_robot_effect_witness:
  "\<exists>e' ids. ReplanRobot ''m'' (SetReplan replanning plant2) = (e', Inr ids) \<and> ''a'' \<in> set ids"
proof -
  let ?e = "SetReplan replanning plant2"
  have f: "getRobot ?e ''m'' \<noteq> None" "rp_Enabled (eng_replan ?e)"
    "map_option (\<lambda>j. (job_Status j, job_AssignedRobot j)) (getJob ?e ''a'') = Some (StatusAssigned, ''m'')"
    by code_simp+
  then obtain r where "getRobot ?e ''m'' = Some r" by blast
  from replan_robot_effect [OF settings_ok(3) [OF plant2_ok] f(2) this] f(3) show ?thesis by auto
qed

text \<open>
  A confirmed stop gives the job back to the queue exactly when replanning is on and the stop
  that this robot was asked for, in this assignment of the job, is still open; every other
  acknowledgement is refused and changes nothing.
\<close>

theorem ack_stop_effect:
  assumes ok: "engine_ok e"
  shows "(snd (AckStop rid jid e) = None \<longleftrightarrow>
      rp_Enabled (eng_replan e)
      \<and> (\<exists>j. getJob e jid = Some j \<and> job_AssignedRobot j = rid \<and> stopOpen rid j e))
    \<and> (if snd (AckStop rid jid e) = None then backIn e [jid] (fst (AckStop rid jid e))
       else fst (AckStop rid jid e) = e)"
proof -
  note A = AckStop_effect [OF ok, of rid jid]
  have "snd (AckStop rid jid e) = None"
    if on: "rp_Enabled (eng_replan e)" and j: "getJob e jid = Some j" "job_AssignedRobot j = rid" "stopOpen rid j e"
    for j
    using that base_job_ID [OF engine_okD(1) [OF ok] j(1)] by (auto simp: AckStop_def stopOpen_def)
  then show ?thesis using A by auto
qed

definition stopCapablePlant :: "unit engine" where
  "stopCapablePlant = fst (DetectStaleAssignmentsStop 5 (100 * second) (SetReplan replanning
     (UpdateRobot (readyAgain\<lparr>upd_StopCapable := Some True\<rparr>) 12 plant2)))"

lemma stopCapablePlant_ok: "engine_ok stopCapablePlant"
  unfolding stopCapablePlant_def
  by (intro DetectStale_ok settings_ok(3) UpdateRobot_ok plant2_ok) (simp add: readyAgain_def)

lemma ack_stop_effect_witness: "backIn stopCapablePlant [''a''] (fst (AckStop ''m'' ''a'' stopCapablePlant))"
proof -
  have "snd (AckStop ''m'' ''a'' stopCapablePlant) = None" by code_simp
  with ack_stop_effect [OF stopCapablePlant_ok, of "''m''" "''a''"] show ?thesis by simp
qed

text \<open>
  With replanning for silent robots off, the sweep marks as unknown exactly the assigned jobs
  whose robot was silent for the timeout, in submission order, and changes no robot.
\<close>

theorem sweep_marks_unknown:
  assumes ok: "engine_ok e" and off: "\<not> (rp_Enabled (eng_replan e) \<and> rp_OnStale (eng_replan e))"
    and d: "DetectStaleAssignmentsStop timeout now e = (e', r)"
  shows "engine_ok e' \<and> eng_robots e' = eng_robots e
    \<and> (\<forall>x. getJob e' x = (if \<exists>j. getJob e x = Some j \<and> silentJob timeout now e j
          then map_option unknownAgain (getJob e x) else getJob e x))
    \<and> res_Unknown r = map job_ID (silentJobs timeout now e) \<and> res_Requeued r = [] \<and> res_StopRequested r = []"
proof -
  note S = DetectStale_off [OF ok off d] and b = engine_okD(1) [OF ok]
  have "x \<in> set (map job_ID (silentJobs timeout now e)) \<longleftrightarrow>
      (\<exists>j. getJob e x = Some j \<and> silentJob timeout now e j)" for x
    unfolding set_map image_iff Bex_def mem_silentJobs [OF b] using base_job_ID [OF b] by metis
  then show ?thesis using S unfolding marked_def by simp
qed

lemma sweep_marks_unknown_witness:
  "map_option job_Status (getJob (fst (DetectStaleAssignmentsStop 5 (100 * second) plant2)) ''a'') = Some StatusUnknown"
proof -
  have f: "\<not> (rp_Enabled (eng_replan plant2) \<and> rp_OnStale (eng_replan plant2))"
    "map_option (silentJob 5 (100 * second) plant2) (getJob plant2 ''a'') = Some True" by code_simp+
  show ?thesis using sweep_marks_unknown [OF plant2_ok f(1) prod.collapse [symmetric], of 5 "100 * second"] f(2)
    by (auto simp: unknownAgain_def)
qed



text \<open>
  A robot is forgotten only when it is registered and no job is in flight on it (and the store,
  if it can, deletes it first). A refusal changes neither the jobs nor the robots.
\<close>

theorem remove_robot_effect:
  assumes "engine_ok e" and "RemoveRobot rid e = (e', err)"
  shows "eng_jobs e' = eng_jobs e
    \<and> (if err = None then getRobot e rid \<noteq> None \<and> getRobot e' = (getRobot e)(rid := None)
         \<and> (\<forall>jid j. getJob e jid = Some j \<longrightarrow> inFlight (job_Status j) \<longrightarrow> job_AssignedRobot j \<noteq> rid)
       else eng_robots e' = eng_robots e)
    \<and> ((\<exists>jid j. getJob e jid = Some j \<and> inFlight (job_Status j) \<and> job_AssignedRobot j = rid) \<longrightarrow>
         (\<exists>jid s. err = Some (ErrRobotBusy jid s rid)))"
  using RemoveRobot_effect [OF assms] by auto

lemma remove_robot_effect_witness: "eng_robots (fst (RemoveRobot ''m'' plant2)) = eng_robots plant2"
proof -
  have "snd (RemoveRobot ''m'' plant2) \<noteq> None" by code_simp
  with remove_robot_effect [OF plant2_ok prod.collapse [symmetric], of "''m''"] show ?thesis by simp
qed

end
