(* ===== verification/SqliteStore.thy ===== *)
theory SqliteStore
  imports Store
begin

section \<open>The SQLite store\<close>

text \<open>
  \<open>src/src/sqlitestore/sqlitestore.go\<close>: the tables \<open>jobs\<close> and \<open>robots\<close>, the upserts, the
  transaction of a batch, the archive column and the queries. The driver is third-party code and
  is a parameter: \<open>flt n\<close> is the error, if any, of the \<open>n\<close>-th statement it is given (\<open>Begin\<close> and
  \<open>Commit\<close> count as statements). A statement that fails changes nothing, a transaction that is not
  committed changes nothing: that is what the code relies on. The JSON text of \<open>depends_on\<close> is
  kept as the list it encodes, and the engine's submission order as the column \<open>seq\<close>.
\<close>

type_synonym faults = "nat \<Rightarrow> serror option"

record jobRow =
  row_id :: string
  row_priority :: int
  row_required_tool :: string
  row_depends_on :: "string list"
  row_status :: JobStatus
  row_assigned_robot :: string
  row_dedup_key :: string
  row_seq :: int
  row_location :: string
  row_submitted_at_ms :: int
  row_assigned_at_ms :: int
  row_completed_at_ms :: int
  row_attempt :: int
  row_archived_at_ms :: int

record robotRow =
  rrow_id :: string
  rrow_location :: string
  rrow_tool :: string
  rrow_available :: int
  rrow_load :: int
  rrow_last_heartbeat_ns :: int

record sqldb =
  db_jobs :: "(string, jobRow) gomap"
  db_robots :: "(string, robotRow) gomap"
  db_stmts :: nat

definition emptyDB :: sqldb where
  "emptyDB = \<lparr>db_jobs = [], db_robots = [], db_stmts = 0\<rparr>"

text \<open>One statement: counted, and either it fails or \<open>f\<close> is what it does to the tables.\<close>

definition exec :: "faults \<Rightarrow> (sqldb \<Rightarrow> sqldb) \<Rightarrow> sqldb \<Rightarrow> sqldb \<times> serror option" where
  "exec flt f db =
     (let db1 = db\<lparr>db_stmts := Suc (db_stmts db)\<rparr>
      in case flt (db_stmts db) of None \<Rightarrow> (f db1, None) | Some x \<Rightarrow> (db1, Some x))"

definition jobToRow :: "JobRecord \<Rightarrow> jobRow" where
  "jobToRow r = (let j = rec_Job r in
     \<lparr>row_id = job_ID j, row_priority = job_Priority j, row_required_tool = job_RequiredTool j,
      row_depends_on = job_DependsOn j, row_status = job_Status j,
      row_assigned_robot = job_AssignedRobot j, row_dedup_key = job_DedupKey j,
      row_seq = rec_Seq r, row_location = job_Location j,
      row_submitted_at_ms = job_SubmittedAtMs j, row_assigned_at_ms = job_AssignedAtMs j,
      row_completed_at_ms = job_CompletedAtMs j, row_attempt = job_Attempt j,
      row_archived_at_ms = 0\<rparr>)"

text \<open>\<open>heartbeatNanos\<close>: 0 stands for "never"; \<open>loadRobots\<close> reads it back.\<close>

definition heartbeatNanos :: "instant option \<Rightarrow> int" where
  "heartbeatNanos t = (case t of None \<Rightarrow> 0 | Some t \<Rightarrow> t)"

definition robotToRow :: "robot \<Rightarrow> robotRow" where
  "robotToRow r =
     \<lparr>rrow_id = rob_ID r, rrow_location = rob_Location r, rrow_tool = rob_Tool r,
      rrow_available = (if rob_Available r then 1 else 0), rrow_load = rob_Load r,
      rrow_last_heartbeat_ns = heartbeatNanos (rob_LastHeartbeat r)\<rparr>"

definition saveJob :: "faults \<Rightarrow> sqldb \<Rightarrow> JobRecord \<Rightarrow> sqldb \<times> serror option" where
  "saveJob flt db r =
     exec flt (\<lambda>d. d\<lparr>db_jobs := go_put (job_ID (rec_Job r)) (jobToRow r) (db_jobs d)\<rparr>) db"

definition saveRobot :: "faults \<Rightarrow> sqldb \<Rightarrow> robot \<Rightarrow> sqldb \<times> serror option" where
  "saveRobot flt db r =
     exec flt (\<lambda>d. d\<lparr>db_robots := go_put (rob_ID r) (robotToRow r) (db_robots d)\<rparr>) db"

text \<open>The writes of a transaction stop at the first error.\<close>

fun txEach :: "(sqldb \<Rightarrow> 'a \<Rightarrow> sqldb \<times> serror option) \<Rightarrow> sqldb \<Rightarrow> 'a list \<Rightarrow> sqldb \<times> serror option" where
  "txEach f db [] = (db, None)"
| "txEach f db (x # xs) =
     (case f db x of (db', Some err) \<Rightarrow> (db', Some err) | (db', None) \<Rightarrow> txEach f db' xs)"

text \<open>Rolling back restores the tables of the start of the transaction.\<close>

definition rollback :: "sqldb \<Rightarrow> sqldb \<Rightarrow> sqldb" where
  "rollback start db = start\<lparr>db_stmts := db_stmts db\<rparr>"

definition SaveBatch ::
  "faults \<Rightarrow> sqldb \<Rightarrow> JobRecord list \<Rightarrow> robot list \<Rightarrow> sqldb \<times> serror option" where
  "SaveBatch flt db js rs =
     (case exec flt id db of
        (db0, Some err) \<Rightarrow> (db0, Some err)
      | (db0, None) \<Rightarrow>
         (case txEach (saveRobot flt) db0 rs of
            (db1, Some err) \<Rightarrow> (rollback db0 db1, Some err)
          | (db1, None) \<Rightarrow>
             (case txEach (saveJob flt) db1 js of
                (db2, Some err) \<Rightarrow> (rollback db0 db2, Some err)
              | (db2, None) \<Rightarrow>
                 (case exec flt id db2 of
                    (db3, Some err) \<Rightarrow> (rollback db0 db3, Some err)
                  | (db3, None) \<Rightarrow> (db3, None)))))"

definition DeleteRobot :: "faults \<Rightarrow> sqldb \<Rightarrow> string \<Rightarrow> sqldb \<times> serror option" where
  "DeleteRobot flt db rid = exec flt (\<lambda>d. d\<lparr>db_robots := go_del rid (db_robots d)\<rparr>) db"

definition archiveOne :: "faults \<Rightarrow> int \<Rightarrow> sqldb \<Rightarrow> string \<Rightarrow> sqldb \<times> serror option" where
  "archiveOne flt atMs db jid =
     exec flt (\<lambda>d. case go_get (db_jobs d) jid of
         None \<Rightarrow> d
       | Some row \<Rightarrow> if row_archived_at_ms row = 0
           then d\<lparr>db_jobs := go_put jid (row\<lparr>row_archived_at_ms := atMs\<rparr>) (db_jobs d)\<rparr> else d) db"

definition ArchiveJobs :: "faults \<Rightarrow> sqldb \<Rightarrow> string list \<Rightarrow> int \<Rightarrow> sqldb \<times> serror option" where
  "ArchiveJobs flt db ids atMs =
     (if ids = [] then (db, None)
      else if atMs \<le> 0 then (db, Some ''archiving jobs: the time of the archive must be positive'')
      else case exec flt id db of
        (db0, Some err) \<Rightarrow> (db0, Some err)
      | (db0, None) \<Rightarrow>
         (case txEach (archiveOne flt atMs) db0 ids of
            (db1, Some err) \<Rightarrow> (rollback db0 db1, Some err)
          | (db1, None) \<Rightarrow>
             (case exec flt id db1 of
                (db2, Some err) \<Rightarrow> (rollback db0 db2, Some err)
              | (db2, None) \<Rightarrow> (db2, None))))"

text \<open>Reading the rows back. The internal order of the engine travels in \<open>rec_Seq\<close> only.\<close>

definition rowToJob :: "jobRow \<Rightarrow> JobRecord" where
  "rowToJob row =
     \<lparr>rec_Job =
        \<lparr>job_ID = row_id row, job_Priority = row_priority row,
         job_RequiredTool = row_required_tool row, job_Location = row_location row,
         job_DependsOn = row_depends_on row, job_Status = row_status row,
         job_AssignedRobot = row_assigned_robot row, job_DedupKey = row_dedup_key row,
         job_SubmittedAtMs = row_submitted_at_ms row, job_AssignedAtMs = row_assigned_at_ms row,
         job_CompletedAtMs = row_completed_at_ms row, job_Attempt = row_attempt row,
         job_seq = 0\<rparr>,
      rec_Seq = row_seq row\<rparr>"

definition rowToRobot :: "robotRow \<Rightarrow> robot" where
  "rowToRobot row =
     \<lparr>rob_ID = rrow_id row, rob_Location = rrow_location row, rob_Tool = rrow_tool row,
      rob_Available = (rrow_available row \<noteq> 0), rob_Load = rrow_load row,
      rob_StopCapable = False, rob_selfReportedUnavailable = False,
      rob_LastHeartbeat =
        (if rrow_last_heartbeat_ns row \<noteq> 0 then Some (rrow_last_heartbeat_ns row) else None)\<rparr>"

definition loadJobs :: "sqldb \<Rightarrow> JobRecord list" where
  "loadJobs db = map rowToJob (filter (\<lambda>row. row_archived_at_ms row = 0) (go_vals (db_jobs db)))"

definition loadRobots :: "sqldb \<Rightarrow> robot list" where
  "loadRobots db = map rowToRobot (go_vals (db_robots db))"

text \<open>Two queries; the driver may fail either (\<open>flt\<close> at the number of the statement).\<close>

definition LoadAll :: "faults \<Rightarrow> sqldb \<Rightarrow> serror + (JobRecord list \<times> robot list)" where
  "LoadAll flt db =
     (case flt (db_stmts db) of Some err \<Rightarrow> Inl err
      | None \<Rightarrow> (case flt (Suc (db_stmts db)) of Some err \<Rightarrow> Inl err
          | None \<Rightarrow> Inr (loadJobs db, loadRobots db)))"

definition LoadArchived :: "faults \<Rightarrow> sqldb \<Rightarrow> int \<Rightarrow> int \<Rightarrow> serror + (JobRecord list \<times> int)" where
  "LoadArchived flt db offset limit =
     (case flt (db_stmts db) of Some err \<Rightarrow> Inl err
      | None \<Rightarrow>
         (let rows = filter (\<lambda>row. 0 < row_archived_at_ms row) (go_vals (db_jobs db));
              total = int (length rows);
              sorted = sort_key (\<lambda>row. (row_completed_at_ms row, row_seq row)) rows;
              skipped = drop (nat offset) sorted;
              page = (if 0 < limit then take (nat limit) skipped else skipped)
          in case flt (Suc (db_stmts db)) of Some err \<Rightarrow> Inl err
             | None \<Rightarrow> Inr (map rowToJob page, total)))"

definition sqliteStore :: "faults \<Rightarrow> sqldb \<Rightarrow> sqldb store_value" where
  "sqliteStore flt db =
     \<lparr>sv_state = db, sv_SaveJob = saveJob flt, sv_SaveRobot = saveRobot flt,
      sv_LoadAll = LoadAll flt, sv_SaveBatch = Some (SaveBatch flt),
      sv_DeleteRobot = Some (DeleteRobot flt), sv_ArchiveJobs = Some (ArchiveJobs flt),
      sv_LoadArchived = Some (LoadArchived flt)\<rparr>"

subsection \<open>The store keeps the contract\<close>

text \<open>
  The durable view of a job is its live row, as it would be loaded; a robot loses what the table
  has no column for (its own reports, kept in memory only).
\<close>

definition jobView :: "sqldb \<Rightarrow> string \<Rightarrow> JobRecord option" where
  "jobView db jid = (case go_get (db_jobs db) jid of None \<Rightarrow> None
     | Some row \<Rightarrow> if row_archived_at_ms row = 0 then Some (rowToJob row) else None)"

definition robotView :: "sqldb \<Rightarrow> string \<Rightarrow> robot option" where
  "robotView db rid = map_option rowToRobot (go_get (db_robots db) rid)"

definition storedJob :: "JobRecord \<Rightarrow> JobRecord" where
  "storedJob r = rowToJob (jobToRow r)"

definition storedRobot :: "robot \<Rightarrow> robot" where
  "storedRobot r = rowToRobot (robotToRow r)"

lemma storedJob_simp: "storedJob r = r\<lparr>rec_Job := (rec_Job r)\<lparr>job_seq := 0\<rparr>\<rparr>"
  by (simp add: storedJob_def rowToJob_def jobToRow_def Let_def)

lemma exec_tables:
  "exec flt f db = (db', err) \<Longrightarrow>
     db' = (if err = None then f (db\<lparr>db_stmts := Suc (db_stmts db)\<rparr>)
            else db\<lparr>db_stmts := Suc (db_stmts db)\<rparr>)"
  by (auto simp: exec_def Let_def split: option.splits)

lemma jobView_stmts [simp]: "jobView (db\<lparr>db_stmts := n\<rparr>) = jobView db"
  by (rule ext) (simp add: jobView_def)

lemma robotView_stmts [simp]: "robotView (db\<lparr>db_stmts := n\<rparr>) = robotView db"
  by (rule ext) (simp add: robotView_def)

lemma jobView_put:
  "jobView (db\<lparr>db_jobs := go_put k row m\<rparr>) =
     (jobView (db\<lparr>db_jobs := m\<rparr>))(k := if row_archived_at_ms row = 0 then Some (rowToJob row) else None)"
  by (rule ext) (simp add: jobView_def)

lemma robotView_put:
  "robotView (db\<lparr>db_robots := go_put k row m\<rparr>) =
     (robotView (db\<lparr>db_robots := m\<rparr>))(k \<mapsto> rowToRobot row)"
  by (rule ext) (simp add: robotView_def)

lemma jobView_robots [simp]: "jobView (db\<lparr>db_robots := m\<rparr>) = jobView db"
  by (rule ext) (simp add: jobView_def)

lemma robotView_jobs [simp]: "robotView (db\<lparr>db_jobs := m\<rparr>) = robotView db"
  by (rule ext) (simp add: robotView_def)

lemma saveJob_views:
  assumes "saveJob flt db r = (db', err)"
  shows "jobView db' = (if err = None then (jobView db)(job_ID (rec_Job r) \<mapsto> storedJob r)
                        else jobView db)"
    and "robotView db' = robotView db"
  using exec_tables [OF assms [unfolded saveJob_def]]
  by (auto simp: jobView_put storedJob_def jobToRow_def Let_def)

lemma saveRobot_views:
  assumes "saveRobot flt db r = (db', err)"
  shows "robotView db' = (if err = None then (robotView db)(rob_ID r \<mapsto> storedRobot r)
                          else robotView db)"
    and "jobView db' = jobView db"
  using exec_tables [OF assms [unfolded saveRobot_def]]
  by (auto simp: robotView_put storedRobot_def)

lemma txEach_saveJob:
  "txEach (saveJob flt) db js = (db', None) \<Longrightarrow>
     jobView db' = (jobView db)(map (\<lambda>r. job_ID (rec_Job r)) js [\<mapsto>] map storedJob js)
   \<and> robotView db' = robotView db"
proof (induction js arbitrary: db)
  case (Cons j js)
  then obtain db1 where s: "saveJob flt db j = (db1, None)"
    and t: "txEach (saveJob flt) db1 js = (db', None)"
    by (auto split: prod.splits option.splits)
  show ?case using Cons.IH [OF t]
    by (simp only: saveJob_views [OF s] list.map map_upds_Cons simp_thms if_True)
qed simp

lemma txEach_saveRobot:
  "txEach (saveRobot flt) db rs = (db', None) \<Longrightarrow>
     robotView db' = (robotView db)(map rob_ID rs [\<mapsto>] map storedRobot rs)
   \<and> jobView db' = jobView db"
proof (induction rs arbitrary: db)
  case (Cons r rs)
  then obtain db1 where s: "saveRobot flt db r = (db1, None)"
    and t: "txEach (saveRobot flt) db1 rs = (db', None)"
    by (auto split: prod.splits option.splits)
  show ?case using Cons.IH [OF t]
    by (simp only: saveRobot_views [OF s] list.map map_upds_Cons simp_thms if_True)
qed simp

lemma exec_id_views:
  assumes "exec flt id db = (db', err)"
  shows "jobView db' = jobView db" "robotView db' = robotView db"
  using exec_tables [OF assms] by (auto split: if_splits)

lemma rollback_views [simp]:
  "jobView (rollback start db) = jobView start" "robotView (rollback start db) = robotView start"
  by (simp_all add: rollback_def)

lemma SaveBatch_ok:
  assumes "SaveBatch flt db js rs = (db', None)"
  shows "jobView db' = (jobView db)(map (\<lambda>r. job_ID (rec_Job r)) js [\<mapsto>] map storedJob js)
       \<and> robotView db' = (robotView db)(map rob_ID rs [\<mapsto>] map storedRobot rs)"
proof -
  obtain db0 db1 db2 where
    e0: "exec flt id db = (db0, None)" and e1: "txEach (saveRobot flt) db0 rs = (db1, None)"
    and e2: "txEach (saveJob flt) db1 js = (db2, None)" and e3: "exec flt id db2 = (db', None)"
    using assms unfolding SaveBatch_def by (auto split: prod.splits option.splits)
  show ?thesis
    using exec_id_views [OF e0] exec_id_views [OF e3] txEach_saveRobot [OF e1] txEach_saveJob [OF e2]
    by simp
qed

lemma SaveBatch_err:
  assumes "SaveBatch flt db js rs = (db', Some x)"
  shows "jobView db' = jobView db \<and> robotView db' = robotView db"
proof -
  obtain db0 err0 where e0: "exec flt id db = (db0, err0)" by fastforce
  show ?thesis
    using assms e0 exec_id_views [OF e0] unfolding SaveBatch_def
    by (auto split: prod.splits option.splits)
qed

interpretation sql: batch_store "saveJob flt" "saveRobot flt" jobView robotView storedJob storedRobot
    "SaveBatch flt" for flt
proof unfold_locales
  fix s js rs s' x
  show "SaveBatch flt s js rs = (s', None) \<Longrightarrow>
      jobView s' = (jobView s)(map (\<lambda>r. job_ID (rec_Job r)) js [\<mapsto>] map storedJob js)
    \<and> robotView s' = (robotView s)(map rob_ID rs [\<mapsto>] map storedRobot rs)"
    by (rule SaveBatch_ok)
  show "SaveBatch flt s js rs = (s', Some x) \<Longrightarrow>
      jobView s' = jobView s \<and> robotView s' = robotView s"
    by (rule SaveBatch_err)
qed (auto dest: saveJob_views saveRobot_views)

end
