(* ===== verification/Mirror.thy ===== *)
theory Mirror
  imports Restart SqliteStore
begin

section \<open>The store mirrors the engine\<close>

text \<open>
  Every change that the engine keeps in memory is written through. Against a store that does what it
  is asked (the contract \<open>reliable_store\<close>, with an arbitrary view of its contents), every operation
  of the engine leaves the store with exactly the jobs and robots of the engine, in the form in
  which it keeps them. Inside an operation some records are written later than they are changed
  (\<open>J\<close> and \<open>R\<close> below), and those of an open batch when it is committed.
\<close>

definition pendJobs :: "'s engine \<Rightarrow> string list" where
  "pendJobs e = (case eng_pending e of None \<Rightarrow> [] | Some (js, rs) \<Rightarrow> js)"

definition pendRobots :: "'s engine \<Rightarrow> string list" where
  "pendRobots e = (case eng_pending e of None \<Rightarrow> [] | Some (js, rs) \<Rightarrow> rs)"

lemma pend_None [simp]: "eng_pending e = None \<Longrightarrow> pendJobs e = []" "eng_pending e = None \<Longrightarrow> pendRobots e = []"
  by (simp_all add: pendJobs_def pendRobots_def)

lemma pend_cong: "eng_pending e' = eng_pending e \<Longrightarrow> pendJobs e' = pendJobs e \<and> pendRobots e' = pendRobots e"
  by (simp add: pendJobs_def pendRobots_def)

locale reliable_store =
  fixes store_of :: "'s \<Rightarrow> 's store_value"
    and good :: "'s \<Rightarrow> bool"
    and job_view :: "'s \<Rightarrow> string \<Rightarrow> JobRecord option"
    and robot_view :: "'s \<Rightarrow> string \<Rightarrow> robot option"
    and jform :: "JobRecord \<Rightarrow> JobRecord"
    and rform :: "robot \<Rightarrow> robot"
  assumes state_of: "sv_state (store_of s) = s" "(store_of s)\<lparr>sv_state := s'\<rparr> = store_of s'"
    and save_job: "good s \<Longrightarrow> sv_SaveJob (store_of s) s r = (s', err) \<Longrightarrow>
      err = None \<and> good s' \<and> job_view s' = (job_view s)(job_ID (rec_Job r) \<mapsto> jform r) \<and> robot_view s' = robot_view s"
    and save_robot: "good s \<Longrightarrow> sv_SaveRobot (store_of s) s b = (s', err) \<Longrightarrow>
      err = None \<and> good s' \<and> robot_view s' = (robot_view s)(rob_ID b \<mapsto> rform b) \<and> job_view s' = job_view s"
    and save_batch: "good s \<Longrightarrow> storeBatch (store_of s) js rs = (sv', err) \<Longrightarrow>
      err = None \<and> good (sv_state sv') \<and> sv' = store_of (sv_state sv')
    \<and> job_view (sv_state sv') = (job_view s)(map (\<lambda>r. job_ID (rec_Job r)) js [\<mapsto>] map jform js)
    \<and> robot_view (sv_state sv') = (robot_view s)(map rob_ID rs [\<mapsto>] map rform rs)"
    and delete_robot: "good s \<Longrightarrow> \<exists>del. sv_DeleteRobot (store_of s) = Some del
    \<and> good (fst (del s rid)) \<and> snd (del s rid) = None
    \<and> robot_view (fst (del s rid)) = (robot_view s)(rid := None) \<and> job_view (fst (del s rid)) = job_view s"
    and archive_jobs: "good s \<Longrightarrow> sv_ArchiveJobs (store_of s) = Some arch \<Longrightarrow> arch s ids ms = (s', err) \<Longrightarrow>
      good s' \<and> robot_view s' = robot_view s
    \<and> job_view s' = (if err = None then (\<lambda>x. if x \<in> set ids then None else job_view s x) else job_view s)"
begin

definition inSync :: "string set \<Rightarrow> string set \<Rightarrow> 's engine \<Rightarrow> bool" where
  "inSync J R e \<longleftrightarrow>
     go_wf job_ID (eng_jobs e) \<and> go_wf rob_ID (eng_robots e)
   \<and> distinct (pendJobs e) \<and> distinct (pendRobots e)
   \<and> (\<forall>x \<in> set (pendJobs e). getJob e x \<noteq> None) \<and> (\<forall>x \<in> set (pendRobots e). getRobot e x \<noteq> None)
   \<and> (\<exists>s. eng_store e = Some (store_of s) \<and> good s
       \<and> (\<forall>x. x \<notin> J \<longrightarrow> x \<notin> set (pendJobs e) \<longrightarrow> job_view s x = map_option (\<lambda>j. jform (jobRecord j)) (getJob e x))
       \<and> (\<forall>x. x \<notin> R \<longrightarrow> x \<notin> set (pendRobots e) \<longrightarrow> robot_view s x = map_option rform (getRobot e x)))"

lemma inSync_cong:
  "eng_jobs e' = eng_jobs e \<Longrightarrow> eng_robots e' = eng_robots e \<Longrightarrow> eng_store e' = eng_store e \<Longrightarrow>
   eng_pending e' = eng_pending e \<Longrightarrow> inSync J R e' = inSync J R e"
  using pend_cong [of e' e] by (simp add: inSync_def)

lemma inSync_wf: "inSync J R e \<Longrightarrow> go_wf job_ID (eng_jobs e)" "inSync J R e \<Longrightarrow> go_wf rob_ID (eng_robots e)"
  by (simp_all add: inSync_def)

lemma inSync_ID:
  "inSync J R e \<Longrightarrow> getJob e x = Some j \<Longrightarrow> job_ID j = x"
  "inSync J R e \<Longrightarrow> getRobot e x = Some r \<Longrightarrow> rob_ID r = x"
  by (auto dest: inSync_wf go_wf_key)

lemma inSync_mono: "inSync J R e \<Longrightarrow> J \<subseteq> J' \<Longrightarrow> R \<subseteq> R' \<Longrightarrow> inSync J' R' e"
  unfolding inSync_def by blast

lemma inSync_setJob: "inSync J R e \<Longrightarrow> inSync (insert (job_ID j) J) R (setJob j e)"
  using pend_cong [of "setJob j e" e] unfolding inSync_def
  by (auto simp: setJob_def go_wf_put)

lemma inSync_setRobot: "inSync J R e \<Longrightarrow> inSync J (insert (rob_ID r) R) (setRobot r e)"
  using pend_cong [of "setRobot r e" e] unfolding inSync_def
  by (auto simp: setRobot_def go_wf_put)

lemma inSync_persistJob:
  assumes i: "inSync J R e" and j: "getJob e (job_ID j) = Some j" and p: "persistJobLocked j e = (e', err)"
  shows "err = None \<and> inSync (J - {job_ID j}) R e'"
proof -
  obtain s where s: "eng_store e = Some (store_of s)" "good s"
    "\<And>x. x \<notin> J \<Longrightarrow> x \<notin> set (pendJobs e) \<Longrightarrow> job_view s x = map_option (\<lambda>j. jform (jobRecord j)) (getJob e x)"
    "\<And>x. x \<notin> R \<Longrightarrow> x \<notin> set (pendRobots e) \<Longrightarrow> robot_view s x = map_option rform (getRobot e x)"
    using i unfolding inSync_def by blast
  have f: "eng_jobs e' = eng_jobs e" "eng_robots e' = eng_robots e" using arg_cong [OF p, of fst] by auto
  show ?thesis
  proof (cases "eng_pending e")
    case None
    obtain s' where sj: "sv_SaveJob (store_of s) s (jobRecord j) = (s', err)"
      and st: "eng_store e' = Some (store_of s')" "eng_pending e' = None"
      using p None s(1) by (auto simp: persistJobLocked_def state_of split: prod.splits)
    note w = save_job [OF s(2) sj]
    have "inSync (J - {job_ID j}) R e'"
      unfolding inSync_def using i f st w s(3,4) j None by (auto simp: inSync_def jobRecord_def)
    then show ?thesis using w by blast
  next
    case (Some q)
    obtain js rs where q: "eng_pending e = Some (js, rs)" using Some by (cases q) auto
    have e': "e' = e\<lparr>eng_pending := Some (go_add (job_ID j) js, rs)\<rparr>" "err = None"
      using p q s(1) by (auto simp: persistJobLocked_def)
    have "pendJobs e' = go_add (job_ID j) (pendJobs e)" "pendRobots e' = pendRobots e"
      by (simp_all add: e' pendJobs_def pendRobots_def q)
    then have "inSync (J - {job_ID j}) R e'"
      unfolding inSync_def using i j s e' by (auto simp: inSync_def)
    then show ?thesis using e' by blast
  qed
qed

lemma inSync_persistRobot:
  assumes i: "inSync J R e" and r: "getRobot e (rob_ID b) = Some b" and p: "persistRobotLocked b e = (e', err)"
  shows "err = None \<and> inSync J (R - {rob_ID b}) e'"
proof -
  obtain s where s: "eng_store e = Some (store_of s)" "good s"
    "\<And>x. x \<notin> J \<Longrightarrow> x \<notin> set (pendJobs e) \<Longrightarrow> job_view s x = map_option (\<lambda>j. jform (jobRecord j)) (getJob e x)"
    "\<And>x. x \<notin> R \<Longrightarrow> x \<notin> set (pendRobots e) \<Longrightarrow> robot_view s x = map_option rform (getRobot e x)"
    using i unfolding inSync_def by blast
  have f: "eng_jobs e' = eng_jobs e" "eng_robots e' = eng_robots e" using arg_cong [OF p, of fst] by auto
  show ?thesis
  proof (cases "eng_pending e")
    case None
    obtain s' where sr: "sv_SaveRobot (store_of s) s b = (s', err)"
      and st: "eng_store e' = Some (store_of s')" "eng_pending e' = None"
      using p None s(1) by (auto simp: persistRobotLocked_def state_of split: prod.splits)
    note w = save_robot [OF s(2) sr]
    have "inSync J (R - {rob_ID b}) e'"
      unfolding inSync_def using i f st w s(3,4) r None by (auto simp: inSync_def)
    then show ?thesis using w by blast
  next
    case (Some q)
    obtain js rs where q: "eng_pending e = Some (js, rs)" using Some by (cases q) auto
    have e': "e' = e\<lparr>eng_pending := Some (js, go_add (rob_ID b) rs)\<rparr>" "err = None"
      using p q s(1) by (auto simp: persistRobotLocked_def)
    have "pendRobots e' = go_add (rob_ID b) (pendRobots e)" "pendJobs e' = pendJobs e"
      by (simp_all add: e' pendJobs_def pendRobots_def q)
    then have "inSync J (R - {rob_ID b}) e'"
      unfolding inSync_def using i r s e' by (auto simp: inSync_def)
    then show ?thesis using e' by blast
  qed
qed

text \<open>A change with its write, and the two ends of a batch.\<close>

lemma inSync_writeJob: "inSync J R e \<Longrightarrow> inSync (J - {job_ID j}) R (fst (persistJobLocked j (setJob j e)))"
  using inSync_persistJob [OF inSync_setJob [of J R e j], of j "fst (persistJobLocked j (setJob j e))"
      "snd (persistJobLocked j (setJob j e))"] by simp

lemma inSync_writeRobot: "inSync J R e \<Longrightarrow> inSync J (R - {rob_ID r}) (fst (persistRobotLocked r (setRobot r e)))"
  using inSync_persistRobot [OF inSync_setRobot [of J R e r], of r "fst (persistRobotLocked r (setRobot r e))"
      "snd (persistRobotLocked r (setRobot r e))"] by simp

lemma inSync_store: "inSync J R e \<Longrightarrow> \<exists>s. eng_store e = Some (store_of s) \<and> good s"
  unfolding inSync_def by blast

lemma inSync_begin:
  assumes "inSync J R e" and "eng_pending e = None"
  shows "inSync J R (beginBatchLocked e)"
proof -
  have "eng_pending (beginBatchLocked e) = Some ([], [])"
    using inSync_store [OF assms(1)] by (auto simp: beginBatchLocked_def)
  then have "pendJobs (beginBatchLocked e) = pendJobs e" "pendRobots (beginBatchLocked e) = pendRobots e"
    using assms(2) by (simp_all add: pendJobs_def pendRobots_def)
  then show ?thesis using assms(1) by (simp add: inSync_def)
qed

lemma batch_records:
  assumes "go_wf key m" and "distinct ids" and "\<forall>x \<in> set ids. go_get m x \<noteq> None"
  shows "map key (List.map_filter (go_get m) ids) = ids"
  using assms(2,3) by (induction ids) (auto simp: map_filter_simps dest: go_wf_key [OF assms(1)])

lemma upds_sorted:
  fixes key :: "'r \<Rightarrow> string" and ord :: "'r \<Rightarrow> 'o::linorder"
  assumes "distinct (map key xs)"
  shows "(m(map key (sort_key ord xs) [\<mapsto>] map f (sort_key ord xs))) x =
    (case find (\<lambda>r. key r = x) xs of None \<Rightarrow> m x | Some r \<Rightarrow> Some (f r))"
proof (cases "find (\<lambda>r. key r = x) xs")
  case None
  then have "x \<notin> set (map key (sort_key ord xs))" by (auto simp: find_None_iff)
  then show ?thesis using None by (simp add: map_upds_apply_nontin)
next
  case (Some r)
  then have r: "r \<in> set xs" "key r = x" using find_key [OF assms] by auto
  have "mset (map key (sort_key ord xs)) = mset (map key xs)" by simp
  then have "distinct (map key (sort_key ord xs))" using assms mset_eq_imp_distinct_iff by blast
  from map_upds_key [OF this, of r m f] r Some show ?thesis by simp
qed

lemma find_record:
  assumes "go_wf job_ID m" and "distinct ids" and "\<forall>x \<in> set ids. go_get m x \<noteq> None"
  shows "find (\<lambda>r. job_ID (rec_Job r) = x) (map jobRecord (List.map_filter (go_get m) ids)) =
    (if x \<in> set ids then map_option jobRecord (go_get m x) else None)"
  using assms(2,3)
  by (induction ids) (auto simp: map_filter_simps jobRecord_def dest: go_wf_key [OF assms(1)])

lemma find_robot:
  assumes "go_wf rob_ID m" and "distinct ids" and "\<forall>x \<in> set ids. go_get m x \<noteq> None"
  shows "find (\<lambda>r. rob_ID r = x) (List.map_filter (go_get m) ids) = (if x \<in> set ids then go_get m x else None)"
  using assms(2,3) by (induction ids) (auto simp: map_filter_simps dest: go_wf_key [OF assms(1)])

lemma inSync_commit:
  assumes i: "inSync J R e" and c: "commitBatchLocked e = (e', err)"
  shows "err = None \<and> inSync J R e' \<and> eng_pending e' = None"
proof (cases "eng_pending e")
  case None
  then have "e' = e" "err = None" using c by (simp_all add: commitBatchLocked_def)
  then show ?thesis using i None by simp
next
  case (Some q)
  obtain js rs where q: "eng_pending e = Some (js, rs)" using Some by (cases q) auto
  then have p: "pendJobs e = js" "pendRobots e = rs" by (simp_all add: pendJobs_def pendRobots_def)
  have wf: "go_wf job_ID (eng_jobs e)" "distinct js" "\<forall>x \<in> set js. getJob e x \<noteq> None"
    and wr: "go_wf rob_ID (eng_robots e)" "distinct rs" "\<forall>x \<in> set rs. getRobot e x \<noteq> None"
    using i p by (simp_all add: inSync_def)
  obtain s where s: "eng_store e = Some (store_of s)" "good s"
    "\<And>x. x \<notin> J \<Longrightarrow> x \<notin> set js \<Longrightarrow> job_view s x = map_option (\<lambda>j. jform (jobRecord j)) (getJob e x)"
    "\<And>x. x \<notin> R \<Longrightarrow> x \<notin> set rs \<Longrightarrow> robot_view s x = map_option rform (getRobot e x)"
    using i p unfolding inSync_def by blast
  have f: "eng_jobs e' = eng_jobs e" "eng_robots e' = eng_robots e" using arg_cong [OF c, of fst] by auto
  show ?thesis
  proof (cases "js = [] \<and> rs = []")
    case True
    then have e': "e' = e\<lparr>eng_pending := None\<rparr>" "err = None" using c q by (auto simp: commitBatchLocked_def)
    then have "inSync J R e'"
      unfolding inSync_def using i s True by (auto simp: inSync_def)
    then show ?thesis using e' by simp
  next
    case False
    let ?js = "sort_key rec_Seq (map jobRecord (List.map_filter (getJob e) js))"
    let ?rs = "sort_key rob_ID (List.map_filter (getRobot e) rs)"
    obtain sv' where b: "storeBatch (store_of s) ?js ?rs = (sv', err)"
      and e': "e' = e\<lparr>eng_pending := None, eng_store := Some sv'\<rparr>"
      using c q False s(1) by (auto simp: commitBatchLocked_def Let_def split: prod.splits)
    note w = save_batch [OF s(2) b]
    have dj: "distinct (map (\<lambda>r. job_ID (rec_Job r)) (map jobRecord (List.map_filter (getJob e) js)))"
      using batch_records [OF wf] wf(2) by (simp add: comp_def jobRecord_def)
    have dr: "distinct (map rob_ID (List.map_filter (getRobot e) rs))"
      using batch_records [OF wr] wr(2) by simp
    have jv: "job_view (sv_state sv') x =
        (if x \<in> set js then map_option (\<lambda>j. jform (jobRecord j)) (getJob e x) else job_view s x)" for x
      using w upds_sorted [OF dj, of "job_view s" rec_Seq jform x] wf(3)
      by (auto simp: find_record [OF wf] split: option.splits)
    have rv: "robot_view (sv_state sv') x =
        (if x \<in> set rs then map_option rform (getRobot e x) else robot_view s x)" for x
      using w upds_sorted [OF dr, of "robot_view s" rob_ID rform x] wr(3)
      by (auto simp: find_robot [OF wr] split: option.splits)
    have "inSync J R e'"
      unfolding inSync_def using wf(1) wr(1) w s(3,4) jv rv by (auto simp: e' intro!: exI [where x = "sv_state sv'"])
    then show ?thesis using w e' by simp
  qed
qed

end

end
