(* ===== verification/MirrorSteps.thy ===== *)
theory MirrorSteps
  imports Mirror
begin

section \<open>Every operation keeps the mirror\<close>

text \<open>
  Over the contract \<open>reliable_store\<close>: the operations of the engine one by one, then a step of the
  service, then a run of it.
\<close>

context reliable_store begin

lemma inSync_frame [simp]:
  "inSync J R (emitLocked kind j e) = inSync J R e"
  "inSync J R (recordPersistOutcome errs e) = inSync J R e"
  "inSync J R (noteAssignedLocked j e) = inSync J R e"
  "inSync J R (noteDedup j e) = inSync J R e"
  "inSync J R (checkTool tool what e) = inSync J R e"
  "inSync J R (snd (jobsHeldByLocked rid e)) = inSync J R e"
  "inSync J R (snd (robotHasActiveAssignmentLocked rid e)) = inSync J R e"
  "inSync J R (dropStopReq jid e) = inSync J R e"
  "inSync J R (e\<lparr>eng_stopReq := sr\<rparr>) = inSync J R e"
  "inSync J R (e\<lparr>eng_nextSeq := n\<rparr>) = inSync J R e"
  "inSync J R (e\<lparr>eng_lastPersistErr := x\<rparr>) = inSync J R e"
  by (rule inSync_cong; simp add: noteDedup_def dropStopReq_def)+

lemma inSync_jobWritten:
  assumes "inSync J R e" and "persistJobLocked j (setJob j e) = (e', err)"
  shows "inSync J R e'" "err = None" "eng_pending e = None \<Longrightarrow> eng_pending e' = None"
proof -
  note p = inSync_persistJob [OF inSync_setJob [OF assms(1), of j] _ assms(2)]
  show "err = None" using p by simp
  show "inSync J R e'" using p by (auto intro: inSync_mono)
  show "eng_pending e' = None" if "eng_pending e = None"
    using assms(2) that by (auto simp: persistJobLocked_def split: option.splits prod.splits)
qed

lemma inSync_robotWritten:
  assumes "inSync J R e" and "persistRobotLocked r (setRobot r e) = (e', err)"
  shows "inSync J R e'" "err = None" "eng_pending e = None \<Longrightarrow> eng_pending e' = None"
proof -
  note p = inSync_persistRobot [OF inSync_setRobot [OF assms(1), of r] _ assms(2)]
  show "err = None" using p by simp
  show "inSync J R e'" using p by (auto intro: inSync_mono)
  show "eng_pending e' = None" if "eng_pending e = None"
    using assms(2) that by (auto simp: persistRobotLocked_def split: option.splits prod.splits)
qed

subsection \<open>The queue is looked at again\<close>

lemma inSync_refreshPass: "inSync J R e \<Longrightarrow> inSync J R (fst (refreshPass jids e ch pe))"
proof (induction jids arbitrary: e ch pe)
  case (Cons jid jids)
  show ?case
  proof (cases "getJob e jid")
    case (Some j)
    show ?thesis
    proof (cases "waiting (job_Status j) \<and> computeStatus (eng_jobs e) j \<noteq> job_Status j")
      case True
      define j' where "j' = j\<lparr>job_Status := computeStatus (eng_jobs e) j\<rparr>"
      obtain e' err where p: "persistJobLocked j' (setJob j' e) = (e', err)" by fastforce
      have "inSync J R e'" by (rule inSync_jobWritten(1) [OF Cons.prems p])
      then show ?thesis using Some True p Cons.IH by (simp add: Let_def j'_def)
    next
      case False
      then show ?thesis using Some Cons by (auto simp: Let_def)
    qed
  qed (use Cons in simp)
qed simp

lemma inSync_refreshLoop:
  assumes "refreshLoop e pe = Some r"
  shows "inSync J R e \<longrightarrow> inSync J R (fst r)"
proof (rule refreshLoop.raw_induct [where P = "\<lambda>e pe r. inSync J R e \<longrightarrow> inSync J R (fst r)", OF _ assms])
  fix loop and e :: "'s engine" and pe r
  assume IH: "\<And>e pe r. loop e pe = Some r \<Longrightarrow> inSync J R e \<longrightarrow> inSync J R (fst r)"
    and eq: "(case refreshPass (go_keys (eng_jobs e)) e False pe of
        (e', changed, pe') \<Rightarrow> if changed then loop e' pe' else Some (e', pe')) = Some r"
  obtain e1 ch pe1 where p: "refreshPass (go_keys (eng_jobs e)) e False pe = (e1, ch, pe1)"
    by (metis prod_cases3)
  have "inSync J R e \<longrightarrow> inSync J R e1"
    using inSync_refreshPass [of J R e "go_keys (eng_jobs e)" False pe] p by simp
  then show "inSync J R e \<longrightarrow> inSync J R (fst r)"
    using eq p IH [of e1 pe1 r] by (auto split: if_splits)
qed

lemma inSync_refresh: "refreshBlocked e = Some (e', err) \<Longrightarrow> inSync J R e \<Longrightarrow> inSync J R e'"
  using inSync_refreshLoop [of e None "(e', err)"] by (simp add: refreshBlocked_def)

subsection \<open>Submission\<close>

lemma persist_before_set:
  assumes "persistJobLocked j e = (e', err)"
  shows "persistJobLocked j (setJob j e) = (setJob j e', err)"
  using assms by (auto simp: persistJobLocked_def setJob_def split: option.splits prod.splits)

lemma inSync_newJob:
  assumes "inSync J R e"
  shows "inSync J R (setJob j (fst (persistJobLocked j e)))" "snd (persistJobLocked j e) = None"
  using inSync_jobWritten [OF assms persist_before_set [of j e "fst (persistJobLocked j e)" "snd (persistJobLocked j e)"]]
  by simp_all

lemma inSync_addJobLocked: "inSync J R e \<Longrightarrow> addJobLocked j now e = (e', r) \<Longrightarrow> inSync J R e'"
  by (auto simp: addJobLocked_def Let_def case_prod_unfold inSync_newJob split: if_splits option.splits)

lemma inSync_AddJob: "inSync J R e \<Longrightarrow> inSync J R (fst (AddJob j now e))"
  by (auto simp: AddJob_def intro: inSync_addJobLocked split: prod.splits sum.splits)

lemma inSync_retryJob:
  assumes i: "inSync J R e" and x: "getJob e (job_ID x) = Some x" and r: "retryJob x j now e = Some (e', r)"
  shows "inSync J R e'"
proof (cases "retryable x j e")
  case True
  define j1 where "j1 = x\<lparr>job_Priority := job_Priority j, job_RequiredTool := job_RequiredTool j,
      job_Location := job_Location j, job_DependsOn := job_DependsOn j, job_AssignedRobot := [],
      job_SubmittedAtMs := unixMilli now, job_AssignedAtMs := 0, job_CompletedAtMs := 0\<rparr>"
  define e2 where "e2 = setJob j1 (checkTool (job_RequiredTool j) (RequiredToolOfJob (job_ID x)) e)"
  define j2 where "j2 = j1\<lparr>job_Status := computeStatus (eng_jobs e2) j1\<rparr>"
  obtain e4 err where p: "persistJobLocked j2 (setJob j2 e2) = (e4, err)" by fastforce
  obtain e5 rerr where f: "refreshBlocked e4 = Some (e5, rerr)" "e' = recordPersistOutcome [err, rerr] e5"
    using r True p unfolding retryJob_def retryable_def j1_def e2_def j2_def
    by (auto simp: Let_def split: option.splits prod.splits)
  have "inSync (insert (job_ID x) J) R e2"
    unfolding e2_def using inSync_setJob [of J R _ j1] i by (simp add: j1_def)
  from inSync_persistJob [OF inSync_setJob [OF this, of j2] _ p]
  have "inSync (insert (job_ID j2) (insert (job_ID x) J) - {job_ID j2}) R e4" by simp
  then have "inSync J R e4" by (rule inSync_mono) (auto simp: j2_def j1_def)
  then show ?thesis using inSync_refresh [OF f(1)] f(2) by simp
next
  case False
  then show ?thesis using r i by (auto simp: retryJob_def retryable_def split: option.splits if_splits)
qed

lemma inSync_SubmitJob:
  assumes i: "inSync J R e" and s: "SubmitJob j now e = Some (e', r)"
  shows "inSync J R e'"
proof -
  have retry: "inSync J R e'" if "getJob e y = Some x" "retryJob x j now e = Some (e', r)" for y x
    using inSync_retryJob [OF i _ that(2)] inSync_ID(1) [OF i that(1)] that(1) by simp
  show ?thesis using s i inSync_addJobLocked [OF i] retry
    unfolding SubmitJob_def submitNew_def
    by (auto split: if_splits option.splits prod.splits sum.splits)
qed

subsection \<open>Robots, requeueing and the sweep\<close>

lemma inSync_holdRobot:
  assumes "inSync J R e"
  shows "inSync J R (fst (holdRobot rid e))"
  using assms inSync_writeRobot [OF assms] by (auto simp: holdRobot_def intro: inSync_mono split: option.splits)

lemma inSync_requeueJob:
  assumes i: "inSync J R e"
  shows "inSync J R (fst (requeueJobLocked jid e))"
proof (cases "getJob e jid")
  case (Some j)
  define j1 where "j1 = j\<lparr>job_AssignedRobot := [], job_AssignedAtMs := 0\<rparr>"
  define e2 where "e2 = setJob j1 (dropStopReq jid (fst (holdRobot (job_AssignedRobot j) e)))"
  define j2 where "j2 = j1\<lparr>job_Status := computeStatus (eng_jobs e2) j1\<rparr>"
  obtain e3 err where p: "persistJobLocked j2 (setJob j2 e2) = (e3, err)" by fastforce
  have e3: "fst (requeueJobLocked jid e) = e3"
    using Some p by (simp add: requeueJobLocked_def case_prod_unfold Let_def j1_def e2_def j2_def)
  have "inSync (insert (job_ID j1) J) R e2"
    unfolding e2_def by (rule inSync_setJob) (simp add: inSync_holdRobot [OF i])
  from inSync_persistJob [OF inSync_setJob [OF this, of j2] _ p]
  have "inSync (insert (job_ID j2) (insert (job_ID j1) J) - {job_ID j2}) R e3" by simp
  then show ?thesis unfolding e3 by (rule inSync_mono) (auto simp: j2_def)
qed (use i in \<open>simp add: requeueJobLocked_def\<close>)

lemma inSync_requeueEach: "inSync J R e \<Longrightarrow> inSync J R (fst (requeueEach jids e errs))"
  by (induction jids arbitrary: e errs) (auto simp: case_prod_unfold Let_def inSync_requeueJob)

lemma inSync_persistEach:
  "inSync J R e \<Longrightarrow> \<forall>x \<in> set rids. getRobot e x \<noteq> None \<Longrightarrow> inSync J (R - set rids) (fst (persistEach rids e errs))"
proof (induction rids arbitrary: e errs R)
  case (Cons rid rids)
  obtain r where r: "getRobot e rid = Some r" using Cons.prems(2) by auto
  obtain e1 err where p: "persistRobotLocked r e = (e1, err)" by fastforce
  have "rob_ID r = rid" by (rule inSync_ID(2) [OF Cons.prems(1) r])
  then have "inSync J (R - {rid}) e1" using inSync_persistRobot [OF Cons.prems(1) _ p] r by simp
  moreover have "\<forall>x \<in> set rids. getRobot e1 x \<noteq> None"
    using Cons.prems(2) arg_cong [OF p, of fst] by auto
  ultimately have "inSync J (R - {rid} - set rids) (fst (persistEach rids e1 (errs @ [err])))"
    by (rule Cons.IH)
  moreover have "R - {rid} - set rids = R - set (rid # rids)" by auto
  ultimately show ?case using r p by simp
qed simp

lemma holdRobot_robots: "getRobot e x \<noteq> None \<Longrightarrow> getRobot (fst (holdRobot rid e)) x \<noteq> None"
  by (auto simp: holdRobot_def split: option.splits)

lemma requeueEach_robots: "getRobot e x \<noteq> None \<Longrightarrow> getRobot (fst (requeueEach jids e errs)) x \<noteq> None"
proof (induction jids arbitrary: e errs)
  case (Cons jid jids)
  have "getRobot (fst (requeueJobLocked jid e)) x \<noteq> None"
    using holdRobot_robots [OF Cons.prems]
    by (simp add: requeueJobLocked_def case_prod_unfold Let_def dropStopReq_def split: option.splits)
       (use Cons.prems in auto)
  then show ?case using Cons.IH by (simp add: case_prod_unfold Let_def)
qed simp

lemma inSync_requeueAll:
  assumes i: "inSync J R e" and p: "eng_pending e = None" and x: "\<forall>x \<in> set extra. getRobot e x \<noteq> None"
  shows "inSync J (R - set extra) (fst (requeueAllLocked jids extra e))"
    "eng_pending (fst (requeueAllLocked jids extra e)) = None"
proof -
  obtain e1 errs1 where 1: "requeueEach jids (beginBatchLocked e) [] = (e1, errs1)" by fastforce
  obtain e2 errs2 where 2: "persistEach extra e1 errs1 = (e2, errs2)" by fastforce
  obtain e3 err where 3: "commitBatchLocked e2 = (e3, err)" by fastforce
  have "inSync J R e1" using inSync_requeueEach [OF inSync_begin [OF i p], of jids "[]"] 1 by simp
  moreover have "\<forall>x \<in> set extra. getRobot e1 x \<noteq> None"
    using requeueEach_robots [of "beginBatchLocked e" _ jids "[]"] x 1 by simp
  ultimately have "inSync J (R - set extra) e2" using inSync_persistEach [of J R e1 extra errs1] 2 by simp
  from inSync_commit [OF this 3]
  show "inSync J (R - set extra) (fst (requeueAllLocked jids extra e))"
    "eng_pending (fst (requeueAllLocked jids extra e)) = None"
    using 1 2 3 by (simp_all add: requeueAllLocked_def Let_def)
qed

lemma inSync_RequeueJob:
  assumes i: "inSync J R e" and p: "eng_pending e = None"
  shows "inSync J R (fst (RequeueJob jid rid e))"
proof -
  obtain e1 re je where 1: "requeueJobLocked jid (beginBatchLocked e) = (e1, re, je)" by (metis prod_cases3)
  obtain e2 err where 2: "commitBatchLocked e1 = (e2, err)" by fastforce
  have "inSync J R e1" using inSync_requeueJob [OF inSync_begin [OF i p], of jid] 1 by simp
  from inSync_commit [OF this 2] show ?thesis
    using i 1 2 by (auto simp: RequeueJob_def Let_def split: option.splits)
qed

lemma jobsOfRobot_sync [simp]: "inSync J R (snd (jobsOfRobotLocked rid u e)) = inSync J R e"
  "eng_pending (snd (jobsOfRobotLocked rid u e)) = eng_pending e"
  "eng_robots (snd (jobsOfRobotLocked rid u e)) = eng_robots e"
  by (simp_all add: jobsOfRobotLocked_def case_prod_unfold Let_def)

lemma inSync_ReplanRobot:
  assumes i: "inSync J {} e" and p: "eng_pending e = None"
  shows "inSync J {} (fst (ReplanRobot rid e))"
proof (cases "getRobot e rid")
  case (Some r)
  have id: "rob_ID (heldRobot r) = rid" using inSync_ID(2) [OF i Some] by (simp add: heldRobot_def)
  obtain jids e1 where 1: "jobsOfRobotLocked rid True (setRobot (heldRobot r) e) = (jids, e1)" by fastforce
  have e1: "e1 = snd (jobsOfRobotLocked rid True (setRobot (heldRobot r) e))" by (simp add: 1)
  have "inSync J {rid} e1" unfolding e1 using inSync_setRobot [OF i, of "heldRobot r"] id by simp
  moreover have "eng_pending e1 = None" "\<forall>x \<in> set [rid]. getRobot e1 x \<noteq> None"
    unfolding e1 using p id by simp_all
  ultimately have "inSync J ({rid} - set [rid]) (fst (requeueAllLocked jids [rid] e1))"
    by (rule inSync_requeueAll(1))
  then show ?thesis using i Some 1 by (simp add: ReplanRobot_def case_prod_unfold Let_def)
qed (use i in \<open>simp add: ReplanRobot_def\<close>)

lemma inSync_AckStop:
  assumes "inSync J R e" and "eng_pending e = None"
  shows "inSync J R (fst (AckStop rid jid e))"
  using assms inSync_requeueAll(1) [OF assms, of "[]"] by (auto simp: AckStop_def Let_def split: option.splits)

lemma inSync_persistCurrent:
  assumes i: "inSync J R e" and r: "getRobot e rid = Some r"
  shows "inSync J (R - {rid}) (persistCurrent rid e)"
proof -
  obtain e1 err where p: "persistRobotLocked r e = (e1, err)" by fastforce
  have "rob_ID r = rid" by (rule inSync_ID(2) [OF i r])
  then show ?thesis using inSync_persistRobot [OF i _ p] r p by (simp add: persistCurrent_def)
qed

lemma inSync_applyAvailability:
  assumes i: "inSync J R e" and p: "eng_pending e = None" and r: "rob_ID r \<in> R" and g: "getRobot e (rob_ID r) \<noteq> None"
  shows "inSync J R (applyAvailability r given e) \<and> getRobot (applyAvailability r given e) (rob_ID r) \<noteq> None"
proof -
  obtain x where x: "getRobot e (rob_ID r) = Some x" using g by auto
  have id: "rob_ID x = rob_ID r" by (rule inSync_ID(2) [OF i x])
  define e1 where "e1 = snd (robotHasActiveAssignmentLocked (rob_ID r) e)"
  have i1: "inSync J R e1" "eng_pending e1 = None" "eng_robots e1 = eng_robots e" using i p by (simp_all add: e1_def)
  have set: "inSync J R (setRobot y e1)" if "rob_ID y = rob_ID r" for y
    using inSync_setRobot [OF i1(1), of y] r that by (simp add: insert_absorb)
  let ?e2 = "setRobot (x\<lparr>rob_selfReportedUnavailable := True\<rparr>) e1"
  obtain jids e3 where 3: "jobsOfRobotLocked (rob_ID r) False ?e2 = (jids, e3)" by fastforce
  have e3: "e3 = snd (jobsOfRobotLocked (rob_ID r) False ?e2)" by (simp add: 3)
  have i3: "inSync J R e3" "eng_pending e3 = None" "getRobot e3 (rob_ID r) \<noteq> None"
    unfolding e3 using set [of "x\<lparr>rob_selfReportedUnavailable := True\<rparr>"] id i1 x by simp_all
  have "inSync J R (fst (requeueAllLocked jids [] e3))" using inSync_requeueAll(1) [OF i3(1,2), of "[]"] by simp
  moreover have "getRobot (fst (requeueAllLocked jids [] e3)) (rob_ID r) \<noteq> None"
    using requeueEach_robots [of "beginBatchLocked e3" "rob_ID r" jids "[]"] i3(3)
    by (simp add: requeueAllLocked_def case_prod_unfold Let_def)
  ultimately show ?thesis
    using x i i1 set id 3 unfolding applyAvailability_def e1_def
    by (simp add: case_prod_unfold Let_def)
qed

lemma inSync_upsertRobot:
  assumes i: "inSync J {} e" and p: "eng_pending e = None"
  shows "inSync J {} (upsertRobotLocked r given now e)"
proof -
  define e0 where "e0 = checkTool (rob_Tool r) (ToolOfRobot (rob_ID r)) e"
  have i0: "inSync J {} e0" "eng_pending e0 = None" using i p by (simp_all add: e0_def)
  show ?thesis
  proof (cases "getRobot e0 (rob_ID r)")
    case None
    let ?n = "r\<lparr>rob_LastHeartbeat := Some now\<rparr>"
    have "inSync J {rob_ID r} (setRobot ?n e0)" using inSync_setRobot [OF i0(1), of ?n] by simp
    from inSync_persistCurrent [OF this, of "rob_ID r" ?n] None show ?thesis
      by (simp add: upsertRobotLocked_def e0_def [symmetric] Let_def)
  next
    case (Some x)
    let ?h = "x\<lparr>rob_Location := rob_Location r, rob_Tool := rob_Tool r,
        rob_StopCapable := rob_StopCapable r, rob_LastHeartbeat := Some now\<rparr>"
    have id: "rob_ID x = rob_ID r" by (rule inSync_ID(2) [OF i0(1) Some])
    have "inSync J {rob_ID r} (setRobot ?h e0)" using inSync_setRobot [OF i0(1), of ?h] id by simp
    from inSync_applyAvailability [OF this, of r given]
    obtain y where "inSync J {rob_ID r} (applyAvailability r given (setRobot ?h e0))"
      "getRobot (applyAvailability r given (setRobot ?h e0)) (rob_ID r) = Some y"
      using i0(2) id by auto
    from inSync_persistCurrent [OF this] Some show ?thesis
      by (simp add: upsertRobotLocked_def e0_def [symmetric] Let_def)
  qed
qed

lemma inSync_RemoveRobot:
  assumes i: "inSync J {} e" and p: "eng_pending e = None"
  shows "inSync J {} (fst (RemoveRobot rid e))"
proof -
  define e1 where "e1 = snd (jobsHeldByLocked rid e)"
  have i1: "inSync J {} e1" "eng_pending e1 = None" using i p by (simp_all add: e1_def)
  obtain s where s: "eng_store e1 = Some (store_of s)" "good s"
    "\<And>x. x \<notin> J \<Longrightarrow> job_view s x = map_option (\<lambda>j. jform (jobRecord j)) (getJob e1 x)"
    "\<And>x. robot_view s x = map_option rform (getRobot e1 x)"
    using i1 unfolding inSync_def by auto
  obtain del where d: "sv_DeleteRobot (store_of s) = Some del" "good (fst (del s rid))" "snd (del s rid) = None"
    "robot_view (fst (del s rid)) = (robot_view s)(rid := None)" "job_view (fst (del s rid)) = job_view s"
    using delete_robot [OF s(2), of rid] by blast
  have del: "deleteFromStore rid e1 = (e1\<lparr>eng_store := Some (store_of (fst (del s rid)))\<rparr>, None)"
    using s(1) d(1,3) by (simp add: deleteFromStore_def state_of case_prod_unfold Let_def)
  let ?e2 = "e1\<lparr>eng_store := Some (store_of (fst (del s rid))), eng_robots := go_del rid (eng_robots e1)\<rparr>"
  have "inSync J {} ?e2"
    unfolding inSync_def using i1 d s pend_cong [of ?e2 e1]
    by (auto simp: inSync_def go_wf_del intro!: exI [where x = "fst (del s rid)"])
  then show ?thesis
    using i i1 del by (auto simp: RemoveRobot_def e1_def [symmetric] case_prod_unfold Let_def split: option.splits)
qed

lemma inSync_staleScan:
  "inSync J R (snd (staleScan timeout now js stale e)) = inSync J R e
 \<and> eng_pending (snd (staleScan timeout now js stale e)) = eng_pending e"
  by (induction js arbitrary: stale e) (auto simp: dropStopReq_def split: option.splits)

lemma inSync_decideStops:
  "decideStops now js bk ask unk e = (b, a, u, e') \<Longrightarrow>
     inSync J R e' = inSync J R e \<and> eng_pending e' = eng_pending e"
proof (induction js arbitrary: bk ask unk e)
  case (Cons j js)
  obtain e1 d where d: "stopDecisionLocked j now e = (e1, d)" by fastforce
  have "inSync J R e1 = inSync J R e" "eng_pending e1 = eng_pending e"
    using d by (auto simp: stopDecisionLocked_def Let_def split: option.splits if_splits)
  then show ?case using Cons.IH Cons.prems d by (simp add: Let_def)
qed simp

lemma inSync_markEach: "inSync J R e \<Longrightarrow> inSync J R (fst (markEach jids e pe))"
proof (induction jids arbitrary: e pe)
  case (Cons jid jids)
  show ?case
  proof (cases "getJob e jid")
    case (Some j)
    define j' where "j' = j\<lparr>job_Status := StatusUnknown\<rparr>"
    obtain e' err where p: "persistJobLocked j' (emitLocked EventUnknown j' (setJob j' e)) = (e', err)" by fastforce
    have "inSync (insert (job_ID j') J) R (emitLocked EventUnknown j' (setJob j' e))"
      using inSync_setJob [OF Cons.prems, of j'] by simp
    from inSync_persistJob [OF this _ p] have "inSync (insert (job_ID j') J - {job_ID j'}) R e'" by simp
    then have "inSync J R e'" by (rule inSync_mono) auto
    then show ?thesis using Cons.IH Some p by (simp add: Let_def j'_def)
  qed (use Cons in simp)
qed simp

lemma inSync_markUnknown:
  assumes i: "inSync J R e" and p: "eng_pending e = None"
  shows "inSync J R (markUnknownLocked jids e)"
proof -
  obtain e1 pe where 1: "markEach jids (beginBatchLocked e) None = (e1, pe)" by fastforce
  obtain e2 err where 2: "commitBatchLocked e1 = (e2, err)" by fastforce
  have "inSync J R e1" using inSync_markEach [OF inSync_begin [OF i p], of jids None] 1 by simp
  from inSync_commit [OF this 2] show ?thesis using i 1 2 by (simp add: markUnknownLocked_def Let_def)
qed

lemma inSync_sweep:
  assumes i: "inSync J R e" and p: "eng_pending e = None"
  shows "inSync J R (fst (DetectStaleAssignmentsStop timeout now e))"
proof -
  obtain found e1 where 1: "staleScan timeout now (go_vals (eng_jobs e)) [] e = (found, e1)" by fastforce
  have e1: "inSync J R e1" "eng_pending e1 = None"
    using inSync_staleScan [of J R timeout now "go_vals (eng_jobs e)" "[]" e] 1 i p by simp_all
  obtain bk ask unk e2 where 2: "decideStops now (sort_key job_seq found) [] [] [] e1 = (bk, ask, unk, e2)"
    by (metis prod_cases4)
  have e2: "inSync J R e2" "eng_pending e2 = None" using inSync_decideStops [OF 2] e1 by simp_all
  obtain e3 ids where 3: "(if bk = [] then (e2, []) else requeueAllLocked bk [] e2) = (e3, ids)" by fastforce
  have "inSync J R e3" "eng_pending e3 = None"
    using 3 e2 inSync_requeueAll [OF e2, of "[]" bk] by (auto split: if_splits)
  then show ?thesis
    using 1 2 3 inSync_markUnknown e1 by (simp add: DetectStaleAssignmentsStop_def Let_def)
qed

subsection \<open>Dispatching and ending jobs\<close>

lemma inSync_dispatchStep:
  assumes i: "inSync J R e" and st: "dispatchStep clk k jid e = (e', out)"
  shows "inSync J R e'"
proof (cases "getJob e jid")
  case j: (Some j)
  have id: "job_ID j = jid" by (rule inSync_ID(1) [OF i j])
  show ?thesis
  proof (cases "bestRobotFor e j (clk (2 * k))")
    case (Some robot)
    let ?busy = "robot\<lparr>rob_Available := False\<rparr>"
    obtain e1 err1 where p1: "persistRobotLocked ?busy (setRobot ?busy e) = (e1, err1)" by fastforce
    note w1 = inSync_robotWritten [OF i p1]
    define j1 where "j1 = j\<lparr>job_Status := StatusAssigned, job_AssignedRobot := rob_ID robot\<rparr>"
    define e2 where "e2 = noteAssignedLocked j1 (setJob j1 e1)"
    define j2 where "j2 = j1\<lparr>job_Attempt := job_Attempt j1 + 1, job_AssignedAtMs := unixMilli (clk (2 * k + 1))\<rparr>"
    obtain e3 err3 where p3: "persistJobLocked j2 (setJob j2 e2) = (e3, err3)" by fastforce
    have "inSync (insert jid J) R e2" using inSync_setJob [OF w1(1), of j1] by (simp add: e2_def j1_def id)
    from inSync_persistJob [OF inSync_setJob [OF this, of j2] _ p3]
    have w3: "err3 = None" "inSync (insert (job_ID j2) (insert jid J) - {job_ID j2}) R e3" by simp_all
    have "inSync J R e3" by (rule inSync_mono [OF w3(2)]) (auto simp: j2_def j1_def id)
    moreover have "e' = emitLocked EventAssigned j2 e3"
      using st j Some p1 w1(2) p3 w3(1) by (simp add: dispatchStep_def Let_def j1_def e2_def j2_def)
    ultimately show ?thesis by simp
  qed (use st i j in \<open>simp add: dispatchStep_def\<close>)
qed (use st i in \<open>simp add: dispatchStep_def\<close>)

lemma inSync_dispatchLoop:
  "inSync J R e \<Longrightarrow> inSync J R (fst (dispatchLoop clk k jids e out p err))"
proof (induction jids arbitrary: k e out p err)
  case (Cons jid jids)
  obtain e1 res where st: "dispatchStep clk k jid e = (e1, res)" by fastforce
  have "inSync J R e1" by (rule inSync_dispatchStep [OF Cons.prems st])
  then show ?case using Cons.IH st by (simp split: dispatchOutcome.splits)
qed simp

lemma inSync_DispatchOnce: "inSync J R e \<Longrightarrow> inSync J R (fst (DispatchOnce clk e))"
  using inSync_dispatchLoop [of J R e clk 0 "map job_ID (dispatchOrder e)" "[]" False None]
  by (auto simp: DispatchOnce_def split: prod.splits)

lemma inSync_CancelJob:
  assumes i: "inSync J R e" and p: "eng_pending e = None" and c: "CancelJob jid now e = Some (e', err)"
  shows "inSync J R e'"
proof (cases "\<exists>j. getJob e jid = Some j \<and> waiting (job_Status j)")
  case True
  then obtain j where j: "getJob e jid = Some j" "waiting (job_Status j)" by blast
  define j1 where "j1 = j\<lparr>job_Status := StatusCancelled, job_AssignedRobot := [], job_CompletedAtMs := unixMilli now\<rparr>"
  obtain e2 je where p2: "persistJobLocked j1 (setJob j1 (beginBatchLocked e)) = (e2, je)" by fastforce
  have i2: "inSync J R e2" by (rule inSync_jobWritten(1) [OF inSync_begin [OF i p] p2])
  obtain e3 re e4 ce where r: "refreshBlocked e2 = Some (e3, re)" "commitBatchLocked e3 = (e4, ce)"
      "e' = recordPersistOutcome [je, re, ce] e4"
    using c j p2 by (cases "job_Status j") (auto simp: CancelJob_def j1_def Let_def split: option.splits prod.splits)
  show ?thesis using inSync_commit [OF inSync_refresh [OF r(1) i2] r(2)] r(3) by simp
next
  case False
  show ?thesis
  proof (cases "getJob e jid")
    case (Some j)
    then have "\<not> waiting (job_Status j)" using False by blast
    then show ?thesis using c i Some by (cases "job_Status j") (auto simp: CancelJob_def)
  qed (use c i in \<open>simp add: CancelJob_def\<close>)
qed

lemma inSync_CompleteJob:
  assumes i: "inSync J R e" and p: "eng_pending e = None"
    and c: "CompleteJobAttempt jid success rid attempt now e = Some (e', err, ev)"
  shows "inSync J R e'"
proof (cases "reportError jid rid attempt e = None \<and> getRobot e rid \<noteq> None")
  case True
  then obtain j robot where j: "getJob e jid = Some j" "inFlight (job_Status j)" "rid = job_AssignedRobot j"
      "attempt = 0 \<or> attempt = job_Attempt j" "getRobot e (job_AssignedRobot j) = Some robot"
    by (auto simp: reportError_def split: option.splits if_splits)
  let ?r1 = "robot\<lparr>rob_Load := rob_Load robot + 1\<rparr>"
  let ?j1 = "j\<lparr>job_CompletedAtMs := unixMilli now,
      job_Status := (if success then StatusDone else StatusFailed)\<rparr>"
  let ?e3 = "emitLocked (if success then EventDone else EventFailed) ?j1
      (setJob ?j1 (setRobot ?r1 (beginBatchLocked e)))"
  obtain active e4 where a: "robotHasActiveAssignmentLocked (rob_ID robot) ?e3 = (active, e4)" by fastforce
  have e4: "e4 = snd (robotHasActiveAssignmentLocked (rob_ID robot) ?e3)" by (simp add: a)
  let ?r2 = "if \<not> active \<and> \<not> rob_selfReportedUnavailable robot then ?r1\<lparr>rob_Available := True\<rparr> else ?r1"
  obtain e6 je where 6: "persistJobLocked ?j1 (setRobot ?r2 e4) = (e6, je)" by fastforce
  obtain e7 re where 7: "persistRobotLocked ?r2 e6 = (e7, re)" by fastforce
  have eq: "(case refreshBlocked e7 of None \<Rightarrow> None
      | Some (e8, fe) \<Rightarrow> (let (e9, ce) = commitBatchLocked e8
          in Some (recordPersistOutcome [je, re, fe, ce] e9, None,
               productionEventLocked ?j1 (setJob ?j1 (setRobot ?r1 (beginBatchLocked e)))))) = Some (e', err, ev)"
  proof -
    have "\<not> (job_Status j \<noteq> StatusAssigned \<and> job_Status j \<noteq> StatusUnknown)"
      "\<not> (attempt \<noteq> 0 \<and> attempt \<noteq> job_Attempt j)" "\<not> rid \<noteq> job_AssignedRobot j"
      using j by (cases "job_Status j"; simp)+
    moreover have robLoad: "rob_selfReportedUnavailable ?r1 = rob_selfReportedUnavailable robot" by simp
    ultimately show ?thesis
      using c by (simp only: CompleteJobAttempt_def j(1,5) option.case if_False Let_def a 6 7 prod.case robLoad)
  qed
  then obtain e8 fe where f8: "refreshBlocked e7 = Some (e8, fe)" by (auto split: option.splits)
  obtain e9 ce where c9: "commitBatchLocked e8 = (e9, ce)" by fastforce
  have 8: "refreshBlocked e7 = Some (e8, fe)" "commitBatchLocked e8 = (e9, ce)"
      "e' = recordPersistOutcome [je, re, fe, ce] e9"
    using eq f8 c9 by (simp_all add: Let_def)
  have rid: "rob_ID ?r1 = rob_ID robot" "rob_ID ?r2 = rob_ID robot" by simp_all
  have "inSync (insert (job_ID ?j1) J) (insert (rob_ID ?r1) R) ?e3"
    using inSync_setJob [OF inSync_setRobot [OF inSync_begin [OF i p], of ?r1], of ?j1] by simp
  then have "inSync (insert (job_ID ?j1) J) (insert (rob_ID ?r2) (insert (rob_ID ?r1) R)) (setRobot ?r2 e4)"
    unfolding e4 by (intro inSync_setRobot) simp
  from inSync_persistJob [OF this _ 6]
  have i6: "inSync (insert (job_ID ?j1) J - {job_ID ?j1}) (insert (rob_ID ?r2) (insert (rob_ID ?r1) R)) e6"
    by (simp add: e4)
  have "getRobot e6 (rob_ID ?r2) = Some ?r2" using arg_cong [OF 6, of fst] by auto
  from inSync_persistRobot [OF i6 this 7] have "inSync J R e7" by (auto simp: rid intro: inSync_mono)
  from inSync_commit [OF inSync_refresh [OF 8(1) this] 8(2)] show ?thesis by (simp add: 8(3))
next
  case False
  then have "e' = e" using c unfolding CompleteJobAttempt_def reportError_def
    by (auto split: option.splits if_splits)
  then show ?thesis using i by simp
qed

lemma inSync_ArchiveFinished:
  assumes i: "inSync {} {} e" and p: "eng_pending e = None"
  shows "inSync {} {} (fst (ArchiveFinished now e))"
proof -
  obtain s where s: "eng_store e = Some (store_of s)" "good s"
    "\<And>x. job_view s x = map_option (\<lambda>j. jform (jobRecord j)) (getJob e x)"
    "\<And>x. robot_view s x = map_option rform (getRobot e x)"
    using i p unfolding inSync_def by auto
  let ?ids = "archiveLoop (go_vals (eng_jobs e)) (candidates (unixMilli now - milliseconds (eng_archiveAfter e)) (eng_jobs e))"
  show ?thesis
  proof (cases "sv_ArchiveJobs (store_of s) = None \<or> eng_archiveAfter e \<le> 0 \<or> ?ids = []")
    case True
    then have "fst (ArchiveFinished now e) = e"
      using s(1) by (cases "sv_ArchiveJobs (store_of s)") (auto simp: ArchiveFinished_def Let_def)
    then show ?thesis using i by simp
  next
    case False
    then obtain arch where ar: "sv_ArchiveJobs (store_of s) = Some arch" by auto
    obtain s' err where w: "arch s ?ids (unixMilli now) = (s', err)" by fastforce
    note v = archive_jobs [OF s(2) ar w]
    let ?e1 = "e\<lparr>eng_store := Some (store_of s')\<rparr>"
    show ?thesis
    proof (cases err)
      case (Some x)
      have "inSync {} {} ?e1" unfolding inSync_def using i v s(3,4) Some p by (auto simp: inSync_def)
      then show ?thesis using False ar w s(1) Some by (simp add: ArchiveFinished_def Let_def state_of)
    next
      case None
      let ?e2 = "fold archiveRemove ?ids ?e1"
      have f: "eng_robots ?e2 = eng_robots e" "eng_pending ?e2 = None" "eng_store ?e2 = Some (store_of s')"
        using fold_archiveRemove_frame [of ?ids ?e1] p by simp_all
      have wf: "go_wf job_ID (eng_jobs (fold archiveRemove xs e0))" if "go_wf job_ID (eng_jobs e0)" for xs and e0 :: "'s engine"
        using that by (induction xs arbitrary: e0) (auto simp: archiveRemove_wf)
      have "go_wf job_ID (eng_jobs ?e2)" by (rule wf) (use inSync_wf(1) [OF i] in simp)
      moreover have "getJob ?e2 x = (if x \<in> set ?ids then None else getJob e x)" for x
        by (simp add: fold_archiveRemove_jobs)
      ultimately have "inSync {} {} ?e2"
        unfolding inSync_def using inSync_wf(2) [OF i] f v s(3,4) None by auto
      then show ?thesis using False ar w s(1) None by (simp add: ArchiveFinished_def Let_def state_of)
    qed
  qed
qed

subsection \<open>A run of the service\<close>

lemma inSync_settings [simp]:
  "inSync J R (SetToolCatalog c e) = inSync J R e" "inSync J R (SetRobotFreshness d e) = inSync J R e"
  "inSync J R (SetReplan rc e) = inSync J R e" "inSync J R (SetArchiveAfter d e) = inSync J R e"
  "inSync J R (SetProductionEvents on e) = inSync J R e" "inSync J R (SetEvents h e) = inSync J R e"
  "inSync J R (SetETA ec e) = inSync J R e"
  "inSync J R (fst (SetLocationCosts lc e)) = inSync J R e"
  "inSync J R (fst (SetToolConfirmation cfg hf e)) = inSync J R e"
  "inSync J R (fst (confirmRecord fetch ids now e)) = inSync J R e"
  "inSync J R (snd (JobsPageFor rid status offset limit e)) = inSync J R e"
  by (rule inSync_cong; auto simp: SetToolCatalog_def SetRobotFreshness_def SetReplan_def SetArchiveAfter_def
      SetProductionEvents_def SetEvents_def SetETA_def SetLocationCosts_def SetToolConfirmation_def
      confirmRecord_def JobsPageFor_def Let_def case_prod_unfold split: option.splits)+

lemma inSync_step:
  assumes "engine_step e e'" and i: "inSync {} {} e" and p: "eng_pending e = None"
  shows "inSync {} {} e'"
  using assms(1)
proof cases
  case (submit j now r)
  then show ?thesis using inSync_SubmitJob [OF i] by blast
next
  case (complete jid success rid attempt now err ev)
  then show ?thesis using inSync_CompleteJob [OF i p] by blast
next
  case (cancel jid now err)
  then show ?thesis using inSync_CancelJob [OF i p] by blast
qed (use i p in \<open>simp_all add: inSync_AddJob inSync_DispatchOnce inSync_RequeueJob inSync_ReplanRobot inSync_AckStop
      inSync_sweep inSync_ArchiveFinished inSync_RemoveRobot inSync_upsertRobot UpdateRobot_def UpsertRobot_def\<close>)

lemma inSync_run:
  assumes "reachable e0 e" and "engine_ok e0" and "inSync {} {} e0"
  shows "inSync {} {} e"
  using assms
proof (induction rule: reachable.induct)
  case start
  then show ?case by simp
next
  case (step e e')
  have "eng_pending e = None" using engine_okD(3) [OF reachable_ok [OF step.hyps(1)]] step.prems by simp
  then show ?case using inSync_step [OF step.hyps(2)] step.IH step.prems by simp
qed

end

end
