(* ===== verification/Durability.thy ===== *)
theory Durability
  imports Dispatch SqliteStore
begin

section \<open>What a crash leaves behind\<close>

text \<open>
  The order of the writes of a scheduling pass, seen through the contract of the store: the robot
  is reserved durably before its job is, and an assignment is returned only when both are durable.
  The lemmas are proved once for every store that keeps the contract and stores the status, the
  robot and the availability as they are; the SQLite store is one. Every fault of the store is
  allowed, so a crash before the \<open>n\<close>-th write is the case where all writes from the \<open>n\<close>-th on fail.
\<close>

text \<open>The engine writes to a store with these methods, which is in state \<open>s\<close>.\<close>

definition writesTo ::
  "('s \<Rightarrow> JobRecord \<Rightarrow> 's \<times> serror option) \<Rightarrow> ('s \<Rightarrow> robot \<Rightarrow> 's \<times> serror option) \<Rightarrow> 's engine \<Rightarrow> 's \<Rightarrow> bool"
where
  "writesTo sj sr e s \<longleftrightarrow>
     (\<exists>sv. eng_store e = Some sv \<and> sv_SaveJob sv = sj \<and> sv_SaveRobot sv = sr \<and> sv_state sv = s)"

text \<open>
  Every durably assigned job has a durable reservation of its robot, and the engine does not offer
  that robot work.
\<close>

definition reservedDurably ::
  "(string \<Rightarrow> JobRecord option) \<Rightarrow> (string \<Rightarrow> robot option) \<Rightarrow> 's engine \<Rightarrow> bool" where
  "reservedDurably jv rv e \<longleftrightarrow>
     (\<forall>jid r. jv jid = Some r \<longrightarrow> job_Status (rec_Job r) = StatusAssigned \<longrightarrow>
        (\<exists>b. rv (job_AssignedRobot (rec_Job r)) = Some b \<and> \<not> rob_Available b)
      \<and> (\<forall>b. getRobot e (job_AssignedRobot (rec_Job r)) = Some b \<longrightarrow> \<not> rob_Available b))"

lemma reservedDurably_cong:
  "eng_robots e' = eng_robots e \<Longrightarrow> reservedDurably jv rv e' = reservedDurably jv rv e"
  by (simp add: reservedDurably_def)

lemma persistJob_writes:
  assumes "writesTo sj sr e s" and "eng_pending e = None" and "persistJobLocked j e = (e', err)"
  shows "\<exists>s'. sj s (jobRecord j) = (s', err) \<and> writesTo sj sr e' s'"
  using assms by (auto simp: writesTo_def persistJobLocked_def split: prod.splits)

lemma persistRobot_writes:
  assumes "writesTo sj sr e s" and "eng_pending e = None" and "persistRobotLocked r e = (e', err)"
  shows "\<exists>s'. sr s r = (s', err) \<and> writesTo sj sr e' s'"
  using assms by (auto simp: writesTo_def persistRobotLocked_def split: prod.splits)

lemma writesTo_cong: "eng_store e' = eng_store e \<Longrightarrow> writesTo sj sr e' s = writesTo sj sr e s"
  by (simp add: writesTo_def)

locale dispatch_store = durable_store +
  assumes jform_job: "job_Status (rec_Job (jform r)) = job_Status (rec_Job r)"
      "job_AssignedRobot (rec_Job (jform r)) = job_AssignedRobot (rec_Job r)"
    and rform_robot: "rob_Available (rform b) = rob_Available b"
begin

text \<open>The three writes of a step and what each keeps.\<close>

lemma reserve_robot:
  assumes "reservedDurably (job_view s) (robot_view s) e" and "save_robot s b = (s', err)"
    and "\<not> rob_Available b"
    and "\<And>x. getRobot e' x = getRobot e x \<or> x = rob_ID b \<and> getRobot e' x = Some b"
  shows "reservedDurably (job_view s') (robot_view s') e'"
proof -
  have v: "job_view s' = job_view s"
    "robot_view s' = (if err = None then (robot_view s)(rob_ID b \<mapsto> rform b) else robot_view s)"
    using job_view_save_robot [of s b] robot_view_save_robot [of s b] assms(2) by simp_all
  have "(\<exists>b'. robot_view s' x = Some b' \<and> \<not> rob_Available b') \<and> (\<forall>b'. getRobot e' x = Some b' \<longrightarrow> \<not> rob_Available b')"
    if "\<exists>b'. robot_view s x = Some b' \<and> \<not> rob_Available b'" "\<forall>b'. getRobot e x = Some b' \<longrightarrow> \<not> rob_Available b'" for x
    using that assms(3) assms(4) [of x] v(2) rform_robot [of b] by (auto split: if_splits)
  then show ?thesis using assms(1) unfolding reservedDurably_def v(1) by blast
qed

lemma release_robot:
  assumes "reservedDurably (job_view s) (robot_view s) e" and "save_robot s b = (s', err)"
    and "\<And>jid r. job_view s jid = Some r \<Longrightarrow> job_Status (rec_Job r) = StatusAssigned \<Longrightarrow>
        job_AssignedRobot (rec_Job r) \<noteq> rob_ID b"
    and "\<And>x. x \<noteq> rob_ID b \<Longrightarrow> getRobot e' x = getRobot e x"
  shows "reservedDurably (job_view s') (robot_view s') e'"
proof -
  have v: "job_view s' = job_view s" "x \<noteq> rob_ID b \<Longrightarrow> robot_view s' x = robot_view s x" for x
    using job_view_save_robot [of s b] robot_view_save_robot [of s b] assms(2) by (simp_all split: if_splits)
  have "robot_view s' (job_AssignedRobot (rec_Job r)) = robot_view s (job_AssignedRobot (rec_Job r))
      \<and> getRobot e' (job_AssignedRobot (rec_Job r)) = getRobot e (job_AssignedRobot (rec_Job r))"
    if "job_view s jid = Some r" "job_Status (rec_Job r) = StatusAssigned" for jid r
    using assms(3) [OF that] v(2) assms(4) by simp
  then show ?thesis using assms(1) unfolding reservedDurably_def v(1) by simp
qed

lemma assign_job:
  assumes "reservedDurably (job_view s) (robot_view s) e" and "save_job s (jobRecord j) = (s', err)"
    and "robot_view s (job_AssignedRobot j) = Some b" and "\<not> rob_Available b"
    and "\<And>b'. getRobot e (job_AssignedRobot j) = Some b' \<Longrightarrow> \<not> rob_Available b'"
  shows "reservedDurably (job_view s') (robot_view s') e"
proof -
  have v: "robot_view s' = robot_view s"
    "job_view s' = (if err = None then (job_view s)(job_ID j \<mapsto> jform (jobRecord j)) else job_view s)"
    using robot_view_save_job [of s "jobRecord j"] job_view_save_job [of s "jobRecord j"] assms(2) by simp_all
  have "(\<exists>b. robot_view s (job_AssignedRobot (rec_Job r)) = Some b \<and> \<not> rob_Available b)
      \<and> (\<forall>b. getRobot e (job_AssignedRobot (rec_Job r)) = Some b \<longrightarrow> \<not> rob_Available b)"
    if "job_view s' jid = Some r" "job_Status (rec_Job r) = StatusAssigned" for jid r
  proof (cases "job_view s jid = Some r")
    case True
    then show ?thesis using assms(1) that(2) unfolding reservedDurably_def by blast
  next
    case False
    then have "r = jform (jobRecord j)" using that(1) v(2) by (auto split: if_splits)
    then show ?thesis using assms(3-5) jform_job(2) [of "jobRecord j"] by auto
  qed
  then show ?thesis unfolding reservedDurably_def v(1) by blast
qed

text \<open>One step of the pass: three writes at most, each with its effect on both sides.\<close>

lemma dispatch_step:
  assumes ok: "engine_ok e" and j: "getJob e jid = Some j"
    and w: "writesTo save_job save_robot e s" and r: "reservedDurably (job_view s) (robot_view s) e"
    and st: "dispatchStep clk k jid e = (e', out)"
  shows "\<exists>s'. writesTo save_job save_robot e' s' \<and> reservedDurably (job_view s') (robot_view s') e'
    \<and> (\<forall>x. x \<noteq> jid \<longrightarrow> job_view s' x = job_view s x)
    \<and> (\<forall>a. out = Given a \<longrightarrow> (\<exists>j'. getJob e' jid = Some j' \<and> job_view s' jid = Some (jform (jobRecord j'))))"
proof (cases "bestRobotFor e j (clk (2 * k))")
  case None
  then have "e' = e" "out = NoRobot" using st dispatchStep_none [where clk = clk and k = k, OF j None] by auto
  then show ?thesis using w r by blast
next
  case (Some robot)
  note b = engine_okD(1) [OF ok] and p = engine_okD(3) [OF ok]
  have rob: "getRobot e (rob_ID robot) = Some robot" "rob_Available robot"
    using bestRobotFor_get [OF Some base_robots_wf [OF b]] .
  have jid: "job_ID j = jid" using b j by (rule base_job_ID)
  let ?busy = "robot\<lparr>rob_Available := False\<rparr>"
  let ?e0 = "setRobot ?busy e"
  obtain e1 err1 where p1: "persistRobotLocked ?busy ?e0 = (e1, err1)" by fastforce
  have f1: "eng_jobs e1 = eng_jobs e" "eng_robots e1 = eng_robots ?e0" "eng_pending e1 = None"
    using arg_cong [OF p1, of fst] p by auto
  obtain s1 where s1: "save_robot s ?busy = (s1, err1)" "writesTo save_job save_robot e1 s1"
    using persistRobot_writes [OF _ _ p1, of save_job save_robot s] w p by (auto simp: writesTo_def)
  have v1: "job_view s1 = job_view s" using job_view_save_robot [of s ?busy] s1(1) by simp
  have r1: "reservedDurably (job_view s1) (robot_view s1) e1"
    by (rule reserve_robot [OF r s1(1)]) (use f1(2) in auto)
  show ?thesis
  proof (cases err1)
    case (Some x)
    then have e': "e' = setRobot robot e1" "out = WriteFailed x"
      using st j \<open>bestRobotFor e j _ = Some robot\<close> p1 by (auto simp: dispatchStep_def Let_def)
    have "robot_view s1 = robot_view s" using robot_view_save_robot [of s ?busy] s1(1) Some by simp
    moreover have "eng_robots e' = eng_robots e"
      using e' f1(2) put_same [OF go_wf_distinct [OF base_robots_wf [OF b]] rob(1)] by (simp add: setRobot_def)
    ultimately have "reservedDurably (job_view s1) (robot_view s1) e'"
      using r v1 by (simp add: reservedDurably_def)
    then show ?thesis using e' s1(2) v1 by (intro exI [where x = s1]) (simp add: writesTo_def)
  next
    case None
    have rv1: "robot_view s1 (rob_ID robot) = Some (rform ?busy)"
      using robot_view_save_robot [of s ?busy] s1(1) None by simp
    define j1 where "j1 = j\<lparr>job_Status := StatusAssigned, job_AssignedRobot := rob_ID robot\<rparr>"
    define e2 where "e2 = noteAssignedLocked j1 (setJob j1 e1)"
    define j2 where "j2 = j1\<lparr>job_Attempt := job_Attempt j1 + 1, job_AssignedAtMs := unixMilli (clk (2 * k + 1))\<rparr>"
    obtain e3 err3 where p3: "persistJobLocked j2 (setJob j2 e2) = (e3, err3)" by fastforce
    have j2: "job_ID j2 = jid" "job_AssignedRobot j2 = rob_ID robot" by (simp_all add: j2_def j1_def jid)
    have f2: "writesTo save_job save_robot (setJob j2 e2) s1" "eng_pending (setJob j2 e2) = None"
      "eng_robots (setJob j2 e2) = eng_robots e1"
      using s1(2) f1(3) by (simp_all add: e2_def writesTo_def)
    have f3: "eng_robots e3 = eng_robots e1" "eng_pending e3 = None" "getJob e3 jid = Some j2"
      using arg_cong [OF p3, of fst] f2 j2(1) by auto
    obtain s3 where s3: "save_job s1 (jobRecord j2) = (s3, err3)" "writesTo save_job save_robot e3 s3"
      using persistJob_writes [OF f2(1,2) p3] by blast
    have busy: "getRobot e1 (rob_ID robot) = Some ?busy" using f1(2) by simp
    have v3: "job_view s3 = (if err3 = None then (job_view s1)(jid \<mapsto> jform (jobRecord j2)) else job_view s1)"
      using job_view_save_job [of s1 "jobRecord j2"] s3(1) j2(1) by (simp add: jobRecord_def)
    show ?thesis
    proof (cases err3)
      case None
      then have e': "e' = emitLocked EventAssigned j2 e3"
        using st j \<open>bestRobotFor e j _ = Some robot\<close> p1 \<open>err1 = None\<close> p3
        by (auto simp: dispatchStep_def Let_def j2_def j1_def e2_def)
      have "reservedDurably (job_view s3) (robot_view s3) e1"
        by (rule assign_job [OF r1 s3(1), of "rform ?busy"]) (use j2(2) rv1 busy rform_robot [of ?busy] in auto)
      then have "reservedDurably (job_view s3) (robot_view s3) e'"
        using e' f3(1) by (simp add: reservedDurably_def)
      then show ?thesis
        using e' s3(2) v3 v1 None f3(3) by (intro exI [where x = s3]) (simp add: writesTo_def)
    next
      case (Some x)
      define j3 where "j3 = j2\<lparr>job_Status := StatusPending, job_AssignedRobot := [],
          job_Attempt := job_Attempt j2 - 1, job_AssignedAtMs := job_AssignedAtMs j\<rparr>"
      let ?e4 = "setRobot robot (setJob j3 e3)"
      obtain e5 err5 where p5: "persistRobotLocked robot ?e4 = (e5, err5)" by fastforce
      have e': "e' = e5" "\<forall>a. out \<noteq> Given a"
        using st j \<open>bestRobotFor e j _ = Some robot\<close> p1 \<open>err1 = None\<close> p3 Some p5
        by (auto simp: dispatchStep_def Let_def j3_def j2_def j1_def e2_def)
      have w4: "writesTo save_job save_robot ?e4 s3" "eng_pending ?e4 = None"
        using s3(2) f3(2) by (simp_all add: writesTo_def)
      obtain s5 where s5: "save_robot s3 robot = (s5, err5)" "writesTo save_job save_robot e5 s5"
        using persistRobot_writes [OF w4 p5] by blast
      have r3: "reservedDurably (job_view s3) (robot_view s3) e1"
        using r1 v3 Some robot_view_save_job [of s1 "jobRecord j2"] s3(1) by (simp add: reservedDurably_def)
      have "eng_robots e5 = eng_robots ?e4" using arg_cong [OF p5, of fst] by auto
      then have other: "getRobot e5 x = getRobot e1 x" if "x \<noteq> rob_ID robot" for x using that f3(1) by simp
      have free: "job_AssignedRobot (rec_Job rr) \<noteq> rob_ID robot"
        if "job_view s3 y = Some rr" "job_Status (rec_Job rr) = StatusAssigned" for y rr
      proof -
        have "job_view s y = Some rr" using that(1) v3 v1 Some by simp
        then show ?thesis using r rob that(2) unfolding reservedDurably_def by metis
      qed
      have "reservedDurably (job_view s5) (robot_view s5) e5"
        by (rule release_robot [OF r3 s5(1) free other])
      moreover have "job_view s5 = job_view s" using job_view_save_robot [of s3 robot] s5(1) v3 v1 Some by simp
      ultimately show ?thesis using e' s5(2) by (intro exI [where x = s5]) simp
    qed
  qed
qed

text \<open>
  The pass: the jobs it returns are durable as they are in memory, those of earlier steps included.
\<close>

definition givenDurably :: "'a \<Rightarrow> 'a engine \<Rightarrow> Assignment \<Rightarrow> bool" where
  "givenDurably s e a \<longleftrightarrow>
     (\<exists>j. getJob e (asg_JobID a) = Some j \<and> job_view s (asg_JobID a) = Some (jform (jobRecord j)))"

lemma dispatch_loop:
  assumes "engine_ok e" and "distinct jids" and "allPending e jids"
    and "dispatchLoop clk k jids e out p err = (e', out', p', err')"
    and "writesTo save_job save_robot e s" and "reservedDurably (job_view s) (robot_view s) e"
    and "\<forall>a \<in> set out. asg_JobID a \<notin> set jids \<and> givenDurably s e a"
  shows "\<exists>s'. writesTo save_job save_robot e' s' \<and> reservedDurably (job_view s') (robot_view s') e'
    \<and> (\<forall>a \<in> set out'. givenDurably s' e' a)"
  using assms
proof (induction jids arbitrary: k e out p err s)
  case Nil
  then show ?case by auto
next
  case (Cons jid jids)
  obtain j where j: "getJob e jid = Some j" "job_Status j = StatusPending"
    using Cons.prems(3) by (auto simp: allPending_def)
  obtain e1 res where st: "dispatchStep clk k jid e = (e1, res)" by fastforce
  note so = dispatchStep_ok [OF Cons.prems(1) j st]
  have d: "jid \<notin> set jids" "distinct jids" using Cons.prems(2) by simp_all
  have ap: "allPending e1 jids"
    using allPending_other [OF _ so(3) d(1)] Cons.prems(3) by (simp add: allPending_def)
  obtain s1 where s1: "writesTo save_job save_robot e1 s1" "reservedDurably (job_view s1) (robot_view s1) e1"
      "\<forall>x. x \<noteq> jid \<longrightarrow> job_view s1 x = job_view s x"
      "\<forall>a. res = Given a \<longrightarrow> (\<exists>j'. getJob e1 jid = Some j' \<and> job_view s1 jid = Some (jform (jobRecord j')))"
    using dispatch_step [OF Cons.prems(1) j(1) Cons.prems(5,6) st] by blast
  have g: "\<forall>a \<in> set out. asg_JobID a \<notin> set jids \<and> givenDurably s1 e1 a"
    using Cons.prems(7) so(3) s1(3) by (auto simp: givenDurably_def)
  show ?case
  proof (cases res)
    case NoRobot
    then have l: "dispatchLoop clk (Suc k) jids e1 out p err = (e', out', p', err')"
      using Cons.prems(4) st by simp
    show ?thesis by (rule Cons.IH [OF so(1) d(2) ap l s1(1,2) g])
  next
    case (WriteFailed x)
    then have l: "dispatchLoop clk (Suc k) jids e1 out True (Some x) = (e', out', p', err')"
      using Cons.prems(4) st by simp
    show ?thesis by (rule Cons.IH [OF so(1) d(2) ap l s1(1,2) g])
  next
    case (Given a)
    then have l: "dispatchLoop clk (Suc k) jids e1 (out @ [a]) True err = (e', out', p', err')"
      using Cons.prems(4) st by simp
    have "\<forall>b \<in> set (out @ [a]). asg_JobID b \<notin> set jids \<and> givenDurably s1 e1 b"
      using g so(6) [OF Given] s1(4) Given d(1) by (auto simp: givenDurably_def)
    then show ?thesis by (rule Cons.IH [OF so(1) d(2) ap l s1(1,2)])
  qed
qed

lemma DispatchOnce_durable:
  assumes ok: "engine_ok e" and "DispatchOnce clk e = (e', out)"
    and w: "writesTo save_job save_robot e s" and r: "reservedDurably (job_view s) (robot_view s) e"
  shows "\<exists>s'. writesTo save_job save_robot e' s' \<and> reservedDurably (job_view s') (robot_view s') e'
    \<and> (\<forall>a \<in> set out. givenDurably s' e' a)"
proof -
  note b = engine_okD(1) [OF ok]
  obtain e1 out1 p err where l: "dispatchLoop clk 0 (map job_ID (dispatchOrder e)) e [] False None
      = (e1, out1, p, err)" by (metis prod_cases4)
  then have e': "e' = (if p then recordPersistOutcome [err] e1 else e1)" "out = out1"
    using assms(2) by (auto simp: DispatchOnce_def)
  have "\<exists>s'. writesTo save_job save_robot e1 s' \<and> reservedDurably (job_view s') (robot_view s') e1
    \<and> (\<forall>a \<in> set out. givenDurably s' e1 a)"
    using dispatch_loop [OF ok distinct_dispatchOrder [OF b] allPending_dispatchOrder [OF b] l w r] e'(2)
    by simp
  then show ?thesis using e'(1) by (simp add: writesTo_def reservedDurably_def givenDurably_def)
qed

end

subsection \<open>The SQLite store\<close>

interpretation sqlDispatch: dispatch_store "saveJob flt" "saveRobot flt" jobView robotView storedJob storedRobot
  for flt
  by unfold_locales
     (simp_all add: storedJob_def rowToJob_def jobToRow_def storedRobot_def rowToRobot_def robotToRow_def Let_def)

end
