(* ===== verification/SqliteRestart.thy ===== *)
theory SqliteRestart
  imports MirrorSteps Durability
begin

section \<open>The SQLite store is a reliable store\<close>

text \<open>
  When no statement fails, the SQLite store keeps the contract of a reliable store, and a database
  with keyed tables loads as what its views show. Restarting on a mirror of the engine gives the
  engine's queue back.
\<close>

definition noFaults :: faults where
  "noFaults = (\<lambda>_. None)"

definition dbWf :: "sqldb \<Rightarrow> bool" where
  "dbWf db \<longleftrightarrow> go_wf row_id (db_jobs db) \<and> go_wf rrow_id (db_robots db)"

lemma exec_noFaults: "exec noFaults f db = (f (db\<lparr>db_stmts := Suc (db_stmts db)\<rparr>), None)"
  by (simp add: exec_def noFaults_def)

lemma dbWf_stmts [simp]: "dbWf (db\<lparr>db_stmts := n\<rparr>) = dbWf db"
  by (simp add: dbWf_def)

lemma dbWf_saveJob: "dbWf db \<Longrightarrow> dbWf (fst (saveJob noFaults db r)) \<and> snd (saveJob noFaults db r) = None"
  by (simp add: saveJob_def exec_noFaults dbWf_def go_wf_put jobToRow_def Let_def)

lemma dbWf_saveRobot: "dbWf db \<Longrightarrow> dbWf (fst (saveRobot noFaults db r)) \<and> snd (saveRobot noFaults db r) = None"
  by (simp add: saveRobot_def exec_noFaults dbWf_def go_wf_put robotToRow_def)

lemma txEach_noFaults:
  assumes "\<And>d x. dbWf d \<Longrightarrow> dbWf (fst (f d x)) \<and> snd (f d x) = None" and "dbWf db"
  shows "dbWf (fst (txEach f db xs)) \<and> snd (txEach f db xs) = None"
  using assms(2)
proof (induction xs arbitrary: db)
  case (Cons x xs)
  then show ?case using assms(1) [of db x] by (cases "f db x") simp
qed simp

lemma dbWf_SaveBatch:
  assumes "dbWf db"
  shows "dbWf (fst (SaveBatch noFaults db js rs)) \<and> snd (SaveBatch noFaults db js rs) = None"
proof -
  let ?db0 = "db\<lparr>db_stmts := Suc (db_stmts db)\<rparr>"
  obtain db1 where 1: "txEach (saveRobot noFaults) ?db0 rs = (db1, None)" "dbWf db1"
    using txEach_noFaults [of "saveRobot noFaults" ?db0 rs] dbWf_saveRobot assms
    by (cases "txEach (saveRobot noFaults) ?db0 rs") simp
  obtain db2 where 2: "txEach (saveJob noFaults) db1 js = (db2, None)" "dbWf db2"
    using txEach_noFaults [of "saveJob noFaults" db1 js] dbWf_saveJob 1(2)
    by (cases "txEach (saveJob noFaults) db1 js") simp
  show ?thesis using 1 2 by (simp add: SaveBatch_def exec_noFaults)
qed

lemma archiveOne_noFaults:
  assumes "dbWf db"
  shows "dbWf (fst (archiveOne noFaults ms db jid)) \<and> snd (archiveOne noFaults ms db jid) = None"
proof (cases "go_get (db_jobs db) jid")
  case (Some row)
  then have "row_id row = jid" using assms by (auto simp: dbWf_def dest: go_wf_key)
  then show ?thesis using assms Some by (simp add: archiveOne_def exec_noFaults dbWf_def go_wf_put)
qed (use assms in \<open>simp add: archiveOne_def exec_noFaults\<close>)

lemma archiveOne_view:
  assumes "0 < ms"
  shows "jobView (fst (archiveOne noFaults ms db jid)) = (jobView db)(jid := None)
       \<and> robotView (fst (archiveOne noFaults ms db jid)) = robotView db"
proof (cases "go_get (db_jobs db) jid")
  case None
  then show ?thesis by (auto simp: archiveOne_def exec_noFaults jobView_def)
next
  case (Some row)
  then show ?thesis using assms
    by (auto simp: archiveOne_def exec_noFaults jobView_put fun_eq_iff) (auto simp: jobView_def)
qed

lemma txEach_archive_view:
  assumes "0 < ms"
  shows "jobView (fst (txEach (archiveOne noFaults ms) db ids)) = (\<lambda>x. if x \<in> set ids then None else jobView db x)
       \<and> robotView (fst (txEach (archiveOne noFaults ms) db ids)) = robotView db"
proof (induction ids arbitrary: db)
  case (Cons jid ids)
  obtain db1 where 1: "archiveOne noFaults ms db jid = (db1, None)"
    by (cases "archiveOne noFaults ms db jid") (simp add: archiveOne_def exec_noFaults)
  show ?case using Cons.IH [of db1] archiveOne_view [OF assms, of db jid] 1 by (auto simp: fun_eq_iff)
qed simp

lemma ArchiveJobs_views:
  assumes wf: "dbWf db" and a: "ArchiveJobs noFaults db ids ms = (db', err)"
  shows "dbWf db' \<and> robotView db' = robotView db
       \<and> jobView db' = (if err = None then (\<lambda>x. if x \<in> set ids then None else jobView db x) else jobView db)"
proof (cases "ids = [] \<or> ms \<le> 0")
  case True
  then show ?thesis using a wf by (auto simp: ArchiveJobs_def split: if_splits)
next
  case False
  let ?db0 = "db\<lparr>db_stmts := Suc (db_stmts db)\<rparr>"
  obtain db1 where 1: "txEach (archiveOne noFaults ms) ?db0 ids = (db1, None)" "dbWf db1"
    using txEach_noFaults [of "archiveOne noFaults ms" ?db0 ids] archiveOne_noFaults wf
    by (cases "txEach (archiveOne noFaults ms) ?db0 ids") simp
  have "db' = db1\<lparr>db_stmts := Suc (db_stmts db1)\<rparr>" "err = None"
    using a False 1(1) by (simp_all add: ArchiveJobs_def exec_noFaults)
  then show ?thesis using 1 txEach_archive_view [of ms ?db0 ids] False by (simp cong: if_cong)
qed

lemma DeleteRobot_views:
  "dbWf db \<Longrightarrow> dbWf (fst (DeleteRobot noFaults db rid)) \<and> snd (DeleteRobot noFaults db rid) = None
     \<and> robotView (fst (DeleteRobot noFaults db rid)) = (robotView db)(rid := None)
     \<and> jobView (fst (DeleteRobot noFaults db rid)) = jobView db"
  by (auto simp: DeleteRobot_def exec_noFaults dbWf_def go_wf_del robotView_def fun_eq_iff)

interpretation sqlMirror: reliable_store "sqliteStore noFaults" dbWf jobView robotView storedJob storedRobot
proof unfold_locales
  fix s s' :: sqldb and sv' r b js rs rid ids ms err arch
  show "sv_state (sqliteStore noFaults s) = s" "(sqliteStore noFaults s)\<lparr>sv_state := s'\<rparr> = sqliteStore noFaults s'"
    by (simp_all add: sqliteStore_def)
  show "dbWf s \<Longrightarrow> sv_SaveJob (sqliteStore noFaults s) s r = (s', err) \<Longrightarrow>
      err = None \<and> dbWf s' \<and> jobView s' = (jobView s)(job_ID (rec_Job r) \<mapsto> storedJob r) \<and> robotView s' = robotView s"
    using dbWf_saveJob [of s r] saveJob_views [of noFaults s r s' err] by (auto simp: sqliteStore_def)
  show "dbWf s \<Longrightarrow> sv_SaveRobot (sqliteStore noFaults s) s b = (s', err) \<Longrightarrow>
      err = None \<and> dbWf s' \<and> robotView s' = (robotView s)(rob_ID b \<mapsto> storedRobot b) \<and> jobView s' = jobView s"
    using dbWf_saveRobot [of s b] saveRobot_views [of noFaults s b s' err] by (auto simp: sqliteStore_def)
  show "dbWf s \<Longrightarrow> storeBatch (sqliteStore noFaults s) js rs = (sv', err) \<Longrightarrow>
      err = None \<and> dbWf (sv_state sv') \<and> sv' = sqliteStore noFaults (sv_state sv')
    \<and> jobView (sv_state sv') = (jobView s)(map (\<lambda>r. job_ID (rec_Job r)) js [\<mapsto>] map storedJob js)
    \<and> robotView (sv_state sv') = (robotView s)(map rob_ID rs [\<mapsto>] map storedRobot rs)"
    using dbWf_SaveBatch [of s js rs] SaveBatch_ok [of noFaults s js rs "fst (SaveBatch noFaults s js rs)"]
    by (cases "SaveBatch noFaults s js rs") (auto simp: sqliteStore_def storeBatch_def)
  show "dbWf s \<Longrightarrow> \<exists>del. sv_DeleteRobot (sqliteStore noFaults s) = Some del
    \<and> dbWf (fst (del s rid)) \<and> snd (del s rid) = None
    \<and> robotView (fst (del s rid)) = (robotView s)(rid := None) \<and> jobView (fst (del s rid)) = jobView s"
    using DeleteRobot_views [of s rid] by (auto simp: sqliteStore_def)
  show "dbWf s \<Longrightarrow> sv_ArchiveJobs (sqliteStore noFaults s) = Some arch \<Longrightarrow> arch s ids ms = (s', err) \<Longrightarrow>
      dbWf s' \<and> robotView s' = robotView s
    \<and> jobView s' = (if err = None then (\<lambda>x. if x \<in> set ids then None else jobView s x) else jobView s)"
    using ArchiveJobs_views [of s ids ms s' err] by (auto simp: sqliteStore_def)
qed

subsection \<open>What is loaded is what the views show\<close>

lemma loadJobs_mem:
  assumes "dbWf db"
  shows "r \<in> set (loadJobs db) \<longleftrightarrow> jobView db (job_ID (rec_Job r)) = Some r"
proof -
  have wf: "go_wf row_id (db_jobs db)" using assms by (simp add: dbWf_def)
  have id: "job_ID (rec_Job (rowToJob row)) = row_id row" for row by (simp add: rowToJob_def)
  show ?thesis
  proof
    assume "r \<in> set (loadJobs db)"
    then obtain row where "row \<in> set (go_vals (db_jobs db))" "row_archived_at_ms row = 0" "r = rowToJob row"
      unfolding loadJobs_def by auto
    then show "jobView db (job_ID (rec_Job r)) = Some r"
      using go_wf_vals [OF wf, of row] by (simp add: id jobView_def)
  next
    assume "jobView db (job_ID (rec_Job r)) = Some r"
    then obtain row where row: "go_get (db_jobs db) (job_ID (rec_Job r)) = Some row" "row_archived_at_ms row = 0" "r = rowToJob row"
      unfolding jobView_def by (auto split: option.splits if_splits)
    then have "row \<in> set (go_vals (db_jobs db))" using go_wf_vals_ex [OF wf] by blast
    then show "r \<in> set (loadJobs db)" using row(2,3) unfolding loadJobs_def by auto
  qed
qed

lemma loadJobs_distinct:
  assumes "dbWf db"
  shows "distinct (map (\<lambda>r. job_ID (rec_Job r)) (loadJobs db))"
proof -
  have "map (\<lambda>r. job_ID (rec_Job r)) (loadJobs db)
      = map row_id (filter (\<lambda>row. row_archived_at_ms row = 0) (go_vals (db_jobs db)))"
    by (simp add: loadJobs_def rowToJob_def comp_def)
  moreover have "distinct (map row_id (go_vals (db_jobs db)))"
    using assms by (intro go_wf_vals_distinct) (simp add: dbWf_def)
  ultimately show ?thesis by (simp add: distinct_map_filter)
qed

lemma loadRobots_mem:
  assumes "dbWf db"
  shows "b \<in> set (loadRobots db) \<longleftrightarrow> robotView db (rob_ID b) = Some b"
proof -
  have wf: "go_wf rrow_id (db_robots db)" using assms by (simp add: dbWf_def)
  have id: "rob_ID (rowToRobot row) = rrow_id row" for row by (simp add: rowToRobot_def)
  show ?thesis
  proof
    assume "b \<in> set (loadRobots db)"
    then obtain row where "row \<in> set (go_vals (db_robots db))" "b = rowToRobot row"
      unfolding loadRobots_def by auto
    then show "robotView db (rob_ID b) = Some b"
      using go_wf_vals [OF wf, of row] by (simp add: id robotView_def)
  next
    assume "robotView db (rob_ID b) = Some b"
    then obtain row where row: "go_get (db_robots db) (rob_ID b) = Some row" "b = rowToRobot row"
      unfolding robotView_def by auto
    then have "row \<in> set (go_vals (db_robots db))" using go_wf_vals_ex [OF wf] by blast
    then show "b \<in> set (loadRobots db)" using row(2) unfolding loadRobots_def by auto
  qed
qed

lemma loadRobots_distinct: "dbWf db \<Longrightarrow> distinct (map rob_ID (loadRobots db))"
  using go_wf_vals_distinct [of rrow_id "db_robots db"]
  by (simp add: dbWf_def loadRobots_def rowToRobot_def comp_def)

lemma jobView_ID: "dbWf db \<Longrightarrow> jobView db x = Some r \<Longrightarrow> job_ID (rec_Job r) = x"
  by (auto simp: jobView_def rowToJob_def dbWf_def dest: go_wf_key split: option.splits if_splits)

lemma robotView_ID: "dbWf db \<Longrightarrow> robotView db x = Some b \<Longrightarrow> rob_ID b = x"
  by (auto simp: robotView_def rowToRobot_def dbWf_def dest: go_wf_key)

lemma option_ext: "(\<And>y. a = Some y \<longleftrightarrow> b = Some y) \<Longrightarrow> a = b"
  by (cases a; cases b) auto

lemma loaded_job_view:
  assumes "dbWf db"
  shows "go_get (loadedJobs (loadJobs db)) x = map_option loadedJob (jobView db x)"
proof (rule option_ext)
  fix j
  have "go_get (loadedJobs (loadJobs db)) x = Some j \<longleftrightarrow>
      (\<exists>r. jobView db (job_ID (rec_Job r)) = Some r \<and> job_ID (rec_Job r) = x \<and> loadedJob r = j)"
    by (simp add: get_loadedJobs [OF loadJobs_distinct [OF assms]] loadJobs_mem [OF assms] Bex_def)
  also have "\<dots> \<longleftrightarrow> map_option loadedJob (jobView db x) = Some j"
    using jobView_ID [OF assms] by auto
  finally show "go_get (loadedJobs (loadJobs db)) x = Some j \<longleftrightarrow> map_option loadedJob (jobView db x) = Some j" .
qed

lemma loaded_robot_view:
  assumes "dbWf db"
  shows "go_get (loadedRobots (loadRobots db)) x = robotView db x"
proof (rule option_ext)
  fix b
  show "go_get (loadedRobots (loadRobots db)) x = Some b \<longleftrightarrow> robotView db x = Some b"
    using robotView_ID [OF assms, of x b]
    by (auto simp: get_loadedRobots [OF loadRobots_distinct [OF assms]] loadRobots_mem [OF assms])
qed

text \<open>Writing and reading a record back changes nothing that was kept.\<close>

lemma loaded_stored: "loadedJob (storedJob (jobRecord j)) = j"
  by (simp add: loadedJob_def storedJob_simp jobRecord_def)

lemma stored_loaded: "storedJob (jobRecord (loadedJob (rowToJob row))) = rowToJob row"
  by (simp add: loadedJob_def storedJob_simp jobRecord_def rowToJob_def)

lemma storedRobot_idem: "storedRobot (rowToRobot row) = rowToRobot row"
  by (auto simp: storedRobot_def rowToRobot_def robotToRow_def heartbeatNanos_def)

lemma start_inSync:
  assumes wf: "dbWf db" and n: "NewEngineWithStore (sqliteStore noFaults db) = Inr e"
  shows "sqlMirror.inSync {} {} e"
proof -
  have l: "sv_LoadAll (sqliteStore noFaults db) (sv_state (sqliteStore noFaults db)) = Inr (loadJobs db, loadRobots db)"
    by (simp add: sqliteStore_def LoadAll_def noFaults_def)
  note f = NewEngineWithStore_loads [OF l n]
  have "go_wf job_ID (fold (\<lambda>r. go_put (job_ID (rec_Job r)) (loadedJob r)) rs m)" if "go_wf job_ID m" for rs m
    using that by (induction rs arbitrary: m) (simp_all add: go_wf_put)
  then have wj: "go_wf job_ID (loadedJobs (loadJobs db))" by (simp add: loadedJobs_def)
  have "go_wf rob_ID (fold (\<lambda>r. go_put (rob_ID r) r) rs m)" if "go_wf rob_ID m"
    for rs :: "robot list" and m
    using that by (induction rs arbitrary: m) (simp_all add: go_wf_put)
  then have wr: "go_wf rob_ID (loadedRobots (loadRobots db))" by (simp add: loadedRobots_def)
  have "jobView db x = map_option (\<lambda>j. storedJob (jobRecord j)) (go_get (loadedJobs (loadJobs db)) x)" for x
    by (auto simp: loaded_job_view [OF wf] jobView_def stored_loaded split: option.splits)
  moreover have "robotView db x = map_option storedRobot (go_get (loadedRobots (loadRobots db)) x)" for x
    by (auto simp: loaded_robot_view [OF wf] robotView_def storedRobot_idem option.map_comp comp_def)
  ultimately show ?thesis
    unfolding sqlMirror.inSync_def using f wf wj wr by auto
qed

subsection \<open>Restarting on a mirror\<close>

lemma computeStatus_ext:
  assumes "\<And>x. go_get m' x = go_get m x"
  shows "computeStatus m' j = computeStatus m j"
proof -
  have "computeStatusLoop m' b deps = computeStatusLoop m b deps" for b deps
    by (induction deps arbitrary: b) (simp_all add: assms split: option.splits)
  then show ?thesis by (simp add: computeStatus_def)
qed

lemma queue_ext:
  assumes "\<And>x. go_get m' x = go_get m x" and "go_wf job_ID m'"
  shows "queue_ok m \<Longrightarrow> queue_ok m'" "stable m \<Longrightarrow> stable m'" "reserved_ok m robots \<Longrightarrow> reserved_ok m' robots"
    "seqs_ok n m \<Longrightarrow> seqs_ok n m'"
  using assms(2)
  unfolding queue_ok_def deps_closed_def depRel_def started_ok_def depIs_def stable_def stableAt_def
    reserved_ok_def seqs_ok_def assms(1) computeStatus_ext [OF assms(1)]
  by simp_all

lemma reserved_ext:
  assumes m: "\<And>x. go_get m' x = map_option storedRobot (go_get m x)" and r: "reserved_ok jobs m"
  shows "reserved_ok jobs m'"
proof -
  have held: "job_AssignedRobot j \<noteq> [] \<and>
        (\<exists>r. go_get m' (job_AssignedRobot j) = Some r \<and> (job_Status j = StatusAssigned \<longrightarrow> \<not> rob_Available r))"
    if j: "go_get jobs jid = Some j" "inFlight (job_Status j)" for jid j
  proof -
    obtain b where "job_AssignedRobot j \<noteq> []" "go_get m (job_AssignedRobot j) = Some b"
        "job_Status j = StatusAssigned \<longrightarrow> \<not> rob_Available b"
      using r j unfolding reserved_ok_def by metis
    then show ?thesis by (simp add: m storedRobot_def rowToRobot_def robotToRow_def)
  qed
  have one: "\<forall>a b ja jb. go_get jobs a = Some ja \<longrightarrow> go_get jobs b = Some jb \<longrightarrow>
        job_Status ja = StatusAssigned \<longrightarrow> job_Status jb = StatusAssigned \<longrightarrow>
        job_AssignedRobot ja = job_AssignedRobot jb \<longrightarrow> a = b"
    using r unfolding reserved_ok_def by (rule conjunct2)
  show ?thesis unfolding reserved_ok_def
    by (intro conjI one) (intro allI impI held)
qed

text \<open>A mirror of an engine that is in order is a consistent store, and loads as that engine.\<close>

lemma restart_on_mirror:
  assumes ok: "engine_ok e" and i: "sqlMirror.inSync {} {} e"
  obtains db e2 where "eng_store e = Some (sqliteStore noFaults db)" "dbWf db" "consistent (loadJobs db) (loadRobots db)"
    "NewEngineWithStore (sqliteStore noFaults db) = Inr e2" "\<And>x. getJob e2 x = getJob e x"
    "\<And>x. getRobot e2 x = map_option storedRobot (getRobot e x)" "engine_ok e2"
proof -
  obtain db where db: "eng_store e = Some (sqliteStore noFaults db)" "dbWf db"
    "\<And>x. jobView db x = map_option (\<lambda>j. storedJob (jobRecord j)) (getJob e x)"
    "\<And>x. robotView db x = map_option storedRobot (getRobot e x)"
    using i engine_okD(3) [OF ok] unfolding sqlMirror.inSync_def by auto
  have l: "sv_LoadAll (sqliteStore noFaults db) (sv_state (sqliteStore noFaults db)) = Inr (loadJobs db, loadRobots db)"
    by (simp add: sqliteStore_def LoadAll_def noFaults_def)
  then obtain e2 where n: "NewEngineWithStore (sqliteStore noFaults db) = Inr e2"
    by (simp add: NewEngineWithStore_def)
  note f = NewEngineWithStore_loads [OF l n]
  note i2 = start_inSync [OF db(2) n]
  have j: "go_get (loadedJobs (loadJobs db)) x = getJob e x" for x
    by (simp add: loaded_job_view [OF db(2)] db(3) option.map_comp comp_def loaded_stored option.map_ident)
  have r: "go_get (loadedRobots (loadRobots db)) x = map_option storedRobot (getRobot e x)" for x
    by (simp add: loaded_robot_view [OF db(2)] db(4))
  have wf: "go_wf job_ID (loadedJobs (loadJobs db))" "go_wf rob_ID (loadedRobots (loadRobots db))"
    using sqlMirror.inSync_wf [OF i2] f by simp_all
  note b = engine_okD(1) [OF ok]
  note q = queue_ext [OF j wf(1)]
  have "distinct (map rec_Seq (loadJobs db))"
  proof -
    have "job_ID (rec_Job ra) = job_ID (rec_Job rb)"
      if "ra \<in> set (loadJobs db)" "rb \<in> set (loadJobs db)" "rec_Seq ra = rec_Seq rb" for ra rb
    proof -
      have "go_get (loadedJobs (loadJobs db)) (job_ID (rec_Job ra)) = Some (loadedJob ra)"
        "go_get (loadedJobs (loadJobs db)) (job_ID (rec_Job rb)) = Some (loadedJob rb)"
        using that(1,2) get_loadedJobs [OF loadJobs_distinct [OF db(2)]] by blast+
      then show ?thesis using base_okD(4) [OF b] that(3) unfolding j seqs_ok_def by (metis loadedJob_ID(2))
    qed
    then have "inj_on rec_Seq (set (loadJobs db))"
      using loadJobs_distinct [OF db(2)] key_inj unfolding inj_on_def by metis
    then show ?thesis
      using loadJobs_distinct [OF db(2)] by (simp add: distinct_map)
  qed
  moreover have "reserved_ok (loadedJobs (loadJobs db)) (loadedRobots (loadRobots db))"
    by (rule reserved_ext [OF r q(3)]) (rule base_okD(3) [OF b])
  moreover have "robots_ok (loadedRobots (loadRobots db))"
    using wf(2) base_okD(2) [OF b] by (simp add: robots_ok_def r)
  ultimately have c: "consistent (loadJobs db) (loadRobots db)"
    using q(1) [OF base_okD(1) [OF b]] q(2) [OF engine_okD(2) [OF ok]] loadJobs_distinct [OF db(2)]
    by (simp add: consistent_def)
  show ?thesis
    by (rule that [OF db(1,2) c n]) (simp_all add: f j r NewEngineWithStore_ok [OF l n c])
qed

end
