(* ===== verification/StoreTheorems.thy ===== *)
theory StoreTheorems
  imports SqliteRestart Demo
begin

section \<open>Properties: what the store holds\<close>

text \<open>The plant of \<open>Demo\<close> over a SQLite database in which the statements \<open>flt\<close> names fail.\<close>

definition sqlStart :: "faults \<Rightarrow> sqldb engine" where
  "sqlStart flt = (case NewEngineWithStore (sqliteStore flt emptyDB) of Inr e \<Rightarrow> e | Inl _ \<Rightarrow> NewEngine)"

definition sqlPlant :: "faults \<Rightarrow> sqldb engine" where
  "sqlPlant flt = fst (AddJob jobC 3 (fst (AddJob jobB 2 (fst (AddJob jobA 1
     (UpsertRobot (aRobot ''w'' ''weld'') 0 (UpsertRobot (aRobot ''m'' []) 0 (sqlStart flt))))))))"

lemma sqlStart_new:
  assumes "flt 0 = None" "flt 1 = None"
  shows "NewEngineWithStore (sqliteStore flt emptyDB) = Inr (sqlStart flt)"
    "sv_LoadAll (sqliteStore flt emptyDB) (sv_state (sqliteStore flt emptyDB)) = Inr ([], [])"
  using assms by (simp_all add: sqlStart_def NewEngineWithStore_def sqliteStore_def LoadAll_def emptyDB_def
      loadJobs_def loadRobots_def)

lemma sqlStart_ok: "flt 0 = None \<Longrightarrow> flt 1 = None \<Longrightarrow> engine_ok (sqlStart flt)"
  using NewEngineWithStore_ok [OF sqlStart_new(2,1)] by simp

lemma sqlPlant_ok: "flt 0 = None \<Longrightarrow> flt 1 = None \<Longrightarrow> engine_ok (sqlPlant flt)"
  unfolding sqlPlant_def by (intro AddJob_ok UpsertRobot_ok sqlStart_ok) (simp_all add: aRobot_def)

lemma sqlPlant_reachable: "reachable (sqlStart flt) (sqlPlant flt)"
  unfolding sqlPlant_def
  by (intro reachable.step [OF _ engine_step.add] reachable.step [OF _ engine_step.upsert] reachable.start)
     (simp_all add: aRobot_def)


text \<open>Statement 8 fails: the write of the second job that the pass has just given to a robot.\<close>

definition lateFault :: faults where
  "lateFault n = (if n = 8 then Some ''disk full'' else None)"

definition onSqlite :: "faults \<Rightarrow> sqldb engine \<Rightarrow> bool" where
  "onSqlite flt e \<longleftrightarrow> (\<exists>db. eng_store e = Some (sqliteStore flt db))"

lemma onSqlite_persist:
  assumes "onSqlite flt e"
  shows "onSqlite flt (fst (persistJobLocked j e))" "onSqlite flt (fst (persistRobotLocked r e))"
proof -
  obtain db where db: "eng_store e = Some (sqliteStore flt db)" using assms by (auto simp: onSqlite_def)
  have upd: "(sqliteStore flt d)\<lparr>sv_state := s\<rparr> = sqliteStore flt s" for d s by (simp add: sqliteStore_def)
  show "onSqlite flt (fst (persistJobLocked j e))"
    using db by (simp add: onSqlite_def persistJobLocked_def upd case_prod_unfold Let_def split: option.split) blast
  show "onSqlite flt (fst (persistRobotLocked r e))"
    using db by (simp add: onSqlite_def persistRobotLocked_def upd case_prod_unfold Let_def split: option.split) blast
qed

lemma onSqlite_frame:
  "onSqlite flt (setJob j e) = onSqlite flt e" "onSqlite flt (checkTool tool what e) = onSqlite flt e"
  "onSqlite flt (noteAssignedLocked j e) = onSqlite flt e" "onSqlite flt (noteDedup j e) = onSqlite flt e"
  "onSqlite flt (e\<lparr>eng_nextSeq := n\<rparr>) = onSqlite flt e"
  by (simp_all add: onSqlite_def)

lemma onSqlite_AddJob:
  assumes "onSqlite flt e"
  shows "onSqlite flt (fst (AddJob j now e))"
proof -
  have "onSqlite flt (fst (addJobLocked j now e))"
    using assms
    by (simp add: addJobLocked_def Let_def case_prod_unfold onSqlite_persist(1) onSqlite_frame split: option.split)
  then show ?thesis by (auto simp: AddJob_def split: prod.split sum.split)
qed

lemma onSqlite_new_robot:
  assumes "onSqlite flt e" and "getRobot e (rob_ID r) = None"
  shows "onSqlite flt (UpsertRobot r now e)"
proof -
  let ?n = "r\<lparr>rob_LastHeartbeat := Some now\<rparr>"
  let ?e1 = "setRobot ?n (checkTool (rob_Tool r) (ToolOfRobot (rob_ID r)) e)"
  have "onSqlite flt ?e1" using assms(1) by (simp add: onSqlite_def)
  then have "onSqlite flt (fst (persistRobotLocked ?n ?e1))" by (rule onSqlite_persist)
  then show ?thesis
    using assms(2) by (simp add: UpsertRobot_def upsertRobotLocked_def persistCurrent_def Let_def case_prod_unfold onSqlite_def)
qed

lemma sqlPlant_store:
  "\<exists>db. eng_store (sqlPlant lateFault) = Some (sqliteStore lateFault db)
     \<and> list_all (\<lambda>(jid, row). row_status row \<noteq> StatusAssigned) (db_jobs db)"
proof -
  have s: "onSqlite lateFault (sqlStart lateFault)"
    by (simp add: onSqlite_def sqlStart_def NewEngineWithStore_def sqliteStore_def LoadAll_def lateFault_def
        emptyDB_def loadJobs_def loadRobots_def)
  have "onSqlite lateFault (sqlPlant lateFault)"
    unfolding sqlPlant_def by (intro onSqlite_AddJob onSqlite_new_robot s) code_simp+
  then obtain db where db: "eng_store (sqlPlant lateFault) = Some (sqliteStore lateFault db)"
    by (auto simp: onSqlite_def)
  have "map_option (\<lambda>sv. list_all (\<lambda>(jid, row). row_status row \<noteq> StatusAssigned) (db_jobs (sv_state sv)))
      (eng_store (sqlPlant lateFault)) = Some True" by code_simp
  then show ?thesis using db by (simp add: sqliteStore_def)
qed


text \<open>
  C31: a restart loses nothing that is kept. Start the engine on a SQLite database with keyed tables
  and consistent records, let it go through any operations while no statement fails, and start a
  second engine on the database it leaves: the second has the same jobs with all their fields, the
  same robots but for the fields that are not stored, satisfies the invariant, and the database is
  again one to start from.
\<close>

theorem restart_loses_nothing:
  assumes "dbWf db" and "consistent (loadJobs db) (loadRobots db)"
    and "NewEngineWithStore (sqliteStore noFaults db) = Inr e0" and "reachable e0 e"
  shows "\<exists>db' e2. eng_store e = Some (sqliteStore noFaults db')
    \<and> NewEngineWithStore (sqliteStore noFaults db') = Inr e2 \<and> engine_ok e2
    \<and> (\<forall>x. getJob e2 x = getJob e x)
    \<and> (\<forall>x. getRobot e2 x = map_option storedRobot (getRobot e x))
    \<and> dbWf db' \<and> consistent (loadJobs db') (loadRobots db')"
proof -
  have l: "sv_LoadAll (sqliteStore noFaults db) (sv_state (sqliteStore noFaults db)) = Inr (loadJobs db, loadRobots db)"
    by (simp add: sqliteStore_def LoadAll_def noFaults_def)
  have ok: "engine_ok e0" by (rule NewEngineWithStore_ok [OF l assms(3,2)])
  have "sqlMirror.inSync {} {} e" by (rule sqlMirror.inSync_run [OF assms(4) ok start_inSync [OF assms(1,3)]])
  from restart_on_mirror [OF reachable_ok [OF assms(4) ok] this] show ?thesis by metis
qed

lemma restart_loses_nothing_witness:
  "\<exists>db e2. NewEngineWithStore (sqliteStore noFaults db) = Inr e2
     \<and> map_option job_Status (getJob e2 ''c'') = Some StatusAssigned"
proof -
  define e where "e = fst (DispatchOnce (\<lambda>_. 10) (sqlPlant noFaults))"
  have wf: "dbWf emptyDB" by (simp add: dbWf_def emptyDB_def)
  have c: "consistent (loadJobs emptyDB) (loadRobots emptyDB)" by (simp add: loadJobs_def loadRobots_def emptyDB_def)
  have n: "NewEngineWithStore (sqliteStore noFaults emptyDB) = Inr (sqlStart noFaults)"
    by (rule sqlStart_new) (simp_all add: noFaults_def)
  have r: "reachable (sqlStart noFaults) e"
    unfolding e_def by (rule reachable.step [OF sqlPlant_reachable engine_step.dispatch])
  have "map_option job_Status (getJob e ''c'') = Some StatusAssigned" unfolding e_def by code_simp
  then show ?thesis using restart_loses_nothing [OF wf c n r] by metis
qed

end
