(* ===== verification/RecordTheorems.thy ===== *)
theory RecordTheorems
  imports StoreTheorems
begin

section \<open>Properties: the archive, the listings and the event stream\<close>


definition sqlDone :: "sqldb engine" where
  "sqlDone = fst (the (CompleteJobAttempt ''c'' True ''w'' 1 (20 * second) (fst (DispatchOnce (\<lambda>_. 10) (sqlPlant noFaults)))))"

lemma sqlDone_ok: "engine_ok sqlDone"
proof -
  have "engine_ok (sqlPlant noFaults)" by (rule sqlPlant_ok) (simp_all add: noFaults_def)
  then have "engine_ok (fst (DispatchOnce (\<lambda>_. 10) (sqlPlant noFaults)))"
    using DispatchOnce_pass(1) by (metis prod.collapse)
  from CompleteJob_ok [OF this, of "''c''" True "''w''" 1 "20 * second"] show ?thesis
    unfolding sqlDone_def by auto
qed

definition aMonthLater :: instant where
  "aMonthLater = 31 * 24 * hour"


text \<open>
  C33: the pages of a listing, of any page size, put together are the listing and nothing else: the
  jobs of the queue with the robot and the status asked for, in submission order, none twice; every
  page tells how many there are in all.
\<close>

theorem pages_are_the_listing:
  assumes ok: "engine_ok e" and l: "0 < (l :: nat)"
  shows "concat (map (\<lambda>k. fst (fst (JobsPageFor robot status (int (k * l)) (int l) e))) [0..<n])
           = take (n * l) (listing robot status e)
    \<and> snd (fst (JobsPageFor robot status offset limit e)) = int (length (listing robot status e))
    \<and> set (listing robot status e) = {j. getJob e (job_ID j) = Some j
         \<and> (robot = [] \<or> job_AssignedRobot j = robot) \<and> (status = [] \<or> statusText (job_Status j) = status)}
    \<and> sorted_wrt (\<lambda>a b. job_seq a < job_seq b) (listing robot status e)"
proof -
  note b = engine_okD(1) [OF ok]
  note page = JobsPageFor_listing [OF b, of robot status]
  have "distinct (map job_seq (Jobs e))"
  proof -
    have "inj_on job_seq (set (Jobs e))"
    proof (rule inj_onI)
      fix x y assume "x \<in> set (Jobs e)" "y \<in> set (Jobs e)" and s: "job_seq x = job_seq y"
      then have xy: "getJob e (job_ID x) = Some x" "getJob e (job_ID y) = Some y" by (simp_all add: mem_Jobs [OF b])
      have "job_ID x = job_ID y" by (rule seqs_ok_inj [OF base_okD(4) [OF b] xy s])
      then show "x = y" using xy by (metis option.inject)
    qed
    moreover have "distinct (map job_ID (Jobs e))"
    proof -
      have "distinct (map job_ID (go_vals (eng_jobs e)))" by (rule go_wf_vals_distinct [OF base_jobs_wf [OF b]])
      moreover have "mset (map job_ID (Jobs e)) = mset (map job_ID (go_vals (eng_jobs e)))"
        by (simp only: Jobs_def mset_map mset_sort)
      ultimately show ?thesis using mset_eq_imp_distinct_iff by metis
    qed
    ultimately show ?thesis by (simp add: distinct_map)
  qed
  moreover have "sorted (map job_seq (Jobs e))" by (simp add: Jobs_def)
  ultimately have "sorted_wrt (<) (map job_seq (Jobs e))" using strict_sorted_iff by blast
  then have "sorted_wrt (\<lambda>a b. job_seq a < job_seq b) (Jobs e)" by (simp only: sorted_wrt_map)
  then have "sorted_wrt (\<lambda>a b. job_seq a < job_seq b) (listing robot status e)"
    unfolding listing_def by (rule sorted_wrt_filter)
  moreover have "set (listing robot status e) = {j. getJob e (job_ID j) = Some j
         \<and> (robot = [] \<or> job_AssignedRobot j = robot) \<and> (status = [] \<or> statusText (job_Status j) = status)}"
    by (auto simp: listing_def mem_Jobs [OF b])
  ultimately show ?thesis using pages_cover [OF l, of "listing robot status e" n] by (simp add: page)
qed

lemma pages_are_the_listing_witness:
  "map job_ID (concat (map (\<lambda>k. fst (fst (JobsPageFor [] ''assigned'' (int (k * 2)) (int 2) plant2))) [0..<2])) = [''a'', ''c'', ''f'']"
proof -
  have "map job_ID (take (2 * 2) (listing [] ''assigned'' plant2)) = [''a'', ''c'', ''f'']" by code_simp
  then show ?thesis using pages_are_the_listing [OF plant2_ok, of 2 "[]" "''assigned''" 2] by simp
qed

text \<open>A run of event numbers, and the part of it after a number.\<close>

lemma consecutive_upto:
  assumes "consecutive n evs"
  shows "map ev_ID evs = [n - int (length evs) + 1..n]"
proof (rule nth_equalityI)
  fix i assume "i < length (map ev_ID evs)"
  then show "map ev_ID evs ! i = [n - int (length evs) + 1..n] ! i"
    using assms by (simp add: consecutive_def nth_upto)
qed simp

lemma consecutive_prefix:
  assumes "consecutive n (xs @ ys)"
  shows "consecutive (n - int (length ys)) xs"
proof -
  have "map ev_ID xs = take (length xs) (map ev_ID (xs @ ys))" by simp
  also have "\<dots> = map (\<lambda>i. n - int (length ys) - int (length xs) + 1 + int i) [0..<length xs]"
    using assms unfolding consecutive_def by (simp add: take_map algebra_simps)
  finally show ?thesis by (simp add: consecutive_def)
qed

lemma consecutive_after:
  assumes c: "consecutive n evs" and "n - int (length evs) \<le> since" and "since \<le> n"
  shows "map ev_ID (filter (\<lambda>ev. since < ev_ID ev) evs) = [since + 1..n]"
proof -
  have split: "[n - int (length evs) + 1..n] = [n - int (length evs) + 1..since] @ [since + 1..n]"
    using assms(2,3) by (cases "n - int (length evs) = since")
      (use upto_split1 [of "n - int (length evs) + 1" since n] upto_split2 [of "n - int (length evs) + 1" since n] in auto)
  have "map ev_ID (filter (\<lambda>ev. since < ev_ID ev) evs) = filter (\<lambda>k. since < k) (map ev_ID evs)"
    by (simp add: filter_map comp_def)
  also have "\<dots> = [since + 1..n]"
    unfolding consecutive_upto [OF c] split by (simp add: filter_empty_conv filter_id_conv)
  finally show ?thesis .
qed

lemma hub_run_ok: "hub_run c h evs h' \<Longrightarrow> hub_ok h \<Longrightarrow> hub_ok h'"
proof (induction rule: hub_run.induct)
  case (publish evs h1 kind jid rid att h2)
  then show ?case using Publish_ok [of h1 kind jid rid att] by auto
qed (auto dest: Subscribe_ok cancel_ok receive_ok)

text \<open>
  A client of the live stream loses nothing without being told. Whatever the hub did before, a
  client that connects with the number of the last event it saw, no older than what the hub still
  holds, is sent the events after it and then reads the later ones, each once, in order and without
  a gap, whatever else happens in between; and while it is not dropped, what it has not read yet is
  waiting for it.
\<close>

theorem subscriber_misses_nothing:
  assumes "hub_run r (NewEventHub cfg clock) past h" and "Subscribe since h = (replay, c, h1)"
    and "hub_run c h1 evs h2" and "hub_next h - int (length (hub_ring h)) \<le> since" and "since \<le> hub_next h"
  shows "map ev_ID (replay @ evs) = [since + 1..since + int (length (replay @ evs))]
    \<and> (c \<in> set (hub_subs h2) \<longrightarrow> (\<exists>ch. go_get (hub_chans h2) c = Some ch
         \<and> map ev_ID (replay @ evs @ ch_buf ch) = [since + 1..hub_next h2]))"
proof -
  have ok: "hub_ok h" by (rule hub_run_ok [OF assms(1) hub_ok_New])
  note S = Subscribe_ok [OF ok assms(2)]
  have r: "map ev_ID replay = [since + 1..hub_next h]"
    using consecutive_after [OF hub_okD(1) [OF ok] assms(4,5)] assms(2) by (simp add: Subscribe_def Let_def)
  have "seenBy c evs h2 (hub_next h)"
    using hub_run_seen [OF assms(3) S(1,4) _ S(2)] S(5) by simp
  then obtain ch n where ch: "go_get (hub_chans h2) c = Some ch" "consecutive n (evs @ ch_buf ch)"
      "n = hub_next h + int (length (evs @ ch_buf ch))" "c \<in> set (hub_subs h2) \<longrightarrow> n = hub_next h2"
    unfolding seenBy_def by blast
  have all: "map ev_ID (evs @ ch_buf ch) = [hub_next h + 1..n]" using consecutive_upto [OF ch(2)] ch(3) by simp
  have evs: "map ev_ID evs = [hub_next h + 1..hub_next h + int (length evs)]"
    using consecutive_upto [OF consecutive_prefix [OF ch(2)]] ch(3) by simp
  have join: "[since + 1..hub_next h] @ [hub_next h + 1..m] = [since + 1..m]" if "hub_next h \<le> m" for m
    using upto_split2 [of "since + 1" "hub_next h" m] that assms(5) by (cases "since = hub_next h") auto
  have len: "int (length replay) = hub_next h - since"
    using arg_cong [OF r, of length] assms(5) by simp
  have "map ev_ID (replay @ evs) = [since + 1..since + int (length (replay @ evs))]"
    using join [of "hub_next h + int (length evs)"] len by (simp add: r evs)
  moreover have "map ev_ID (replay @ evs @ ch_buf ch) = [since + 1..hub_next h2]" if "c \<in> set (hub_subs h2)"
    using join [of n] all ch(3,4) that by (simp add: r)
  ultimately show ?thesis using ch(1) by blast
qed

definition aHub :: EventHub where
  "aHub = NewEventHub \<lparr>evc_Enabled = True, evc_SSE = True, evc_Buffer = 10, evc_SubscriberSize = 4\<rparr> (\<lambda>_. 0)"

definition published :: "eventType \<Rightarrow> string \<Rightarrow> EventHub \<Rightarrow> EventHub" where
  "published kind jid h = the (Publish kind jid ''m'' 1 (Some h))"

lemma run_published: "hub_run c h evs h1 \<Longrightarrow> hub_run c h evs (published kind jid h1)"
  by (rule hub_run.publish [of c h evs h1 kind jid "''m''" 1]) (simp_all add: published_def Publish_def Let_def)

lemma subscriber_misses_nothing_witness:
  "\<exists>replay h1 ev h2. Subscribe 1 (published EventDone ''b'' (published EventAssigned ''a'' aHub)) = (replay, 0, h1)
     \<and> receive 0 (published EventFailed ''c'' h1) = (Some ev, h2) \<and> map ev_ID (replay @ [ev]) = [2, 3]"
proof -
  let ?h = "published EventDone ''b'' (published EventAssigned ''a'' aHub)"
  have past: "hub_run 0 (NewEventHub \<lparr>evc_Enabled = True, evc_SSE = True, evc_Buffer = 10, evc_SubscriberSize = 4\<rparr>
      (\<lambda>_. 0)) [] ?h"
    unfolding aHub_def [symmetric] by (intro run_published hub_run.start)
  obtain replay c h1 where s: "Subscribe 1 ?h = (replay, c, h1)" by (metis prod_cases3)
  have c: "fst (snd (Subscribe 1 ?h)) = 0" "length (fst (Subscribe 1 ?h)) = 1"
    "hub_next ?h - int (length (hub_ring ?h)) \<le> 1" "1 \<le> hub_next ?h"
    "fst (receive 0 (published EventFailed ''c'' (snd (snd (Subscribe 1 ?h))))) \<noteq> None" by code_simp+
  then obtain ev h2 where r: "receive 0 (published EventFailed ''c'' h1) = (Some ev, h2)"
    using s by (cases "receive 0 (published EventFailed ''c'' h1)") auto
  have c0: "c = 0" "length replay = 1" using c(1,2) s by simp_all
  have "hub_run 0 h1 ([] @ [ev]) h2" by (rule hub_run.read [OF _ r]) (intro run_published hub_run.start)
  from subscriber_misses_nothing [OF past s [unfolded c0(1)] this c(3,4)]
  have "map ev_ID (replay @ [ev]) = [2..3]" using c0(2) by simp
  then show ?thesis using s r c0(1) by (auto simp: upto.simps)
qed

end
