(* ===== verification/Schedule.thy ===== *)
theory Schedule
  imports ETA Invariant
begin

section \<open>What the plan of the estimates guarantees\<close>

text \<open>
  The plan of \<open>planLocked\<close> is a schedule: no robot has two jobs at a time, no job starts before its
  dependencies end or before now, and every job that has not ended gets an estimate or a reason.
  The proof goes through the phases of the plan and then through its loop.
\<close>

definition sched :: "etaPlan \<Rightarrow> bool" where
  "sched p \<longleftrightarrow>
     (\<forall>a ra. go_get (pl_results p) a = Some ra \<longrightarrow> je_Estimated ra \<longrightarrow>
        je_StartMs ra \<le> je_EndMs ra
      \<and> (\<forall>f. go_get (pl_free p) (je_RobotID ra) = Some f \<longrightarrow> je_EndMs ra \<le> f))
   \<and> (\<forall>a b ra rb. go_get (pl_results p) a = Some ra \<longrightarrow> go_get (pl_results p) b = Some rb \<longrightarrow> a \<noteq> b \<longrightarrow>
        je_Estimated ra \<longrightarrow> je_Estimated rb \<longrightarrow> je_RobotID ra = je_RobotID rb \<longrightarrow>
        je_EndMs ra \<le> je_StartMs rb \<or> je_EndMs rb \<le> je_StartMs ra)"

lemma schedI:
  assumes "\<And>a ra. go_get (pl_results p) a = Some ra \<Longrightarrow> je_Estimated ra \<Longrightarrow> je_StartMs ra \<le> je_EndMs ra"
    and "\<And>a ra f. go_get (pl_results p) a = Some ra \<Longrightarrow> je_Estimated ra \<Longrightarrow>
        go_get (pl_free p) (je_RobotID ra) = Some f \<Longrightarrow> je_EndMs ra \<le> f"
    and "\<And>a b ra rb. go_get (pl_results p) a = Some ra \<Longrightarrow> go_get (pl_results p) b = Some rb \<Longrightarrow> a \<noteq> b \<Longrightarrow>
        je_Estimated ra \<Longrightarrow> je_Estimated rb \<Longrightarrow> je_RobotID ra = je_RobotID rb \<Longrightarrow>
        je_EndMs ra \<le> je_StartMs rb \<or> je_EndMs rb \<le> je_StartMs ra"
  shows "sched p"
  unfolding sched_def using assms by blast

lemma schedD:
  assumes "sched p" and "go_get (pl_results p) a = Some ra" and "je_Estimated ra"
  shows "je_StartMs ra \<le> je_EndMs ra"
    "go_get (pl_free p) (je_RobotID ra) = Some f \<Longrightarrow> je_EndMs ra \<le> f"
    "go_get (pl_results p) b = Some rb \<Longrightarrow> a \<noteq> b \<Longrightarrow> je_Estimated rb \<Longrightarrow> je_RobotID ra = je_RobotID rb \<Longrightarrow>
       je_EndMs ra \<le> je_StartMs rb \<or> je_EndMs rb \<le> je_StartMs ra"
  using assms unfolding sched_def by blast+

lemma sched_cong: "pl_results p' = pl_results p \<Longrightarrow> pl_free p' = pl_free p \<Longrightarrow> sched p' = sched p"
  by (simp add: sched_def)

text \<open>The three ways in which a step changes the plan.\<close>

lemma sched_quiet:
  assumes "sched p" and "\<not> je_Estimated r"
    and "pl_results p' = go_put jid r (pl_results p)" and "pl_free p' = pl_free p"
  shows "sched p'"
proof -
  have get: "go_get (pl_results p') a = Some ra \<Longrightarrow> je_Estimated ra \<Longrightarrow> go_get (pl_results p) a = Some ra" for a ra
    using assms(2,3) by (auto split: if_splits)
  show ?thesis
  proof (rule schedI)
    fix a ra assume "go_get (pl_results p') a = Some ra" "je_Estimated ra"
    then show "je_StartMs ra \<le> je_EndMs ra" using schedD(1) [OF assms(1) get] by blast
  next
    fix a ra f assume "go_get (pl_results p') a = Some ra" "je_Estimated ra" "go_get (pl_free p') (je_RobotID ra) = Some f"
    then show "je_EndMs ra \<le> f" using schedD(2) [OF assms(1) get] assms(4) by metis
  next
    fix a b ra rb
    assume "go_get (pl_results p') a = Some ra" "go_get (pl_results p') b = Some rb" "a \<noteq> b"
      "je_Estimated ra" "je_Estimated rb" "je_RobotID ra = je_RobotID rb"
    then show "je_EndMs ra \<le> je_StartMs rb \<or> je_EndMs rb \<le> je_StartMs ra"
      using schedD(3) [OF assms(1) get _ get] by blast
  qed
qed

lemma sched_free:
  assumes "sched p" and "\<And>a ra. go_get (pl_results p) a = Some ra \<Longrightarrow> je_Estimated ra \<Longrightarrow> je_RobotID ra \<noteq> rid"
    and "pl_results p' = pl_results p" and "pl_free p' = go_put rid f (pl_free p)"
  shows "sched p'"
  by (rule schedI) (use assms(2) schedD [OF assms(1)] in \<open>auto simp: assms(3,4)\<close>)

text \<open>A new estimate, after everything else on its robot.\<close>

lemma sched_estimate:
  assumes "sched p" and "je_Estimated r" and "je_StartMs r \<le> je_EndMs r"
    and after: "\<And>a ra. go_get (pl_results p) a = Some ra \<Longrightarrow> je_Estimated ra \<Longrightarrow> je_RobotID ra = je_RobotID r \<Longrightarrow>
        a \<noteq> jid \<Longrightarrow> je_EndMs ra \<le> je_StartMs r"
    and res: "pl_results p' = go_put jid r (pl_results p)"
    and fr: "\<And>x. x \<noteq> je_RobotID r \<Longrightarrow> go_get (pl_free p') x = go_get (pl_free p) x"
      "\<And>f. go_get (pl_free p') (je_RobotID r) = Some f \<Longrightarrow> je_EndMs r \<le> f"
  shows "sched p'"
proof -
  have get: "go_get (pl_results p') a = Some ra \<Longrightarrow> a = jid \<and> ra = r \<or> a \<noteq> jid \<and> go_get (pl_results p) a = Some ra" for a ra
    using res by (auto split: if_splits)
  show ?thesis
  proof (rule schedI)
    fix a ra assume "go_get (pl_results p') a = Some ra" "je_Estimated ra"
    then show "je_StartMs ra \<le> je_EndMs ra" using get assms(3) schedD(1) [OF assms(1)] by blast
  next
    fix a ra f assume a: "go_get (pl_results p') a = Some ra" "je_Estimated ra"
      and f: "go_get (pl_free p') (je_RobotID ra) = Some f"
    consider "ra = r" | "a \<noteq> jid" "go_get (pl_results p) a = Some ra" using get [OF a(1)] by blast
    then show "je_EndMs ra \<le> f"
    proof cases
      case 1
      then show ?thesis using fr(2) f by simp
    next
      case 2
      show ?thesis
      proof (cases "je_RobotID ra = je_RobotID r")
        case True
        then have "je_EndMs ra \<le> je_StartMs r" "je_EndMs r \<le> f" using after [OF 2(2) a(2) _ 2(1)] fr(2) f by auto
        then show ?thesis using assms(3) by simp
      next
        case False
        then show ?thesis using schedD(2) [OF assms(1) 2(2) a(2)] fr(1) f by simp
      qed
    qed
  next
    fix a b ra rb
    assume *: "go_get (pl_results p') a = Some ra" "go_get (pl_results p') b = Some rb" "a \<noteq> b"
      "je_Estimated ra" "je_Estimated rb" "je_RobotID ra = je_RobotID rb"
    consider "ra = r" "b \<noteq> jid" "go_get (pl_results p) b = Some rb"
      | "rb = r" "a \<noteq> jid" "go_get (pl_results p) a = Some ra"
      | "go_get (pl_results p) a = Some ra" "go_get (pl_results p) b = Some rb"
      using get [OF *(1)] get [OF *(2)] *(3) by blast
    then show "je_EndMs ra \<le> je_StartMs rb \<or> je_EndMs rb \<le> je_StartMs ra"
      using after * schedD(3) [OF assms(1)] by cases auto
  qed
qed

subsection \<open>Entering the jobs\<close>

definition labelled :: "job \<Rightarrow> JobETA \<Rightarrow> bool" where
  "labelled j r \<longleftrightarrow> je_JobID r = job_ID j \<and> je_Status r = job_Status j"

definition answered :: "JobETA \<Rightarrow> bool" where
  "answered r \<longleftrightarrow> (je_Estimated r \<longleftrightarrow> je_Reason r = NoReason)"

definition unanswered :: "JobETA \<Rightarrow> bool" where
  "unanswered r \<longleftrightarrow> \<not> je_Estimated r \<and> je_Reason r = NoReason"

definition enters :: "(job \<Rightarrow> etaPlan \<Rightarrow> etaPlan) \<Rightarrow> (JobETA \<Rightarrow> bool) \<Rightarrow> bool" where
  "enters g P \<longleftrightarrow>
     (\<forall>j p. pl_order (g j p) = pl_order p @ [job_ID j] \<and> pl_planned (g j p) = pl_planned p
        \<and> (\<exists>r. go_get (pl_results (g j p)) = (go_get (pl_results p))(job_ID j \<mapsto> r) \<and> labelled j r \<and> P r))"

lemma enters_fold:
  assumes "enters g P" and "distinct (map job_ID js)"
  shows "pl_order (fold g js p) = pl_order p @ map job_ID js"
    "pl_planned (fold g js p) = pl_planned p"
    "x \<notin> job_ID ` set js \<Longrightarrow> go_get (pl_results (fold g js p)) x = go_get (pl_results p) x"
    "j \<in> set js \<Longrightarrow> \<exists>r. go_get (pl_results (fold g js p)) (job_ID j) = Some r \<and> labelled j r \<and> P r"
proof -
  have *: "pl_order (fold g js p) = pl_order p @ map job_ID js \<and> pl_planned (fold g js p) = pl_planned p
    \<and> (\<forall>x. x \<notin> job_ID ` set js \<longrightarrow> go_get (pl_results (fold g js p)) x = go_get (pl_results p) x)
    \<and> (\<forall>j \<in> set js. \<exists>r. go_get (pl_results (fold g js p)) (job_ID j) = Some r \<and> labelled j r \<and> P r)"
    using assms(2)
  proof (induction js arbitrary: p)
    case (Cons a js)
    obtain r where r: "go_get (pl_results (g a p)) = (go_get (pl_results p))(job_ID a \<mapsto> r)" "labelled a r" "P r"
      and o: "pl_order (g a p) = pl_order p @ [job_ID a]" "pl_planned (g a p) = pl_planned p"
      using assms(1) unfolding enters_def by blast
    note ih = Cons.IH [of "g a p"]
    have a: "job_ID a \<notin> job_ID ` set js" "distinct (map job_ID js)" using Cons.prems by simp_all
    then have "go_get (pl_results (fold g js (g a p))) (job_ID a) = Some r" using ih r(1) by simp
    then show ?case using ih a r o by auto
  qed simp
  then show "pl_order (fold g js p) = pl_order p @ map job_ID js" "pl_planned (fold g js p) = pl_planned p"
    "x \<notin> job_ID ` set js \<Longrightarrow> go_get (pl_results (fold g js p)) x = go_get (pl_results p) x"
    "j \<in> set js \<Longrightarrow> \<exists>r. go_get (pl_results (fold g js p)) (job_ID j) = Some r \<and> labelled j r \<and> P r"
    by blast+
qed

lemma newETA_simps [simp]:
  "je_JobID (newETA j) = job_ID j" "je_Status (newETA j) = job_Status j" "\<not> je_Estimated (newETA j)"
  "je_Reason (newETA j) = NoReason"
  by (simp_all add: newETA_def)

lemma addETA_simps [simp]:
  "pl_order (addETA j p) = pl_order p @ [job_ID j]" "pl_planned (addETA j p) = pl_planned p"
  "pl_free (addETA j p) = pl_free p" "pl_assignedOn (addETA j p) = pl_assignedOn p"
  "pl_results (addETA j p) = go_put (job_ID j) (newETA j) (pl_results p)"
  by (simp_all add: addETA_def)

lemma entersI:
  assumes "\<And>j p. pl_order (g j p) = pl_order p @ [job_ID j]" and "\<And>j p. pl_planned (g j p) = pl_planned p"
    and "\<And>j p. go_get (pl_results (g j p)) = (go_get (pl_results p))(job_ID j \<mapsto> h j p)"
    and "\<And>j p. labelled j (h j p)" and "\<And>j p. P (h j p)"
  shows "enters g P"
  unfolding enters_def using assms by blast

lemma enters_addETA: "enters addETA unanswered"
  by (rule entersI [where h = "\<lambda>j p. newETA j"]) (simp_all add: labelled_def unanswered_def)

lemma enters_planUnknown: "enters planUnknown answered"
  by (rule entersI [where h = "\<lambda>j p. (newETA j)\<lparr>je_Reason := ETAOutcomeUnknown\<rparr>"])
     (simp_all add: labelled_def answered_def planUnknown_def)

lemma enters_planAssigned: "enters (planAssigned model nowMs e) answered"
  unfolding enters_def
proof (intro allI)
  fix j p
  show "pl_order (planAssigned model nowMs e j p) = pl_order p @ [job_ID j]
    \<and> pl_planned (planAssigned model nowMs e j p) = pl_planned p
    \<and> (\<exists>r. go_get (pl_results (planAssigned model nowMs e j p)) = (go_get (pl_results p))(job_ID j \<mapsto> r)
        \<and> labelled j r \<and> answered r)"
    by (cases "forTool model (job_RequiredTool j)")
       (auto simp: planAssigned_def Let_def labelled_def answered_def split: option.splits)
qed

subsection \<open>Before the loop\<close>

definition positive :: "durationModel \<Rightarrow> bool" where
  "positive model \<longleftrightarrow> (\<forall>tool. 0 \<le> fst (forTool model tool))"

lemma forTool_nonneg: "positive model \<Longrightarrow> forTool model tool = (ms, basis) \<Longrightarrow> 0 \<le> ms"
  unfolding positive_def by (metis fst_conv)

definition freeFrom :: "int \<Rightarrow> etaPlan \<Rightarrow> bool" where
  "freeFrom nowMs p \<longleftrightarrow> (\<forall>rid f. go_get (pl_free p) rid = Some f \<longrightarrow> nowMs \<le> f)"

text \<open>The robots of the estimates given so far.\<close>

definition busyRobots :: "etaPlan \<Rightarrow> string set" where
  "busyRobots p = {je_RobotID r | a r. go_get (pl_results p) a = Some r \<and> je_Estimated r}"

lemma busyRobots_free: "rid \<notin> busyRobots p \<Longrightarrow> go_get (pl_results p) a = Some r \<Longrightarrow> je_Estimated r \<Longrightarrow>
    je_RobotID r \<noteq> rid"
  by (auto simp: busyRobots_def)

lemma planAssigned_step:
  assumes s: "sched p" "freeFrom nowMs p" and m: "positive model"
    and r: "getRobot e (job_AssignedRobot j) = Some r" "rob_ID r = job_AssignedRobot j"
    and n: "job_AssignedRobot j \<notin> busyRobots p"
    and p': "p' = planAssigned model nowMs e j p"
  shows "sched p'" "freeFrom nowMs p'" "busyRobots p' \<subseteq> insert (job_AssignedRobot j) (busyRobots p)"
    "job_AssignedRobot j \<in> set (pl_assignedOn p')" "set (pl_assignedOn p) \<subseteq> set (pl_assignedOn p')"
proof -
  obtain ms basis where f: "forTool model (job_RequiredTool j) = (ms, basis)" by fastforce
  note ms = forTool_nonneg [OF m f]
  show "job_AssignedRobot j \<in> set (pl_assignedOn p')" "set (pl_assignedOn p) \<subseteq> set (pl_assignedOn p')"
    "freeFrom nowMs p'"
    using f r s(2) unfolding p' by (auto simp: planAssigned_def Let_def freeFrom_def)
  show "busyRobots p' \<subseteq> insert (job_AssignedRobot j) (busyRobots p)"
    using f r unfolding p' by (auto simp: planAssigned_def Let_def busyRobots_def split: if_splits)
  show "sched p'"
  proof (cases "basis = NoBasis")
    case True
    let ?r = "(newETA j)\<lparr>je_Reason := ETANoDuration\<rparr>"
    let ?p1 = "setResult (job_ID j) ?r (addETA j p)"
    have "sched (addETA j p)" by (rule sched_quiet [OF s(1), of "newETA j" _ "job_ID j"]) simp_all
    then have s1: "sched ?p1" by (rule sched_quiet [of _ ?r _ "job_ID j"]) simp_all
    show ?thesis
      unfolding p'
      by (rule sched_free [OF s1, where rid = "job_AssignedRobot j" and f = nowMs])
         (use True f r busyRobots_free [OF n] in \<open>auto simp: planAssigned_def Let_def split: if_splits\<close>)
  next
    case False
    let ?fin = "if job_AssignedAtMs j + ms < nowMs then nowMs else job_AssignedAtMs j + ms"
    let ?r = "(newETA j)\<lparr>je_Estimated := True, je_RobotID := job_AssignedRobot j,
        je_StartMs := job_AssignedAtMs j, je_DurationMs := ms, je_Basis := basis,
        je_Overdue := job_AssignedAtMs j + ms < nowMs, je_EndMs := ?fin\<rparr>"
    have "sched (addETA j p)" by (rule sched_quiet [OF s(1), of "newETA j" _ "job_ID j"]) simp_all
    then show ?thesis
      by (rule sched_estimate [of _ ?r "job_ID j"])
         (use False f r ms busyRobots_free [OF n] in
           \<open>auto simp: p' planAssigned_def Let_def getOr_def split: if_splits option.splits\<close>)
  qed
qed

lemma disjoint_insert: "x \<notin> A \<Longrightarrow> A \<inter> B = {} \<Longrightarrow> C \<subseteq> insert x B \<Longrightarrow> A \<inter> C = {}"
  by blast

lemma planAssigned_fold:
  assumes "sched p" and "freeFrom nowMs p" and m: "positive model"
    and "\<forall>j \<in> set js. \<exists>r. getRobot e (job_AssignedRobot j) = Some r \<and> rob_ID r = job_AssignedRobot j"
    and "distinct (map job_AssignedRobot js)" and "job_AssignedRobot ` set js \<inter> busyRobots p = {}"
    and "busyRobots p \<subseteq> set (pl_assignedOn p)"
  shows "sched (fold (planAssigned model nowMs e) js p) \<and> freeFrom nowMs (fold (planAssigned model nowMs e) js p)
    \<and> busyRobots (fold (planAssigned model nowMs e) js p) \<subseteq> set (pl_assignedOn (fold (planAssigned model nowMs e) js p))"
  using assms(1,2,4-)
proof (induction js arbitrary: p)
  case (Cons j js)
  obtain r where r: "getRobot e (job_AssignedRobot j) = Some r" "rob_ID r = job_AssignedRobot j"
    using Cons.prems(3) by auto
  have n: "job_AssignedRobot j \<notin> busyRobots p" using Cons.prems(5) by simp
  note st = planAssigned_step [OF Cons.prems(1,2) m r n refl]
  have "job_AssignedRobot ` set js \<inter> busyRobots (planAssigned model nowMs e j p) = {}"
    by (rule disjoint_insert [OF _ _ st(3)]) (use Cons.prems(4,5) in simp_all)
  moreover have "distinct (map job_AssignedRobot js)" using Cons.prems(4) by simp
  moreover have "busyRobots (planAssigned model nowMs e j p) \<subseteq> set (pl_assignedOn (planAssigned model nowMs e j p))"
    using st(3-5) Cons.prems(6) by blast
  moreover have "\<forall>j \<in> set js. \<exists>r. getRobot e (job_AssignedRobot j) = Some r \<and> rob_ID r = job_AssignedRobot j"
    using Cons.prems(3) by simp
  ultimately show ?case using Cons.IH [OF st(1,2)] by simp
qed simp

lemma planFree_frame [simp]:
  "pl_results (planFree now e x p) = pl_results p" "pl_order (planFree now e x p) = pl_order p"
  "pl_planned (planFree now e x p) = pl_planned p" "pl_assignedOn (planFree now e x p) = pl_assignedOn p"
  by (cases x; simp add: planFree_def)+

lemma planFree_fold_frame [simp]:
  "pl_results (fold (planFree now e) xs p) = pl_results p" "pl_order (fold (planFree now e) xs p) = pl_order p"
  "pl_planned (fold (planFree now e) xs p) = pl_planned p"
  "pl_assignedOn (fold (planFree now e) xs p) = pl_assignedOn p"
  by (induction xs arbitrary: p) simp_all

lemma planFree_fold:
  assumes "sched p" and "freeFrom (unixMilli now) p" and "busyRobots p \<subseteq> set (pl_assignedOn p)"
  shows "sched (fold (planFree now e) xs p) \<and> freeFrom (unixMilli now) (fold (planFree now e) xs p)"
  using assms
proof (induction xs arbitrary: p)
  case (Cons x xs)
  obtain rid r where x: "x = (rid, r)" by fastforce
  have "sched (planFree now e x p)"
  proof (cases "rid \<notin> set (pl_assignedOn p) \<and> rob_Available r \<and> robotHeardFromLocked r now e")
    case True
    then have n: "rid \<notin> busyRobots p" using Cons.prems(3) by auto
    show ?thesis
      by (rule sched_free [OF Cons.prems(1), where rid = rid and f = "unixMilli now"])
         (use busyRobots_free [OF n] True in \<open>auto simp: x planFree_def\<close>)
  next
    case False
    then have "planFree now e x p = p" by (auto simp: x planFree_def)
    then show ?thesis using Cons.prems(1) by simp
  qed
  moreover have "freeFrom (unixMilli now) (planFree now e x p)"
    using Cons.prems(2) by (auto simp: x planFree_def freeFrom_def)
  ultimately show ?case using Cons.IH [of "planFree now e x p"] Cons.prems(3) by (simp add: busyRobots_def)
qed simp

lemma quiet_fold:
  assumes "sched p" and "\<And>j p. \<exists>r. pl_results (g j p) = go_put (job_ID j) r (pl_results p) \<and> \<not> je_Estimated r
      \<and> pl_free (g j p) = pl_free p"
  shows "sched (fold g js p) \<and> pl_free (fold g js p) = pl_free p"
  using assms(1)
proof (induction js arbitrary: p)
  case (Cons j js)
  obtain r where r: "pl_results (g j p) = go_put (job_ID j) r (pl_results p)" "\<not> je_Estimated r"
    "pl_free (g j p) = pl_free p" using assms(2) by blast
  have "sched (g j p)" by (rule sched_quiet [OF Cons.prems r(2,1,3)])
  then show ?case using Cons.IH [of "g j p"] r(3) by simp
qed simp

subsection \<open>The loop\<close>

definition hopeless :: "JobStatus \<Rightarrow> bool" where
  "hopeless s \<longleftrightarrow> s \<in> {StatusFailed, StatusUnreachable, StatusCancelled, StatusUnknown}"

lemma depReady_Cons:
  "depReady jobs results (dep # deps) ready known =
     (case go_get jobs dep of
        None \<Rightarrow> depReady jobs results deps ready known
      | Some d \<Rightarrow>
          if job_Status d = StatusDone then depReady jobs results deps ready known
          else if hopeless (job_Status d) then (0, False, True)
          else (case go_get results dep of
               None \<Rightarrow> depReady jobs results deps ready False
             | Some r \<Rightarrow> if unanswered r then depReady jobs results deps ready False
                 else if \<not> je_Estimated r then (0, False, True)
                 else depReady jobs results deps (max ready (je_EndMs r)) known))"
  by (auto simp: hopeless_def unanswered_def max_def split: option.splits)

lemma depReady_known:
  "depReady jobs results deps ready known = (rd, True, False) \<Longrightarrow>
     known \<and> ready \<le> rd
   \<and> (\<forall>d \<in> set deps. \<forall>dj. go_get jobs d = Some dj \<longrightarrow> job_Status dj \<noteq> StatusDone \<longrightarrow>
        (\<exists>r. go_get results d = Some r \<and> je_Estimated r \<and> je_EndMs r \<le> rd))"
proof (induction deps arbitrary: ready known)
  case (Cons dep deps)
  note prem = Cons.prems [unfolded depReady_Cons]
  show ?case
  proof (cases "\<exists>d. go_get jobs dep = Some d \<and> job_Status d \<noteq> StatusDone")
    case False
    then have "depReady jobs results deps ready known = (rd, True, False)"
      using prem by (auto split: option.splits if_splits)
    then show ?thesis using Cons.IH [of ready known] False by auto
  next
    case True
    then obtain d where d: "go_get jobs dep = Some d" "job_Status d \<noteq> StatusDone" by blast
    have no: "depReady jobs results deps ready False \<noteq> (rd, True, False)"
      using Cons.IH [of ready False] by blast
    then obtain r where r: "go_get results dep = Some r" "je_Estimated r"
      "depReady jobs results deps (max ready (je_EndMs r)) known = (rd, True, False)"
      using prem d by (auto split: option.splits if_splits)
    then show ?thesis using Cons.IH [of "max ready (je_EndMs r)" known] by auto
  qed
qed simp

lemma depReady_unknown:
  "depReady jobs results deps ready known = (rd, False, False) \<Longrightarrow> known \<Longrightarrow>
     \<exists>d \<in> set deps. \<exists>dj. go_get jobs d = Some dj \<and> job_Status dj \<noteq> StatusDone
       \<and> \<not> hopeless (job_Status dj) \<and> (\<forall>r. go_get results d = Some r \<longrightarrow> unanswered r)"
proof (induction deps arbitrary: ready)
  case (Cons dep deps)
  note prem = Cons.prems(1) [unfolded depReady_Cons]
  show ?case
  proof (cases "\<exists>ready'. depReady jobs results deps ready' known = (rd, False, False)")
    case True
    then show ?thesis using Cons.IH Cons.prems(2) by auto
  next
    case False
    then show ?thesis using prem by (auto split: option.splits if_splits)
  qed
qed simp

lemma earliestLoop_mem:
  "earliestLoop e j ready free rs best te = (Some (r, start), te') \<Longrightarrow>
     best = Some (r, start) \<or> (r \<in> set rs \<and> (\<exists>f. go_get free (rob_ID r) = Some f \<and> start = max f ready))"
proof (induction rs arbitrary: best te)
  case (Cons x rs)
  then show ?case
  proof (cases "go_get free (rob_ID x)")
    case None
    then obtain te1 where "earliestLoop e j ready free rs best te1 = (Some (r, start), te')"
      using Cons.prems by (auto split: if_splits)
    from Cons.IH [OF this] show ?thesis by auto
  next
    case (Some f)
    then consider te1 where "earliestLoop e j ready free rs best te1 = (Some (r, start), te')"
      | "earliestLoop e j ready free rs (Some (x, max f ready)) True = (Some (r, start), te')"
      using Cons.prems by (auto simp: Let_def max_def split: if_splits)
    then show ?thesis using Cons.IH Some by cases fastforce+
  qed
qed simp

definition loop_ok :: "instant \<Rightarrow> 's engine \<Rightarrow> string list \<Rightarrow> etaPlan \<Rightarrow> bool" where
  "loop_ok now e order p \<longleftrightarrow>
     sched p \<and> freeFrom (unixMilli now) p \<and> pl_order p = order
   \<and> (\<forall>x. go_get (pl_results p) x \<noteq> None \<longrightarrow> x \<in> set order)
   \<and> (\<forall>j \<in> set (waitingOrder e). \<exists>r. go_get (pl_results p) (job_ID j) = Some r \<and> labelled j r
        \<and> (if job_ID j \<in> set (pl_planned p) then answered r else unanswered r))
   \<and> (\<forall>j \<in> set (waitingOrder e). \<forall>r. go_get (pl_results p) (job_ID j) = Some r \<longrightarrow> je_Estimated r \<longrightarrow>
        unixMilli now \<le> je_StartMs r
      \<and> (\<forall>d \<in> set (job_DependsOn j). \<forall>dj. getJob e d = Some dj \<longrightarrow> job_Status dj \<noteq> StatusDone \<longrightarrow>
           (\<exists>rd. go_get (pl_results p) d = Some rd \<and> je_Estimated rd \<and> je_EndMs rd \<le> je_StartMs r)))
   \<and> (\<forall>j \<in> set (startedJobs e @ unknownJobs e). \<exists>r. go_get (pl_results p) (job_ID j) = Some r \<and> labelled j r \<and> answered r)"

lemma loop_okD:
  assumes "loop_ok now e order p"
  shows "sched p" "freeFrom (unixMilli now) p" "pl_order p = order"
    "j \<in> set (waitingOrder e) \<Longrightarrow> \<exists>r. go_get (pl_results p) (job_ID j) = Some r \<and> labelled j r
        \<and> (if job_ID j \<in> set (pl_planned p) then answered r else unanswered r)"
    "j \<in> set (waitingOrder e) \<Longrightarrow> go_get (pl_results p) (job_ID j) = Some r \<Longrightarrow> je_Estimated r \<Longrightarrow>
        unixMilli now \<le> je_StartMs r"
    "j \<in> set (waitingOrder e) \<Longrightarrow> go_get (pl_results p) (job_ID j) = Some r \<Longrightarrow> je_Estimated r \<Longrightarrow>
        d \<in> set (job_DependsOn j) \<Longrightarrow> getJob e d = Some dj \<Longrightarrow> job_Status dj \<noteq> StatusDone \<Longrightarrow>
        \<exists>rd. go_get (pl_results p) d = Some rd \<and> je_Estimated rd \<and> je_EndMs rd \<le> je_StartMs r"
    "j \<in> set (startedJobs e @ unknownJobs e) \<Longrightarrow>
        \<exists>r. go_get (pl_results p) (job_ID j) = Some r \<and> labelled j r \<and> answered r"
    "go_get (pl_results p) x = Some r \<Longrightarrow> x \<in> set order"
  using assms unfolding loop_ok_def by blast+

text \<open>Settling one job: the results of the others stay, so what was promised about them stays.\<close>

lemma loop_ok_settle:
  assumes l: "loop_ok now e order p" and w: "go_wf job_ID (eng_jobs e)" and j: "j \<in> set (waitingOrder e)"
    and n: "job_ID j \<notin> set (pl_planned p)"
    and s: "sched p'" "freeFrom (unixMilli now) p'"
    and res: "pl_results p' = go_put (job_ID j) r (pl_results p)" "labelled j r" "answered r"
    and o: "pl_order p' = pl_order p" "pl_planned p' = go_add (job_ID j) (pl_planned p)"
    and new: "je_Estimated r \<Longrightarrow> unixMilli now \<le> je_StartMs r
        \<and> (\<forall>d \<in> set (job_DependsOn j). \<forall>dj. getJob e d = Some dj \<longrightarrow> job_Status dj \<noteq> StatusDone \<longrightarrow>
           (\<exists>rd. go_get (pl_results p) d = Some rd \<and> je_Estimated rd \<and> je_EndMs rd \<le> je_StartMs r))"
  shows "loop_ok now e order p'"
proof -
  obtain r0 where r0: "go_get (pl_results p) (job_ID j) = Some r0" "unanswered r0"
    using loop_okD(4) [OF l j] n by auto
  have keep: "\<exists>rd. go_get (pl_results p') d = Some rd \<and> je_Estimated rd \<and> je_EndMs rd \<le> x"
    if "\<exists>rd. go_get (pl_results p) d = Some rd \<and> je_Estimated rd \<and> je_EndMs rd \<le> x" for d x
    using that r0 by (auto simp: res(1) unanswered_def)
  have mem: "k \<in> set (waitingOrder e) \<or> k \<in> set (startedJobs e @ unknownJobs e) \<Longrightarrow> getJob e (job_ID k) = Some k" for k
    using go_wf_vals [OF w, of k] by (auto simp: waitingOrder_def startedJobs_def unknownJobs_def simp del: set_map)
  have 1: "\<exists>x. go_get (pl_results p') (job_ID k) = Some x \<and> labelled k x
      \<and> (if job_ID k \<in> set (pl_planned p') then answered x else unanswered x)"
    if k: "k \<in> set (waitingOrder e)" for k
  proof (cases "job_ID k = job_ID j")
    case True
    then have "k = j" using mem k j by (metis option.inject)
    then show ?thesis using res o by simp
  next
    case False
    then show ?thesis using loop_okD(4) [OF l k] res(1) o(2) by simp
  qed
  have 2: "unixMilli now \<le> je_StartMs x
      \<and> (\<forall>d \<in> set (job_DependsOn k). \<forall>dj. getJob e d = Some dj \<longrightarrow> job_Status dj \<noteq> StatusDone \<longrightarrow>
           (\<exists>rd. go_get (pl_results p') d = Some rd \<and> je_Estimated rd \<and> je_EndMs rd \<le> je_StartMs x))"
    if k: "k \<in> set (waitingOrder e)" "go_get (pl_results p') (job_ID k) = Some x" "je_Estimated x" for k x
  proof (cases "job_ID k = job_ID j")
    case True
    then have "k = j" "x = r" using mem k j res(1) by (metis option.inject, simp)
    then show ?thesis using new k(3) keep by blast
  next
    case False
    then have "go_get (pl_results p) (job_ID k) = Some x" using k(2) res(1) by simp
    then show ?thesis using loop_okD(5,6) [OF l k(1) _ k(3)] keep by blast
  qed
  have 3: "\<exists>x. go_get (pl_results p') (job_ID k) = Some x \<and> labelled k x \<and> answered x"
    if k: "k \<in> set (startedJobs e @ unknownJobs e)" for k
  proof (cases "job_ID k = job_ID j")
    case True
    then have "k = j" using mem k j by (metis option.inject)
    then show ?thesis using res by simp
  next
    case False
    then show ?thesis using loop_okD(7) [OF l k] res(1) by simp
  qed
  have 4: "x \<in> set order" if "go_get (pl_results p') x \<noteq> None" for x
    using that res(1) r0(1) loop_okD(8) [OF l] by (auto split: if_splits)
  show ?thesis
    unfolding loop_ok_def using s o loop_okD(3) [OF l] 1 2 3 4 by simp
qed

lemma freeFrom_cong: "pl_free p' = pl_free p \<Longrightarrow> freeFrom n p' = freeFrom n p"
  by (simp add: freeFrom_def)

text \<open>Settling a job with a reason.\<close>

lemma loop_ok_reason:
  assumes l: "loop_ok now e order p" and w: "go_wf job_ID (eng_jobs e)" and j: "j \<in> set (waitingOrder e)"
    and n: "job_ID j \<notin> set (pl_planned p)"
    and r0: "go_get (pl_results p) (job_ID j) = Some r0" "labelled j r0" "unanswered r0" "why \<noteq> NoReason"
    and res: "pl_results p' = go_put (job_ID j) (r0\<lparr>je_Reason := why\<rparr>) (pl_results p)"
    and o: "pl_order p' = pl_order p" "pl_planned p' = go_add (job_ID j) (pl_planned p)" "pl_free p' = pl_free p"
  shows "loop_ok now e order p'"
proof (rule loop_ok_settle [OF l w j n _ _ res _ _ o(1,2)])
  show "sched p'" by (rule sched_quiet [OF loop_okD(1) [OF l] _ res o(3)]) (use r0 in \<open>simp add: unanswered_def\<close>)
  show "freeFrom (unixMilli now) p'" using loop_okD(2) [OF l] freeFrom_cong [OF o(3)] by simp
qed (use r0 in \<open>simp_all add: labelled_def answered_def unanswered_def\<close>)

lemma planOne_ok:
  assumes l: "loop_ok now e order p" and w: "go_wf job_ID (eng_jobs e)" and m: "positive model"
    and j: "j \<in> set (waitingOrder e)" and o: "planOne model e j p = (p', moved)"
  shows "loop_ok now e order p'"
proof (cases "p' = p")
  case True
  then show ?thesis using l by simp
next
  case False
  have n: "job_ID j \<notin> set (pl_planned p)" using o False by (auto simp: planOne_def Let_def split: if_splits)
  obtain r0 where r0: "go_get (pl_results p) (job_ID j) = Some r0" "labelled j r0" "unanswered r0"
    using loop_okD(4) [OF l j] n by auto
  obtain ready known dead where d: "depReady (eng_jobs e) (pl_results p) (job_DependsOn j) 0 True = (ready, known, dead)"
    by (metis prod_cases3)
  obtain ms basis where f: "forTool model (job_RequiredTool j) = (ms, basis)" by fastforce
  obtain best te where b: "earliestLoop e j ready (pl_free p) (go_vals (eng_robots e)) None False = (best, te)" by fastforce
  note unf = o [unfolded planOne_def Let_def d f r0(1) option.case prod.case]
  note quiet = loop_ok_reason [OF l w j n r0]
  show ?thesis
  proof (cases "dead \<or> basis = NoBasis \<or> best = None")
    case True
    have known: "known \<or> dead" using unf n False by (auto split: if_splits)
    consider (dead) dead | (noBasis) "\<not> dead" "basis = NoBasis" | (noRobot) "\<not> dead" "basis \<noteq> NoBasis" "best = None"
      using True by blast
    then show ?thesis
    proof cases
      case dead
      show ?thesis by (rule quiet [of ETADependency p']) (use unf n dead in auto)
    next
      case noBasis
      show ?thesis by (rule quiet [of ETANoDuration p']) (use unf n noBasis known in auto)
    next
      case noRobot
      show ?thesis
        by (rule quiet [of "if te then ETANoRobotAvailable else ETANoRobotWithTool" p'])
           (use unf n noRobot known b in auto)
    qed
  next
    case good: False
    then obtain r start where best: "best = Some (r, start)" by auto
    have known: known using unf n False good by (auto split: if_splits)
    obtain fr where fr: "go_get (pl_free p) (rob_ID r) = Some fr" "start = max fr ready"
      using earliestLoop_mem [OF b [unfolded best]] by auto
    let ?r = "r0\<lparr>je_Estimated := True, je_RobotID := rob_ID r, je_StartMs := start, je_DurationMs := ms,
        je_Basis := basis, je_EndMs := start + ms\<rparr>"
    have p': "p' = (setResult (job_ID j) ?r (p\<lparr>pl_planned := go_add (job_ID j) (pl_planned p)\<rparr>))
        \<lparr>pl_free := go_put (rob_ID r) (start + ms) (pl_free p)\<rparr>"
      using unf n good known b best by auto
    have ms: "0 \<le> ms" by (rule forTool_nonneg [OF m f])
    have "unixMilli now \<le> fr" using loop_okD(2) [OF l] fr(1) unfolding freeFrom_def by blast
    then have now: "unixMilli now \<le> start" using fr(2) by simp
    have deps: "\<forall>d \<in> set (job_DependsOn j). \<forall>dj. getJob e d = Some dj \<longrightarrow> job_Status dj \<noteq> StatusDone \<longrightarrow>
        (\<exists>r. go_get (pl_results p) d = Some r \<and> je_Estimated r \<and> je_EndMs r \<le> ready)"
      using depReady_known [of "eng_jobs e" "pl_results p" "job_DependsOn j" 0 True ready] d known good by simp
    show ?thesis
    proof (rule loop_ok_settle [OF l w j n, where r = ?r])
      show "sched p'"
      proof (rule sched_estimate [OF loop_okD(1) [OF l], where r = ?r and jid = "job_ID j"])
        fix a ra assume "go_get (pl_results p) a = Some ra" "je_Estimated ra" "je_RobotID ra = je_RobotID ?r"
        then show "je_EndMs ra \<le> je_StartMs ?r"
          using schedD(2) [OF loop_okD(1) [OF l]] fr by fastforce
      qed (use ms in \<open>auto simp: p'\<close>)
      show "freeFrom (unixMilli now) p'" using loop_okD(2) [OF l] now ms by (auto simp: freeFrom_def p')
      show "unixMilli now \<le> je_StartMs ?r
        \<and> (\<forall>d \<in> set (job_DependsOn j). \<forall>dj. getJob e d = Some dj \<longrightarrow> job_Status dj \<noteq> StatusDone \<longrightarrow>
           (\<exists>rd. go_get (pl_results p) d = Some rd \<and> je_Estimated rd \<and> je_EndMs rd \<le> je_StartMs ?r))"
        using now deps fr(2) by fastforce
    qed (use r0 in \<open>auto simp: p' labelled_def answered_def unanswered_def\<close>)
  qed
qed

lemma planPass_ok:
  assumes "loop_ok now e order p" and w: "go_wf job_ID (eng_jobs e)" and m: "positive model"
    and "set js \<subseteq> set (waitingOrder e)" and "planPass model e js p progress = (p', progress')"
  shows "loop_ok now e order p'"
  using assms(1,4,5)
proof (induction js arbitrary: p progress)
  case (Cons j js)
  obtain p1 s where 1: "planOne model e j p = (p1, s)" by fastforce
  have "loop_ok now e order p1" using planOne_ok [OF Cons.prems(1) w m _ 1] Cons.prems(2) by simp
  then show ?case using Cons.IH [of p1 "progress \<or> s"] Cons.prems 1 by simp
qed simp

text \<open>A pass that settles nothing changes nothing, and every job it leaves waits for a known reason.\<close>

lemma planOne_stuck:
  assumes "planOne model e j p = (p', False)"
  shows "p' = p" "job_ID j \<in> set (pl_planned p) \<or>
    (\<exists>ready. depReady (eng_jobs e) (pl_results p) (job_DependsOn j) 0 True = (ready, False, False))"
  using assms by (auto simp: planOne_def Let_def split: if_splits prod.splits option.splits)

lemma planPass_stuck:
  "planPass model e js p False = (p', False) \<Longrightarrow> p' = p \<and> (\<forall>j \<in> set js. planOne model e j p = (p, False))"
proof (induction js)
  case (Cons j js)
  obtain p1 s where 1: "planOne model e j p = (p1, s)" by fastforce
  have s: "\<not> s" using planPass_planned [of model e js p1 s p' False] Cons.prems 1 by auto
  then have "p1 = p" using planOne_stuck(1) [of model e j p p1] 1 by simp
  then show ?case using Cons 1 s by simp
qed simp

lemma planLoop_ok:
  assumes "loop_ok now e order p" and "go_wf job_ID (eng_jobs e)" and "positive model"
  shows "loop_ok now e order (planLoop model e (waitingOrder e) p)
    \<and> (\<forall>j \<in> set (waitingOrder e). planOne model e j (planLoop model e (waitingOrder e) p)
        = (planLoop model e (waitingOrder e) p, False))"
proof -
  define js where "js = waitingOrder e"
  have "loop_ok now e order (planLoop model e js p)
      \<and> (\<forall>j \<in> set js. planOne model e j (planLoop model e js p) = (planLoop model e js p, False))"
    using assms js_def
  proof (induction model e js p rule: planLoop.induct)
    case (1 model e js p)
    obtain p' progress where pp: "planPass model e js p False = (p', progress)" by fastforce
    have ok: "loop_ok now e order p'" using planPass_ok [OF 1(2,3,4) _ pp] 1(5) by simp
    show ?case
    proof (cases progress)
      case True
      then show ?thesis using 1(1) [OF pp [symmetric] True ok 1(3-5)] True pp by (simp add: planLoop.simps [of model e js p])
    next
      case False
      then show ?thesis
        using ok pp planPass_stuck [of model e js p p'] by (simp add: planLoop.simps [of model e js p])
    qed
  qed
  then show ?thesis by (simp add: js_def)
qed

subsection \<open>The whole plan\<close>

definition openJobs :: "'s engine \<Rightarrow> job list" where
  "openJobs e = startedJobs e @ unknownJobs e @ waitingOrder e"

lemma mem_openJobs:
  assumes "base_ok e"
  shows "j \<in> set (openJobs e) \<longleftrightarrow> getJob e (job_ID j) = Some j
    \<and> job_Status j \<in> {StatusAssigned, StatusUnknown, StatusPending, StatusBlocked}"
    "j \<in> set (startedJobs e) \<longleftrightarrow> getJob e (job_ID j) = Some j \<and> job_Status j = StatusAssigned"
    "j \<in> set (unknownJobs e) \<longleftrightarrow> getJob e (job_ID j) = Some j \<and> job_Status j = StatusUnknown"
    "j \<in> set (waitingOrder e) \<longleftrightarrow> getJob e (job_ID j) = Some j
       \<and> (job_Status j = StatusPending \<or> job_Status j = StatusBlocked)"
  using go_wf_vals [OF base_jobs_wf [OF assms], of j]
  by (auto simp: openJobs_def startedJobs_def unknownJobs_def waitingOrder_def simp del: set_map)

lemma distinct_openJobs:
  assumes "base_ok e"
  shows "distinct (map job_ID (openJobs e))"
proof -
  have inj: "inj_on job_ID (set (openJobs e))"
    using mem_openJobs(1) [OF assms] by (metis inj_onI option.inject)
  have "distinct (go_vals (eng_jobs e))"
    using go_wf_vals_distinct [OF base_jobs_wf [OF assms]] by (simp only: distinct_map)
  then have "distinct (openJobs e)"
    by (auto simp: openJobs_def startedJobs_def unknownJobs_def waitingOrder_def)
  then show ?thesis using inj by (simp only: distinct_map)
qed

lemma planStart_ok:
  assumes ok: "engine_ok e" and m: "positive model"
  shows "loop_ok now e (map job_ID (openJobs e)) (planStart model now e)"
proof -
  note b = engine_okD(1) [OF ok] and mem = mem_openJobs [OF engine_okD(1) [OF ok]]
  define p0 :: etaPlan where "p0 = \<lparr>pl_results = [], pl_order = [], pl_free = [], pl_assignedOn = [], pl_planned = []\<rparr>"
  define p1 where "p1 = fold (planAssigned model (unixMilli now) e) (startedJobs e) p0"
  define p2 where "p2 = fold (planFree now e) (eng_robots e) p1"
  define p3 where "p3 = fold planUnknown (unknownJobs e) p2"
  define p4 where "p4 = fold addETA (waitingOrder e) p3"
  have p4: "planStart model now e = p4"
    unfolding planStart_def Let_def p4_def p3_def p2_def p1_def p0_def ..
  have d: "distinct (map job_ID (startedJobs e))" "distinct (map job_ID (unknownJobs e))"
    "distinct (map job_ID (waitingOrder e))"
    "job_ID ` set (startedJobs e) \<inter> job_ID ` set (unknownJobs e @ waitingOrder e) = {}"
    "job_ID ` set (unknownJobs e) \<inter> job_ID ` set (waitingOrder e) = {}"
    using distinct_openJobs [OF b]
    by (simp_all only: openJobs_def map_append distinct_append set_append set_map image_Un simp_thms)
  have inj: "inj_on job_AssignedRobot (set (startedJobs e))"
  proof (rule inj_onI)
    fix x y assume "x \<in> set (startedJobs e)" "y \<in> set (startedJobs e)" and eq: "job_AssignedRobot x = job_AssignedRobot y"
    then have *: "getJob e (job_ID x) = Some x" "job_Status x = StatusAssigned" "getJob e (job_ID y) = Some y"
      "job_Status y = StatusAssigned" by (simp_all add: mem)
    have "job_ID x = job_ID y" by (rule reserved_one [OF base_okD(3) [OF b] *(1,3,2,4) eq])
    then show "x = y" using *(1,3) by (metis option.inject)
  qed
  have rob: "\<forall>j \<in> set (startedJobs e). \<exists>r. getRobot e (job_AssignedRobot j) = Some r \<and> rob_ID r = job_AssignedRobot j"
  proof
    fix j assume "j \<in> set (startedJobs e)"
    then have j: "getJob e (job_ID j) = Some j" "inFlight (job_Status j)" by (simp_all only: mem inFlight_simps)
    then obtain r where "getRobot e (job_AssignedRobot j) = Some r"
      using reserved_robot(2) [OF base_okD(3) [OF b] j] by blast
    then show "\<exists>r. getRobot e (job_AssignedRobot j) = Some r \<and> rob_ID r = job_AssignedRobot j"
      using base_robot_ID [OF b] by blast
  qed
  have p0: "sched p0" "freeFrom (unixMilli now) p0" "busyRobots p0 = {}"
    by (simp_all add: p0_def sched_def freeFrom_def busyRobots_def)
  have 1: "sched p1 \<and> freeFrom (unixMilli now) p1 \<and> busyRobots p1 \<subseteq> set (pl_assignedOn p1)"
    unfolding p1_def
    by (rule planAssigned_fold [OF p0(1,2) m rob])
       (use inj d(1) p0(3) in \<open>simp_all add: distinct_map\<close>)
  have 2: "sched p2 \<and> freeFrom (unixMilli now) p2"
    unfolding p2_def using 1 by (intro planFree_fold) simp_all
  have 3: "sched p3 \<and> pl_free p3 = pl_free p2"
    unfolding p3_def using 2 by (intro quiet_fold) (auto simp: planUnknown_def)
  have 4: "sched p4 \<and> pl_free p4 = pl_free p3"
    unfolding p4_def using 3 by (intro quiet_fold) auto
  note A = enters_fold [OF enters_planAssigned [where model = model and nowMs = "unixMilli now" and e = e] d(1),
      where p = p0, folded p1_def]
  note U = enters_fold [OF enters_planUnknown d(2), where p = p2, folded p3_def]
  note W = enters_fold [OF enters_addETA d(3), where p = p3, folded p4_def]
  have o: "pl_order p4 = map job_ID (openJobs e)" "pl_planned p4 = []"
    using W(1,2) U(1,2) A(1,2) by (simp_all add: p2_def p0_def openJobs_def)
  have s: "\<exists>r. go_get (pl_results p4) (job_ID j) = Some r \<and> labelled j r \<and> answered r"
    if "j \<in> set (startedJobs e @ unknownJobs e)" for j
  proof (cases "j \<in> set (startedJobs e)")
    case True
    then have "job_ID j \<notin> job_ID ` set (waitingOrder e)" "job_ID j \<notin> job_ID ` set (unknownJobs e)"
      using d(4) by auto
    then show ?thesis using A(4) [OF True] W(3) U(3) by (simp add: p2_def)
  next
    case False
    then have "j \<in> set (unknownJobs e)" using that by simp
    moreover from this have "job_ID j \<notin> job_ID ` set (waitingOrder e)" using d(5) by auto
    ultimately show ?thesis using U(4) W(3) by simp
  qed
  show ?thesis
    unfolding p4 loop_ok_def
  proof (intro conjI)
    show "freeFrom (unixMilli now) p4" using 2 3 4 freeFrom_cong by metis
    show "\<forall>x. go_get (pl_results p4) x \<noteq> None \<longrightarrow> x \<in> set (map job_ID (openJobs e))"
    proof (intro allI impI, rule ccontr)
      fix x assume "go_get (pl_results p4) x \<noteq> None" and n: "x \<notin> set (map job_ID (openJobs e))"
      have "x \<notin> job_ID ` set (startedJobs e)" "x \<notin> job_ID ` set (unknownJobs e)" "x \<notin> job_ID ` set (waitingOrder e)"
        using n by (simp_all add: openJobs_def)
      then have "go_get (pl_results p4) x = None" using A(3) U(3) W(3) by (simp add: p2_def p0_def)
      then show False using \<open>go_get (pl_results p4) x \<noteq> None\<close> by simp
    qed
    show "\<forall>j \<in> set (waitingOrder e). \<exists>r. go_get (pl_results p4) (job_ID j) = Some r \<and> labelled j r
        \<and> (if job_ID j \<in> set (pl_planned p4) then answered r else unanswered r)"
      using W(4) o(2) by simp
    show "\<forall>j \<in> set (waitingOrder e). \<forall>r. go_get (pl_results p4) (job_ID j) = Some r \<longrightarrow> je_Estimated r \<longrightarrow>
        unixMilli now \<le> je_StartMs r
      \<and> (\<forall>d \<in> set (job_DependsOn j). \<forall>dj. getJob e d = Some dj \<longrightarrow> job_Status dj \<noteq> StatusDone \<longrightarrow>
           (\<exists>rd. go_get (pl_results p4) d = Some rd \<and> je_Estimated rd \<and> je_EndMs rd \<le> je_StartMs r))"
      using W(4) by (fastforce simp: unanswered_def)
  qed (use 4 o(1) s in blast)+
qed

lemma planLocked_ok:
  assumes ok: "engine_ok e" and m: "positive model"
  shows "\<exists>p. planLocked model now e = (pl_results p, map job_ID (openJobs e)) \<and> loop_ok now e (map job_ID (openJobs e)) p
    \<and> (\<forall>j \<in> set (openJobs e). \<exists>r. go_get (pl_results p) (job_ID j) = Some r \<and> labelled j r \<and> answered r)"
proof -
  note b = engine_okD(1) [OF ok] and mem = mem_openJobs [OF engine_okD(1) [OF ok]]
  define p where "p = planLoop model e (waitingOrder e) (planStart model now e)"
  have l: "loop_ok now e (map job_ID (openJobs e)) p"
    and stuck: "\<forall>j \<in> set (waitingOrder e). planOne model e j p = (p, False)"
    using planLoop_ok [OF planStart_ok [OF ok m] base_jobs_wf [OF b] m] by (simp_all add: p_def)
  have wf: "wf (depRel (eng_jobs e))"
    using queue_okD(3) [OF base_okD(1) [OF b]] finite_depRel finite_acyclic_wf by blast
  have planned: "j \<in> set (waitingOrder e) \<longrightarrow> x = job_ID j \<longrightarrow> job_ID j \<in> set (pl_planned p)" for x j
    using wf
  proof (induction x arbitrary: j)
    case (less x)
    show ?case
    proof (intro impI)
      assume j: "j \<in> set (waitingOrder e)" and x: "x = job_ID j"
      show "job_ID j \<in> set (pl_planned p)"
      proof (rule ccontr)
        assume n: "job_ID j \<notin> set (pl_planned p)"
        then obtain ready where "depReady (eng_jobs e) (pl_results p) (job_DependsOn j) 0 True = (ready, False, False)"
          using planOne_stuck(2) [OF bspec [OF stuck j]] by blast
        from depReady_unknown [OF this]
        obtain d dj where d: "d \<in> set (job_DependsOn j)" "getJob e d = Some dj" "job_Status dj \<noteq> StatusDone"
          "\<not> hopeless (job_Status dj)" "\<forall>r. go_get (pl_results p) d = Some r \<longrightarrow> unanswered r" by auto
        have id: "job_ID dj = d" using base_job_ID [OF b d(2)] .
        have dep: "(d, x) \<in> depRel (eng_jobs e)" using j d(1) x by (auto simp: depRel_def mem)
        have no: False if "answered r" "go_get (pl_results p) d = Some r" for r
          using that d(5) by (auto simp: answered_def unanswered_def)
        have "dj \<notin> set (startedJobs e @ unknownJobs e)" using loop_okD(7) [OF l, of dj] id no by auto
        then have w: "dj \<in> set (waitingOrder e)"
          using d(2-4) id by (cases "job_Status dj") (auto simp: mem hopeless_def)
        then have "job_ID dj \<in> set (pl_planned p)" using less(1) [OF dep, of dj] id by simp
        then show False using loop_okD(4) [OF l w] id no by auto
      qed
    qed
  qed
  have "\<exists>r. go_get (pl_results p) (job_ID j) = Some r \<and> labelled j r \<and> answered r" if "j \<in> set (openJobs e)" for j
    using that loop_okD(4,7) [OF l, of j] planned [of j "job_ID j"] by (auto simp: openJobs_def)
  moreover have "planLocked model now e = (pl_results p, map job_ID (openJobs e))"
    using loop_okD(3) [OF l] by (simp add: planLocked_def p_def Let_def)
  ultimately show ?thesis using l by blast
qed

subsection \<open>The observed durations\<close>

definition countsFrom0 :: "sampleSums \<Rightarrow> bool" where
  "countsFrom0 m \<longleftrightarrow>
     (\<forall>t v. go_get (sm_sum m) t = Some v \<longrightarrow> 0 \<le> v) \<and> (\<forall>t n. go_get (sm_count m) t = Some n \<longrightarrow> 0 \<le> n)
   \<and> 0 \<le> sm_allSum m \<and> 0 \<le> sm_allCount m"

lemma getOr_nonneg: "(\<And>v. go_get m k = Some v \<Longrightarrow> 0 \<le> v) \<Longrightarrow> 0 \<le> getOr (0 :: int) m k"
  by (auto simp: getOr_def split: option.splits)

lemma addSample_nonneg:
  assumes "countsFrom0 m" and "0 \<le> ds_ms s"
  shows "countsFrom0 (addSample win s m)"
proof -
  have "0 \<le> getOr 0 (sm_sum m) (ds_tool s)" "0 \<le> getOr 0 (sm_count m) (ds_tool s)"
    using assms(1) by (auto simp: countsFrom0_def intro: getOr_nonneg)
  then show ?thesis using assms by (auto simp: addSample_def Let_def countsFrom0_def)
qed

lemma fold_addSample_nonneg:
  "countsFrom0 m \<Longrightarrow> \<forall>s \<in> set ss. 0 \<le> ds_ms s \<Longrightarrow> countsFrom0 (fold (addSample win) ss m)"
  by (induction ss arbitrary: m) (simp_all add: addSample_nonneg)

lemma quotInt_nonneg: "0 \<le> a \<Longrightarrow> 0 \<le> b \<Longrightarrow> 0 \<le> quotInt a b"
  by (simp add: quotInt_def div_int_pos_iff sgn_if)

lemma get_map_key: "go_get (map (\<lambda>(k, v). (k, f k v)) m) k = map_option (f k) (go_get m k)"
  by (induction m) auto

lemma samplesOf_nonneg: "s \<in> set (samplesOf jobs) \<Longrightarrow> 0 \<le> ds_ms s"
  by (auto simp: samplesOf_def)

lemma observations_nonneg:
  "go_get (ob_byTool (durationModelLocked e)) t = Some ms \<Longrightarrow> 0 \<le> ms"
  "0 \<le> ob_all (durationModelLocked e)"
proof -
  define win where "win = (if eta_Window (eng_eta e) \<le> 0 then DefaultETAWindow else eta_Window (eng_eta e))"
  define m where "m = fold (addSample win) (sort_key (\<lambda>s. - ds_completedAt s) (samplesOf (eng_jobs e)))
      \<lparr>sm_sum = [], sm_window = [], sm_count = [], sm_allSum = 0, sm_allCount = 0\<rparr>"
  have m: "countsFrom0 m" unfolding m_def
    by (rule fold_addSample_nonneg) (simp_all add: countsFrom0_def samplesOf_nonneg)
  have o: "ob_byTool (durationModelLocked e) = map (\<lambda>(tool, n). (tool, quotInt (getOr 0 (sm_sum m) tool) n)) (sm_count m)"
    "ob_all (durationModelLocked e) = (if 0 < sm_allCount m then quotInt (sm_allSum m) (sm_allCount m) else 0)"
    by (simp_all add: durationModelLocked_def Let_def m_def win_def)
  show "0 \<le> ob_all (durationModelLocked e)" using m by (simp add: o(2) countsFrom0_def quotInt_nonneg)
  assume "go_get (ob_byTool (durationModelLocked e)) t = Some ms"
  then obtain n where "go_get (sm_count m) t = Some n" "ms = quotInt (getOr 0 (sm_sum m) t) n"
    unfolding o(1) get_map_key by auto
  then show "0 \<le> ms" using m by (auto simp: countsFrom0_def intro!: quotInt_nonneg getOr_nonneg)
qed

lemma positive_observed:
  "positive \<lparr>dm_byTool = ob_byTool (durationModelLocked e), dm_all = ob_all (durationModelLocked e), dm_def = d\<rparr>"
  using observations_nonneg [of e]
  by (auto simp: positive_def forTool_def milliseconds_def millisecond_def sgn_if split: option.splits)

subsection \<open>The answer\<close>

text \<open>A range is added to an estimate, nothing else of it changes.\<close>

definition sameTimes :: "JobETA \<Rightarrow> JobETA \<Rightarrow> bool" where
  "sameTimes r a \<longleftrightarrow>
     je_JobID a = je_JobID r \<and> je_Status a = je_Status r \<and> je_Estimated a = je_Estimated r
   \<and> je_Reason a = je_Reason r \<and> je_RobotID a = je_RobotID r \<and> je_StartMs a = je_StartMs r
   \<and> je_EndMs a = je_EndMs r \<and> je_DurationMs a = je_DurationMs r \<and> je_Basis a = je_Basis r"

lemma attach_same: "sameTimes r (attachIntervalLocked r low high counts e)"
  by (auto simp: attachIntervalLocked_def sameTimes_def split: option.splits)

definition shown ::
  "(string, JobETA) gomap \<Rightarrow> (string, JobETA) gomap \<Rightarrow> (string, int) gomap \<Rightarrow> 's engine \<Rightarrow> string \<Rightarrow> JobETA \<Rightarrow> JobETA" where
  "shown lowRes highRes counts e jid r =
     (if iv_Enabled (eta_Interval (eng_eta e)) \<and> je_Estimated r
      then attachIntervalLocked r (go_get lowRes jid) (go_get highRes jid) counts e else r)"

lemma shown_same: "sameTimes r (shown lowRes highRes counts e jid r)"
  unfolding shown_def using attach_same [of r] by (cases "je_Estimated r") (auto simp: sameTimes_def)

lemma emitETA_effect:
  assumes "go_get results jid = Some r"
  shows "qe_Jobs (emitETA results lowRes highRes counts e jid out) = qe_Jobs out @ [shown lowRes highRes counts e jid r]"
    "qe_DrainMs (emitETA results lowRes highRes counts e jid out) =
       (if je_Estimated r then max (qe_DrainMs out) (je_EndMs r) else qe_DrainMs out)"
    "qe_GeneratedAtMs (emitETA results lowRes highRes counts e jid out) = qe_GeneratedAtMs out"
  using assms by (auto simp: emitETA_def Let_def shown_def)

definition drainOf :: "JobETA list \<Rightarrow> int" where
  "drainOf rs = fold (\<lambda>r d. if je_Estimated r then max d (je_EndMs r) else d) rs 0"

lemma emitETA_fold:
  assumes "\<forall>x \<in> set ids. go_get results x = Some (f x)"
  shows "qe_Jobs (fold (emitETA results lowRes highRes counts e) ids out) =
       qe_Jobs out @ map (\<lambda>x. shown lowRes highRes counts e x (f x)) ids"
    "qe_DrainMs (fold (emitETA results lowRes highRes counts e) ids out) =
       fold (\<lambda>r d. if je_Estimated r then max d (je_EndMs r) else d) (map f ids) (qe_DrainMs out)"
  using assms by (induction ids arbitrary: out) (simp_all add: emitETA_effect)

lemma drain_shown:
  "fold (\<lambda>r d. if je_Estimated r then max d (je_EndMs r) else d) (map f ids) n =
   fold (\<lambda>r d. if je_Estimated r then max d (je_EndMs r) else d)
     (map (\<lambda>x. shown lowRes highRes counts e x (f x)) ids) n"
  using shown_same [of "f _" lowRes highRes counts e]
  by (induction ids arbitrary: n) (simp_all add: sameTimes_def)

lemma drain_max:
  "(\<forall>r \<in> set rs. je_Estimated r \<longrightarrow> je_EndMs r \<le> fold (\<lambda>r d. if je_Estimated r then max d (je_EndMs r) else d) rs n)
   \<and> n \<le> fold (\<lambda>r d. if je_Estimated r then max d (je_EndMs r) else d) rs n
   \<and> (fold (\<lambda>r d. if je_Estimated r then max d (je_EndMs r) else d) rs n = n
     \<or> (\<exists>r \<in> set rs. je_Estimated r \<and> je_EndMs r = fold (\<lambda>r d. if je_Estimated r then max d (je_EndMs r) else d) rs n))"
proof (induction rs arbitrary: n)
  case (Cons r rs)
  show ?case using Cons [of "if je_Estimated r then max n (je_EndMs r) else n"]
    by (auto simp: max_def split: if_splits)
qed simp

text \<open>The jobs of the answer are the unfinished jobs, each with the times of the plan.\<close>

lemma queueETA_plan:
  assumes ok: "engine_ok e" and q: "queueETA now e = Some q"
  obtains p lowRes highRes counts where "loop_ok now e (map job_ID (openJobs e)) p"
    "\<forall>j \<in> set (openJobs e). \<exists>r. go_get (pl_results p) (job_ID j) = Some r \<and> labelled j r \<and> answered r"
    "qe_Jobs q = map (\<lambda>x. shown lowRes highRes counts e x (the (go_get (pl_results p) x))) (map job_ID (openJobs e))"
    "qe_DrainMs q = drainOf (qe_Jobs q)"
proof -
  define ob where "ob = durationModelLocked e"
  let ?model = "\<lparr>dm_byTool = ob_byTool ob, dm_all = ob_all ob, dm_def = eta_DefaultDuration (eng_eta e)\<rparr>"
  let ?iv = "eta_Interval (eng_eta e)"
  let ?plan = "\<lambda>pc. if iv_Enabled ?iv
      then fst (planLocked (percentileModel pc ob ?iv (eta_DefaultDuration (eng_eta e))) now e) else []"
  obtain p where p: "planLocked ?model now e = (pl_results p, map job_ID (openJobs e))"
      "loop_ok now e (map job_ID (openJobs e)) p"
      "\<forall>j \<in> set (openJobs e). \<exists>r. go_get (pl_results p) (job_ID j) = Some r \<and> labelled j r \<and> answered r"
    using planLocked_ok [OF ok positive_observed [of e "eta_DefaultDuration (eng_eta e)", folded ob_def]] by blast
  have get: "\<forall>x \<in> set (map job_ID (openJobs e)). go_get (pl_results p) x = Some (the (go_get (pl_results p) x))"
    using p(3) by fastforce
  obtain out0 where q': "q = fold (emitETA (pl_results p) (?plan (iv_LowPercentile ?iv)) (?plan (iv_HighPercentile ?iv))
        (ob_samples ob) e) (map job_ID (openJobs e)) out0" "qe_Jobs out0 = []" "qe_DrainMs out0 = 0"
    using q p(1) by (auto simp: queueETA_def Let_def ob_def split: if_splits)
  note f = emitETA_fold [OF get, of "?plan (iv_LowPercentile ?iv)" "?plan (iv_HighPercentile ?iv)" "ob_samples ob" e out0,
      folded q'(1), unfolded q'(2,3) append_Nil]
  have "qe_DrainMs q = drainOf (qe_Jobs q)" unfolding f drainOf_def by (rule drain_shown)
  then show thesis using that [OF p(2,3) f(1)] by blast
qed

end
