(* ===== verification/Percentile.thy ===== *)
theory Percentile
  imports ETA
begin

section \<open>Percentiles\<close>

text \<open>
  The interpolation of \<open>percentile\<close> in double precision: for durations below \<open>2^53\<close> milliseconds
  rounding neither leaves the interval between the two closest ranks nor turns the order of two
  percentiles around.
\<close>

definition pctPos :: "int list \<Rightarrow> int \<Rightarrow> rat" where
  "pctPos vals p = rnd64 (rnd64 (of_int p / 100) * rnd64 (of_int (int (length vals) - 1)))"

definition between :: "int \<Rightarrow> int \<Rightarrow> rat \<Rightarrow> int" where
  "between a b fr = a + toInt (rnd64 (fr * rnd64 (of_int (b - a))))"

lemma percentile_at:
  "vals \<noteq> [] \<Longrightarrow> percentile vals p =
     (let s = sort vals; lo = toInt (pctPos vals p)
      in if int (length vals) - 1 \<le> lo then last s
         else between (s ! nat lo) (s ! (nat lo + 1)) (rnd64 (pctPos vals p - rnd64 (of_int lo))))"
  by (simp add: percentile_def pctPos_def between_def Let_def)

lemma between_bounds:
  assumes "a \<le> b" and "b - a < 2 ^ 53" and "0 \<le> fr" and "fr \<le> 1"
  shows "a \<le> between a b fr" "between a b fr \<le> b"
    "fr \<le> fr' \<Longrightarrow> fr' \<le> 1 \<Longrightarrow> between a b fr \<le> between a b fr'"
proof -
  have d: "rnd64 (of_int (b - a)) = of_int (b - a)" using assms by (intro rnd64_int) simp_all
  have nn: "(0 :: rat) \<le> of_int (b - a)" using assms(1) by (simp only: of_int_0_le_iff)
  have le: "fr * of_int (b - a) \<le> of_int (b - a)"
    using mult_right_mono [OF assms(4) nn] by simp
  have p: "0 \<le> fr * of_int (b - a)" using assms(3) nn by (rule mult_nonneg_nonneg)
  show "a \<le> between a b fr" unfolding between_def d using toInt_nonneg [OF rnd64_nonneg [OF p]] by simp
  have "toInt (rnd64 (fr * of_int (b - a))) \<le> toInt (of_int (b - a))"
    using toInt_mono [OF rnd64_nonneg [OF p] rnd64_le_int [OF p le assms(2)]] .
  then show "between a b fr \<le> b" unfolding between_def d toInt_int by linarith
  assume "fr \<le> fr'"
  then have "fr * of_int (b - a) \<le> fr' * of_int (b - a)" using nn by (rule mult_right_mono)
  then show "between a b fr \<le> between a b fr'"
    unfolding between_def d using toInt_mono [OF rnd64_nonneg [OF p] rnd64_mono [OF p]] by simp
qed

lemma pctPos_bounds:
  assumes "vals \<noteq> []" and "int (length vals) \<le> 2 ^ 53" and "0 \<le> p" and "p \<le> q" and "q \<le> 100"
  shows "0 \<le> pctPos vals p" "pctPos vals p \<le> pctPos vals q" "pctPos vals q \<le> of_int (int (length vals) - 1)"
proof -
  let ?n = "int (length vals) - 1"
  have n0: "0 \<le> ?n" using assms(1) by (cases vals) simp_all
  moreover have "?n < 2 ^ 53" using assms(2) by linarith
  ultimately have n: "0 \<le> ?n" "rnd64 (of_int ?n) = of_int ?n" using rnd64_int by blast+
  have nn: "(0 :: rat) \<le> of_int ?n" using n(1) by (simp only: of_int_0_le_iff)
  have pq: "rnd64 (of_int p / 100) \<le> rnd64 (of_int q / 100)" using assms by (intro rnd64_mono) (simp_all add: divide_right_mono)
  have p0: "0 \<le> rnd64 (of_int p / 100)" using assms by (intro rnd64_nonneg) simp
  have q0: "0 \<le> rnd64 (of_int q / 100)" using p0 pq by simp
  have q1: "rnd64 (of_int q / 100) \<le> 1" using rnd64_le_int [of "of_int q / 100" 1] assms by simp
  show "0 \<le> pctPos vals p" unfolding pctPos_def n(2) by (rule rnd64_nonneg [OF mult_nonneg_nonneg [OF p0 nn]])
  show "pctPos vals p \<le> pctPos vals q"
    unfolding pctPos_def n(2) by (rule rnd64_mono [OF mult_nonneg_nonneg [OF p0 nn] mult_right_mono [OF pq nn]])
  show "pctPos vals q \<le> of_int ?n"
    unfolding pctPos_def n(2)
  proof (rule rnd64_le_int)
    show "rnd64 (of_int q / 100) * of_int ?n \<le> of_int ?n" using mult_right_mono [OF q1 nn] by simp
    show "?n < 2 ^ 53" using assms(2) by linarith
  qed (use q0 nn in \<open>rule mult_nonneg_nonneg\<close>)
qed


lemma toInt_floor: "0 \<le> x \<Longrightarrow> toInt x = \<lfloor>x\<rfloor>"
  by (simp add: toInt_def)

lemma nat_index: "0 \<le> lo \<Longrightarrow> lo < int n - 1 \<Longrightarrow> nat lo + 1 < n \<and> nat lo < n"
  by linarith

lemma percentile_segment:
  assumes v: "vals \<noteq> []" "int (length vals) \<le> 2 ^ 53" "\<forall>v \<in> set vals. 0 \<le> v \<and> v < 2 ^ 53"
    and p: "0 \<le> p" "p \<le> 100"
  defines "lo \<equiv> \<lfloor>pctPos vals p\<rfloor>" and "s \<equiv> sort vals"
  shows "0 \<le> lo" "int (length vals) - 1 \<le> lo \<Longrightarrow> percentile vals p = last s"
    "lo < int (length vals) - 1 \<Longrightarrow>
       percentile vals p = between (s ! nat lo) (s ! (nat lo + 1)) (rnd64 (pctPos vals p - of_int lo))
     \<and> s ! nat lo \<le> percentile vals p \<and> percentile vals p \<le> s ! (nat lo + 1)"
proof -
  note b = pctPos_bounds [OF v(1,2) p(1) order_refl p(2)]
  show lo: "0 \<le> lo" unfolding lo_def using b(1) by simp
  note at = percentile_at [OF v(1), of p, unfolded Let_def toInt_floor [OF b(1)], folded lo_def s_def]
  show "int (length vals) - 1 \<le> lo \<Longrightarrow> percentile vals p = last s" unfolding at by simp
  assume l: "lo < int (length vals) - 1"
  have r: "rnd64 (of_int lo) = of_int lo" using lo l v(2) by (intro rnd64_int) linarith+
  have fr: "0 \<le> pctPos vals p - of_int lo" "pctPos vals p - of_int lo \<le> 1"
    unfolding lo_def by linarith+
  have fr1: "0 \<le> rnd64 (pctPos vals p - of_int lo)" "rnd64 (pctPos vals p - of_int lo) \<le> 1"
    using rnd64_nonneg [OF fr(1)] rnd64_le_int [of _ 1] fr by simp_all
  have ix: "nat lo + 1 < length s" "nat lo < length s" using nat_index [OF lo l] by (simp_all add: s_def)
  have mem: "s ! nat lo \<in> set vals" "s ! (nat lo + 1) \<in> set vals"
    using nth_mem [OF ix(1)] nth_mem [OF ix(2)] by (simp_all add: s_def)
  have o: "s ! nat lo \<le> s ! (nat lo + 1)" using ix(1) by (intro sorted_nth_mono) (simp_all add: s_def)
  have d: "s ! (nat lo + 1) - s ! nat lo < 2 ^ 53" using bspec [OF v(3) mem(1)] bspec [OF v(3) mem(2)] by linarith
  have e: "percentile vals p = between (s ! nat lo) (s ! (nat lo + 1)) (rnd64 (pctPos vals p - of_int lo))"
    unfolding at r using l by simp
  show "percentile vals p = between (s ! nat lo) (s ! (nat lo + 1)) (rnd64 (pctPos vals p - of_int lo))
     \<and> s ! nat lo \<le> percentile vals p \<and> percentile vals p \<le> s ! (nat lo + 1)"
    using between_bounds(1,2) [OF o d fr1] e by simp
qed

lemma percentile_range:
  assumes v: "vals \<noteq> []" "int (length vals) \<le> 2 ^ 53" "\<forall>v \<in> set vals. 0 \<le> v \<and> v < 2 ^ 53"
    and p: "0 \<le> p" "p \<le> 100"
  shows "Min (set vals) \<le> percentile vals p" "percentile vals p \<le> Max (set vals)"
proof -
  let ?lo = "\<lfloor>pctPos vals p\<rfloor>" and ?s = "sort vals"
  note seg = percentile_segment [OF v p]
  have m: "Min (set vals) \<le> x \<and> x \<le> Max (set vals)" if "x \<in> set ?s" for x using that by simp
  have "Min (set vals) \<le> percentile vals p \<and> percentile vals p \<le> Max (set vals)"
  proof (cases "?lo < int (length vals) - 1")
    case True
    have "nat ?lo + 1 < length ?s" "nat ?lo < length ?s" using nat_index [OF seg(1) True] by simp_all
    then show ?thesis using seg(3) [OF True] m nth_mem by (metis order_trans)
  next
    case False
    have "?s \<noteq> []" using v(1) by (metis length_0_conv length_sort)
    then show ?thesis using seg(2) False m last_in_set by fastforce
  qed
  then show "Min (set vals) \<le> percentile vals p" "percentile vals p \<le> Max (set vals)" by simp_all
qed

lemma percentile_mono:
  assumes v: "vals \<noteq> []" "int (length vals) \<le> 2 ^ 53" "\<forall>v \<in> set vals. 0 \<le> v \<and> v < 2 ^ 53"
    and p: "0 \<le> p" "p \<le> q" "q \<le> 100"
  shows "percentile vals p \<le> percentile vals q"
proof -
  let ?s = "sort vals" and ?n = "int (length vals) - 1"
  let ?lp = "\<lfloor>pctPos vals p\<rfloor>" and ?lq = "\<lfloor>pctPos vals q\<rfloor>"
  have pq: "p \<le> 100" "0 \<le> q" using p by simp_all
  note sp = percentile_segment [OF v p(1) pq(1)] and sq = percentile_segment [OF v pq(2) p(3)]
  note b = pctPos_bounds [OF v(1,2) p]
  have le: "?lp \<le> ?lq" using b(2) by (rule floor_mono)
  have nth: "?s ! i \<le> ?s ! k" if "i \<le> k" "k < length vals" for i k
    using that by (intro sorted_nth_mono) simp_all
  have last: "last ?s = ?s ! (length vals - 1)" using v(1) last_conv_nth [of ?s] by (metis length_0_conv length_sort)
  show ?thesis
  proof (cases "?lp < ?n")
    case False
    then show ?thesis using sp(2) sq(2) le by simp
  next
    case True
    note P = sp(3) [OF True]
    show ?thesis
    proof (cases "?lq < ?n")
      case False
      have "?s ! (nat ?lp + 1) \<le> ?s ! (length vals - 1)" using True sp(1) by (intro nth) linarith+
      then show ?thesis using P sq(2) False last by simp
    next
      case lq: True
      note Q = sq(3) [OF lq]
      show ?thesis
      proof (cases "?lp = ?lq")
        case False
        then have "?s ! (nat ?lp + 1) \<le> ?s ! nat ?lq" using le sp(1) lq by (intro nth) linarith+
        then show ?thesis using P Q by simp
      next
        case True
        have fr: "0 \<le> pctPos vals p - of_int ?lq" "pctPos vals q - of_int ?lq \<le> 1" "pctPos vals p - of_int ?lq \<le> 1"
          using True b(2) by linarith+
        have "0 \<le> rnd64 (pctPos vals p - of_int ?lq)" "rnd64 (pctPos vals p - of_int ?lq) \<le> 1"
          "rnd64 (pctPos vals q - of_int ?lq) \<le> 1"
          using rnd64_nonneg [OF fr(1)] rnd64_le_int [of _ 1] fr b(2) by simp_all
        moreover have "rnd64 (pctPos vals p - of_int ?lq) \<le> rnd64 (pctPos vals q - of_int ?lq)"
          using fr(1) b(2) by (intro rnd64_mono) simp_all
        moreover have "nat ?lq + 1 < length ?s" "nat ?lq < length ?s" using nat_index [OF sq(1) lq] by simp_all
        then have "?s ! nat ?lq \<in> set vals" "?s ! (nat ?lq + 1) \<in> set vals" "?s ! nat ?lq \<le> ?s ! (nat ?lq + 1)"
          using nth_mem [of _ ?s] nth by auto
        moreover from this have "?s ! (nat ?lq + 1) - ?s ! nat ?lq < 2 ^ 53"
          using bspec [OF v(3), of "?s ! nat ?lq"] bspec [OF v(3), of "?s ! (nat ?lq + 1)"] by linarith
        ultimately show ?thesis using P Q True between_bounds(3) by metis
      qed
    qed
  qed
qed

end
