(* ===== verification/EtaTheorems.thy ===== *)
theory EtaTheorems
  imports Schedule Percentile Demo
begin

section \<open>Properties: the estimates\<close>

text \<open>The small plant with the estimates on: a minute for a job without history, and ranges.\<close>

definition etaPlant :: "unit engine" where
  "etaPlant = SetETA \<lparr>eta_Enabled = True, eta_DefaultDuration = minute, eta_Window = 0,
     eta_Interval = \<lparr>iv_Enabled = True, iv_LowPercentile = 0, iv_HighPercentile = 0, iv_MinSamples = 0\<rparr>\<rparr> plant2"

lemma etaPlant_ok: "engine_ok etaPlant"
  unfolding etaPlant_def by (intro settings_ok plant2_ok)

definition etaAnswer :: QueueETA where
  "etaAnswer = the (queueETA 20 etaPlant)"

lemma etaAnswer: "queueETA 20 etaPlant = Some etaAnswer"
proof -
  have "queueETA 20 etaPlant \<noteq> None" by code_simp
  then show ?thesis by (simp add: etaAnswer_def)
qed

lemma etaAnswer_jobs:
  "map (\<lambda>r. (je_JobID r, je_RobotID r, je_StartMs r, je_EndMs r)) (qe_Jobs etaAnswer) =
     [(''a'', ''m'', 0, 60000), (''c'', ''w'', 0, 60000), (''f'', ''n'', 0, 60000),
      (''b'', ''w'', 60000, 120000), (''d'', ''w'', 120000, 180000)]"
  by code_simp

text \<open>Every entry of the answer is one of the plan, with a range or a reason for having none.\<close>

definition ranged :: "JobETA \<Rightarrow> bool" where
  "ranged a \<longleftrightarrow> je_IntervalReason a \<noteq> NoIntervalReason
     \<or> je_StartLowMs a \<le> je_StartMs a \<and> je_StartMs a \<le> je_StartHighMs a
       \<and> je_EndLowMs a \<le> je_EndMs a \<and> je_EndMs a \<le> je_EndHighMs a
       \<and> je_DurationLowMs a \<le> je_DurationMs a \<and> je_DurationMs a \<le> je_DurationHighMs a"

lemma attach_ranged:
  "getJob e (je_JobID r) \<noteq> None \<Longrightarrow> ranged (attachIntervalLocked r low high counts e)"
  by (auto simp: attachIntervalLocked_def ranged_def split: option.splits)

lemma answer_entry:
  assumes ok: "engine_ok e"
    and p: "\<forall>j \<in> set (openJobs e). \<exists>r. go_get (pl_results p) (job_ID j) = Some r \<and> labelled j r \<and> answered r"
    and q: "qe_Jobs q = map (\<lambda>x. shown lowRes highRes counts e x (the (go_get (pl_results p) x))) (map job_ID (openJobs e))"
    and a: "a \<in> set (qe_Jobs q)"
  shows "\<exists>j r. j \<in> set (openJobs e) \<and> getJob e (job_ID j) = Some j \<and> go_get (pl_results p) (job_ID j) = Some r
    \<and> labelled j r \<and> answered r \<and> sameTimes r a
    \<and> (iv_Enabled (eta_Interval (eng_eta e)) \<longrightarrow> je_Estimated a \<longrightarrow> ranged a)"
proof -
  obtain j where j: "j \<in> set (openJobs e)" "a = shown lowRes highRes counts e (job_ID j) (the (go_get (pl_results p) (job_ID j)))"
    using a unfolding q by auto
  obtain r where r: "go_get (pl_results p) (job_ID j) = Some r" "labelled j r" "answered r" using p j(1) by blast
  have g: "getJob e (job_ID j) = Some j" using j(1) mem_openJobs(1) [OF engine_okD(1) [OF ok]] by blast
  have a: "a = shown lowRes highRes counts e (job_ID j) r" using j(2) r(1) by simp
  have "ranged a" if "iv_Enabled (eta_Interval (eng_eta e))" "je_Estimated a"
  proof -
    have "je_Estimated r" using that(2) shown_same [of r lowRes highRes counts e "job_ID j"] by (simp add: a sameTimes_def)
    then show ?thesis using that(1) attach_ranged [of e r] g r(2) by (simp add: a shown_def labelled_def)
  qed
  then show ?thesis using j(1) g r shown_same [of r] a by blast
qed

text \<open>One estimate of a waiting job against its dependencies.\<close>

lemma answer_dep:
  assumes ok: "engine_ok e" and l: "loop_ok now e (map job_ID (openJobs e)) p"
    and pr: "\<forall>j \<in> set (openJobs e). \<exists>r. go_get (pl_results p) (job_ID j) = Some r \<and> labelled j r \<and> answered r"
    and js: "qe_Jobs q = map (\<lambda>x. shown lowRes highRes counts e x (the (go_get (pl_results p) x))) (map job_ID (openJobs e))"
    and j: "j \<in> set (openJobs e)" "go_get (pl_results p) (job_ID j) = Some r" "je_Estimated r"
    and d: "d \<in> set (job_DependsOn j)" "getJob e d = Some dj" "job_Status dj \<noteq> StatusDone"
  shows "\<exists>c \<in> set (qe_Jobs q). je_JobID c = d \<and> je_Estimated c \<and> je_EndMs c \<le> je_StartMs r"
proof (cases "j \<in> set (waitingOrder e)")
  case True
  obtain rd where rd: "go_get (pl_results p) d = Some rd" "je_Estimated rd" "je_EndMs rd \<le> je_StartMs r"
    using loop_okD(6) [OF l True j(2,3) d] by blast
  have "d \<in> job_ID ` set (openJobs e)" using loop_okD(8) [OF l rd(1)] by simp
  then obtain jd where jd: "jd \<in> set (openJobs e)" "job_ID jd = d" by blast
  let ?c = "shown lowRes highRes counts e d rd"
  have "?c \<in> set (qe_Jobs q)" unfolding js using jd rd(1) by force
  moreover have "je_JobID ?c = d" "je_Estimated ?c" "je_EndMs ?c = je_EndMs rd"
    using shown_same [of rd lowRes highRes counts e d] pr jd rd(1,2) by (auto simp: sameTimes_def labelled_def)
  ultimately show ?thesis using rd(3) by auto
next
  case False
  note b = engine_okD(1) [OF ok]
  have g: "getJob e (job_ID j) = Some j" using j(1) mem_openJobs(1) [OF b] by blast
  have "started (job_Status j)" using False j(1) g by (auto simp: mem_openJobs [OF b])
  then show ?thesis
    using started_okD [OF queue_okD(4) [OF base_okD(1) [OF b]] g _ d(1)] d(2,3) by (simp add: depIs_def isDone_def)
qed

text \<open>Two estimates on one robot.\<close>

lemma answer_overlap:
  assumes l: "loop_ok now e ids p"
    and r: "go_get (pl_results p) x = Some r" "je_Estimated r" and c: "go_get (pl_results p) y = Some rc" "je_Estimated rc"
    and ne: "x \<noteq> y" and same: "je_RobotID r = je_RobotID rc"
  shows "je_EndMs r \<le> je_StartMs rc \<or> je_EndMs rc \<le> je_StartMs r"
  by (rule schedD(3) [OF loop_okD(1) [OF l] r c(1) ne c(2) same])

text \<open>
  C35: the estimates are a schedule. No robot is planned for two jobs at a time, no estimate ends
  before it starts, a waiting job is never planned to start in the past, and it starts only after
  every dependency that is not done, each of which has an estimate that ends by then.
\<close>

theorem eta_is_schedule:
  assumes ok: "engine_ok e" and q: "queueETA now e = Some q" and a: "a \<in> set (qe_Jobs q)" "je_Estimated a"
  shows "je_StartMs a \<le> je_EndMs a
    \<and> (\<forall>b \<in> set (qe_Jobs q). je_Estimated b \<longrightarrow> je_JobID b \<noteq> je_JobID a \<longrightarrow> je_RobotID b = je_RobotID a \<longrightarrow>
         je_EndMs a \<le> je_StartMs b \<or> je_EndMs b \<le> je_StartMs a)
    \<and> (waiting (je_Status a) \<longrightarrow> unixMilli now \<le> je_StartMs a)
    \<and> (\<forall>j d dj. getJob e (je_JobID a) = Some j \<longrightarrow> d \<in> set (job_DependsOn j) \<longrightarrow> getJob e d = Some dj \<longrightarrow>
         job_Status dj = StatusDone \<or>
         (\<exists>b \<in> set (qe_Jobs q). je_JobID b = d \<and> je_Estimated b \<and> je_EndMs b \<le> je_StartMs a))"
proof -
  note mem = mem_openJobs [OF engine_okD(1) [OF ok]]
  obtain p lowRes highRes counts where l: "loop_ok now e (map job_ID (openJobs e)) p"
    and pr: "\<forall>j \<in> set (openJobs e). \<exists>r. go_get (pl_results p) (job_ID j) = Some r \<and> labelled j r \<and> answered r"
    and js: "qe_Jobs q = map (\<lambda>x. shown lowRes highRes counts e x (the (go_get (pl_results p) x))) (map job_ID (openJobs e))"
    using queueETA_plan [OF ok q] by metis
  note entry = answer_entry [OF ok pr js]
  obtain j r where j: "j \<in> set (openJobs e)" "getJob e (job_ID j) = Some j" "go_get (pl_results p) (job_ID j) = Some r"
    "labelled j r" "sameTimes r a" using entry [OF a(1)] by blast
  have ra: "je_Estimated r" "je_JobID a = job_ID j" "je_StartMs a = je_StartMs r" "je_EndMs a = je_EndMs r"
    "je_RobotID a = je_RobotID r" "je_Status a = job_Status j"
    using j(4,5) a(2) by (simp_all add: sameTimes_def labelled_def)
  have overlap: "je_EndMs a \<le> je_StartMs c \<or> je_EndMs c \<le> je_StartMs a"
    if c: "c \<in> set (qe_Jobs q)" "je_Estimated c" "je_JobID c \<noteq> je_JobID a" "je_RobotID c = je_RobotID a" for c
  proof -
    obtain jc rc where jc: "go_get (pl_results p) (job_ID jc) = Some rc" "labelled jc rc" "sameTimes rc c"
      using entry [OF c(1)] by blast
    then show ?thesis
      using answer_overlap [OF l j(3) ra(1) jc(1)] c ra by (auto simp: sameTimes_def labelled_def)
  qed
  have w: "unixMilli now \<le> je_StartMs a" if "waiting (je_Status a)"
  proof -
    have "j \<in> set (waitingOrder e)" using that j(1,2) ra(6) by (cases "job_Status j") (auto simp: mem)
    then show ?thesis using loop_okD(5) [OF l _ j(3) ra(1)] ra by simp
  qed
  show ?thesis
    using schedD(1) [OF loop_okD(1) [OF l] j(3) ra(1)] overlap w answer_dep [OF ok l pr js j(1,3) ra(1)] ra j(2)
    by (metis option.inject)
qed

lemma eta_is_schedule_witness:
  "\<exists>a \<in> set (qe_Jobs etaAnswer). je_JobID a = ''b'' \<and> 60000 \<le> je_StartMs a"
proof -
  have "\<exists>a \<in> set (qe_Jobs etaAnswer). je_JobID a = ''b'' \<and> je_Estimated a \<and> je_RobotID a = ''w'' \<and> je_StartMs a = 60000"
    "\<exists>c \<in> set (qe_Jobs etaAnswer). je_JobID c = ''c'' \<and> je_Estimated c \<and> je_RobotID c = ''w'' \<and> je_EndMs c = 60000 \<and> je_StartMs c = 0"
    by code_simp+
  then obtain a c where a: "a \<in> set (qe_Jobs etaAnswer)" "je_JobID a = ''b''" "je_Estimated a" "je_RobotID a = ''w''"
      "je_StartMs a = 60000"
    and c: "c \<in> set (qe_Jobs etaAnswer)" "je_JobID c = ''c''" "je_Estimated c" "je_RobotID c = ''w''" "je_EndMs c = 60000"
      "je_StartMs c = 0"
    by blast
  have "je_EndMs a \<le> je_StartMs c \<or> je_EndMs c \<le> je_StartMs a" "je_StartMs a \<le> je_EndMs a"
    using eta_is_schedule [OF etaPlant_ok etaAnswer a(1,3)] c(1-4) a(2,4) by auto
  then show ?thesis using a c by auto
qed

text \<open>
  The answer is complete. It has every unfinished job once (assigned, unknown, pending or
  blocked), each with an estimate or else a reason, and with ranges on each estimate has a range
  that contains it or a reason for having none. The drain time is the latest of the ends.
\<close>

theorem eta_complete:
  assumes ok: "engine_ok e" and q: "queueETA now e = Some q"
  shows "distinct (map je_JobID (qe_Jobs q))
    \<and> je_JobID ` set (qe_Jobs q) = {jid. \<exists>j. getJob e jid = Some j
        \<and> job_Status j \<in> {StatusAssigned, StatusUnknown, StatusPending, StatusBlocked}}
    \<and> (\<forall>a \<in> set (qe_Jobs q). (je_Estimated a \<longleftrightarrow> je_Reason a = NoReason)
        \<and> (iv_Enabled (eta_Interval (eng_eta e)) \<longrightarrow> je_Estimated a \<longrightarrow> ranged a))
    \<and> (\<forall>a \<in> set (qe_Jobs q). je_Estimated a \<longrightarrow> je_EndMs a \<le> qe_DrainMs q)
    \<and> (qe_DrainMs q = 0 \<or> (\<exists>a \<in> set (qe_Jobs q). je_Estimated a \<and> je_EndMs a = qe_DrainMs q))"
proof -
  note b = engine_okD(1) [OF ok] and mem = mem_openJobs [OF engine_okD(1) [OF ok]]
  obtain p lowRes highRes counts where "loop_ok now e (map job_ID (openJobs e)) p"
    and pr: "\<forall>j \<in> set (openJobs e). \<exists>r. go_get (pl_results p) (job_ID j) = Some r \<and> labelled j r \<and> answered r"
    and js: "qe_Jobs q = map (\<lambda>x. shown lowRes highRes counts e x (the (go_get (pl_results p) x))) (map job_ID (openJobs e))"
    and drain: "qe_DrainMs q = drainOf (qe_Jobs q)"
    by (rule queueETA_plan [OF ok q])
  note entry = answer_entry [OF ok pr js]
  have "je_JobID (shown lowRes highRes counts e (job_ID j) (the (go_get (pl_results p) (job_ID j)))) = job_ID j"
    if "j \<in> set (openJobs e)" for j
  proof -
    obtain r where r: "go_get (pl_results p) (job_ID j) = Some r" "labelled j r" using pr \<open>j \<in> set (openJobs e)\<close> by blast
    then show ?thesis using shown_same [of r lowRes highRes counts e "job_ID j"] by (simp add: sameTimes_def labelled_def)
  qed
  then have ids: "map je_JobID (qe_Jobs q) = map job_ID (openJobs e)" unfolding js by simp
  have "je_JobID ` set (qe_Jobs q) = job_ID ` set (openJobs e)" using arg_cong [OF ids, of set] by (simp only: set_map)
  also have "\<dots> = {jid. \<exists>j. getJob e jid = Some j
        \<and> job_Status j \<in> {StatusAssigned, StatusUnknown, StatusPending, StatusBlocked}}"
  proof (intro set_eqI iffI)
    fix x assume "x \<in> {jid. \<exists>j. getJob e jid = Some j
        \<and> job_Status j \<in> {StatusAssigned, StatusUnknown, StatusPending, StatusBlocked}}"
    then obtain j where j: "getJob e x = Some j" "job_Status j \<in> {StatusAssigned, StatusUnknown, StatusPending, StatusBlocked}"
      by blast
    have "job_ID j = x" by (rule base_job_ID [OF b j(1)])
    then show "x \<in> job_ID ` set (openJobs e)" using j mem(1) by blast
  qed (use mem(1) in blast)
  finally have set: "je_JobID ` set (qe_Jobs q) = \<dots>" .
  have "distinct (map je_JobID (qe_Jobs q))" unfolding ids by (rule distinct_openJobs [OF b])
  moreover have "(je_Estimated a \<longleftrightarrow> je_Reason a = NoReason)
      \<and> (iv_Enabled (eta_Interval (eng_eta e)) \<longrightarrow> je_Estimated a \<longrightarrow> ranged a)" if "a \<in> set (qe_Jobs q)" for a
    using entry [OF that] by (auto simp: answered_def sameTimes_def)
  moreover have "(\<forall>a \<in> set (qe_Jobs q). je_Estimated a \<longrightarrow> je_EndMs a \<le> qe_DrainMs q)
      \<and> (qe_DrainMs q = 0 \<or> (\<exists>a \<in> set (qe_Jobs q). je_Estimated a \<and> je_EndMs a = qe_DrainMs q))"
    using drain_max [of "qe_Jobs q" 0] unfolding drain drainOf_def by blast
  ultimately show ?thesis using set by blast
qed

lemma eta_complete_witness:
  "qe_DrainMs etaAnswer = 180000 \<and> list_all (\<lambda>a. je_EndMs a \<le> 180000) (qe_Jobs etaAnswer)"
proof -
  have 1: "qe_DrainMs etaAnswer = 180000" "\<forall>a \<in> set (qe_Jobs etaAnswer). je_Estimated a" by code_simp+
  show ?thesis using eta_complete [OF etaPlant_ok etaAnswer] 1 by (simp add: list_all_iff)
qed

text \<open>
  A percentile lies between the shortest and the longest duration and grows with its rank,
  in double precision, for durations and numbers of samples below 2 to the 53rd.
\<close>

theorem percentile_bounds:
  assumes "vals \<noteq> []" and "int (length vals) \<le> 2 ^ 53" and "\<forall>v \<in> set vals. 0 \<le> v \<and> v < 2 ^ 53"
    and "0 \<le> p" and "p \<le> q" and "q \<le> 100"
  shows "Min (set vals) \<le> percentile vals p \<and> percentile vals p \<le> percentile vals q
    \<and> percentile vals q \<le> Max (set vals)"
  using percentile_range [OF assms(1-3)] percentile_mono [OF assms] assms(4-6) by simp

lemma percentile_bounds_witness:
  "percentile [4000, 1000, 2500] 25 = 1750 \<and> percentile [4000, 1000, 2500] 25 \<le> percentile [4000, 1000, 2500] 75"
proof -
  have "percentile [4000, 1000, 2500] 25 = 1750" by code_simp
  then show ?thesis using percentile_bounds [of "[4000, 1000, 2500]" 25 75] by simp
qed

text \<open>
  The observed means are not independent of the order in which the map of jobs is visited: when two
  finished jobs ended in the same millisecond and the window ends between them, the one that is
  visited first is averaged. (The comment in the code says the ties do not matter because only sums
  are taken.)
\<close>

definition finishedJob :: "string \<Rightarrow> int \<Rightarrow> job" where
  "finishedJob jid since = (aJob jid 1 [] [] [])\<lparr>job_Status := StatusDone, job_AssignedAtMs := since,
     job_CompletedAtMs := 100\<rparr>"

definition windowOfOne :: "(string, job) gomap \<Rightarrow> unit engine" where
  "windowOfOne jobs = (SetETA \<lparr>eta_Enabled = True, eta_DefaultDuration = 0, eta_Window = 1,
     eta_Interval = eta_Interval noETA\<rparr> NewEngine)\<lparr>eng_jobs := jobs\<rparr>"

lemma observed_mean_depends_on_order:
  "let xs = [(''x'', finishedJob ''x'' 50), (''y'', finishedJob ''y'' 90)]
   in mset (rev xs) = mset xs
    \<and> ob_byTool (durationModelLocked (windowOfOne xs)) = [([], 50)]
    \<and> ob_byTool (durationModelLocked (windowOfOne (rev xs))) = [([], 10)]"
  unfolding Let_def by (intro conjI) (simp, code_simp, code_simp)

end
