(* ===== verification/Maintenance.thy ===== *)
theory Maintenance
  imports Lifecycle
begin

section \<open>Maintenance proposals\<close>

text \<open>
  \<open>src/src/dispatcher/maintenance.go\<close>: a detector proposes maintenance orders, and a person decides
  each one. Approving submits a job to the engine. The board keeps pointers to its proposals, so an
  update replaces the entry of the list; the engine it holds is passed and returned.
\<close>

datatype proposalStatus = ProposalProposed | ProposalApproved | ProposalRejected | ProposalExpired

fun proposalText :: "proposalStatus \<Rightarrow> string" where
  "proposalText ProposalProposed = ''proposed''"
| "proposalText ProposalApproved = ''approved''"
| "proposalText ProposalRejected = ''rejected''"
| "proposalText ProposalExpired = ''expired''"

datatype proposalFault = BadSource | BadReasonLength | ControlCharacter | NotFinite | TooManyOpen nat

datatype boardError =
    ErrMaintenanceOff
  | ErrInvalidProposal proposalFault
  | ErrUnknownProposal
  | ErrProposalDecided
  | ErrSubmit engError

record MaintenanceConfig =
  mc_Enabled :: bool
  mc_Priority :: int
  mc_RequiredTool :: string
  mc_Location :: string
  mc_MaxOpen :: int
  mc_Cooldown :: duration
  mc_ExpireAfter :: duration

definition noMaintenance :: MaintenanceConfig where
  "noMaintenance = \<lparr>mc_Enabled = False, mc_Priority = 0, mc_RequiredTool = [], mc_Location = [],
     mc_MaxOpen = 0, mc_Cooldown = 0, mc_ExpireAfter = 0\<rparr>"

definition DefaultMaintenanceConfig :: MaintenanceConfig where
  "DefaultMaintenanceConfig = noMaintenance\<lparr>mc_Priority := 1, mc_MaxOpen := 100,
     mc_Cooldown := 24 * hour, mc_ExpireAfter := 7 * 24 * hour\<rparr>"

record Proposal =
  pr_ID :: string
  pr_Source :: string
  pr_Reason :: string
  pr_Score :: float64
  pr_Drift :: float64
  pr_Status :: proposalStatus
  pr_JobID :: string
  pr_CreatedAtMs :: int
  pr_UpdatedAtMs :: int
  pr_DecidedAtMs :: int
  pr_DecidedBy :: string
  pr_DecisionReason :: string

record ProposalInput =
  in_Source :: string
  in_Reason :: string
  in_Score :: float64
  in_Drift :: float64

record MaintenanceBoard =
  mb_cfg :: MaintenanceConfig
  mb_items :: "Proposal list"
  mb_lastEnd :: "(string, instant) gomap"
  mb_seq :: int

definition NewMaintenanceBoard :: MaintenanceBoard where
  "NewMaintenanceBoard = \<lparr>mb_cfg = noMaintenance, mb_items = [], mb_lastEnd = [], mb_seq = 0\<rparr>"

definition SetConfig :: "MaintenanceConfig \<Rightarrow> MaintenanceBoard \<Rightarrow> MaintenanceBoard" where
  "SetConfig cfg b = b\<lparr>mb_cfg := cfg\<rparr>"

definition MaintenanceEnabled :: "MaintenanceBoard \<Rightarrow> bool" where
  "MaintenanceEnabled b = mc_Enabled (mb_cfg b)"

subsection \<open>Checking what is proposed\<close>

text \<open>The regular expression \<open>[A-Za-z0-9_.:-]{1,128}\<close>, over the whole text.\<close>

definition safeChar :: "char \<Rightarrow> bool" where
  "safeChar c \<longleftrightarrow>
     (let n = of_char c :: nat
      in 65 \<le> n \<and> n \<le> 90 \<or> 97 \<le> n \<and> n \<le> 122 \<or> 48 \<le> n \<and> n \<le> 57
       \<or> c = CHR ''_'' \<or> c = CHR ''.'' \<or> c = CHR '':'' \<or> c = CHR ''-'')"

definition proposalSafeText :: "string \<Rightarrow> bool" where
  "proposalSafeText s \<longleftrightarrow> 1 \<le> length s \<and> length s \<le> 128 \<and> list_all safeChar s"

text \<open>
  The loop over the runes of the reason: a control character is one byte, or the byte C2 followed
  by one from 80 to 9F (a byte C2 always starts a character).
\<close>

fun hasControl :: "string \<Rightarrow> bool" where
  "hasControl [] = False"
| "hasControl (c # cs) =
     ((of_char c :: nat) < 0x20 \<or> (of_char c :: nat) = 0x7f
      \<or> (c = CHR 0xC2 \<and> (case cs of [] \<Rightarrow> False | d # _ \<Rightarrow> 0x80 \<le> (of_char d :: nat) \<and> (of_char d :: nat) \<le> 0x9f))
      \<or> hasControl cs)"

definition finite64 :: "float64 \<Rightarrow> bool" where
  "finite64 v = (case v of Fin _ \<Rightarrow> True | _ \<Rightarrow> False)"

definition checkInput :: "ProposalInput \<Rightarrow> proposalFault option" where
  "checkInput i =
     (if \<not> proposalSafeText (in_Source i) then Some BadSource
      else if in_Reason i = [] \<or> 500 < length (in_Reason i) then Some BadReasonLength
      else if hasControl (in_Reason i) then Some ControlCharacter
      else if \<not> finite64 (in_Score i) \<or> \<not> finite64 (in_Drift i) then Some NotFinite
      else None)"

subsection \<open>Identifiers\<close>

function showNat :: "nat \<Rightarrow> string" where
  "showNat n = (if n < 10 then [char_of (48 + n)] else showNat (n div 10) @ [char_of (48 + n mod 10)])"
  by pat_completeness auto
termination by (relation "measure id") auto

declare showNat.simps [simp del]

definition showInt :: "int \<Rightarrow> string" where
  "showInt n = (if n < 0 then CHR ''-'' # showNat (nat (- n)) else showNat (nat n))"

definition proposalID :: "int \<Rightarrow> int \<Rightarrow> string" where
  "proposalID ms n = ''mp-'' @ showInt ms @ ''-'' @ showInt n"

subsection \<open>The operations\<close>

definition expires :: "MaintenanceConfig \<Rightarrow> instant \<Rightarrow> Proposal \<Rightarrow> bool" where
  "expires cfg now p \<longleftrightarrow>
     pr_Status p = ProposalProposed \<and> mc_ExpireAfter cfg < time_sub now (pr_CreatedAtMs p * millisecond)"

definition expireLocked :: "instant \<Rightarrow> MaintenanceBoard \<Rightarrow> MaintenanceBoard" where
  "expireLocked now b =
     (if mc_ExpireAfter (mb_cfg b) \<le> 0 then b
      else b\<lparr>mb_items := map (\<lambda>p. if expires (mb_cfg b) now p
                then p\<lparr>pr_Status := ProposalExpired, pr_UpdatedAtMs := unixMilli now,
                       pr_DecidedAtMs := unixMilli now\<rparr> else p) (mb_items b),
             mb_lastEnd := fold (\<lambda>p m. if expires (mb_cfg b) now p then go_put (pr_Source p) now m else m)
                (mb_items b) (mb_lastEnd b)\<rparr>)"

definition isOpen :: "Proposal \<Rightarrow> bool" where
  "isOpen p \<longleftrightarrow> pr_Status p = ProposalProposed"

text \<open>Writing through the pointer to the first proposal that satisfies \<open>P\<close>.\<close>

fun updateFirst :: "('a \<Rightarrow> bool) \<Rightarrow> ('a \<Rightarrow> 'a) \<Rightarrow> 'a list \<Rightarrow> 'a list" where
  "updateFirst P f [] = []"
| "updateFirst P f (x # xs) = (if P x then f x # xs else x # updateFirst P f xs)"

definition Propose ::
  "ProposalInput \<Rightarrow> instant \<Rightarrow> MaintenanceBoard \<Rightarrow> MaintenanceBoard \<times> (boardError + (Proposal \<times> bool))" where
  "Propose i now b0 =
     (case checkInput i of
        Some fault \<Rightarrow> (b0, Inl (ErrInvalidProposal fault))
      | None \<Rightarrow>
          if \<not> mc_Enabled (mb_cfg b0) then (b0, Inl ErrMaintenanceOff)
          else
            let b = expireLocked now b0; cfg = mb_cfg b;
                same = (\<lambda>p. isOpen p \<and> pr_Source p = in_Source i);
                refresh = (\<lambda>p. p\<lparr>pr_Score := in_Score i, pr_Drift := in_Drift i, pr_Reason := in_Reason i,
                               pr_UpdatedAtMs := unixMilli now\<rparr>);
                opened = length (filter isOpen (mb_items b))
            in (case find same (mb_items b) of
                  Some p \<Rightarrow> (b\<lparr>mb_items := updateFirst same refresh (mb_items b)\<rparr>, Inr (refresh p, False))
                | None \<Rightarrow>
                    if (case go_get (mb_lastEnd b) (in_Source i) of None \<Rightarrow> False
                        | Some ended \<Rightarrow> 0 < mc_Cooldown cfg \<and> time_sub now ended < mc_Cooldown cfg)
                    then (b, Inl ErrProposalDecided)
                    else if 0 < mc_MaxOpen cfg \<and> mc_MaxOpen cfg \<le> int opened
                    then (b, Inl (ErrInvalidProposal (TooManyOpen opened)))
                    else
                      let n = mb_seq b + 1;
                          p = \<lparr>pr_ID = proposalID (unixMilli now) n, pr_Source = in_Source i,
                               pr_Reason = in_Reason i, pr_Score = in_Score i, pr_Drift = in_Drift i,
                               pr_Status = ProposalProposed, pr_JobID = [], pr_CreatedAtMs = unixMilli now,
                               pr_UpdatedAtMs = unixMilli now, pr_DecidedAtMs = 0, pr_DecidedBy = [],
                               pr_DecisionReason = []\<rparr>
                      in (b\<lparr>mb_seq := n, mb_items := mb_items b @ [p]\<rparr>, Inr (p, True))))"

definition ListProposals :: "string \<Rightarrow> instant \<Rightarrow> MaintenanceBoard \<Rightarrow> MaintenanceBoard \<times> Proposal list" where
  "ListProposals status now b0 =
     (let b = expireLocked now b0
      in (b, sort_key (\<lambda>p. - pr_CreatedAtMs p)
            (filter (\<lambda>p. status = [] \<or> proposalText (pr_Status p) = status) (mb_items b))))"

definition openLocked :: "string \<Rightarrow> MaintenanceBoard \<Rightarrow> boardError + Proposal" where
  "openLocked pid b =
     (case find (\<lambda>p. pr_ID p = pid) (mb_items b) of
        None \<Rightarrow> Inl ErrUnknownProposal
      | Some p \<Rightarrow> if pr_Status p \<noteq> ProposalProposed then Inl ErrProposalDecided else Inr p)"

text \<open>
  The job of a proposal; the fields the code leaves out have the zero value (the status, which the
  engine computes itself, has none in this model).
\<close>

definition maintenanceJob :: "MaintenanceConfig \<Rightarrow> Proposal \<Rightarrow> job" where
  "maintenanceJob cfg p =
     \<lparr>job_ID = ''maint-'' @ pr_ID p, job_Priority = mc_Priority cfg, job_RequiredTool = mc_RequiredTool cfg,
      job_Location = mc_Location cfg, job_DependsOn = [], job_Status = StatusPending, job_AssignedRobot = [],
      job_DedupKey = ''maintenance:'' @ pr_ID p, job_SubmittedAtMs = 0, job_AssignedAtMs = 0,
      job_CompletedAtMs = 0, job_Attempt = 0, job_seq = 0\<rparr>"

text \<open>Closing a proposal: the list and the time of its source's last decision.\<close>

definition closeProposal :: "Proposal \<Rightarrow> instant \<Rightarrow> MaintenanceBoard \<Rightarrow> MaintenanceBoard" where
  "closeProposal p now b =
     b\<lparr>mb_items := updateFirst (\<lambda>q. pr_ID q = pr_ID p) (\<lambda>_. p) (mb_items b),
       mb_lastEnd := go_put (pr_Source p) now (mb_lastEnd b)\<rparr>"

definition Approve ::
  "string \<Rightarrow> string \<Rightarrow> instant \<Rightarrow> instant \<Rightarrow> MaintenanceBoard \<Rightarrow> 's engine \<Rightarrow>
   (MaintenanceBoard \<times> 's engine \<times> (boardError + (Proposal \<times> job))) option" where
  "Approve pid who now later b0 e =
     (if \<not> mc_Enabled (mb_cfg b0) then Some (b0, e, Inl ErrMaintenanceOff)
      else
        let b = expireLocked now b0
        in (case openLocked pid b of
              Inl err \<Rightarrow> Some (b, e, Inl err)
            | Inr p \<Rightarrow>
                (case SubmitJob (maintenanceJob (mb_cfg b) p) later e of
                   None \<Rightarrow> None
                 | Some (e', Inl err) \<Rightarrow> Some (b, e', Inl (ErrSubmit err))
                 | Some (e', Inr (j, _)) \<Rightarrow>
                     (let p' = p\<lparr>pr_Status := ProposalApproved, pr_JobID := job_ID j,
                            pr_UpdatedAtMs := unixMilli now, pr_DecidedAtMs := unixMilli now,
                            pr_DecidedBy := who\<rparr>
                      in Some (closeProposal p' now b, e', Inr (p', j))))))"

definition Reject ::
  "string \<Rightarrow> string \<Rightarrow> string \<Rightarrow> instant \<Rightarrow> MaintenanceBoard \<Rightarrow> MaintenanceBoard \<times> (boardError + Proposal)" where
  "Reject pid who why now b0 =
     (if \<not> mc_Enabled (mb_cfg b0) then (b0, Inl ErrMaintenanceOff)
      else
        let b = expireLocked now b0
        in (case openLocked pid b of
              Inl err \<Rightarrow> (b, Inl err)
            | Inr p \<Rightarrow>
                (let p' = p\<lparr>pr_Status := ProposalRejected, pr_UpdatedAtMs := unixMilli now,
                       pr_DecidedAtMs := unixMilli now, pr_DecidedBy := who, pr_DecisionReason := why\<rparr>
                 in (closeProposal p' now b, Inr p'))))"

end
