(* ===== verification/Proposals.thy ===== *)
theory Proposals
  imports Maintenance
begin

section \<open>What the board of proposals keeps\<close>

text \<open>
  The identifiers of the proposals are distinct and at most one proposal of a source is open, in
  every interleaving of the operations of the board with those of the engine.
\<close>

subsection \<open>Decimal numbers\<close>

definition digitVal :: "char \<Rightarrow> nat" where
  "digitVal c = of_char c - 48"

lemma digit_char: "d < 10 \<Longrightarrow> digitVal (char_of (48 + d)) = d \<and> char_of (48 + d) \<noteq> CHR ''-''"
proof -
  assume d: "d < 10"
  have v: "(of_char (char_of (48 + d) :: char) :: nat) = 48 + d" using d by (simp add: of_char_of)
  moreover have "char_of (48 + d) \<noteq> CHR ''-''"
  proof
    assume "char_of (48 + d) = CHR ''-''"
    then have "48 + d = (of_char CHR ''-'' :: nat)" using v by simp
    then show False by simp
  qed
  ultimately show ?thesis by (simp add: digitVal_def)
qed

lemma showNat_digits: "c \<in> set (showNat n) \<Longrightarrow> c \<noteq> CHR ''-''"
proof (induction n rule: showNat.induct)
  case (1 n)
  then show ?case
    using digit_char [of n] digit_char [of "n mod 10"] by (auto simp: showNat.simps [of n] split: if_splits)
qed

lemma showNat_value: "foldl (\<lambda>a c. 10 * a + digitVal c) 0 (showNat n) = n"
proof (induction n rule: showNat.induct)
  case (1 n)
  then show ?case using digit_char [of n] digit_char [of "n mod 10"] by (auto simp: showNat.simps [of n])
qed

lemma showNat_inj: "showNat m = showNat n \<Longrightarrow> m = n"
  by (metis showNat_value)

lemma takeWhile_until: "\<forall>c \<in> set xs. c \<noteq> d \<Longrightarrow> takeWhile (\<lambda>c. c \<noteq> d) (xs @ d # ys) = xs"
  by (induction xs) simp_all

lemma proposalID_number:
  assumes "0 < m" and "0 < n" and "proposalID ms m = proposalID ms' n"
  shows "m = n"
proof -
  have suffix: "takeWhile (\<lambda>c. c \<noteq> CHR ''-'') (rev (proposalID x k)) = rev (showNat (nat k))" if "0 < k" for x k
  proof -
    have "rev (proposalID x k) = rev (showNat (nat k)) @ CHR ''-'' # rev (''mp-'' @ showInt x)"
      using that by (simp add: proposalID_def showInt_def)
    moreover have "\<forall>c \<in> set (rev (showNat (nat k))). c \<noteq> CHR ''-''" using showNat_digits by auto
    ultimately show ?thesis by (simp only: takeWhile_until)
  qed
  have "showNat (nat m) = showNat (nat n)" using suffix [OF assms(1), of ms] suffix [OF assms(2), of ms'] assms(3) by simp
  then show ?thesis using showNat_inj assms(1,2) by fastforce
qed

subsection \<open>The invariant\<close>

definition board_ok :: "MaintenanceBoard \<Rightarrow> bool" where
  "board_ok b \<longleftrightarrow>
     0 \<le> mb_seq b \<and> distinct (map pr_ID (mb_items b))
   \<and> (\<forall>p \<in> set (mb_items b). \<exists>ms n. 0 < n \<and> n \<le> mb_seq b \<and> pr_ID p = proposalID ms n)
   \<and> distinct (map pr_Source (filter isOpen (mb_items b)))"

lemma board_okI:
  "0 \<le> mb_seq b \<Longrightarrow> distinct (map pr_ID (mb_items b)) \<Longrightarrow>
   (\<And>p. p \<in> set (mb_items b) \<Longrightarrow> \<exists>ms n. 0 < n \<and> n \<le> mb_seq b \<and> pr_ID p = proposalID ms n) \<Longrightarrow>
   distinct (map pr_Source (filter isOpen (mb_items b))) \<Longrightarrow> board_ok b"
  by (simp add: board_ok_def)

lemma board_ok_ID:
  "board_ok b \<Longrightarrow> p \<in> set (mb_items b) \<Longrightarrow> \<exists>ms n. 0 < n \<and> n \<le> mb_seq b \<and> pr_ID p = proposalID ms n"
  by (simp add: board_ok_def)

text \<open>A proposal is updated in place, and a closed one is not opened again.\<close>

definition updated :: "Proposal \<Rightarrow> Proposal \<Rightarrow> bool" where
  "updated p q \<longleftrightarrow> pr_ID q = pr_ID p \<and> pr_Source q = pr_Source p \<and> (isOpen q \<longrightarrow> isOpen p)"

lemma updated_refl [simp]: "updated p p"
  by (simp add: updated_def)

lemma updated_list:
  assumes "list_all2 updated ps qs"
  shows "map pr_ID qs = map pr_ID ps"
    "pr_Source ` set (filter isOpen qs) \<subseteq> pr_Source ` set (filter isOpen ps)"
    "distinct (map pr_Source (filter isOpen ps)) \<Longrightarrow> distinct (map pr_Source (filter isOpen qs))"
proof -
  have "map pr_ID qs = map pr_ID ps \<and> pr_Source ` set (filter isOpen qs) \<subseteq> pr_Source ` set (filter isOpen ps)
    \<and> (distinct (map pr_Source (filter isOpen ps)) \<longrightarrow> distinct (map pr_Source (filter isOpen qs)))"
    using assms
  proof (induction rule: list_all2_induct)
    case (Cons p ps q qs)
    then show ?case by (cases "isOpen q"; cases "isOpen p") (auto simp: updated_def)
  qed simp
  then show "map pr_ID qs = map pr_ID ps"
    "pr_Source ` set (filter isOpen qs) \<subseteq> pr_Source ` set (filter isOpen ps)"
    "distinct (map pr_Source (filter isOpen ps)) \<Longrightarrow> distinct (map pr_Source (filter isOpen qs))"
    by blast+
qed

lemma updateFirst_updated:
  "(\<And>x. x \<in> set xs \<Longrightarrow> P x \<Longrightarrow> updated x (f x)) \<Longrightarrow> list_all2 updated xs (updateFirst P f xs)"
  by (induction xs) (auto simp: list.rel_refl)

lemma board_ok_updated:
  assumes "board_ok b" and "list_all2 updated (mb_items b) (mb_items b')" and "mb_seq b' = mb_seq b"
  shows "board_ok b'"
proof -
  note u = updated_list [OF assms(2)]
  have "\<exists>ms n. 0 < n \<and> n \<le> mb_seq b \<and> pr_ID q = proposalID ms n" if "q \<in> set (mb_items b')" for q
  proof -
    have "pr_ID q \<in> set (map pr_ID (mb_items b))" using that u(1) by (metis image_eqI set_map)
    then show ?thesis using assms(1) unfolding board_ok_def by auto
  qed
  then show ?thesis using assms(1,3) u(1,3) unfolding board_ok_def by auto
qed

lemma expireLocked_updated: "list_all2 updated (mb_items b) (mb_items (expireLocked now b))"
  by (auto simp: expireLocked_def list_all2_map2 updated_def isOpen_def expires_def list.rel_refl
      intro!: list.rel_refl_strong)

lemma expireLocked_frame [simp]: "mb_seq (expireLocked now b) = mb_seq b" "mb_cfg (expireLocked now b) = mb_cfg b"
  by (simp_all add: expireLocked_def)

lemma expireLocked_ok: "board_ok b \<Longrightarrow> board_ok (expireLocked now b)"
  by (rule board_ok_updated [OF _ expireLocked_updated]) simp_all

lemma find_at:
  assumes "find P xs = Some x"
  shows "x \<in> set xs" "P x"
  using assms by (induction xs) (auto split: if_splits)

lemma find_none: "find P xs = None \<longleftrightarrow> (\<forall>x \<in> set xs. \<not> P x)"
  by (induction xs) auto

lemma openLocked_Inr:
  assumes "openLocked pid b = Inr p"
  shows "p \<in> set (mb_items b)" "pr_ID p = pid" "isOpen p"
  using assms by (auto simp: openLocked_def isOpen_def split: option.splits if_splits dest: find_at)

lemma board_one:
  assumes "board_ok b" and "p \<in> set (mb_items b)" and "q \<in> set (mb_items b)" and "pr_ID p = pr_ID q"
  shows "p = q"
  using assms unfolding board_ok_def by (meson distinct_map inj_onD)

lemma closeProposal_ok:
  assumes b: "board_ok b" and p: "p \<in> set (mb_items b)"
    and p': "pr_ID p' = pr_ID p" "pr_Source p' = pr_Source p" "\<not> isOpen p'"
  shows "board_ok (closeProposal p' now b)"
proof (rule board_ok_updated [OF b])
  have "updated q p'" if "q \<in> set (mb_items b)" "pr_ID q = pr_ID p'" for q
    using board_one [OF b p that(1)] that(2) p' by (simp add: updated_def)
  then show "list_all2 updated (mb_items b) (mb_items (closeProposal p' now b))"
    unfolding closeProposal_def by (simp add: updateFirst_updated)
qed (simp add: closeProposal_def)

lemma close_open:
  assumes "board_ok b" and "openLocked pid b = Inr p"
    and "pr_ID p' = pr_ID p" "pr_Source p' = pr_Source p" "\<not> isOpen p'"
  shows "board_ok (closeProposal p' now b)"
  using closeProposal_ok [OF assms(1) openLocked_Inr(1) [OF assms(2)] assms(3-5)] .

lemma Propose_ok:
  assumes b: "board_ok b"
  shows "board_ok (fst (Propose i now b))"
proof -
  let ?b = "expireLocked now b"
  note e = expireLocked_ok [OF b, of now]
  let ?same = "\<lambda>p. isOpen p \<and> pr_Source p = in_Source i"
  let ?refresh = "\<lambda>p. p\<lparr>pr_Score := in_Score i, pr_Drift := in_Drift i, pr_Reason := in_Reason i,
      pr_UpdatedAtMs := unixMilli now\<rparr>"
  have upd: "board_ok (?b\<lparr>mb_items := updateFirst ?same ?refresh (mb_items ?b)\<rparr>)"
    by (rule board_ok_updated [OF e]) (auto simp: updated_def isOpen_def intro!: updateFirst_updated)
  have new: "board_ok (?b\<lparr>mb_seq := mb_seq b + 1, mb_items := mb_items ?b @ [p]\<rparr>)"
    if "pr_ID p = proposalID ms (mb_seq b + 1)" "pr_Source p = in_Source i" "find ?same (mb_items ?b) = None" for p ms
  proof -
    have fresh: "pr_ID q \<noteq> pr_ID p" if q: "q \<in> set (mb_items ?b)" for q
    proof
      assume eq: "pr_ID q = pr_ID p"
      obtain ms' n where n: "0 < n" "n \<le> mb_seq b" "pr_ID q = proposalID ms' n"
        using board_ok_ID [OF e q] by auto
      then have "n = mb_seq b + 1" using proposalID_number [of n "mb_seq b + 1" ms' ms] eq \<open>pr_ID p = _\<close> by simp
      then show False using n(2) by simp
    qed
    have src: "pr_Source q \<noteq> in_Source i" if "q \<in> set (mb_items ?b)" "isOpen q" for q
      using that \<open>find ?same (mb_items ?b) = None\<close> unfolding find_none by blast
    have ids: "\<exists>ms n. 0 < n \<and> n \<le> mb_seq b + 1 \<and> pr_ID q = proposalID ms n" if q: "q \<in> set (mb_items ?b @ [p])" for q
    proof (cases "q = p")
      case True
      then show ?thesis
        using \<open>pr_ID p = _\<close> b
        by (intro exI [where x = ms] exI [where x = "mb_seq b + 1"]) (simp add: board_ok_def)
    next
      case False
      then obtain ms n where "0 < n" "n \<le> mb_seq b" "pr_ID q = proposalID ms n"
        using board_ok_ID [OF e, of q] q by auto
      then show ?thesis by (intro exI [where x = ms] exI [where x = n]) simp
    qed
    have "pr_ID p \<notin> pr_ID ` set (mb_items ?b)" using fresh by (metis imageE)
    then have d: "distinct (map pr_ID (mb_items ?b @ [p]))" using e by (simp add: board_ok_def)
    have "in_Source i \<notin> pr_Source ` {q \<in> set (mb_items ?b). isOpen q}"
    proof
      assume "in_Source i \<in> pr_Source ` {q \<in> set (mb_items ?b). isOpen q}"
      then obtain x where x: "x \<in> set (mb_items ?b)" "isOpen x" "pr_Source x = in_Source i" by force
      show False using src [OF x(1,2)] x(3) by (rule notE)
    qed
    then have "pr_Source p \<notin> pr_Source ` {q \<in> set (mb_items ?b). isOpen q}" by (simp only: \<open>pr_Source p = _\<close>) simp
    then have s: "distinct (map pr_Source (filter isOpen (mb_items ?b @ [p])))" using e by (simp add: board_ok_def)
    show ?thesis
    proof (rule board_okI)
      show "0 \<le> mb_seq (?b\<lparr>mb_seq := mb_seq b + 1, mb_items := mb_items ?b @ [p]\<rparr>)"
        using b by (simp add: board_ok_def)
      show "distinct (map pr_ID (mb_items (?b\<lparr>mb_seq := mb_seq b + 1, mb_items := mb_items ?b @ [p]\<rparr>)))"
        using d by simp
      show "distinct (map pr_Source (filter isOpen (mb_items (?b\<lparr>mb_seq := mb_seq b + 1, mb_items := mb_items ?b @ [p]\<rparr>))))"
        using s by simp
      fix q assume "q \<in> set (mb_items (?b\<lparr>mb_seq := mb_seq b + 1, mb_items := mb_items ?b @ [p]\<rparr>))"
      then show "\<exists>ms n. 0 < n \<and> n \<le> mb_seq (?b\<lparr>mb_seq := mb_seq b + 1, mb_items := mb_items ?b @ [p]\<rparr>)
          \<and> pr_ID q = proposalID ms n"
        using ids [of q] by simp
    qed
  qed
  show ?thesis
    using b e upd new by (auto simp: Propose_def Let_def split: option.splits)
qed

lemma Reject_ok: "board_ok b \<Longrightarrow> board_ok (fst (Reject pid who why now b))"
  using expireLocked_ok [of b now]
  by (auto simp: Reject_def Let_def isOpen_def split: sum.splits intro: close_open)

lemma Approve_Inr:
  assumes "Approve pid who now later b e = Some (b', e', Inr (p', j))"
  shows "\<exists>p res. openLocked pid (expireLocked now b) = Inr p
    \<and> SubmitJob (maintenanceJob (mb_cfg b) p) later e = Some (e', Inr (j, res))
    \<and> p' = p\<lparr>pr_Status := ProposalApproved, pr_JobID := job_ID j, pr_UpdatedAtMs := unixMilli now,
         pr_DecidedAtMs := unixMilli now, pr_DecidedBy := who\<rparr>
    \<and> b' = closeProposal p' now (expireLocked now b) \<and> mc_Enabled (mb_cfg b)"
  using assms by (auto simp: Approve_def Let_def split: sum.splits option.splits if_splits)

lemma Approve_Inl:
  assumes "Approve pid who now later b e = Some (b', e', Inl err)"
  shows "(b' = b \<or> b' = expireLocked now b)
    \<and> (e' = e \<or> (\<exists>j x. SubmitJob j later e = Some (e', Inl x)))"
  using assms by (auto simp: Approve_def Let_def split: sum.splits option.splits if_splits)

lemma Approve_ok:
  assumes b: "board_ok b" and a: "Approve pid who now later b e = Some (b', e', r)"
  shows "board_ok b'"
proof (cases r)
  case (Inl err)
  then show ?thesis using Approve_Inl a b expireLocked_ok [OF b] by metis
next
  case (Inr pj)
  obtain p' j where pj: "pj = (p', j)" by fastforce
  from Approve_Inr [OF a [unfolded Inr pj]] obtain p where p: "openLocked pid (expireLocked now b) = Inr p"
    "pr_ID p' = pr_ID p" "pr_Source p' = pr_Source p" "\<not> isOpen p'" "b' = closeProposal p' now (expireLocked now b)"
    by (auto simp: isOpen_def)
  show ?thesis unfolding p(5) by (rule close_open [OF expireLocked_ok [OF b] p(1-4)])
qed

end
