(* ===== verification/MaintenanceTheorems.thy ===== *)
theory MaintenanceTheorems
  imports Proposals Demo
begin

section \<open>Properties: maintenance proposals\<close>

text \<open>
  The board and the engine together: every operation of the board, and any step of the engine in
  between.
\<close>

inductive boardStep :: "MaintenanceBoard \<times> 's engine \<Rightarrow> MaintenanceBoard \<times> 's engine \<Rightarrow> bool" where
  engine: "engine_step e e' \<Longrightarrow> boardStep (b, e) (b, e')"
| config: "boardStep (b, e) (SetConfig cfg b, e)"
| propose: "boardStep (b, e) (fst (Propose i now b), e)"
| look: "boardStep (b, e) (fst (ListProposals status now b), e)"
| approve: "Approve pid who now later b e = Some (b', e', r) \<Longrightarrow> boardStep (b, e) (b', e')"
| reject: "boardStep (b, e) (fst (Reject pid who why now b), e)"

lemma boardStep_ok:
  assumes "boardStep (b, e) (b', e')" and b: "board_ok b" and ok: "engine_ok e"
  shows "board_ok b' \<and> engine_ok e'"
  using assms(1)
proof cases
  case engine
  then show ?thesis using engine_step_ok ok b by auto
next
  case (config cfg)
  then show ?thesis using b ok by (simp add: SetConfig_def board_ok_def)
next
  case (propose i now)
  then show ?thesis using Propose_ok [OF b] ok by simp
next
  case (look status now)
  then show ?thesis using expireLocked_ok [OF b] ok by (simp add: ListProposals_def Let_def)
next
  case (approve pid who now later r)
  have "engine_ok e'"
  proof (cases r)
    case (Inl err)
    then have "e' = e \<or> (\<exists>j x. SubmitJob j later e = Some (e', Inl x))" using Approve_Inl approve by metis
    then show ?thesis using ok SubmitJob_ok [OF ok] by (metis option.inject prod.inject)
  next
    case (Inr pj)
    then obtain j res where "SubmitJob j later e = Some (e', res)"
      using Approve_Inr [of pid who now later b e b' e' "fst pj" "snd pj"] approve by auto
    then show ?thesis using SubmitJob_ok [OF ok, of j later] by auto
  qed
  then show ?thesis using Approve_ok [OF b] approve by blast
next
  case (reject pid who why now)
  then show ?thesis using Reject_ok [OF b] ok by simp
qed

text \<open>
  C38: whatever the detector, the people and the engine do, in any order, no two proposals have
  the same identifier, no source has two open proposals, and the engine keeps its invariant.
\<close>

theorem board_invariant:
  assumes "boardStep\<^sup>*\<^sup>* (NewMaintenanceBoard, NewEngine) (b, e)"
  shows "distinct (map pr_ID (mb_items b)) \<and> distinct (map pr_Source (filter isOpen (mb_items b))) \<and> engine_ok e"
proof -
  have "board_ok (fst s) \<and> engine_ok (snd s)" if "boardStep\<^sup>*\<^sup>* (NewMaintenanceBoard, NewEngine) s" for s :: "MaintenanceBoard \<times> 'a engine"
    using that
  proof (induction rule: rtranclp_induct)
    case base
    show ?case by (simp add: NewMaintenanceBoard_def board_ok_def engine_ok_NewEngine)
  next
    case (step s t)
    then show ?case using boardStep_ok [of "fst s" "snd s" "fst t" "snd t"] by simp
  qed
  from this [OF assms] show ?thesis by (simp add: board_ok_def)
qed

text \<open>A board with one proposal, over the small plant.\<close>

definition aWarning :: ProposalInput where
  "aWarning = \<lparr>in_Source = ''w:spindle'', in_Reason = ''drift'', in_Score = Fin 4, in_Drift = Fin (1 / 2)\<rparr>"

definition board1 :: MaintenanceBoard where
  "board1 = fst (Propose aWarning (50 * millisecond)
     (SetConfig (DefaultMaintenanceConfig\<lparr>mc_Enabled := True\<rparr>) NewMaintenanceBoard))"

lemma boardStep_engine: "reachable NewEngine e \<Longrightarrow> boardStep\<^sup>*\<^sup>* (b, NewEngine) (b, e)"
  by (induction rule: reachable.induct) (auto intro: rtranclp.rtrancl_into_rtrancl engine)

lemma board1_reachable: "boardStep\<^sup>*\<^sup>* (NewMaintenanceBoard, NewEngine) (board1, plant2)"
proof -
  let ?b = "SetConfig (DefaultMaintenanceConfig\<lparr>mc_Enabled := True\<rparr>) NewMaintenanceBoard"
  have "boardStep\<^sup>*\<^sup>* (NewMaintenanceBoard, NewEngine) (NewMaintenanceBoard, plant2)"
    by (rule boardStep_engine [OF plant2_reachable])
  also have "boardStep (NewMaintenanceBoard, plant2) (?b, plant2)" by (rule config)
  also have "boardStep (?b, plant2) (board1, plant2)" unfolding board1_def by (rule propose)
  finally show ?thesis .
qed

lemma board_invariant_witness: "distinct (map pr_ID (mb_items board1)) \<and> map pr_ID (mb_items board1) = [''mp-50-1'']"
proof -
  have "map pr_ID (mb_items board1) = [''mp-50-1'']" by code_simp
  then show ?thesis using board_invariant [OF board1_reachable] by blast
qed

text \<open>
  C39: an approval is decided once. Approving an open proposal submits exactly the job of that
  proposal to the engine, under a deduplication key made of its identifier, and closes it with
  that job; whoever approves or rejects it again, at any later time and whatever the engine did
  in between, is refused without touching the engine.
\<close>

theorem approve_effect:
  assumes b: "board_ok b" and ok: "engine_ok e"
    and a: "Approve pid who now later b e = Some (b', e', Inr (p', j))"
  shows "(\<exists>p res. p \<in> set (mb_items (expireLocked now b)) \<and> pr_ID p = pid \<and> isOpen p
        \<and> SubmitJob (maintenanceJob (mb_cfg b) p) later e = Some (e', Inr (j, res)))
    \<and> getJob e' (job_ID j) = Some j \<and> job_DedupKey j = ''maintenance:'' @ pid
    \<and> p' \<in> set (mb_items b') \<and> pr_ID p' = pid \<and> pr_Status p' = ProposalApproved \<and> pr_JobID p' = job_ID j
    \<and> engine_ok e'
    \<and> (\<forall>who2 t t2 e2. \<exists>b2. Approve pid who2 t t2 b' (e2 :: 's engine) = Some (b2, e2, Inl ErrProposalDecided))
    \<and> (\<forall>who2 why t. snd (Reject pid who2 why t b') = Inl ErrProposalDecided)"
proof -
  let ?b = "expireLocked now b"
  obtain p res where p: "openLocked pid ?b = Inr p"
    "SubmitJob (maintenanceJob (mb_cfg b) p) later e = Some (e', Inr (j, res))"
    "p' = p\<lparr>pr_Status := ProposalApproved, pr_JobID := job_ID j, pr_UpdatedAtMs := unixMilli now,
         pr_DecidedAtMs := unixMilli now, pr_DecidedBy := who\<rparr>"
    "b' = closeProposal p' now ?b" "mc_Enabled (mb_cfg b)"
    using Approve_Inr [OF a] by blast
  note o = openLocked_Inr [OF p(1)]
  have key: "job_DedupKey (maintenanceJob (mb_cfg b) p) = ''maintenance:'' @ pid" using o(2) by (simp add: maintenanceJob_def)
  then have ne: "job_DedupKey (maintenanceJob (mb_cfg b) p) \<noteq> []" by simp
  note ix = SubmitJob_indexes [OF ok ne p(2)]
  have ok': "engine_ok e'" using SubmitJob_ok [OF ok, of "maintenanceJob (mb_cfg b) p" later] p(2) by auto
  have dk: "job_DedupKey j = ''maintenance:'' @ pid"
    using dedup_hit [OF ok', of "job_DedupKey (maintenanceJob (mb_cfg b) p)" "job_ID j"] ix key by auto
  have f: "find (\<lambda>q. pr_ID q = pid) (mb_items b') = Some p'"
  proof -
    have "find (\<lambda>q. pr_ID q = pid) xs \<noteq> None \<Longrightarrow>
        find (\<lambda>q. pr_ID q = pid) (updateFirst (\<lambda>q. pr_ID q = pid) (\<lambda>_. p') xs) = Some p'" for xs
      using o(2) p(3) by (induction xs) auto
    moreover have "find (\<lambda>q. pr_ID q = pid) (mb_items ?b) \<noteq> None" using o unfolding find_none by blast
    ultimately show ?thesis using o(2) p(3,4) by (simp add: closeProposal_def)
  qed
  have f2: "find (\<lambda>q. pr_ID q = pid) (mb_items (expireLocked t b')) = Some p'" for t
  proof -
    have ne: "\<not> expires (mb_cfg b') t p'" using p(3) by (simp add: expires_def)
    have "find P xs = Some p' \<Longrightarrow> (\<And>x. P (g x) = P x) \<Longrightarrow> g p' = p' \<Longrightarrow> find P (map g xs) = Some p'" for P g and xs :: "Proposal list"
      by (induction xs) (auto split: if_splits)
    from this [OF f] show ?thesis using f ne by (simp add: expireLocked_def)
  qed
  have "openLocked pid (expireLocked t b') = Inl ErrProposalDecided" for t
    using f2 [of t] p(3) by (simp add: openLocked_def)
  moreover have "mc_Enabled (mb_cfg b')" using p(4,5) by (simp add: closeProposal_def)
  ultimately have again: "\<exists>b2. Approve pid who2 t t2 b' e2 = Some (b2, e2, Inl ErrProposalDecided)"
    "snd (Reject pid who2 why t b') = Inl ErrProposalDecided" for who2 why t t2 and e2 :: "'s engine"
    by (simp_all add: Approve_def Reject_def Let_def)
  show ?thesis
    using o p ix dk ok' again find_at(1) [OF f] by simp blast
qed

lemma approve_effect_witness:
  "\<exists>b' p' j (e' :: unit engine). Approve ''mp-50-1'' ''ann'' (60 * millisecond) (60 * millisecond) board1 plant2
       = Some (b', e', Inr (p', j))
    \<and> job_ID j = ''maint-mp-50-1'' \<and> getJob e' ''maint-mp-50-1'' = Some j
    \<and> snd (Reject ''mp-50-1'' ''bob'' ''late'' (70 * millisecond) b') = Inl ErrProposalDecided"
proof -
  have "case Approve ''mp-50-1'' ''ann'' (60 * millisecond) (60 * millisecond) board1 plant2 of
      Some (b', e', Inr (p', j)) \<Rightarrow> job_ID j = ''maint-mp-50-1'' | _ \<Rightarrow> False"
    by code_simp
  then obtain b' e' r where r: "Approve ''mp-50-1'' ''ann'' (60 * millisecond) (60 * millisecond) board1 plant2
      = Some (b', e', r)" "case r of Inr (p', j) \<Rightarrow> job_ID j = ''maint-mp-50-1'' | _ \<Rightarrow> False"
    by (cases "Approve ''mp-50-1'' ''ann'' (60 * millisecond) (60 * millisecond) board1 plant2") auto
  then obtain p' j where "r = Inr (p', j)" by (cases r) auto
  then have a: "Approve ''mp-50-1'' ''ann'' (60 * millisecond) (60 * millisecond) board1 plant2
      = Some (b', e', Inr (p', j))" "job_ID j = ''maint-mp-50-1''" using r by simp_all
  have ok: "board_ok board1"
    unfolding board1_def by (rule Propose_ok) (simp add: SetConfig_def NewMaintenanceBoard_def board_ok_def)
  show ?thesis using approve_effect [OF ok plant2_ok a(1)] a by auto
qed

end
