(* ===== verification/Mqtt.thy ===== *)
theory Mqtt
  imports Prelude "HOL-Library.Word"
begin

section \<open>MQTT packets\<close>

text \<open>
  The encoders of \<open>src/src/dispatcher/mqttstate.go\<close>: strings with a 16-bit length, the remaining
  length in base 128, and the CONNECT and PUBLISH packets. Bytes are 8-bit words; the length of a
  string is cut to 16 bits as the conversion \<open>uint16\<close> does. The reader below is not in the program:
  it is the reader of the MQTT specification, against which the encoders are proved.
\<close>

unbundle bit_operations_syntax

type_synonym byte = "8 word"

definition bytesOf :: "string \<Rightarrow> byte list" where
  "bytesOf s = map of_char s"

definition putUint16 :: "16 word \<Rightarrow> byte list" where
  "putUint16 w = [ucast (drop_bit 8 w), ucast w]"

definition mqttString :: "string \<Rightarrow> byte list" where
  "mqttString s = putUint16 (of_nat (length s)) @ bytesOf s"

fun mqttRemainingLength :: "nat \<Rightarrow> byte list" where
  "mqttRemainingLength n =
     (let b = of_nat (n mod 128); n' = n div 128
      in if 0 < n' then (b OR 128) # mqttRemainingLength n' else [b])"

declare mqttRemainingLength.simps [simp del]

definition mqttConnectPacket :: "string \<Rightarrow> string \<Rightarrow> string \<Rightarrow> byte list" where
  "mqttConnectPacket clientID user password =
     (let (flags, payload) =
            (if user = [] then (0x02, mqttString clientID)
             else if password = [] then (0x82, mqttString clientID @ mqttString user)
             else (0xC2, mqttString clientID @ mqttString user @ mqttString password));
          body = mqttString ''MQTT'' @ [0x04, flags, 0x00, 0x1E] @ payload
      in 0x10 # mqttRemainingLength (length body) @ body)"

definition mqttPublishPacket :: "string \<Rightarrow> byte list \<Rightarrow> byte list" where
  "mqttPublishPacket topic payload =
     (let body = mqttString topic @ payload
      in 0x31 # mqttRemainingLength (length body) @ body)"

subsection \<open>The reader of the specification\<close>

fun readLength :: "byte list \<Rightarrow> (nat \<times> byte list) option" where
  "readLength [] = None"
| "readLength (b # bs) =
     (if unat b < 128 then Some (unat b, bs)
      else (case readLength bs of None \<Rightarrow> None | Some (n, rest) \<Rightarrow> Some (unat b - 128 + 128 * n, rest)))"

definition readString :: "byte list \<Rightarrow> (string \<times> byte list) option" where
  "readString bs =
     (case bs of
        hi # lo # rest \<Rightarrow>
          (let n = 256 * unat hi + unat lo
           in if length rest < n then None else Some (map (\<lambda>b. char_of (unat b)) (take n rest), drop n rest))
      | _ \<Rightarrow> None)"

text \<open>A PUBLISH at QoS 0, retained: the topic, the payload and what follows the packet.\<close>

definition readPublish :: "byte list \<Rightarrow> (string \<times> byte list \<times> byte list) option" where
  "readPublish bs =
     (case bs of
        b # bs1 \<Rightarrow>
          if b \<noteq> 0x31 then None
          else (case readLength bs1 of
                  None \<Rightarrow> None
                | Some (n, rest) \<Rightarrow>
                    if length rest < n then None
                    else (case readString (take n rest) of
                            None \<Rightarrow> None
                          | Some (topic, payload) \<Rightarrow> Some (topic, payload, drop n rest)))
      | [] \<Rightarrow> None)"

text \<open>A CONNECT of protocol level 4: the client, the user and the password the flags announce.\<close>

definition readField :: "bool \<Rightarrow> byte list \<Rightarrow> (string option \<times> byte list) option" where
  "readField present bs =
     (if present then map_option (\<lambda>(s, rest). (Some s, rest)) (readString bs) else Some (None, bs))"

definition readConnectBody :: "byte list \<Rightarrow> (string \<times> string option \<times> string option) option" where
  "readConnectBody bs =
     (case readString bs of
        Some (proto, level # flags # k1 # k2 # bs1) \<Rightarrow>
          if proto \<noteq> ''MQTT'' \<or> level \<noteq> 4 \<or> bit flags 0 then None
          else
            (case readString bs1 of
               None \<Rightarrow> None
             | Some (client, bs2) \<Rightarrow>
                 (case readField (bit flags 7) bs2 of
                    None \<Rightarrow> None
                  | Some (user, bs3) \<Rightarrow>
                      (case readField (bit flags 6) bs3 of
                         Some (password, []) \<Rightarrow> Some (client, user, password)
                       | _ \<Rightarrow> None)))
      | _ \<Rightarrow> None)"

definition readConnect :: "byte list \<Rightarrow> ((string \<times> string option \<times> string option) \<times> byte list) option" where
  "readConnect bs =
     (case bs of
        b # bs1 \<Rightarrow>
          if b \<noteq> 0x10 then None
          else (case readLength bs1 of
                  None \<Rightarrow> None
                | Some (n, rest) \<Rightarrow>
                    if length rest < n then None
                    else map_option (\<lambda>c. (c, drop n rest)) (readConnectBody (take n rest)))
      | [] \<Rightarrow> None)"

subsection \<open>The length\<close>

lemma unat_small: "k < 128 \<Longrightarrow> unat (of_nat k :: byte) = k"
  by (simp add: unat_of_nat take_bit_eq_mod)

lemma unat_flagged:
  assumes "k < 128"
  shows "unat ((of_nat k :: byte) OR 128) = k + 128"
proof -
  have "(of_nat k :: byte) AND 128 = 0"
  proof (rule bit_word_eqI)
    fix n assume n: "n < LENGTH(8)"
    have "\<not> bit k 7" using assms by (simp add: bit_iff_odd)
    moreover have "bit (128 :: byte) n \<longleftrightarrow> n = 7"
      using n bit_exp_iff [where 'a = byte and m = 7 and n = n] by auto
    ultimately show "bit ((of_nat k :: byte) AND 128) n = bit (0 :: byte) n"
      by (auto simp: bit_and_iff bit_of_nat_iff)
  qed
  then have "(of_nat k :: byte) OR 128 = of_nat k + 128" by (simp add: disjunctive_add_eq_or)
  also have "\<dots> = of_nat (k + 128)" by simp
  finally show ?thesis using assms by (simp add: unat_of_nat take_bit_eq_mod del: of_nat_add)
qed

lemma readLength_encoded: "readLength (mqttRemainingLength n @ rest) = Some (n, rest)"
proof (induction n rule: mqttRemainingLength.induct)
  case (1 n)
  show ?case
  proof (cases "0 < n div 128")
    case True
    then have "readLength (mqttRemainingLength (n div 128) @ rest) = Some (n div 128, rest)" using 1 by simp
    moreover have "unat ((of_nat (n mod 128) :: byte) OR 128) = n mod 128 + 128" by (rule unat_flagged) simp
    ultimately show ?thesis using True by (simp add: mqttRemainingLength.simps [of n] Let_def)
  next
    case False
    then have "n < 128" by simp
    then show ?thesis by (simp add: mqttRemainingLength.simps [of n] Let_def unat_small)
  qed
qed

lemma length_encoded: "0 < k \<Longrightarrow> n < 128 ^ k \<Longrightarrow> length (mqttRemainingLength n) \<le> k"
proof (induction k arbitrary: n)
  case (Suc k)
  show ?case
  proof (cases "n div 128 = 0")
    case True
    then show ?thesis by (simp add: mqttRemainingLength.simps [of n])
  next
    case False
    then have "0 < k" using Suc.prems(2) by (cases k) auto
    moreover have "n div 128 < 128 ^ k" using Suc.prems(2) by (simp add: div_less_iff_less_mult mult.commute)
    ultimately show ?thesis using Suc.IH [of "n div 128"] False by (simp add: mqttRemainingLength.simps [of n] Let_def)
  qed
qed simp

subsection \<open>Strings\<close>

lemma unat_split16:
  fixes w :: "16 word"
  shows "256 * unat (ucast (drop_bit 8 w) :: byte) + unat (ucast w :: byte) = unat w"
proof -
  have h: "unat (ucast (drop_bit 8 w) :: byte) = unat w div 256"
  proof -
    have "unat (drop_bit 8 w) = unat w div 256" by (simp only: unat_drop_bit_eq) (simp add: drop_bit_eq_div)
    moreover have "unat w div 256 < 256" using unsigned_less [of w] by (simp add: div_less_iff_less_mult)
    ultimately show ?thesis by (simp add: unsigned_ucast_eq unsigned_take_bit_eq take_bit_eq_mod)
  qed
  have "unat (ucast w :: byte) = unat w mod 256" by (simp add: unsigned_ucast_eq unsigned_take_bit_eq take_bit_eq_mod)
  then show ?thesis using h by simp
qed

lemma char_byte: "char_of (unat (of_char c :: byte)) = c"
proof -
  have "(of_char c :: byte) = of_nat (of_char c)" by (simp only: of_nat_of_char)
  then have "unat (of_char c :: byte) = of_char c" by (simp add: unat_of_nat take_bit_eq_mod)
  then show ?thesis by simp
qed

lemma char_bytes: "map (\<lambda>b. char_of (unat b)) (bytesOf s) = s"
  by (simp add: bytesOf_def comp_def char_byte)

lemma readString_encoded:
  assumes "length s < 2 ^ 16"
  shows "readString (mqttString s @ rest) = Some (s, rest)"
proof -
  have "256 * unat (ucast (drop_bit 8 (of_nat (length s) :: 16 word)) :: byte)
      + unat (ucast (of_nat (length s) :: 16 word) :: byte) = length s"
    unfolding unat_split16 using assms by (simp add: unat_of_nat take_bit_eq_mod)
  then show ?thesis
    by (simp add: readString_def mqttString_def putUint16_def Let_def char_bytes)
       (simp add: bytesOf_def comp_def char_byte)
qed

lemma readPublish_encoded:
  assumes "length topic < 2 ^ 16"
  shows "readPublish (mqttPublishPacket topic payload @ rest) = Some (topic, payload, rest)"
proof -
  let ?body = "mqttString topic @ payload"
  have "readLength (mqttRemainingLength (length ?body) @ ?body @ rest) = Some (length ?body, ?body @ rest)"
    by (rule readLength_encoded)
  then show ?thesis
    using readString_encoded [OF assms, of payload]
    by (simp add: readPublish_def mqttPublishPacket_def Let_def)
qed

lemma mqttString_MQTT: "mqttString ''MQTT'' = [0, 4, 0x4D, 0x51, 0x54, 0x54]"
  by code_simp

lemma readConnectBody_fields:
  assumes c: "length clientID < 2 ^ 16" and u: "length user < 2 ^ 16" and p: "length password < 2 ^ 16"
    and body: "body = mqttString ''MQTT'' @ [0x04, flags, 0x00, 0x1E] @ mqttString clientID
        @ (if bit flags 7 then mqttString user else []) @ (if bit flags 6 then mqttString password else [])"
    and clean: "\<not> bit flags 0"
  shows "readConnectBody body = Some (clientID, if bit flags 7 then Some user else None,
           if bit flags 6 then Some password else None)"
proof -
  have name: "readString body = Some (''MQTT'', [0x04, flags, 0x00, 0x1E] @ mqttString clientID
        @ (if bit flags 7 then mqttString user else []) @ (if bit flags 6 then mqttString password else []))"
    unfolding body by (rule readString_encoded) simp
  have pw: "readString (mqttString password) = Some (password, [])"
    using readString_encoded [OF p, of "[]"] by simp
  have us: "readString (mqttString user @ xs) = Some (user, xs)" for xs by (rule readString_encoded [OF u])
  show ?thesis
    using clean pw us [of "[]"] us
    by (simp add: readConnectBody_def name readString_encoded [OF c] readField_def)
qed

lemma readConnect_encoded:
  assumes "length clientID < 2 ^ 16" "length user < 2 ^ 16" "length password < 2 ^ 16"
  shows "readConnect (mqttConnectPacket clientID user password @ rest)
       = Some ((clientID, if user = [] then None else Some user,
                if user = [] \<or> password = [] then None else Some password), rest)"
proof -
  define flags :: byte where "flags = (if user = [] then 0x02 else if password = [] then 0x82 else 0xC2)"
  define body where "body = mqttString ''MQTT'' @ [0x04, flags, 0x00, 0x1E] @ mqttString clientID
        @ (if bit flags 7 then mqttString user else []) @ (if bit flags 6 then mqttString password else [])"
  have bits: "bit flags 7 \<longleftrightarrow> user \<noteq> []" "bit flags 6 \<longleftrightarrow> user \<noteq> [] \<and> password \<noteq> []" "\<not> bit flags 0"
    by (simp_all add: flags_def bit_iff_odd)
  have "mqttConnectPacket clientID user password = 0x10 # mqttRemainingLength (length body) @ body"
    by (simp add: mqttConnectPacket_def Let_def body_def bits) (simp add: flags_def)
  then have "readConnect (mqttConnectPacket clientID user password @ rest)
      = map_option (\<lambda>c. (c, rest)) (readConnectBody body)"
    by (simp add: readConnect_def readLength_encoded)
  then show ?thesis
    using readConnectBody_fields [OF assms body_def bits(3)] by (simp add: bits)
qed

subsection \<open>The packets are read back\<close>

text \<open>
  C40: a reader of the MQTT specification reads the packets back. For strings below 65536 bytes,
  the CONNECT packet gives the client, the user when there is one and the password when there are
  both; the PUBLISH packet gives the topic and the payload; both leave what follows untouched, and
  the remaining length of a packet below 2 ^ 28 bytes takes at most the four bytes allowed.
\<close>

theorem mqtt_packets_read_back:
  assumes "length clientID < 2 ^ 16" "length user < 2 ^ 16" "length password < 2 ^ 16" "length topic < 2 ^ 16"
  shows "readConnect (mqttConnectPacket clientID user password @ rest)
           = Some ((clientID, if user = [] then None else Some user,
                    if user = [] \<or> password = [] then None else Some password), rest)
       \<and> readPublish (mqttPublishPacket topic payload @ rest) = Some (topic, payload, rest)
       \<and> (\<forall>n < 2 ^ 28. length (mqttRemainingLength n) \<le> 4)"
  using readConnect_encoded [OF assms(1,2,3)] readPublish_encoded [OF assms(4)] length_encoded [of 4]
  by simp

theorem mqtt_packets_read_back_witness:
  "readConnect (mqttConnectPacket ''hydra'' ''u'' ''p'' @ [7]) = Some ((''hydra'', Some ''u'', Some ''p''), [7])
 \<and> readPublish (mqttPublishPacket ''hydra/jobs/state'' [123, 125] @ [7]) = Some (''hydra/jobs/state'', [123, 125], [7])"
  using mqtt_packets_read_back [of "''hydra''" "''u''" "''p''" "''hydra/jobs/state''" "[7]" "[123, 125]"] by simp

text \<open>The length of a string is cut to 16 bits: a longer one is not read back.\<close>

lemma long_topic_cut:
  assumes "length topic = 2 ^ 16"
  shows "readPublish (mqttPublishPacket topic []) = Some ([], bytesOf topic, [])"
proof -
  have s: "mqttString topic = 0 # 0 # bytesOf topic"
    using assms by (simp add: mqttString_def putUint16_def word_eq_iff_unsigned unsigned_of_nat take_bit_eq_mod unsigned_ucast_eq)
  have "readLength (mqttRemainingLength (length (mqttString topic)) @ mqttString topic)
      = Some (length (mqttString topic), mqttString topic)" by (rule readLength_encoded)
  then show ?thesis
    by (simp add: readPublish_def mqttPublishPacket_def Let_def) (simp add: s readString_def)
qed

end
