(* ===== verification/Json.thy ===== *)
theory Json
  imports Model Float64
begin

section \<open>Reading JSON into typed values\<close>

text \<open>
  What the service uses of \<open>encoding/json\<close>: a document, already read into a tree, is stored into a
  struct of Go. A field is found by its exact name or else by its name in another case; \<open>null\<close>
  leaves a value as it is; a number must fit the type; a value of another kind is an error. Fields
  the struct does not have are skipped, or refused by a decoder that was told so. A field that
  occurs twice is stored twice. How the text becomes the tree is not modelled. A number is kept by
  its kind: a literal with neither fraction nor exponent, or any other with its exact value.
\<close>

datatype jsonNumber = Whole int | Decimal rat

datatype json =
    JNull
  | JBool bool
  | JNumber jsonNumber
  | JString string
  | JArray "json list"
  | JObject "(string \<times> json) list"

definition numberValue :: "jsonNumber \<Rightarrow> rat" where
  "numberValue n = (case n of Whole i \<Rightarrow> of_int i | Decimal q \<Rightarrow> q)"

text \<open>The nearest \<open>float64\<close>; a number beyond the largest one is an error.\<close>

definition readFloat :: "jsonNumber \<Rightarrow> float64 option" where
  "readFloat n =
     (let v = rnd64 (numberValue n) in if \<bar>v\<bar> < 2 ^ 1024 then Some (Fin v) else None)"

subsection \<open>Storing a value\<close>

text \<open>A reader takes the value of the document and what the place holds, and answers what it holds then; \<open>None\<close> is an error.\<close>

type_synonym 'a reader = "json \<Rightarrow> 'a \<Rightarrow> 'a option"

fun storeString :: "string reader" where
  "storeString JNull s = Some s"
| "storeString (JString t) s = Some t"
| "storeString _ s = None"

fun storeBool :: "bool reader" where
  "storeBool JNull b = Some b"
| "storeBool (JBool c) b = Some c"
| "storeBool _ b = None"

text \<open>A signed 64-bit integer must be written without a fraction and an exponent, and fit.\<close>

fun storeInt :: "int reader" where
  "storeInt JNull i = Some i"
| "storeInt (JNumber (Whole n)) i = (if - (2 ^ 63) \<le> n \<and> n < 2 ^ 63 then Some n else None)"
| "storeInt _ i = None"

fun storeFloat :: "float64 reader" where
  "storeFloat JNull x = Some x"
| "storeFloat (JNumber n) x = readFloat n"
| "storeFloat _ x = None"

text \<open>A pointer: \<open>null\<close> makes it nil, another value is stored where it points (or in a new zero value).\<close>

definition storePointer :: "'a \<Rightarrow> 'a reader \<Rightarrow> 'a option reader" where
  "storePointer zero st v p =
     (if v = JNull then Some None
      else map_option Some (st v (case p of None \<Rightarrow> zero | Some x \<Rightarrow> x)))"

text \<open>A slice: every element is stored over the one the slice already has at its place, if any.\<close>

fun storeElements :: "'a \<Rightarrow> 'a reader \<Rightarrow> json list \<Rightarrow> 'a list \<Rightarrow> 'a list option" where
  "storeElements zero st [] old = Some []"
| "storeElements zero st (v # vs) old =
     (case st v (case old of [] \<Rightarrow> zero | x # _ \<Rightarrow> x) of
        None \<Rightarrow> None
      | Some x \<Rightarrow> map_option (Cons x) (storeElements zero st vs (tl old)))"

fun storeSlice :: "'a \<Rightarrow> 'a reader \<Rightarrow> 'a list reader" where
  "storeSlice zero st JNull xs = Some []"
| "storeSlice zero st (JArray vs) xs = storeElements zero st vs xs"
| "storeSlice zero st _ xs = None"

text \<open>A map from names: the entries are added to the ones it has, each from a fresh zero value.\<close>

fun storeEntries :: "'a \<Rightarrow> 'a reader \<Rightarrow> (string \<times> json) list \<Rightarrow> (string, 'a) gomap \<Rightarrow> (string, 'a) gomap option" where
  "storeEntries zero st [] m = Some m"
| "storeEntries zero st ((k, v) # kvs) m =
     (case st v zero of None \<Rightarrow> None | Some x \<Rightarrow> storeEntries zero st kvs (go_put k x m))"

fun storeMap :: "'a \<Rightarrow> 'a reader \<Rightarrow> (string, 'a) gomap reader" where
  "storeMap zero st JNull m = Some []"
| "storeMap zero st (JObject kvs) m = storeEntries zero st kvs m"
| "storeMap zero st _ m = None"

text \<open>A raw message keeps the value, whatever it is.\<close>

definition storeRaw :: "json option reader" where
  "storeRaw v r = Some (Some v)"

subsection \<open>Structs\<close>

text \<open>
  Names are compared up to case: the letters of ASCII, and the two letters outside it whose other
  case is one (the long s, bytes C5 BF, and the sign of the kelvin, bytes E2 84 AA).
\<close>

definition upperChar :: "char \<Rightarrow> char" where
  "upperChar c =
     (let n = (of_char c :: nat) in if 97 \<le> n \<and> n \<le> 122 then char_of (n - 32) else c)"

function foldName :: "string \<Rightarrow> string" where
  "foldName s =
     (case s of [] \<Rightarrow> []
      | c # t \<Rightarrow>
          if take 2 s = [CHR 0xC5, CHR 0xBF] then CHR ''S'' # foldName (drop 2 s)
          else if take 3 s = [CHR 0xE2, CHR 0x84, CHR 0xAA] then CHR ''K'' # foldName (drop 3 s)
          else upperChar c # foldName t)"
  by pat_completeness auto
termination by (relation "measure length") auto

declare foldName.simps [simp del]

type_synonym 'r fields = "(string \<times> 'r reader) list"

definition findField :: "'r fields \<Rightarrow> string \<Rightarrow> 'r reader option" where
  "findField fs k =
     (case map_of fs k of
        Some st \<Rightarrow> Some st
      | None \<Rightarrow> map_option snd (find (\<lambda>(n, _). foldName n = foldName k) fs))"

text \<open>\<open>strict\<close> is \<open>DisallowUnknownFields\<close>.\<close>

fun storeFields :: "bool \<Rightarrow> 'r fields \<Rightarrow> (string \<times> json) list \<Rightarrow> 'r \<Rightarrow> 'r option" where
  "storeFields strict fs [] r = Some r"
| "storeFields strict fs ((k, v) # kvs) r =
     (case findField fs k of
        None \<Rightarrow> if strict then None else storeFields strict fs kvs r
      | Some st \<Rightarrow> (case st v r of None \<Rightarrow> None | Some r' \<Rightarrow> storeFields strict fs kvs r'))"

fun storeStruct :: "bool \<Rightarrow> 'r fields \<Rightarrow> 'r reader" where
  "storeStruct strict fs JNull r = Some r"
| "storeStruct strict fs (JObject kvs) r = storeFields strict fs kvs r"
| "storeStruct strict fs _ r = None"

text \<open>A field of a struct: how its value is stored, where it is read and how it is written.\<close>

definition field :: "string \<Rightarrow> 'a reader \<Rightarrow> ('r \<Rightarrow> 'a) \<Rightarrow> (('a \<Rightarrow> 'a) \<Rightarrow> 'r \<Rightarrow> 'r) \<Rightarrow> string \<times> 'r reader" where
  "field name st get upd = (name, \<lambda>v r. map_option (\<lambda>x. upd (\<lambda>_. x) r) (st v (get r)))"

end
