(* ===== verification/Config.thy ===== *)
theory Config
  imports Json ETA Maintenance "HOL-Library.Sublist"
begin

section \<open>The configuration file\<close>

text \<open>
  \<open>src/src/dispatcher/config.go\<close>, with the settings its sections stand for (\<open>events.go\<close>,
  \<open>mqttstate.go\<close>, \<open>proposal_verify.go\<close>): the sections as they are written, the setting each one
  gives, and the checks that refuse a file. A pointer of a section is an option. Parsing an
  address and an IP number is left to the standard library: the functions that do it are a record
  of parameters, as is the environment of the process.
\<close>

subsection \<open>Addresses\<close>

record url =
  url_Scheme :: string
  url_Host :: string
  url_Hostname :: string
  url_Port :: string
  url_User :: bool

record netlib =
  net_Parse :: "string \<Rightarrow> url option"
  net_Loopback :: "string \<Rightarrow> bool"

definition equalFold :: "string \<Rightarrow> string \<Rightarrow> bool" where
  "equalFold s t \<longleftrightarrow> foldName s = foldName t"

definition isLoopbackHost :: "netlib \<Rightarrow> string \<Rightarrow> bool" where
  "isLoopbackHost net host \<longleftrightarrow> equalFold host ''localhost'' \<or> net_Loopback net host"

definition containsText :: "string \<Rightarrow> string \<Rightarrow> bool" where
  "containsText s sub \<longleftrightarrow> list_ex (prefix sub) (suffixes s)"

subsection \<open>Numbers of seconds\<close>

text \<open>
  A product of two \<open>float64\<close> values, and the conversion to a duration. The conversion of a value
  that no signed 64-bit integer holds is left to the machine by the language; here it is the most
  negative duration, which is what the conversion instruction of amd64 gives.
\<close>

definition floatTimes :: "float64 \<Rightarrow> rat \<Rightarrow> float64" where
  "floatTimes x k =
     (case x of
        Fin a \<Rightarrow> (let v = rnd64 (a * k)
                  in if 2 ^ 1024 \<le> v then PosInf else if v \<le> - (2 ^ 1024) then NegInf else Fin v)
      | PosInf \<Rightarrow> (if 0 < k then PosInf else if k < 0 then NegInf else NaN)
      | NegInf \<Rightarrow> (if 0 < k then NegInf else if k < 0 then PosInf else NaN)
      | NaN \<Rightarrow> NaN)"

definition toDuration :: "float64 \<Rightarrow> duration" where
  "toDuration x =
     (case x of
        Fin v \<Rightarrow> if minDuration \<le> toInt v \<and> toInt v \<le> maxDuration then toInt v else minDuration
      | _ \<Rightarrow> minDuration)"

definition durationOf :: "float64 \<Rightarrow> duration \<Rightarrow> duration" where
  "durationOf x unit = toDuration (floatTimes x (of_int unit))"

definition seconds :: "float64 option \<Rightarrow> duration \<Rightarrow> duration" where
  "seconds p def = (case p of None \<Rightarrow> def | Some x \<Rightarrow> durationOf x second)"

text \<open>The comparisons \<open>lo <= x\<close> and \<open>x <= hi\<close> of two floats, false for not-a-number.\<close>

definition float_le :: "float64 \<Rightarrow> float64 \<Rightarrow> bool" where
  "float_le x y \<longleftrightarrow> float_less x y \<or> float_eq x y"

definition floatWithin :: "rat \<Rightarrow> rat \<Rightarrow> float64 \<Rightarrow> bool" where
  "floatWithin lo hi x \<longleftrightarrow> float_le (Fin lo) x \<and> float_le x (Fin hi)"

subsection \<open>The sections\<close>

record ArchiveSection =
  as_Days :: "float64 option"
  as_EveryMinutes :: "float64 option"

record ProposalVerifySection =
  pvs_Enabled :: bool
  pvs_ServerURL :: string
  pvs_IdentityKeyFile :: string
  pvs_TokenFile :: string
  pvs_TimeoutSeconds :: "float64 option"
  pvs_Require :: bool
  pvs_AllowPlainHTTP :: bool

record MissionStateSection =
  mss_Enabled :: bool
  mss_URL :: string
  mss_Topic :: string
  mss_UserEnv :: string
  mss_PasswordEnv :: string
  mss_IntervalSeconds :: "float64 option"
  mss_RefreshSeconds :: "float64 option"

record MetricsSection =
  mes_Enabled :: bool

record HealthGRPCSection =
  hs_Enabled :: bool
  hs_Listen :: string
  hs_TokenEnv :: string
  hs_MaxConnections :: "int option"
  hs_MaxWatchers :: "int option"
  hs_WatchIntervalSeconds :: "float64 option"
  hs_KeepaliveSeconds :: "float64 option"

record MaintenanceSection =
  ms_Enabled :: bool
  ms_Priority :: "int option"
  ms_RequiredTool :: string
  ms_Location :: string
  ms_MaxOpen :: "int option"
  ms_CooldownSeconds :: "float64 option"
  ms_ExpireSeconds :: "float64 option"

record WebhookSection =
  wh_URL :: string
  wh_SecretEnv :: string
  wh_Types :: "string list"

record EventsSection =
  es_Enabled :: bool
  es_SSE :: bool
  es_Buffer :: "int option"
  es_AllowedHosts :: "string list"
  es_TimeoutSeconds :: "float64 option"
  es_MaxAttempts :: "int option"
  es_RetrySeconds :: "float64 option"
  es_KeepAliveSeconds :: "float64 option"
  es_Webhooks :: "WebhookSection list"

record ToolConfirmSection =
  ts_Enabled :: bool
  ts_URLTemplate :: string
  ts_TokenEnv :: string
  ts_TTLSeconds :: "float64 option"
  ts_TimeoutSeconds :: "float64 option"
  ts_OnUnconfirmed :: string

record LocationSection =
  ls_Enabled :: bool
  ls_Costs :: "(string, (string, float64) gomap) gomap"

record ReplanSection =
  rs_Enabled :: bool
  rs_OnStale :: "bool option"
  rs_OnFault :: "bool option"
  rs_StopAckTimeoutSeconds :: "float64 option"
  rs_AllowUnconfirmed :: bool

record IntervalSection =
  is_Enabled :: bool
  is_LowPercentile :: int
  is_HighPercentile :: int
  is_MinSamples :: int

record FileConfig =
  fc_LocationCosts :: "LocationSection option"
  fc_Replan :: "ReplanSection option"
  fc_ETAInterval :: "IntervalSection option"
  fc_Maintenance :: "MaintenanceSection option"
  fc_Events :: "EventsSection option"
  fc_ToolConfirm :: "ToolConfirmSection option"
  fc_HealthGRPC :: "HealthGRPCSection option"
  fc_Metrics :: "MetricsSection option"
  fc_MissionState :: "MissionStateSection option"
  fc_ProposalVerify :: "ProposalVerifySection option"
  fc_Archive :: "ArchiveSection option"

definition noConfig :: FileConfig where
  "noConfig = \<lparr>fc_LocationCosts = None, fc_Replan = None, fc_ETAInterval = None,
     fc_Maintenance = None, fc_Events = None, fc_ToolConfirm = None, fc_HealthGRPC = None,
     fc_Metrics = None, fc_MissionState = None, fc_ProposalVerify = None, fc_Archive = None\<rparr>"

subsection \<open>The settings of the engine\<close>

definition LocationSetting :: "FileConfig \<Rightarrow> LocationConfig" where
  "LocationSetting c =
     (case fc_LocationCosts c of
        None \<Rightarrow> noLocation
      | Some s \<Rightarrow> \<lparr>loc_Enabled = ls_Enabled s, loc_Costs = ls_Costs s\<rparr>)"

definition ReplanSetting :: "FileConfig \<Rightarrow> ReplanConfig" where
  "ReplanSetting c =
     (case fc_Replan c of
        None \<Rightarrow> noReplan
      | Some s \<Rightarrow>
          if \<not> rs_Enabled s then noReplan
          else \<lparr>rp_Enabled = True, rp_OnStale = (rs_OnStale s \<noteq> Some False),
                rp_OnFault = (rs_OnFault s \<noteq> Some False),
                rp_StopAckTimeout = seconds (rs_StopAckTimeoutSeconds s) 0,
                rp_AllowUnconfirmed = rs_AllowUnconfirmed s\<rparr>)"

definition IntervalSetting :: "FileConfig \<Rightarrow> IntervalConfig" where
  "IntervalSetting c =
     (case fc_ETAInterval c of
        None \<Rightarrow> eta_Interval noETA
      | Some s \<Rightarrow> \<lparr>iv_Enabled = is_Enabled s, iv_LowPercentile = is_LowPercentile s,
                    iv_HighPercentile = is_HighPercentile s, iv_MinSamples = is_MinSamples s\<rparr>)"

definition MaintenanceSetting :: "FileConfig \<Rightarrow> MaintenanceConfig" where
  "MaintenanceSetting c =
     (case fc_Maintenance c of
        None \<Rightarrow> noMaintenance
      | Some m \<Rightarrow>
          if \<not> ms_Enabled m then noMaintenance
          else
            let d = DefaultMaintenanceConfig
            in \<lparr>mc_Enabled = True,
                mc_Priority = (case ms_Priority m of None \<Rightarrow> mc_Priority d | Some p \<Rightarrow> p),
                mc_RequiredTool = ms_RequiredTool m, mc_Location = ms_Location m,
                mc_MaxOpen = (case ms_MaxOpen m of None \<Rightarrow> mc_MaxOpen d | Some n \<Rightarrow> n),
                mc_Cooldown = seconds (ms_CooldownSeconds m) (mc_Cooldown d),
                mc_ExpireAfter = seconds (ms_ExpireSeconds m) (mc_ExpireAfter d)\<rparr>)"

definition policyOf :: "string \<Rightarrow> unconfirmedPolicy" where
  "policyOf s = (if s = ''skip'' then UnconfirmedSkip
     else if s = ''allow'' then UnconfirmedAllow else UnconfirmedOther s)"

definition ToolConfirmSetting :: "FileConfig \<Rightarrow> ToolConfirmConfig" where
  "ToolConfirmSetting c =
     (case fc_ToolConfirm c of
        None \<Rightarrow> tcf_cfg noToolConfirmation
      | Some t \<Rightarrow>
          if \<not> ts_Enabled t then tcf_cfg noToolConfirmation
          else \<lparr>tc_Enabled = True, tc_TTL = seconds (ts_TTLSeconds t) (30 * second),
                tc_OnUnconfirmed = (if ts_OnUnconfirmed t = [] then UnconfirmedSkip
                  else policyOf (ts_OnUnconfirmed t))\<rparr>)"

subsection \<open>The archive\<close>

record ArchiveConfig =
  ac_After :: duration
  ac_Every :: duration

definition DefaultArchiveEvery :: duration where
  "DefaultArchiveEvery = hour"

definition ArchiveSetting :: "FileConfig \<Rightarrow> ArchiveConfig" where
  "ArchiveSetting c =
     (case fc_Archive c of
        None \<Rightarrow> \<lparr>ac_After = DefaultArchiveAfter, ac_Every = DefaultArchiveEvery\<rparr>
      | Some a \<Rightarrow>
          \<lparr>ac_After = (case as_Days a of None \<Rightarrow> DefaultArchiveAfter
                       | Some d \<Rightarrow> durationOf (floatTimes d 24) hour),
           ac_Every = (case as_EveryMinutes a of None \<Rightarrow> DefaultArchiveEvery
                       | Some m \<Rightarrow> durationOf m minute)\<rparr>)"

text \<open>The ranges a section refuses: whether the section is in order.\<close>

definition optionally :: "('a \<Rightarrow> bool) \<Rightarrow> 'a option \<Rightarrow> bool" where
  "optionally P x = (case x of None \<Rightarrow> True | Some v \<Rightarrow> P v)"

definition archiveValid :: "ArchiveSection option \<Rightarrow> bool" where
  "archiveValid s = optionally (\<lambda>a. optionally (floatWithin 0 3650) (as_Days a)
     \<and> optionally (floatWithin 1 1440) (as_EveryMinutes a)) s"

subsection \<open>The event stream and the webhooks\<close>

text \<open>
  The setting of the whole section; \<open>hubConfig\<close> is the part the hub itself reads (a valid buffer
  is not negative).
\<close>

record eventSettings =
  evs_Enabled :: bool
  evs_SSE :: bool
  evs_Buffer :: int
  evs_AllowedHosts :: "string list"
  evs_Webhooks :: "WebhookSection list"
  evs_Timeout :: duration
  evs_MaxAttempts :: int
  evs_RetryDelay :: duration
  evs_KeepAlive :: duration
  evs_SubscriberSize :: nat

definition noEvents :: eventSettings where
  "noEvents = \<lparr>evs_Enabled = False, evs_SSE = False, evs_Buffer = 0, evs_AllowedHosts = [],
     evs_Webhooks = [], evs_Timeout = 0, evs_MaxAttempts = 0, evs_RetryDelay = 0,
     evs_KeepAlive = 0, evs_SubscriberSize = 0\<rparr>"

definition DefaultEventsConfig :: eventSettings where
  "DefaultEventsConfig = noEvents\<lparr>evs_Buffer := 256, evs_Timeout := 5 * second,
     evs_MaxAttempts := 3, evs_RetryDelay := second, evs_KeepAlive := 15 * second,
     evs_SubscriberSize := 64\<rparr>"

definition hubConfig :: "eventSettings \<Rightarrow> EventsConfig" where
  "hubConfig c = \<lparr>evc_Enabled = evs_Enabled c, evc_SSE = evs_SSE c,
     evc_Buffer = nat (evs_Buffer c), evc_SubscriberSize = evs_SubscriberSize c\<rparr>"

definition EventsSetting :: "FileConfig \<Rightarrow> eventSettings" where
  "EventsSetting c =
     (case fc_Events c of
        None \<Rightarrow> noEvents
      | Some e \<Rightarrow>
          if \<not> es_Enabled e then noEvents
          else
            let d = DefaultEventsConfig
            in d\<lparr>evs_Enabled := True, evs_SSE := es_SSE e, evs_AllowedHosts := es_AllowedHosts e,
                 evs_Buffer := (case es_Buffer e of None \<Rightarrow> evs_Buffer d | Some n \<Rightarrow> n),
                 evs_MaxAttempts := (case es_MaxAttempts e of None \<Rightarrow> evs_MaxAttempts d | Some n \<Rightarrow> n),
                 evs_Timeout := seconds (es_TimeoutSeconds e) (evs_Timeout d),
                 evs_RetryDelay := seconds (es_RetrySeconds e) (evs_RetryDelay d),
                 evs_KeepAlive := seconds (es_KeepAliveSeconds e) (evs_KeepAlive d),
                 evs_Webhooks := es_Webhooks e\<rparr>)"

definition hostAllowed :: "url \<Rightarrow> string list \<Rightarrow> bool" where
  "hostAllowed u allowed \<longleftrightarrow>
     list_ex (\<lambda>a. let a = toLower (trimSpace a)
                  in a \<noteq> [] \<and> (a = toLower (url_Host u)
                     \<or> a = toLower (url_Hostname u) \<and> url_Port u = [])) allowed"

datatype eventsError =
    BadBuffer | BadAttempts | BadTimes
  | NotHttpURL string | URLCredentials | HostNotAllowed string | PlainHTTP string
  | NoSecret string | UnknownType string

definition checkWebhook :: "netlib \<Rightarrow> string list \<Rightarrow> WebhookSection \<Rightarrow> eventsError option" where
  "checkWebhook net allowed w =
     (case net_Parse net (wh_URL w) of
        None \<Rightarrow> Some (NotHttpURL (wh_URL w))
      | Some u \<Rightarrow>
          if url_Host u = [] \<or> url_Scheme u \<noteq> ''https'' \<and> url_Scheme u \<noteq> ''http''
          then Some (NotHttpURL (wh_URL w))
          else if url_User u then Some URLCredentials
          else if \<not> hostAllowed u allowed then Some (HostNotAllowed (url_Host u))
          else if url_Scheme u = ''http'' \<and> \<not> isLoopbackHost net (url_Hostname u)
          then Some (PlainHTTP (wh_URL w))
          else if wh_SecretEnv w = [] then Some (NoSecret (wh_URL w))
          else map_option UnknownType (find (\<lambda>t. \<not> ValidEventType t) (wh_Types w)))"

text \<open>The first error of a list of checks.\<close>

fun firstError :: "('a \<Rightarrow> 'e option) \<Rightarrow> 'a list \<Rightarrow> 'e option" where
  "firstError check [] = None"
| "firstError check (x # xs) =
     (case check x of Some err \<Rightarrow> Some err | None \<Rightarrow> firstError check xs)"

definition EventsValidate :: "netlib \<Rightarrow> eventSettings \<Rightarrow> eventsError option" where
  "EventsValidate net c =
     (if \<not> evs_Enabled c then None
      else if evs_Buffer c < 1 \<or> 100000 < evs_Buffer c then Some BadBuffer
      else if evs_MaxAttempts c < 1 \<or> 20 < evs_MaxAttempts c then Some BadAttempts
      else if evs_Timeout c \<le> 0 \<or> minute < evs_Timeout c \<or> evs_RetryDelay c < 0
        \<or> hour < evs_RetryDelay c \<or> evs_KeepAlive c \<le> 0
      then Some BadTimes
      else firstError (checkWebhook net (evs_AllowedHosts c)) (evs_Webhooks c))"

text \<open>\<open>NewEventHub\<close> of \<open>events.go\<close>: the checks, the secrets, and a subscription for each webhook.\<close>

datatype hubError = BadEventsSetting eventsError | EmptySecret string string

definition OpenEventHub ::
  "netlib \<Rightarrow> (string \<Rightarrow> string) \<Rightarrow> (int \<Rightarrow> instant) \<Rightarrow> eventSettings \<Rightarrow> hubError + EventHub" where
  "OpenEventHub net getenv clock c =
     (case EventsValidate net c of
        Some err \<Rightarrow> Inl (BadEventsSetting err)
      | None \<Rightarrow>
          (case find (\<lambda>w. getenv (wh_SecretEnv w) = []) (evs_Webhooks c) of
             Some w \<Rightarrow> Inl (EmptySecret (wh_SecretEnv w) (wh_URL w))
           | None \<Rightarrow>
               Inr (fold (\<lambda>w h. snd (snd (Subscribe (2 ^ 62) h))) (evs_Webhooks c)
                 (NewEventHub (hubConfig c) clock))))"

subsection \<open>The mirror of the state\<close>

record MissionStateConfig =
  msc_Enabled :: bool
  msc_URL :: string
  msc_Topic :: string
  msc_User :: string
  msc_Password :: string
  msc_Interval :: duration
  msc_Refresh :: duration

definition StateTopic :: string where
  "StateTopic = ''hydra/jobs/state''"

definition noMission :: MissionStateConfig where
  "noMission = \<lparr>msc_Enabled = False, msc_URL = [], msc_Topic = [], msc_User = [],
     msc_Password = [], msc_Interval = 0, msc_Refresh = 0\<rparr>"

definition MissionStateSetting :: "(string \<Rightarrow> string) \<Rightarrow> FileConfig \<Rightarrow> MissionStateConfig" where
  "MissionStateSetting getenv c =
     (case fc_MissionState c of
        None \<Rightarrow> noMission
      | Some m \<Rightarrow>
          if \<not> mss_Enabled m then noMission
          else \<lparr>msc_Enabled = True, msc_URL = mss_URL m,
                msc_Topic = (if mss_Topic m \<noteq> [] then mss_Topic m else StateTopic),
                msc_User = (if mss_UserEnv m \<noteq> [] then getenv (mss_UserEnv m) else []),
                msc_Password = (if mss_PasswordEnv m \<noteq> [] then getenv (mss_PasswordEnv m) else []),
                msc_Interval = seconds (mss_IntervalSeconds m) (5 * second),
                msc_Refresh = seconds (mss_RefreshSeconds m) (60 * second)\<rparr>)"

datatype missionError = BadBrokerURL | PlainBroker | BadTopic | BadIntervals

definition MissionStateValidate :: "netlib \<Rightarrow> MissionStateConfig \<Rightarrow> missionError option" where
  "MissionStateValidate net c =
     (if \<not> msc_Enabled c then None
      else case net_Parse net (msc_URL c) of
        None \<Rightarrow> Some BadBrokerURL
      | Some u \<Rightarrow>
          if url_Host u = [] \<or> url_User u \<or> url_Scheme u \<noteq> ''mqtt'' \<and> url_Scheme u \<noteq> ''mqtts''
          then Some BadBrokerURL
          else if url_Scheme u = ''mqtt'' \<and> \<not> isLoopbackHost net (url_Hostname u)
          then Some PlainBroker
          else if msc_Topic c = [] \<or> list_ex (\<lambda>x. x \<in> set ''#+'') (msc_Topic c)
            \<or> prefix ''/'' (msc_Topic c) \<or> containsText (msc_Topic c) ''//''
          then Some BadTopic
          else if msc_Interval c < second \<or> msc_Refresh c < msc_Interval c
          then Some BadIntervals else None)"

subsection \<open>Signed proposals\<close>

record ProposalVerifyConfig =
  pvc_Enabled :: bool
  pvc_ServerURL :: string
  pvc_IdentityKeyFile :: string
  pvc_TokenFile :: string
  pvc_Timeout :: duration
  pvc_Require :: bool
  pvc_AllowPlainHTTP :: bool

definition noVerify :: ProposalVerifyConfig where
  "noVerify = \<lparr>pvc_Enabled = False, pvc_ServerURL = [], pvc_IdentityKeyFile = [],
     pvc_TokenFile = [], pvc_Timeout = 0, pvc_Require = False, pvc_AllowPlainHTTP = False\<rparr>"

definition ProposalVerifySetting :: "FileConfig \<Rightarrow> ProposalVerifyConfig" where
  "ProposalVerifySetting c =
     (case fc_ProposalVerify c of
        None \<Rightarrow> noVerify
      | Some p \<Rightarrow>
          if \<not> pvs_Enabled p then noVerify
          else \<lparr>pvc_Enabled = True, pvc_ServerURL = pvs_ServerURL p,
                pvc_IdentityKeyFile = pvs_IdentityKeyFile p, pvc_TokenFile = pvs_TokenFile p,
                pvc_Timeout = seconds (pvs_TimeoutSeconds p) (5 * second),
                pvc_Require = pvs_Require p, pvc_AllowPlainHTTP = pvs_AllowPlainHTTP p\<rparr>)"

datatype verifyError = BadServerURL | PlainServer | BadCredential | BadVerifyTimeout

definition ProposalVerifyValidate :: "netlib \<Rightarrow> ProposalVerifyConfig \<Rightarrow> verifyError option" where
  "ProposalVerifyValidate net c =
     (if \<not> pvc_Enabled c then None
      else case net_Parse net (trimSpace (pvc_ServerURL c)) of
        None \<Rightarrow> Some BadServerURL
      | Some u \<Rightarrow>
          if url_Scheme u \<noteq> ''http'' \<and> url_Scheme u \<noteq> ''https'' \<or> url_Hostname u = [] \<or> url_User u
          then Some BadServerURL
          else if url_Scheme u = ''http'' \<and> \<not> isLoopbackHost net (url_Hostname u)
            \<and> \<not> pvc_AllowPlainHTTP c
          then Some PlainServer
          else if (pvc_IdentityKeyFile c = []) = (pvc_TokenFile c = []) then Some BadCredential
          else if pvc_Timeout c \<le> 0 \<or> minute < pvc_Timeout c then Some BadVerifyTimeout
          else None)"

subsection \<open>The checks of a file\<close>

definition healthValid :: "HealthGRPCSection option \<Rightarrow> bool" where
  "healthValid s = optionally (\<lambda>h. \<not> hs_Enabled h
     \<or> optionally (\<lambda>n. 1 \<le> n \<and> n \<le> 1024) (hs_MaxConnections h)
       \<and> optionally (\<lambda>n. 1 \<le> n \<and> n \<le> 1024) (hs_MaxWatchers h)
       \<and> optionally (\<lambda>x. float_le (Fin (rnd64 (1 / 10))) x \<and> float_le x (Fin 60)) (hs_WatchIntervalSeconds h)
       \<and> optionally (floatWithin 1 3600) (hs_KeepaliveSeconds h)) s"

datatype configError =
    NotJSON | TrailingData
  | BadLocationCost "string \<times> string \<times> float64" | BadStopAckTimeout
  | BadPriority | BadMaxOpen | BadMaintenanceSeconds
  | BadEvents eventsError | BadMission missionError | BadToolConfirm confirmError
  | BadURLTemplate | BadProposalVerify verifyError | BadHealth | BadArchive | BadInterval

definition checkReplan :: "ReplanSection option \<Rightarrow> configError option" where
  "checkReplan s =
     (if optionally (\<lambda>r. optionally (\<lambda>v. float_less (Fin 0) v \<and> \<not> float_less (Fin 86400) v)
           (rs_StopAckTimeoutSeconds r)) s
      then None else Some BadStopAckTimeout)"

definition checkMaintenance :: "MaintenanceSection option \<Rightarrow> configError option" where
  "checkMaintenance s =
     (case s of
        None \<Rightarrow> None
      | Some m \<Rightarrow>
          let inRange = optionally (\<lambda>v. float_le (Fin 0) v \<and> \<not> float_less (Fin 31536000) v)
          in if \<not> optionally (\<lambda>p. 0 \<le> p \<and> p \<le> 1000) (ms_Priority m) then Some BadPriority
             else if \<not> optionally (\<lambda>n. 1 \<le> n \<and> n \<le> 10000) (ms_MaxOpen m) then Some BadMaxOpen
             else if \<not> inRange (ms_CooldownSeconds m) \<or> \<not> inRange (ms_ExpireSeconds m)
             then Some BadMaintenanceSeconds else None)"

definition checkTemplate :: "netlib \<Rightarrow> ToolConfirmSection option \<Rightarrow> configError option" where
  "checkTemplate net s =
     (case s of
        None \<Rightarrow> None
      | Some t \<Rightarrow>
          if \<not> ts_Enabled t then None
          else case net_Parse net (ts_URLTemplate t) of
            None \<Rightarrow> Some BadURLTemplate
          | Some u \<Rightarrow>
              if \<not> containsText (ts_URLTemplate t) ''{robot}''
                \<or> url_Scheme u \<noteq> ''http'' \<and> url_Scheme u \<noteq> ''https'' \<or> url_User u
              then Some BadURLTemplate else None)"

definition checkInterval :: "FileConfig \<Rightarrow> configError option" where
  "checkInterval c =
     (if optionally is_Enabled (fc_ETAInterval c) \<and> fc_ETAInterval c \<noteq> None
         \<and> \<not> IntervalValid (IntervalSetting c)
      then Some BadInterval else None)"

text \<open>The checks in the order of the code; the first that fails is the answer.\<close>

definition Validate :: "netlib \<Rightarrow> (string \<Rightarrow> string) \<Rightarrow> FileConfig \<Rightarrow> configError option" where
  "Validate net getenv c = firstError id
     [map_option BadLocationCost (LocationValidate (LocationSetting c)),
      checkReplan (fc_Replan c),
      checkMaintenance (fc_Maintenance c),
      map_option BadEvents (EventsValidate net (EventsSetting c)),
      map_option BadMission (MissionStateValidate net (MissionStateSetting getenv c)),
      map_option BadToolConfirm (ToolConfirmValidate (ToolConfirmSetting c)),
      checkTemplate net (fc_ToolConfirm c),
      map_option BadProposalVerify (ProposalVerifyValidate net (ProposalVerifySetting c)),
      (if healthValid (fc_HealthGRPC c) then None else Some BadHealth),
      (if archiveValid (fc_Archive c) then None else Some BadArchive),
      checkInterval c]"

subsection \<open>Reading a file\<close>

text \<open>The names of the fields of every section (the tags of the structs of \<open>config.go\<close>).\<close>

abbreviation optFloat :: "float64 option reader" where
  "optFloat \<equiv> storePointer (Fin 0) storeFloat"

abbreviation optInt :: "int option reader" where
  "optInt \<equiv> storePointer 0 storeInt"

definition archiveFields :: "ArchiveSection fields" where
  "archiveFields =
     [field ''days'' optFloat as_Days as_Days_update,
      field ''every_minutes'' optFloat as_EveryMinutes as_EveryMinutes_update]"

definition proposalVerifyFields :: "ProposalVerifySection fields" where
  "proposalVerifyFields =
     [field ''enabled'' storeBool pvs_Enabled pvs_Enabled_update,
      field ''server_url'' storeString pvs_ServerURL pvs_ServerURL_update,
      field ''identity_key_file'' storeString pvs_IdentityKeyFile pvs_IdentityKeyFile_update,
      field ''token_file'' storeString pvs_TokenFile pvs_TokenFile_update,
      field ''timeout_seconds'' optFloat pvs_TimeoutSeconds pvs_TimeoutSeconds_update,
      field ''require'' storeBool pvs_Require pvs_Require_update,
      field ''allow_plain_http'' storeBool pvs_AllowPlainHTTP pvs_AllowPlainHTTP_update]"

definition missionStateFields :: "MissionStateSection fields" where
  "missionStateFields =
     [field ''enabled'' storeBool mss_Enabled mss_Enabled_update,
      field ''url'' storeString mss_URL mss_URL_update,
      field ''topic'' storeString mss_Topic mss_Topic_update,
      field ''user_env'' storeString mss_UserEnv mss_UserEnv_update,
      field ''password_env'' storeString mss_PasswordEnv mss_PasswordEnv_update,
      field ''interval_seconds'' optFloat mss_IntervalSeconds mss_IntervalSeconds_update,
      field ''refresh_seconds'' optFloat mss_RefreshSeconds mss_RefreshSeconds_update]"

definition metricsFields :: "MetricsSection fields" where
  "metricsFields = [field ''enabled'' storeBool mes_Enabled mes_Enabled_update]"

definition healthFields :: "HealthGRPCSection fields" where
  "healthFields =
     [field ''enabled'' storeBool hs_Enabled hs_Enabled_update,
      field ''listen'' storeString hs_Listen hs_Listen_update,
      field ''token_env'' storeString hs_TokenEnv hs_TokenEnv_update,
      field ''max_connections'' optInt hs_MaxConnections hs_MaxConnections_update,
      field ''max_watchers'' optInt hs_MaxWatchers hs_MaxWatchers_update,
      field ''watch_interval_seconds'' optFloat hs_WatchIntervalSeconds hs_WatchIntervalSeconds_update,
      field ''keepalive_seconds'' optFloat hs_KeepaliveSeconds hs_KeepaliveSeconds_update]"

definition maintenanceFields :: "MaintenanceSection fields" where
  "maintenanceFields =
     [field ''enabled'' storeBool ms_Enabled ms_Enabled_update,
      field ''priority'' optInt ms_Priority ms_Priority_update,
      field ''required_tool'' storeString ms_RequiredTool ms_RequiredTool_update,
      field ''location'' storeString ms_Location ms_Location_update,
      field ''max_open'' optInt ms_MaxOpen ms_MaxOpen_update,
      field ''cooldown_seconds'' optFloat ms_CooldownSeconds ms_CooldownSeconds_update,
      field ''expire_seconds'' optFloat ms_ExpireSeconds ms_ExpireSeconds_update]"

definition webhookFields :: "WebhookSection fields" where
  "webhookFields =
     [field ''url'' storeString wh_URL wh_URL_update,
      field ''secret_env'' storeString wh_SecretEnv wh_SecretEnv_update,
      field ''types'' (storeSlice [] storeString) wh_Types wh_Types_update]"

definition noWebhook :: WebhookSection where
  "noWebhook = \<lparr>wh_URL = [], wh_SecretEnv = [], wh_Types = []\<rparr>"

definition eventsFields :: "EventsSection fields" where
  "eventsFields =
     [field ''enabled'' storeBool es_Enabled es_Enabled_update,
      field ''sse'' storeBool es_SSE es_SSE_update,
      field ''buffer'' optInt es_Buffer es_Buffer_update,
      field ''allowed_hosts'' (storeSlice [] storeString) es_AllowedHosts es_AllowedHosts_update,
      field ''timeout_seconds'' optFloat es_TimeoutSeconds es_TimeoutSeconds_update,
      field ''max_attempts'' optInt es_MaxAttempts es_MaxAttempts_update,
      field ''retry_seconds'' optFloat es_RetrySeconds es_RetrySeconds_update,
      field ''keepalive_seconds'' optFloat es_KeepAliveSeconds es_KeepAliveSeconds_update,
      field ''webhooks'' (storeSlice noWebhook (storeStruct True webhookFields))
        es_Webhooks es_Webhooks_update]"

definition toolConfirmFields :: "ToolConfirmSection fields" where
  "toolConfirmFields =
     [field ''enabled'' storeBool ts_Enabled ts_Enabled_update,
      field ''url_template'' storeString ts_URLTemplate ts_URLTemplate_update,
      field ''token_env'' storeString ts_TokenEnv ts_TokenEnv_update,
      field ''ttl_seconds'' optFloat ts_TTLSeconds ts_TTLSeconds_update,
      field ''timeout_seconds'' optFloat ts_TimeoutSeconds ts_TimeoutSeconds_update,
      field ''on_unconfirmed'' storeString ts_OnUnconfirmed ts_OnUnconfirmed_update]"

definition locationFields :: "LocationSection fields" where
  "locationFields =
     [field ''enabled'' storeBool ls_Enabled ls_Enabled_update,
      field ''costs'' (storeMap [] (storeMap (Fin 0) storeFloat)) ls_Costs ls_Costs_update]"

definition replanFields :: "ReplanSection fields" where
  "replanFields =
     [field ''enabled'' storeBool rs_Enabled rs_Enabled_update,
      field ''on_stale'' (storePointer False storeBool) rs_OnStale rs_OnStale_update,
      field ''on_fault'' (storePointer False storeBool) rs_OnFault rs_OnFault_update,
      field ''stop_ack_timeout_seconds'' optFloat
        rs_StopAckTimeoutSeconds rs_StopAckTimeoutSeconds_update,
      field ''allow_unconfirmed'' storeBool rs_AllowUnconfirmed rs_AllowUnconfirmed_update]"

definition intervalFields :: "IntervalSection fields" where
  "intervalFields =
     [field ''enabled'' storeBool is_Enabled is_Enabled_update,
      field ''low_percentile'' storeInt is_LowPercentile is_LowPercentile_update,
      field ''high_percentile'' storeInt is_HighPercentile is_HighPercentile_update,
      field ''min_samples'' storeInt is_MinSamples is_MinSamples_update]"

text \<open>A section is a pointer to its struct, new ones all zero.\<close>

definition sectionOf :: "'r \<Rightarrow> 'r fields \<Rightarrow> 'r option reader" where
  "sectionOf zero fs = storePointer zero (storeStruct True fs)"

definition configFields :: "FileConfig fields" where
  "configFields =
     [field ''location_costs'' (sectionOf \<lparr>ls_Enabled = False, ls_Costs = []\<rparr> locationFields)
        fc_LocationCosts fc_LocationCosts_update,
      field ''replan'' (sectionOf \<lparr>rs_Enabled = False, rs_OnStale = None, rs_OnFault = None,
          rs_StopAckTimeoutSeconds = None, rs_AllowUnconfirmed = False\<rparr> replanFields)
        fc_Replan fc_Replan_update,
      field ''eta_interval'' (sectionOf \<lparr>is_Enabled = False, is_LowPercentile = 0,
          is_HighPercentile = 0, is_MinSamples = 0\<rparr> intervalFields)
        fc_ETAInterval fc_ETAInterval_update,
      field ''maintenance'' (sectionOf \<lparr>ms_Enabled = False, ms_Priority = None, ms_RequiredTool = [],
          ms_Location = [], ms_MaxOpen = None, ms_CooldownSeconds = None, ms_ExpireSeconds = None\<rparr>
          maintenanceFields)
        fc_Maintenance fc_Maintenance_update,
      field ''events'' (sectionOf \<lparr>es_Enabled = False, es_SSE = False, es_Buffer = None,
          es_AllowedHosts = [], es_TimeoutSeconds = None, es_MaxAttempts = None,
          es_RetrySeconds = None, es_KeepAliveSeconds = None, es_Webhooks = []\<rparr> eventsFields)
        fc_Events fc_Events_update,
      field ''tool_confirmation'' (sectionOf \<lparr>ts_Enabled = False, ts_URLTemplate = [],
          ts_TokenEnv = [], ts_TTLSeconds = None, ts_TimeoutSeconds = None, ts_OnUnconfirmed = []\<rparr>
          toolConfirmFields)
        fc_ToolConfirm fc_ToolConfirm_update,
      field ''health_grpc'' (sectionOf \<lparr>hs_Enabled = False, hs_Listen = [], hs_TokenEnv = [],
          hs_MaxConnections = None, hs_MaxWatchers = None, hs_WatchIntervalSeconds = None,
          hs_KeepaliveSeconds = None\<rparr> healthFields)
        fc_HealthGRPC fc_HealthGRPC_update,
      field ''metrics'' (sectionOf \<lparr>mes_Enabled = False\<rparr> metricsFields) fc_Metrics fc_Metrics_update,
      field ''mission_state'' (sectionOf \<lparr>mss_Enabled = False, mss_URL = [], mss_Topic = [],
          mss_UserEnv = [], mss_PasswordEnv = [], mss_IntervalSeconds = None,
          mss_RefreshSeconds = None\<rparr> missionStateFields)
        fc_MissionState fc_MissionState_update,
      field ''proposal_verify'' (sectionOf \<lparr>pvs_Enabled = False, pvs_ServerURL = [],
          pvs_IdentityKeyFile = [], pvs_TokenFile = [], pvs_TimeoutSeconds = None,
          pvs_Require = False, pvs_AllowPlainHTTP = False\<rparr> proposalVerifyFields)
        fc_ProposalVerify fc_ProposalVerify_update,
      field ''archive'' (sectionOf \<lparr>as_Days = None, as_EveryMinutes = None\<rparr> archiveFields)
        fc_Archive fc_Archive_update]"

text \<open>
  What the decoder makes of the bytes of a file: only white space, no document, or a document and
  whether anything follows it.
\<close>

datatype fileText = BlankText | BrokenText | DocumentText json bool

definition ParseConfig ::
  "netlib \<Rightarrow> (string \<Rightarrow> string) \<Rightarrow> fileText \<Rightarrow> configError + FileConfig" where
  "ParseConfig net getenv txt =
     (case txt of
        BlankText \<Rightarrow> Inr noConfig
      | BrokenText \<Rightarrow> Inl NotJSON
      | DocumentText v trailing \<Rightarrow>
          (case storeStruct True configFields v noConfig of
             None \<Rightarrow> Inl NotJSON
           | Some c \<Rightarrow>
               if trailing then Inl TrailingData
               else case Validate net getenv c of Some err \<Rightarrow> Inl err | None \<Rightarrow> Inr c))"

end
