(* ===== verification/Identity.thy ===== *)
theory Identity
  imports Config
begin

section \<open>The identity of a caller\<close>

text \<open>
  \<open>src/src/dispatcher/server_identity.go\<close>: whether a signed token of HYDRA-UMC-SERVER (three parts,
  an algorithm, a signature, claims with an expiry) names somebody, and what its role may do. The
  decoding and encoding of base64, the reading and writing of JSON text and the keyed hash are the
  standard library's: they are parameters.
\<close>

record crypto =
  cry_Base64 :: "string \<Rightarrow> string option"
  cry_JSON :: "string \<Rightarrow> json option"
  cry_HMAC :: "string \<Rightarrow> string \<Rightarrow> string"
  cry_Encode :: "string \<Rightarrow> string"
  cry_Marshal :: "json \<Rightarrow> string"

record ServerIdentity =
  id_Username :: string
  id_Role :: string

definition CanWrite :: "ServerIdentity \<Rightarrow> bool" where
  "CanWrite i \<longleftrightarrow> id_Role i = ''admin'' \<or> id_Role i = ''operator''"

text \<open>\<open>strings.Split\<close> at one character and \<open>strings.TrimRight\<close> of one character.\<close>

fun splitOn :: "char \<Rightarrow> string \<Rightarrow> string list" where
  "splitOn c [] = [[]]"
| "splitOn c (x # s) =
     (if x = c then [] # splitOn c s
      else case splitOn c s of [] \<Rightarrow> [[x]] | p # ps \<Rightarrow> (x # p) # ps)"

definition trimRightChar :: "char \<Rightarrow> string \<Rightarrow> string" where
  "trimRightChar c s = rev (dropWhile (\<lambda>x. x = c) (rev s))"

definition decodeBase64 :: "crypto \<Rightarrow> string \<Rightarrow> string option" where
  "decodeBase64 cry segment = cry_Base64 cry (trimRightChar CHR ''='' segment)"

text \<open>
  A value of any kind (\<open>any\<close>): every number in it must be one a \<open>float64\<close> can hold. An object
  becomes a map, so the last of two fields with one name counts.
\<close>

fun storable :: "json \<Rightarrow> bool" where
  "storable (JNumber n) = (readFloat n \<noteq> None)"
| "storable (JArray vs) = list_all storable vs"
| "storable (JObject kvs) = list_all (\<lambda>(k, v). storable v) kvs"
| "storable _ = True"

definition storeAnyMap :: "json \<Rightarrow> (string, json) gomap option" where
  "storeAnyMap v =
     (case v of
        JObject kvs \<Rightarrow> if storable v then Some (fold (\<lambda>(k, x). go_put k x) kvs []) else None
      | _ \<Rightarrow> None)"

definition decodeTokenPart :: "crypto \<Rightarrow> string \<Rightarrow> (string, json) gomap option" where
  "decodeTokenPart cry segment =
     (case decodeBase64 cry segment of
        None \<Rightarrow> None
      | Some data \<Rightarrow> (case cry_JSON cry data of None \<Rightarrow> None | Some v \<Rightarrow> storeAnyMap v))"

definition asText :: "json option \<Rightarrow> string" where
  "asText v = (case v of Some (JString s) \<Rightarrow> s | _ \<Rightarrow> [])"

datatype secondsClaim = Absent | NotSeconds | Seconds rat

definition finiteSeconds :: "(string, json) gomap \<Rightarrow> string \<Rightarrow> secondsClaim" where
  "finiteSeconds claims name =
     (case go_get claims name of
        None \<Rightarrow> Absent
      | Some (JNumber n) \<Rightarrow> (case readFloat n of Some (Fin v) \<Rightarrow> Seconds v | _ \<Rightarrow> NotSeconds)
      | Some _ \<Rightarrow> NotSeconds)"

datatype tokenError =
    TokenRequired | TokenMalformed | TokenAlgorithm | TokenSignature | TokenNoExpiry | TokenExpired
  | TokenNotYet | TokenFromFuture | TokenNoUser | TokenNoRole

definition maxIdentityTokenChars :: nat where
  "maxIdentityTokenChars = 4096"

text \<open>The clock in seconds, as a \<open>float64\<close>; the skew allowed for \<open>iat\<close> is five seconds.\<close>

definition momentOf :: "instant \<Rightarrow> rat" where
  "momentOf now = rnd64 (rnd64 (of_int now) / 1000000000)"

definition checkClaims :: "(string, json) gomap \<Rightarrow> rat \<Rightarrow> tokenError + ServerIdentity" where
  "checkClaims claims moment =
     (case finiteSeconds claims ''exp'' of
        Seconds expiry \<Rightarrow>
          if expiry \<le> moment then Inl TokenExpired
          else if (case finiteSeconds claims ''nbf'' of
              Absent \<Rightarrow> False | NotSeconds \<Rightarrow> True | Seconds nbf \<Rightarrow> moment < nbf)
          then Inl TokenNotYet
          else if (case finiteSeconds claims ''iat'' of
              Absent \<Rightarrow> False | NotSeconds \<Rightarrow> True | Seconds iat \<Rightarrow> rnd64 (moment + 5) < iat)
          then Inl TokenFromFuture
          else
            let username = asText (go_get claims ''username'');
                role = asText (go_get claims ''role'')
            in if username = [] then Inl TokenNoUser
               else if role \<notin> {''admin'', ''operator'', ''viewer''} then Inl TokenNoRole
               else Inr \<lparr>id_Username = username, id_Role = role\<rparr>
      | _ \<Rightarrow> Inl TokenNoExpiry)"

definition VerifyServerToken ::
  "crypto \<Rightarrow> string \<Rightarrow> string \<Rightarrow> instant \<Rightarrow> tokenError + ServerIdentity" where
  "VerifyServerToken cry token key now =
     (if token = [] then Inl TokenRequired
      else if maxIdentityTokenChars < length token then Inl TokenMalformed
      else case splitOn CHR ''.'' token of
        [head, body, signed] \<Rightarrow>
          if head = [] \<or> body = [] \<or> signed = [] then Inl TokenMalformed
          else
            (case decodeTokenPart cry head of
               None \<Rightarrow> Inl TokenMalformed
             | Some header \<Rightarrow>
                 if asText (go_get header ''alg'') \<noteq> ''HS256'' then Inl TokenAlgorithm
                 else case decodeBase64 cry signed of
                   None \<Rightarrow> Inl TokenMalformed
                 | Some signature \<Rightarrow>
                     if cry_HMAC cry key (head @ ''.'' @ body) \<noteq> signature then Inl TokenSignature
                     else case decodeTokenPart cry body of
                       None \<Rightarrow> Inl TokenMalformed
                     | Some claims \<Rightarrow> checkClaims claims (momentOf now))
      | _ \<Rightarrow> Inl TokenMalformed)"

subsection \<open>An accepted token\<close>

fun joinOn :: "char \<Rightarrow> string list \<Rightarrow> string" where
  "joinOn c [] = []"
| "joinOn c [p] = p"
| "joinOn c (p # q # ps) = p @ c # joinOn c (q # ps)"

lemma splitOn_join [simp]: "joinOn c (splitOn c s) = s \<and> splitOn c s \<noteq> []"
proof (induction s)
  case (Cons x s)
  obtain p ps where "splitOn c s = p # ps" using Cons by (cases "splitOn c s") auto
  then show ?case using Cons by (cases ps) auto
qed simp

lemma splitOn_three: "splitOn c s = [x, y, z] \<Longrightarrow> s = x @ c # y @ c # z"
  using splitOn_join [of c s] by simp

lemma checkClaims_accepted:
  assumes "checkClaims claims moment = Inr i"
  shows "\<exists>expiry. finiteSeconds claims ''exp'' = Seconds expiry \<and> moment < expiry"
    and "id_Role i \<in> {''admin'', ''operator'', ''viewer''}" and "id_Username i \<noteq> []"
    and "asText (go_get claims ''role'') = id_Role i"
  using assms
  by (auto simp: checkClaims_def Let_def split: secondsClaim.splits if_splits)

text \<open>
  What an accepted token is: three parts, the third the keyed hash of the other two, an expiry that
  lies ahead and a known role.
\<close>

lemma VerifyServerToken_accepted:
  assumes "VerifyServerToken cry token key now = Inr i"
  obtains head body signed claims expiry where
    "token = head @ CHR ''.'' # body @ CHR ''.'' # signed"
    "decodeBase64 cry signed = Some (cry_HMAC cry key (head @ ''.'' @ body))"
    "decodeTokenPart cry body = Some claims"
    "finiteSeconds claims ''exp'' = Seconds expiry" "momentOf now < expiry"
    "asText (go_get claims ''role'') = id_Role i" "id_Username i \<noteq> []"
    "id_Role i \<in> {''admin'', ''operator'', ''viewer''}"
proof -
  obtain head body signed where parts: "splitOn CHR ''.'' token = [head, body, signed]"
    using assms by (auto simp: VerifyServerToken_def split: if_splits list.splits)
  have signature: "decodeBase64 cry signed = Some (cry_HMAC cry key (head @ ''.'' @ body))"
    using assms parts by (auto simp: VerifyServerToken_def split: if_splits option.splits)
  obtain claims where claims: "decodeTokenPart cry body = Some claims"
      and accepted: "checkClaims claims (momentOf now) = Inr i"
    using assms parts by (auto simp: VerifyServerToken_def split: if_splits option.splits)
  obtain expiry where "finiteSeconds claims ''exp'' = Seconds expiry" "momentOf now < expiry"
    using checkClaims_accepted(1) [OF accepted] by blast
  then show thesis
    using that [OF splitOn_three [OF parts] signature claims] checkClaims_accepted(2,3,4) [OF accepted]
    by simp
qed

end
