(* ===== verification/Verifier.thy ===== *)
theory Verifier
  imports Identity Config
begin

section \<open>Own tokens and the check of signed proposals\<close>

text \<open>
  \<open>src/src/dispatcher/production_identity.go\<close> (the key of the family and the tokens the dispatcher
  signs) and \<open>src/src/dispatcher/proposal_verify.go\<close> (asking HYDRA-UMC-SERVER about a signed
  proposal). Files are read through a parameter, \<open>None\<close> when they cannot be read; so is the request
  to the server, which answers the status and what the JSON reader makes of the body, or \<open>None\<close>.
\<close>

subsection \<open>The signing key\<close>

datatype keyError = CannotReadKey | ShortKey

definition MinIdentityKeyLength :: nat where
  "MinIdentityKeyLength = 32"

definition LoadIdentityKey :: "(string \<Rightarrow> string option) \<Rightarrow> string \<Rightarrow> keyError + string" where
  "LoadIdentityKey readFile path =
     (case readFile path of
        None \<Rightarrow> Inl CannotReadKey
      | Some raw \<Rightarrow>
          let key = trimSpace raw
          in if length key < MinIdentityKeyLength then Inl ShortKey else Inr key)"

subsection \<open>Signing a token\<close>

definition identityTokenLifetime :: duration where
  "identityTokenLifetime = 60 * second"

definition unixSeconds :: "instant \<Rightarrow> int" where
  "unixSeconds t = t div second"

definition tokenPart :: "crypto \<Rightarrow> json \<Rightarrow> string" where
  "tokenPart cry v = cry_Encode cry (cry_Marshal cry v)"

text \<open>The maps are written with their keys in order.\<close>

definition tokenHead :: json where
  "tokenHead = JObject [(''alg'', JString ''HS256''), (''typ'', JString ''JWT'')]"

definition tokenClaims :: "string \<Rightarrow> string \<Rightarrow> instant \<Rightarrow> json" where
  "tokenClaims username role now =
     JObject [(''exp'', JNumber (Whole (unixSeconds (now + identityTokenLifetime)))),
       (''role'', JString role), (''username'', JString username)]"

definition SignIdentityToken :: "crypto \<Rightarrow> string \<Rightarrow> string \<Rightarrow> string \<Rightarrow> instant \<Rightarrow> string" where
  "SignIdentityToken cry key username role now =
     (let head = tokenPart cry tokenHead; body = tokenPart cry (tokenClaims username role now);
          signed = head @ ''.'' @ body
      in signed @ ''.'' @ cry_Encode cry (cry_HMAC cry key signed))"

subsection \<open>The verifier\<close>

record ProposalVerdict =
  pvd_Valid :: bool
  pvd_Reason :: string
  pvd_KeyID :: string

record ProposalVerifier =
  pv_cfg :: ProposalVerifyConfig
  pv_key :: "string option"

datatype verifierError = BadVerifySetting verifyError | BadVerifyKey keyError

definition NewProposalVerifier ::
  "netlib \<Rightarrow> (string \<Rightarrow> string option) \<Rightarrow> ProposalVerifyConfig \<Rightarrow> verifierError + ProposalVerifier" where
  "NewProposalVerifier net readFile cfg =
     (case ProposalVerifyValidate net cfg of
        Some err \<Rightarrow> Inl (BadVerifySetting err)
      | None \<Rightarrow>
          if pvc_IdentityKeyFile cfg = [] then Inr \<lparr>pv_cfg = cfg, pv_key = None\<rparr>
          else case LoadIdentityKey readFile (pvc_IdentityKeyFile cfg) of
            Inl err \<Rightarrow> Inl (BadVerifyKey err)
          | Inr key \<Rightarrow> Inr \<lparr>pv_cfg = cfg, pv_key = Some key\<rparr>)"

definition Require :: "ProposalVerifier \<Rightarrow> bool" where
  "Require v = pvc_Require (pv_cfg v)"

datatype unavailable =
    NoTokenFile | EmptyTokenFile | NotReached | Unreadable_answer | CredentialRefused
  | CheckOff | NoKeys | OtherAnswer nat

definition credential ::
  "crypto \<Rightarrow> (string \<Rightarrow> string option) \<Rightarrow> instant \<Rightarrow> ProposalVerifier \<Rightarrow> unavailable + string" where
  "credential cry readFile now v =
     (case pv_key v of
        Some key \<Rightarrow> Inr (SignIdentityToken cry key ''job-dispatcher'' ''operator'' now)
      | None \<Rightarrow>
          (case readFile (pvc_TokenFile (pv_cfg v)) of
             None \<Rightarrow> Inl NoTokenFile
           | Some raw \<Rightarrow> if trimSpace raw = [] then Inl EmptyTokenFile else Inr (trimSpace raw)))"

text \<open>A request to the server: the address, the token and the body.\<close>

type_synonym poster = "string \<Rightarrow> string \<Rightarrow> json \<Rightarrow> (nat \<times> json option) option"

definition ProposalVerifyRoute :: string where
  "ProposalVerifyRoute = ''/api/trajectory/proposals/verify''"

definition verdictFields :: "ProposalVerdict fields" where
  "verdictFields =
     [field ''valid'' storeBool pvd_Valid pvd_Valid_update,
      field ''reason'' storeString pvd_Reason pvd_Reason_update,
      field ''key_id'' storeString pvd_KeyID pvd_KeyID_update]"

definition noVerdict :: ProposalVerdict where
  "noVerdict = \<lparr>pvd_Valid = False, pvd_Reason = [], pvd_KeyID = []\<rparr>"

definition verdictOf :: "nat \<Rightarrow> json option \<Rightarrow> unavailable + ProposalVerdict" where
  "verdictOf status body =
     (if status = 200 then
        (case body of
           None \<Rightarrow> Inl Unreadable_answer
         | Some v \<Rightarrow>
             (case storeStruct False verdictFields v noVerdict of
                None \<Rightarrow> Inl Unreadable_answer | Some verdict \<Rightarrow> Inr verdict))
      else if status = 400 then
        Inr (noVerdict\<lparr>pvd_Reason := ''the server does not take this proposal''\<rparr>)
      else if status = 401 \<or> status = 403 then Inl CredentialRefused
      else if status = 404 then Inl CheckOff
      else if status = 503 then Inl NoKeys else Inl (OtherAnswer status))"

definition Verify ::
  "crypto \<Rightarrow> (string \<Rightarrow> string option) \<Rightarrow> poster \<Rightarrow> instant \<Rightarrow> ProposalVerifier \<Rightarrow> json \<Rightarrow> string \<Rightarrow>
   unavailable + ProposalVerdict" where
  "Verify cry readFile post now v proposal robot =
     (case credential cry readFile now v of
        Inl err \<Rightarrow> Inl err
      | Inr token \<Rightarrow>
          (case post (trimRightChar CHR ''/'' (trimSpace (pvc_ServerURL (pv_cfg v))) @ ProposalVerifyRoute)
                  token (JObject [(''expected_robot_id'', JString robot), (''proposal'', proposal)]) of
             None \<Rightarrow> Inl NotReached
           | Some (status, body) \<Rightarrow> verdictOf status body))"

text \<open>The check fails closed: only an answer 200 that says so makes a proposal valid.\<close>

lemma Verify_valid:
  assumes "Verify cry readFile post now v proposal robot = Inr verdict" and "pvd_Valid verdict"
  shows "\<exists>url token body. post url token
      (JObject [(''expected_robot_id'', JString robot), (''proposal'', proposal)]) = Some (200, Some body)
    \<and> storeStruct False verdictFields body noVerdict = Some verdict"
  using assms
  by (auto simp: Verify_def verdictOf_def noVerdict_def split: sum.splits option.splits prod.splits if_splits)

subsection \<open>The tokens are accepted\<close>

text \<open>What the signing relies on of base64 and JSON: they read back what they wrote.\<close>

definition crypto_ok :: "crypto \<Rightarrow> json list \<Rightarrow> bool" where
  "crypto_ok cry docs \<longleftrightarrow>
     (\<forall>d. cry_Base64 cry (cry_Encode cry d) = Some d
        \<and> CHR ''.'' \<notin> set (cry_Encode cry d) \<and> CHR ''='' \<notin> set (cry_Encode cry d)
        \<and> (d \<noteq> [] \<longrightarrow> cry_Encode cry d \<noteq> []))
   \<and> (\<forall>v \<in> set docs. cry_JSON cry (cry_Marshal cry v) = Some v \<and> cry_Marshal cry v \<noteq> [])
   \<and> (\<forall>key msg. cry_HMAC cry key msg \<noteq> [])"

lemma crypto_okD:
  assumes "crypto_ok cry docs"
  shows "cry_Base64 cry (cry_Encode cry d) = Some d" "CHR ''.'' \<notin> set (cry_Encode cry d)"
    "CHR ''='' \<notin> set (cry_Encode cry d)" "d \<noteq> [] \<Longrightarrow> cry_Encode cry d \<noteq> []"
    "v \<in> set docs \<Longrightarrow> cry_JSON cry (cry_Marshal cry v) = Some v"
    "v \<in> set docs \<Longrightarrow> cry_Marshal cry v \<noteq> []" "cry_HMAC cry key msg \<noteq> []"
  using assms by (auto simp: crypto_ok_def)

lemma trimRightChar_none: "c \<notin> set s \<Longrightarrow> trimRightChar c s = s"
  by (cases s rule: rev_cases) (auto simp: trimRightChar_def)

lemma decodeBase64_encoded: "crypto_ok cry docs \<Longrightarrow> decodeBase64 cry (cry_Encode cry d) = Some d"
  using crypto_okD(1,3) [of cry docs d] by (simp add: decodeBase64_def trimRightChar_none)

lemma decodeTokenPart_part:
  "crypto_ok cry docs \<Longrightarrow> v \<in> set docs \<Longrightarrow> decodeTokenPart cry (tokenPart cry v) = storeAnyMap v"
  by (simp add: decodeTokenPart_def tokenPart_def decodeBase64_encoded crypto_okD(5))

lemma splitOn_free: "c \<notin> set s \<Longrightarrow> splitOn c s = [s]"
  by (induction s) auto

lemma splitOn_append: "c \<notin> set s \<Longrightarrow> splitOn c (s @ c # t) = s # splitOn c t"
  by (induction s) auto

lemma splitOn_token:
  assumes "c \<notin> set x" and "c \<notin> set y" and "c \<notin> set z"
  shows "splitOn c (x @ [c] @ y @ [c] @ z) = [x, y, z]"
  using assms by (simp add: splitOn_append splitOn_free)

text \<open>A moment of the clock never reads later than the next whole second.\<close>

lemma exact_seconds:
  assumes "0 \<le> n" and "n \<le> 4000000000"
  shows "rnd64 (of_int (n * second)) = of_int (n * second)"
proof (cases "n = 0")
  case False
  have "n * 5 ^ 9 \<le> 4000000000 * 5 ^ 9" using assms(2) by (intro mult_right_mono) auto
  then have small: "n * 5 ^ 9 < 2 ^ 53" by simp
  have e: "(of_int (n * second) :: rat) = of_int (n * 5 ^ 9) * 2 powi 9" by (simp add: second_def)
  have "rndPos (of_int (n * second)) = of_int (n * second)"
    unfolding e using assms(1) small False by (intro rndPos_exact) auto
  then show ?thesis using assms(1) False by (simp add: rnd64_def second_def)
qed simp

lemma momentOf_le:
  assumes "0 \<le> t" and "t \<le> n * second" and "n \<le> 4000000000"
  shows "momentOf t \<le> of_int n"
proof -
  have n: "0 \<le> n" using assms(1,2) by (simp add: second_def)
  have "(of_int t :: rat) \<le> of_int (n * second)" using assms(2) by (simp only: of_int_le_iff)
  then have "rnd64 (of_int t) \<le> of_int (n * second)"
    using rnd64_mono [of "of_int t" "of_int (n * second)"] assms(1) exact_seconds [OF n assms(3)] by simp
  then have "rnd64 (of_int t) / 1000000000 \<le> of_int n" by (simp add: second_def divide_le_eq)
  moreover have "0 \<le> rnd64 (of_int t) / 1000000000" using rnd64_nonneg [of "of_int t"] assms(1) by simp
  moreover have "n < 2 ^ 53" using assms(3) by (rule le_less_trans) simp
  ultimately show ?thesis unfolding momentOf_def by (intro rnd64_le_int)
qed

lemma momentOf_ge:
  assumes "0 \<le> n" and "n * second \<le> t" and "n \<le> 4000000000"
  shows "of_int n \<le> momentOf t"
proof -
  have "(of_int (n * second) :: rat) \<le> of_int t" using assms(2) by (simp only: of_int_le_iff)
  then have "of_int (n * second) \<le> rnd64 (of_int t)"
    using rnd64_mono [of "of_int (n * second)" "of_int t"] assms(1) exact_seconds [OF assms(1,3)]
    by (simp add: second_def)
  then have "of_int n \<le> rnd64 (of_int t) / 1000000000" by (simp add: second_def le_divide_eq)
  moreover have "n < 2 ^ 53" using assms(3) by (rule le_less_trans) simp
  ultimately show ?thesis unfolding momentOf_def using assms(1) by (intro rnd64_ge_int)
qed

end
