(* ===== verification/Reload.thy ===== *)
theory Reload
  imports Config
begin

section \<open>Reading the configuration again\<close>

text \<open>
  \<open>src/reload.go\<close> and the check of \<open>src/main.go\<close> it uses: the file is read and checked again and
  the settings the engine can change while it runs are installed. The pointer to the maintenance
  board is an option; two reloads never interleave, so a reload is one step.
\<close>

record configReloader =
  cr_EtaOn :: bool
  cr_EtaDefault :: duration
  cr_EtaWindow :: int

definition configProblem :: "FileConfig \<Rightarrow> bool \<Rightarrow> bool" where
  "configProblem cfg etaOn \<longleftrightarrow> iv_Enabled (IntervalSetting cfg) \<and> \<not> etaOn"

datatype reloadError =
  CannotRead | BadConfig configError | NeedsEta | BadCosts "string \<times> string \<times> float64"

definition applyConfig ::
  "configReloader \<Rightarrow> FileConfig \<Rightarrow> 's engine \<Rightarrow> MaintenanceBoard option \<Rightarrow>
   's engine \<times> MaintenanceBoard option \<times> reloadError option" where
  "applyConfig r cfg e board =
     (case SetLocationCosts (LocationSetting cfg) e of
        (e1, Some bad) \<Rightarrow> (e1, board, Some (BadCosts bad))
      | (e1, None) \<Rightarrow>
         (let e2 = (if cr_EtaOn r
                then SetETA \<lparr>eta_Enabled = True, eta_DefaultDuration = cr_EtaDefault r,
                       eta_Window = cr_EtaWindow r, eta_Interval = IntervalSetting cfg\<rparr> e1
                else e1);
              e3 = SetReplan (ReplanSetting cfg) e2
          in (e3, map_option (SetConfig (MaintenanceSetting cfg)) board, None)))"

record reloadSummary =
  sum_ReplanEnabled :: bool
  sum_AllowUnconfirmed :: bool
  sum_StopAckTimeout :: duration
  sum_LocationCosts :: bool
  sum_ETAInterval :: bool
  sum_Maintenance :: bool

definition summaryOf :: "configReloader \<Rightarrow> FileConfig \<Rightarrow> reloadSummary" where
  "summaryOf r cfg =
     (let replan = ReplanSetting cfg
      in \<lparr>sum_ReplanEnabled = rp_Enabled replan, sum_AllowUnconfirmed = rp_AllowUnconfirmed replan,
          sum_StopAckTimeout = rp_StopAckTimeout replan,
          sum_LocationCosts = loc_Enabled (LocationSetting cfg),
          sum_ETAInterval = (cr_EtaOn r \<and> iv_Enabled (IntervalSetting cfg)),
          sum_Maintenance = mc_Enabled (MaintenanceSetting cfg)\<rparr>)"

text \<open>The file as it is read: \<open>None\<close> when it cannot be read.\<close>

definition LoadConfigFile ::
  "netlib \<Rightarrow> (string \<Rightarrow> string) \<Rightarrow> fileText option \<Rightarrow> reloadError + FileConfig" where
  "LoadConfigFile net getenv file =
     (case file of
        None \<Rightarrow> Inl CannotRead
      | Some txt \<Rightarrow> (case ParseConfig net getenv txt of Inl err \<Rightarrow> Inl (BadConfig err) | Inr c \<Rightarrow> Inr c))"

definition Reload ::
  "netlib \<Rightarrow> (string \<Rightarrow> string) \<Rightarrow> fileText option \<Rightarrow> configReloader \<Rightarrow> 's engine \<Rightarrow>
   MaintenanceBoard option \<Rightarrow> 's engine \<times> MaintenanceBoard option \<times> (reloadError + reloadSummary)" where
  "Reload net getenv file r e board =
     (case LoadConfigFile net getenv file of
        Inl err \<Rightarrow> (e, board, Inl err)
      | Inr cfg \<Rightarrow>
          if configProblem cfg (cr_EtaOn r) then (e, board, Inl NeedsEta)
          else
            (case applyConfig r cfg e board of
               (e', board', Some err) \<Rightarrow> (e', board', Inl err)
             | (e', board', None) \<Rightarrow> (e', board', Inr (summaryOf r cfg))))"

end
