(* ===== verification/Api.thy ===== *)
theory Api
  imports Verifier Reload
begin

section \<open>The routes of the HTTP API\<close>

text \<open>
  \<open>src/src/api/api.go\<close>, \<open>operation.go\<close>, \<open>proposal_gate.go\<close> and \<open>maintenance.go\<close>: every handler as a
  function of the server, of what the outside answers during the request (clocks, controllers,
  the verifier, the configuration file) and of the request, to the server afterwards and the
  answer. A request has its path as the list of its segments, already decoded and clean (the router
  of the standard library redirects the others), its query as a list of pairs, and its body as what
  the JSON decoder makes of it. \<open>None\<close> instead of an answer is a call of the engine that does not
  return. A handler that calls the engine more than once is modelled without other requests in
  between; the engine theories cover every order of the calls.
\<close>

subsection \<open>Requests and answers\<close>

datatype requestBody = OverLimit | Unreadable | Body json bool

record request =
  rq_Method :: string
  rq_Segments :: "string list"
  rq_Query :: "(string \<times> string) list"
  rq_Authorization :: string
  rq_LastEventID :: string
  rq_RemoteHost :: "string option"
  rq_Body :: requestBody

definition pathOf :: "request \<Rightarrow> string" where
  "pathOf r = concat (map (\<lambda>s. CHR ''/'' # s) (rq_Segments r))"

definition queryGet :: "request \<Rightarrow> string \<Rightarrow> string" where
  "queryGet r name = (case map_of (rq_Query r) name of None \<Rightarrow> [] | Some v \<Rightarrow> v)"

record outside =
  out_now :: instant
  out_later :: instant
  out_clock :: "nat \<Rightarrow> instant"
  out_fetch :: "string \<Rightarrow> string option"
  out_post :: poster
  out_readFile :: "string \<Rightarrow> string option"
  out_crypto :: crypto
  out_net :: netlib
  out_getenv :: "string \<Rightarrow> string"
  out_file :: "fileText option"

datatype apiError =
    EngineError engError
  | BoardError boardError
  | ReloadError reloadError
  | UnknownJobID string
  | Text string

datatype payload =
    PError apiError
  | PNotFound
  | PJob job
  | PJobs "job list"
  | PSubmitted job SubmitResult
  | PState QueueState
  | PRobots "robot list"
  | PHealth bool
  | PAssignments "Assignment list"
  | PWaiting "WaitingJob list"
  | PQueueETA QueueETA
  | PJobETA JobETA
  | PStale "string list" "(string list \<times> string list) option"
  | PRequeued "string list"
  | PStopRequests "StopRequest list"
  | PProposals "Proposal list"
  | PProposed Proposal bool
  | PApproved Proposal job
  | PRejected Proposal
  | PReloaded reloadSummary
  | PStream "Event list" nat
  | PMetrics

record answer =
  an_Status :: nat
  an_Allow :: string
  an_Total :: "int option"
  an_Authenticate :: bool
  an_Body :: payload

definition reply :: "nat \<Rightarrow> payload \<Rightarrow> answer" where
  "reply status p = \<lparr>an_Status = status, an_Allow = [], an_Total = None, an_Authenticate = False, an_Body = p\<rparr>"

definition refuse :: "nat \<Rightarrow> apiError \<Rightarrow> answer" where
  "refuse status err = reply status (PError err)"

definition notFound :: answer where
  "notFound = reply 404 PNotFound"

definition notAllowed :: "string \<Rightarrow> string \<Rightarrow> answer" where
  "notAllowed allow msg = (refuse 405 (Text msg))\<lparr>an_Allow := allow\<rparr>"

abbreviation useGet :: answer where
  "useGet \<equiv> notAllowed ''GET'' ''use GET''"

abbreviation usePost :: answer where
  "usePost \<equiv> notAllowed ''POST'' ''use POST''"

subsection \<open>The server\<close>

text \<open>
  The hub of the events is the one the engine publishes to (\<open>main\<close> gives both the same). The
  counters are those of the answers by class of status (2xx, 3xx, 4xx, the rest).
\<close>

record 's server =
  srv_engine :: "'s engine"
  srv_token :: string
  srv_identityKey :: "string option"
  srv_reloader :: "configReloader option"
  srv_maintenance :: "MaintenanceBoard option"
  srv_proposals :: "ProposalVerifier option"
  srv_metricsOn :: bool
  srv_responses :: "nat \<times> nat \<times> nat \<times> nat"

definition NewServer :: "'s engine \<Rightarrow> 's server" where
  "NewServer e =
     \<lparr>srv_engine = e, srv_token = [], srv_identityKey = None, srv_reloader = None,
      srv_maintenance = None, srv_proposals = None, srv_metricsOn = False,
      srv_responses = (0, 0, 0, 0)\<rparr>"

definition withEngine :: "'s server \<Rightarrow> 's engine \<Rightarrow> 's server" where
  "withEngine s e = s\<lparr>srv_engine := e\<rparr>"

subsection \<open>Reading a body\<close>

text \<open>A decoder that reads one document from the body, and the status for one that could not be read.\<close>

definition decodeBody :: "'a reader \<Rightarrow> 'a \<Rightarrow> request \<Rightarrow> answer + 'a" where
  "decodeBody rd zero r =
     (case rq_Body r of
        OverLimit \<Rightarrow> Inl (refuse 413 (Text ''http: request body too large''))
      | Unreadable \<Rightarrow> Inl (refuse 400 (Text ''invalid body''))
      | Body v _ \<Rightarrow>
          (case rd v zero of None \<Rightarrow> Inl (refuse 400 (Text ''invalid body'')) | Some x \<Rightarrow> Inr x))"

record jobRequest =
  jq_ID :: string
  jq_Priority :: int
  jq_RequiredTool :: string
  jq_Location :: string
  jq_DependsOn :: "string list"
  jq_DedupKey :: string
  jq_Proposal :: "json option"
  jq_ExpectedRobotID :: string

definition noJobRequest :: jobRequest where
  "noJobRequest = \<lparr>jq_ID = [], jq_Priority = 0, jq_RequiredTool = [], jq_Location = [],
     jq_DependsOn = [], jq_DedupKey = [], jq_Proposal = None, jq_ExpectedRobotID = []\<rparr>"

text \<open>\<open>POST /jobs\<close> does not read the deduplication key; \<open>POST /jobs/submit\<close> does.\<close>

definition jobFields :: "jobRequest fields" where
  "jobFields =
     [field ''id'' storeString jq_ID jq_ID_update,
      field ''priority'' storeInt jq_Priority jq_Priority_update,
      field ''requiredTool'' storeString jq_RequiredTool jq_RequiredTool_update,
      field ''location'' storeString jq_Location jq_Location_update,
      field ''dependsOn'' (storeSlice [] storeString) jq_DependsOn jq_DependsOn_update,
      field ''proposal'' storeRaw jq_Proposal jq_Proposal_update,
      field ''expectedRobotId'' storeString jq_ExpectedRobotID jq_ExpectedRobotID_update]"

definition submitFields :: "jobRequest fields" where
  "submitFields = jobFields @ [field ''dedupKey'' storeString jq_DedupKey jq_DedupKey_update]"

text \<open>The job of a request; the fields it does not carry are zero (the status is the engine's).\<close>

definition jobOf :: "jobRequest \<Rightarrow> job" where
  "jobOf q =
     \<lparr>job_ID = jq_ID q, job_Priority = jq_Priority q, job_RequiredTool = jq_RequiredTool q,
      job_Location = jq_Location q, job_DependsOn = jq_DependsOn q, job_Status = StatusPending,
      job_AssignedRobot = [], job_DedupKey = jq_DedupKey q, job_SubmittedAtMs = 0,
      job_AssignedAtMs = 0, job_CompletedAtMs = 0, job_Attempt = 0, job_seq = 0\<rparr>"

subsection \<open>An operation as a job\<close>

record operationRequest =
  op_SchemaVersion :: string
  op_OperationID :: string
  op_Status :: string
  op_Params :: "(string, json) gomap option"

definition noOperation :: operationRequest where
  "noOperation = \<lparr>op_SchemaVersion = [], op_OperationID = [], op_Status = [], op_Params = None\<rparr>"

text \<open>A map of values of any kind: nil after \<open>null\<close>, and more entries when it occurs again.\<close>

definition storeParams :: "(string, json) gomap option reader" where
  "storeParams v p =
     (case v of
        JNull \<Rightarrow> Some None
      | JObject kvs \<Rightarrow>
          if storable v
          then Some (Some (fold (\<lambda>(k, x). go_put k x) kvs (case p of None \<Rightarrow> [] | Some m \<Rightarrow> m)))
          else None
      | _ \<Rightarrow> None)"

definition operationFields :: "operationRequest fields" where
  "operationFields =
     [field ''schema_version'' storeString op_SchemaVersion op_SchemaVersion_update,
      field ''operation_id'' storeString op_OperationID op_OperationID_update,
      field ''status'' storeString op_Status op_Status_update,
      field ''params'' storeParams op_Params op_Params_update]"

text \<open>A parameter of an operation; \<open>None\<close> when it has the wrong kind, \<open>Some None\<close> when absent.\<close>

definition paramInt :: "(string, json) gomap \<Rightarrow> string \<Rightarrow> int option option" where
  "paramInt m name =
     (case go_get m name of
        None \<Rightarrow> Some None
      | Some (JNumber n) \<Rightarrow>
          (case readFloat n of
             Some (Fin v) \<Rightarrow> if v = of_int (toInt v) \<and> \<bar>v\<bar> \<le> 2147483647 then Some (Some (toInt v)) else None
           | _ \<Rightarrow> None)
      | Some _ \<Rightarrow> None)"

definition paramText :: "(string, json) gomap \<Rightarrow> string \<Rightarrow> string option option" where
  "paramText m name =
     (case go_get m name of
        None \<Rightarrow> Some None | Some (JString s) \<Rightarrow> Some (Some s) | Some _ \<Rightarrow> None)"

fun allTexts :: "json list \<Rightarrow> string list option" where
  "allTexts [] = Some []"
| "allTexts (JString s # vs) = map_option (Cons s) (allTexts vs)"
| "allTexts (_ # vs) = None"

definition paramTexts :: "(string, json) gomap \<Rightarrow> string \<Rightarrow> string list option option" where
  "paramTexts m name =
     (case go_get m name of
        None \<Rightarrow> Some None | Some (JArray vs) \<Rightarrow> map_option Some (allTexts vs) | Some _ \<Rightarrow> None)"

definition orZero :: "'a \<Rightarrow> 'a option \<Rightarrow> 'a" where
  "orZero zero x = (case x of None \<Rightarrow> zero | Some v \<Rightarrow> v)"

definition fromOperation :: "operationRequest \<Rightarrow> string + jobRequest" where
  "fromOperation op =
     (if op_SchemaVersion op \<noteq> ''1.0'' then Inl ''operation: schema_version must be 1.0''
      else if op_Status op \<noteq> ''received''
      then Inl ''operation: only an operation in the state received can become a job''
      else if op_OperationID op = [] then Inl ''operation: operation_id must not be empty''
      else case op_Params op of
        None \<Rightarrow> Inl ''operation: params must be an object''
      | Some m \<Rightarrow>
          (case (paramInt m ''priority'', paramText m ''required_tool'', paramText m ''location'',
                 paramTexts m ''depends_on'') of
             (Some priority, Some tool, Some location, Some deps) \<Rightarrow>
               Inr (noJobRequest\<lparr>jq_ID := op_OperationID op, jq_DedupKey := op_OperationID op,
                 jq_Priority := orZero 0 priority, jq_RequiredTool := orZero [] tool,
                 jq_Location := orZero [] location, jq_DependsOn := orZero [] deps\<rparr>)
           | _ \<Rightarrow> Inl ''operation: a parameter has the wrong kind''))"

text \<open>\<open>submitFromBody\<close>: an object with the field \<open>operation_id\<close> (by its exact name) is an operation.\<close>

definition submitFromBody :: "json \<Rightarrow> string + jobRequest" where
  "submitFromBody v =
     (case v of
        JObject kvs \<Rightarrow>
          if map_of kvs ''operation_id'' = None then
            (case storeStruct False submitFields v noJobRequest of
               None \<Rightarrow> Inl ''invalid body'' | Some q \<Rightarrow> Inr q)
          else
            (case storeStruct False operationFields v noOperation of
               None \<Rightarrow> Inl ''operation: invalid body'' | Some op \<Rightarrow> fromOperation op)
      | JNull \<Rightarrow> Inr noJobRequest
      | _ \<Rightarrow> Inl ''invalid body'')"

subsection \<open>The gate of the signed proposals\<close>

text \<open>The refusal, if any: fail closed when the proposal cannot be checked.\<close>

definition checkProposal ::
  "'s server \<Rightarrow> outside \<Rightarrow> json option \<Rightarrow> string \<Rightarrow> answer option" where
  "checkProposal s out proposal robot =
     (case srv_proposals s of
        None \<Rightarrow> None
      | Some v \<Rightarrow>
          if proposal = None \<or> proposal = Some JNull then
            (if Require v then Some (refuse 422 (Text ''a signed trajectory proposal is required''))
             else None)
          else if robot = [] then Some (refuse 400 (Text ''expectedRobotId is required with a proposal''))
          else case Verify (out_crypto out) (out_readFile out) (out_post out) (out_now out) v
                 (the proposal) robot of
            Inl _ \<Rightarrow> Some (refuse 503 (Text ''the signed proposal could not be checked''))
          | Inr verdict \<Rightarrow>
              if pvd_Valid verdict then None
              else Some (refuse 422 (Text (''the signed proposal is not valid: '' @ pvd_Reason verdict))))"

subsection \<open>Listing jobs\<close>

definition isDigit :: "char \<Rightarrow> bool" where
  "isDigit c \<longleftrightarrow> (let n = (of_char c :: nat) in 48 \<le> n \<and> n \<le> 57)"

definition decimal :: "string \<Rightarrow> int" where
  "decimal ds = foldl (\<lambda>n c. 10 * n + (of_char c - 48)) 0 ds"

text \<open>\<open>strconv.ParseInt\<close> for 64 bits: the value, cut to the range, and whether it is exact.\<close>

definition parseInt64 :: "string \<Rightarrow> int \<times> bool" where
  "parseInt64 s =
     (let negative = (s \<noteq> [] \<and> hd s = CHR ''-'');
          ds = (if s \<noteq> [] \<and> (hd s = CHR ''-'' \<or> hd s = CHR ''+'') then tl s else s)
      in if ds = [] \<or> \<not> list_all isDigit ds then (0, False)
         else
           let n = (if negative then - decimal ds else decimal ds)
           in if n < - (2 ^ 63) then (- (2 ^ 63), False)
              else if 2 ^ 63 \<le> n then (2 ^ 63 - 1, False) else (n, True))"

definition atoi :: "string \<Rightarrow> int option" where
  "atoi s = (case parseInt64 s of (n, exact) \<Rightarrow> if exact then Some n else None)"

text \<open>The parameters \<open>limit\<close> and \<open>offset\<close>: zero when absent, an error unless they are counts.\<close>

definition queryCount :: "request \<Rightarrow> string \<Rightarrow> int option" where
  "queryCount r name =
     (let raw = queryGet r name
      in if raw = [] then Some 0
         else case atoi raw of
           None \<Rightarrow> None
         | Some n \<Rightarrow> if n < 0 \<or> name = ''limit'' \<and> n = 0 then None else Some n)"

definition listAnswer :: "job list \<times> int \<Rightarrow> answer" where
  "listAnswer page = (reply 200 (PJobs (fst page)))\<lparr>an_Total := Some (snd page)\<rparr>"

definition archiveAnswer :: "engError + (job list \<times> int) \<Rightarrow> answer" where
  "archiveAnswer a =
     (case a of
        Inr page \<Rightarrow> listAnswer page
      | Inl err \<Rightarrow> refuse (if err = ErrNoArchive then 404 else 500) (EngineError err))"

definition handleListJobs :: "'s server \<Rightarrow> request \<Rightarrow> 's server \<times> answer" where
  "handleListJobs s r =
     (let status = queryGet r ''status''; archived = queryGet r ''archived''; robot = queryGet r ''robot''
      in if status \<noteq> [] \<and> \<not> ValidStatus status then (s, refuse 400 (Text ''unknown status''))
         else case (queryCount r ''limit'', queryCount r ''offset'') of
           (Some limit, Some offset) \<Rightarrow>
             if archived \<noteq> [] \<and> archived \<noteq> ''1'' \<and> archived \<noteq> ''0''
             then (s, refuse 400 (Text ''archived must be 1 or 0''))
             else if archived = ''1'' then
               (if status \<noteq> [] \<or> robot \<noteq> []
                then (s, refuse 400 (Text ''the archive is read without status or robot''))
                else (s, archiveAnswer (ArchivedPage offset limit (srv_engine s))))
             else if 256 < length robot then (s, refuse 400 (Text ''robot is too long''))
             else
               (case JobsPageFor robot status offset limit (srv_engine s) of
                  (page, e) \<Rightarrow> (withEngine s e, listAnswer page))
         | _ \<Rightarrow> (s, refuse 400 (Text ''limit and offset must be positive whole numbers'')))"

subsection \<open>Submitting jobs\<close>

definition jobNow :: "string \<Rightarrow> 's engine \<Rightarrow> job" where
  "jobNow jid e = (case Job jid e of None \<Rightarrow> jobOf noJobRequest | Some j \<Rightarrow> j)"

definition submitStatus :: "engError \<Rightarrow> nat" where
  "submitStatus err =
     (case err of ErrInvalidJob _ \<Rightarrow> 400 | ErrUnknownDep _ _ \<Rightarrow> 400 | _ \<Rightarrow> 409)"

definition postJob :: "'s server \<Rightarrow> outside \<Rightarrow> jobRequest \<Rightarrow> 's server \<times> answer" where
  "postJob s out q =
     (if jq_ID q = [] then (s, refuse 400 (Text ''id is required''))
      else case checkProposal s out (jq_Proposal q) (jq_ExpectedRobotID q) of
        Some refusal \<Rightarrow> (s, refusal)
      | None \<Rightarrow>
          (case AddJob (jobOf q) (out_now out) (srv_engine s) of
             (e, Some err) \<Rightarrow> (withEngine s e, refuse (submitStatus err) (EngineError err))
           | (e, None) \<Rightarrow> (withEngine s e, reply 201 (PJob (jobNow (jq_ID q) e)))))"

definition handleJobs :: "'s server \<Rightarrow> outside \<Rightarrow> request \<Rightarrow> 's server \<times> answer" where
  "handleJobs s out r =
     (if rq_Method r = ''GET'' then handleListJobs s r
      else if rq_Method r = ''POST'' then
        (case decodeBody (storeStruct False jobFields) noJobRequest r of
           Inl refusal \<Rightarrow> (s, refusal)
         | Inr q \<Rightarrow> postJob s out q)
      else (s, notAllowed ''GET, POST'' ''use GET to list jobs or POST to submit one''))"

definition handleSubmitJob :: "'s server \<Rightarrow> outside \<Rightarrow> request \<Rightarrow> ('s server \<times> answer) option" where
  "handleSubmitJob s out r =
     (if rq_Method r \<noteq> ''POST'' then Some (s, usePost)
      else case rq_Body r of
        OverLimit \<Rightarrow> Some (s, refuse 413 (Text ''http: request body too large''))
      | Unreadable \<Rightarrow> Some (s, refuse 400 (Text ''invalid body''))
      | Body v trailing \<Rightarrow>
          (case (if trailing then Inl ''invalid body'' else submitFromBody v) of
             Inl msg \<Rightarrow> Some (s, refuse 400 (Text msg))
           | Inr q \<Rightarrow>
               if jq_ID q = [] then Some (s, refuse 400 (Text ''id is required''))
               else case checkProposal s out (jq_Proposal q) (jq_ExpectedRobotID q) of
                 Some refusal \<Rightarrow> Some (s, refusal)
               | None \<Rightarrow>
                   (case SubmitJob (jobOf q) (out_now out) (srv_engine s) of
                      None \<Rightarrow> None
                    | Some (e, Inl err) \<Rightarrow>
                        (if err = NilDereference then None
                         else Some (withEngine s e, refuse (submitStatus err) (EngineError err)))
                    | Some (e, Inr (stored, result)) \<Rightarrow>
                        Some (withEngine s e,
                          reply (if result = SubmitCreated then 201 else 200) (PSubmitted stored result)))))"

subsection \<open>Reports about jobs\<close>

record completeRequest =
  cq_ID :: string
  cq_Success :: bool
  cq_RobotID :: string
  cq_Attempt :: int

definition noReport :: completeRequest where
  "noReport = \<lparr>cq_ID = [], cq_Success = False, cq_RobotID = [], cq_Attempt = 0\<rparr>"

definition completeFields :: "completeRequest fields" where
  "completeFields =
     [field ''id'' storeString cq_ID cq_ID_update,
      field ''success'' storeBool cq_Success cq_Success_update,
      field ''robotId'' storeString cq_RobotID cq_RobotID_update,
      field ''attempt'' storeInt cq_Attempt cq_Attempt_update]"

definition completeJobErrorStatus :: "engError \<Rightarrow> nat" where
  "completeJobErrorStatus err =
     (case err of
        ErrUnknownJob _ \<Rightarrow> 404 | ErrUnknownRobot _ \<Rightarrow> 404
      | ErrJobNotAssigned _ _ \<Rightarrow> 409 | ErrRobotMismatch _ _ _ \<Rightarrow> 409 | ErrAttemptMismatch _ _ _ \<Rightarrow> 409
      | _ \<Rightarrow> 400)"

definition handleCompleteJob :: "'s server \<Rightarrow> outside \<Rightarrow> request \<Rightarrow> ('s server \<times> answer) option" where
  "handleCompleteJob s out r =
     (if rq_Method r \<noteq> ''POST'' then Some (s, usePost)
      else case decodeBody (storeStruct False completeFields) noReport r of
        Inl refusal \<Rightarrow> Some (s, refusal)
      | Inr q \<Rightarrow>
          if cq_RobotID q = [] then Some (s, refuse 400 (Text ''robotId is required''))
          else if cq_Attempt q < 0 then Some (s, refuse 400 (Text ''attempt must not be negative''))
          else case CompleteJobAttempt (cq_ID q) (cq_Success q) (cq_RobotID q) (cq_Attempt q)
                 (out_now out) (srv_engine s) of
            None \<Rightarrow> None
          | Some (e, Some err, _) \<Rightarrow>
              Some (withEngine s e, refuse (completeJobErrorStatus err) (EngineError err))
          | Some (e, None, _) \<Rightarrow> Some (withEngine s e, reply 200 (PJob (jobNow (cq_ID q) e))))"

text \<open>The requests that name a job, a robot and a reason (cancel, requeue, replan, acknowledge).\<close>

record namedRequest =
  nq_ID :: string
  nq_RobotID :: string
  nq_JobID :: string
  nq_By :: string
  nq_Reason :: string

definition noNames :: namedRequest where
  "noNames = \<lparr>nq_ID = [], nq_RobotID = [], nq_JobID = [], nq_By = [], nq_Reason = []\<rparr>"

definition cancelFields :: "namedRequest fields" where
  "cancelFields = [field ''id'' storeString nq_ID nq_ID_update]"

definition cancelStatus :: "engError \<Rightarrow> nat" where
  "cancelStatus err =
     (case err of ErrUnknownJob _ \<Rightarrow> 404 | ErrJobInFlight _ _ \<Rightarrow> 409 | ErrJobFinished _ _ \<Rightarrow> 409 | _ \<Rightarrow> 400)"

definition handleCancelJob :: "'s server \<Rightarrow> outside \<Rightarrow> request \<Rightarrow> ('s server \<times> answer) option" where
  "handleCancelJob s out r =
     (if rq_Method r \<noteq> ''POST'' then Some (s, usePost)
      else case decodeBody (storeStruct False cancelFields) noNames r of
        Inl refusal \<Rightarrow> Some (s, refusal)
      | Inr q \<Rightarrow>
          if nq_ID q = [] then Some (s, refuse 400 (Text ''id is required''))
          else case CancelJob (nq_ID q) (out_now out) (srv_engine s) of
            None \<Rightarrow> None
          | Some (e, Some err) \<Rightarrow> Some (withEngine s e, refuse (cancelStatus err) (EngineError err))
          | Some (e, None) \<Rightarrow> Some (withEngine s e, reply 200 (PJob (jobNow (nq_ID q) e))))"

definition requeueFields :: "namedRequest fields" where
  "requeueFields =
     [field ''id'' storeString nq_ID nq_ID_update,
      field ''robotId'' storeString nq_RobotID nq_RobotID_update,
      field ''reason'' storeString nq_Reason nq_Reason_update]"

definition requeueStatus :: "engError \<Rightarrow> nat" where
  "requeueStatus err =
     (case err of ErrUnknownJob _ \<Rightarrow> 404 | ErrJobFinished _ _ \<Rightarrow> 409 | ErrRobotMismatch _ _ _ \<Rightarrow> 409 | _ \<Rightarrow> 400)"

definition handleRequeueJob :: "'s server \<Rightarrow> request \<Rightarrow> 's server \<times> answer" where
  "handleRequeueJob s r =
     (if rq_Method r \<noteq> ''POST'' then (s, usePost)
      else case decodeBody (storeStruct False requeueFields) noNames r of
        Inl refusal \<Rightarrow> (s, refusal)
      | Inr q \<Rightarrow>
          if nq_ID q = [] then (s, refuse 400 (Text ''id is required''))
          else case RequeueJob (nq_ID q) (nq_RobotID q) (srv_engine s) of
            (e, Some err) \<Rightarrow> (withEngine s e, refuse (requeueStatus err) (EngineError err))
          | (e, None) \<Rightarrow> (withEngine s e, reply 200 (PJob (jobNow (nq_ID q) e))))"

definition handleJobByID :: "'s server \<Rightarrow> request \<Rightarrow> 's server \<times> answer" where
  "handleJobByID s r =
     (if rq_Method r \<noteq> ''GET'' then (s, useGet)
      else
        let jid = drop (length ''/jobs/'') (pathOf r)
        in case Job jid (srv_engine s) of
             Some j \<Rightarrow> if jid = [] then (s, refuse 404 (UnknownJobID jid)) else (s, reply 200 (PJob j))
           | None \<Rightarrow> (s, refuse 404 (UnknownJobID jid)))"

subsection \<open>Robots\<close>

definition robotFields :: "RobotUpdate fields" where
  "robotFields =
     [field ''id'' storeString upd_ID upd_ID_update,
      field ''location'' (storePointer [] storeString) upd_Location upd_Location_update,
      field ''tool'' (storePointer [] storeString) upd_Tool upd_Tool_update,
      field ''available'' (storePointer False storeBool) upd_Available upd_Available_update,
      field ''stopCapable'' (storePointer False storeBool) upd_StopCapable upd_StopCapable_update]"

definition handleRobots :: "'s server \<Rightarrow> outside \<Rightarrow> request \<Rightarrow> 's server \<times> answer" where
  "handleRobots s out r =
     (if rq_Method r = ''GET'' then (s, reply 200 (PRobots (Robots (srv_engine s))))
      else if rq_Method r = ''POST'' then
        (case decodeBody (storeStruct False robotFields)
                \<lparr>upd_ID = [], upd_Location = None, upd_Tool = None, upd_Available = None,
                 upd_StopCapable = None\<rparr> r of
           Inl refusal \<Rightarrow> (s, refusal)
         | Inr u \<Rightarrow>
             if upd_ID u = [] then (s, refuse 400 (Text ''id is required''))
             else
               let e = UpdateRobot u (out_now out) (srv_engine s)
               in (withEngine s e, reply 200 (PRobots (Robots e))))
      else (s, notAllowed ''GET, POST'' ''use GET to list robots or POST to register/update one''))"

text \<open>\<open>url.PathUnescape\<close>: every percent sign starts two hexadecimal digits.\<close>

definition hexValue :: "char \<Rightarrow> nat option" where
  "hexValue c =
     (let n = (of_char c :: nat)
      in if 48 \<le> n \<and> n \<le> 57 then Some (n - 48)
         else if 97 \<le> n \<and> n \<le> 102 then Some (n - 87)
         else if 65 \<le> n \<and> n \<le> 70 then Some (n - 55) else None)"

function pathUnescape :: "string \<Rightarrow> string option" where
  "pathUnescape s =
     (case s of
        [] \<Rightarrow> Some []
      | c # t \<Rightarrow>
          if c \<noteq> CHR ''%'' then map_option (Cons c) (pathUnescape t)
          else case map hexValue (take 2 t) of
            [Some h, Some l] \<Rightarrow> map_option (Cons (char_of (16 * h + l))) (pathUnescape (drop 2 t))
          | _ \<Rightarrow> None)"
  by pat_completeness auto
termination by (relation "measure length") auto

declare pathUnescape.simps [simp del]

definition removeStatus :: "engError \<Rightarrow> nat" where
  "removeStatus err = (case err of ErrUnknownRobot _ \<Rightarrow> 404 | ErrRobotBusy _ _ _ \<Rightarrow> 409 | _ \<Rightarrow> 500)"

definition handleRobotByID :: "'s server \<Rightarrow> request \<Rightarrow> 's server \<times> answer" where
  "handleRobotByID s r =
     (if rq_Method r \<noteq> ''DELETE'' then (s, notAllowed ''DELETE'' ''use DELETE'')
      else case pathUnescape (drop (length ''/robots/'') (pathOf r)) of
        None \<Rightarrow> (s, refuse 400 (Text ''a robot id is required''))
      | Some rid \<Rightarrow>
          if rid = [] then (s, refuse 400 (Text ''a robot id is required''))
          else case RemoveRobot rid (srv_engine s) of
            (e, Some err) \<Rightarrow> (withEngine s e, refuse (removeStatus err) (EngineError err))
          | (e, None) \<Rightarrow> (withEngine s e, reply 200 (PRobots (Robots e))))"

subsection \<open>The queue as a whole\<close>

definition handleState :: "'s server \<Rightarrow> request \<Rightarrow> 's server \<times> answer" where
  "handleState s r =
     (if rq_Method r \<noteq> ''GET'' then (s, useGet) else (s, reply 200 (PState (State (srv_engine s)))))"

definition handleHealth :: "'s server \<Rightarrow> request \<Rightarrow> 's server \<times> answer" where
  "handleHealth s r =
     (if rq_Method r \<noteq> ''GET'' then (s, useGet)
      else case LastPersistError (srv_engine s) of
        None \<Rightarrow> (s, reply 200 (PHealth True))
      | Some _ \<Rightarrow> (s, reply 503 (PHealth False)))"

definition handleDispatch :: "'s server \<Rightarrow> outside \<Rightarrow> request \<Rightarrow> 's server \<times> answer" where
  "handleDispatch s out r =
     (if rq_Method r \<noteq> ''POST'' then (s, usePost)
      else
        let e1 = fst (ConfirmTools (out_fetch out) id (out_now out) (srv_engine s));
            (e2, assignments) = DispatchOnce (out_clock out) e1
        in (withEngine s e2, reply 200 (PAssignments assignments)))"

definition handleWaiting :: "'s server \<Rightarrow> outside \<Rightarrow> request \<Rightarrow> 's server \<times> answer" where
  "handleWaiting s out r =
     (if rq_Method r \<noteq> ''GET'' then (s, useGet)
      else (s, reply 200 (PWaiting (WaitingJobs (srv_engine s) (out_now out)))))"

definition handleETA :: "'s server \<Rightarrow> outside \<Rightarrow> request \<Rightarrow> 's server \<times> answer" where
  "handleETA s out r =
     (case queueETA (out_now out) (srv_engine s) of
        None \<Rightarrow> (s, notFound)
      | Some queue \<Rightarrow>
          if rq_Method r \<noteq> ''GET'' then (s, useGet)
          else
            let jid = queryGet r ''job''
            in if jid = [] then (s, reply 200 (PQueueETA queue))
               else case find (\<lambda>a. je_JobID a = jid) (qe_Jobs queue) of
                 Some a \<Rightarrow> (s, reply 200 (PJobETA a))
               | None \<Rightarrow>
                   if Job jid (srv_engine s) \<noteq> None
                   then (s, refuse 404 (Text ''the job has ended, so it has no estimate''))
                   else (s, refuse 404 (Text ''unknown job'')))"

definition staleFields :: "float64 fields" where
  "staleFields = [field ''timeoutSeconds'' storeFloat id id]"

definition handleDetectStale :: "'s server \<Rightarrow> outside \<Rightarrow> request \<Rightarrow> 's server \<times> answer" where
  "handleDetectStale s out r =
     (if rq_Method r \<noteq> ''POST'' then (s, usePost)
      else case decodeBody (storeStruct False staleFields) (Fin 0) r of
        Inl refusal \<Rightarrow> (s, refusal)
      | Inr timeout \<Rightarrow>
          if float_le timeout (Fin 0)
          then (s, refuse 400 (Text ''timeoutSeconds must be a positive number''))
          else
            (case DetectStaleAssignmentsStop (durationOf timeout second) (out_now out) (srv_engine s) of
               (e, result) \<Rightarrow>
                 (withEngine s e, reply 200 (PStale (res_Unknown result)
                    (if ReplanEnabled e then Some (res_Requeued result, res_StopRequested result)
                     else None)))))"

subsection \<open>Replanning\<close>

definition replanFieldsOf :: "namedRequest fields" where
  "replanFieldsOf =
     [field ''robotId'' storeString nq_RobotID nq_RobotID_update,
      field ''reason'' storeString nq_Reason nq_Reason_update]"

definition replanStatus :: "engError \<Rightarrow> nat" where
  "replanStatus err = (case err of ErrUnknownRobot _ \<Rightarrow> 404 | _ \<Rightarrow> 400)"

definition handleReplan :: "'s server \<Rightarrow> request \<Rightarrow> 's server \<times> answer" where
  "handleReplan s r =
     (if \<not> ReplanEnabled (srv_engine s) then (s, notFound)
      else if rq_Method r \<noteq> ''POST'' then (s, usePost)
      else case decodeBody (storeStruct False replanFieldsOf) noNames r of
        Inl refusal \<Rightarrow> (s, refusal)
      | Inr q \<Rightarrow>
          if nq_RobotID q = [] then (s, refuse 400 (Text ''robotId is required''))
          else case ReplanRobot (nq_RobotID q) (srv_engine s) of
            (e, Inl err) \<Rightarrow> (withEngine s e, refuse (replanStatus err) (EngineError err))
          | (e, Inr ids) \<Rightarrow> (withEngine s e, reply 200 (PRequeued ids)))"

definition handleStopRequests :: "'s server \<Rightarrow> request \<Rightarrow> 's server \<times> answer" where
  "handleStopRequests s r =
     (if \<not> ReplanEnabled (srv_engine s) then (s, notFound)
      else if rq_Method r \<noteq> ''GET'' then (s, useGet)
      else (s, reply 200 (PStopRequests (StopRequests (srv_engine s)))))"

definition stopAckFields :: "namedRequest fields" where
  "stopAckFields =
     [field ''robotId'' storeString nq_RobotID nq_RobotID_update,
      field ''jobId'' storeString nq_JobID nq_JobID_update]"

definition stopAckStatus :: "engError \<Rightarrow> nat" where
  "stopAckStatus err = (case err of ErrUnknownJob _ \<Rightarrow> 404 | ErrReplanOff \<Rightarrow> 400 | _ \<Rightarrow> 409)"

definition handleStopAck :: "'s server \<Rightarrow> request \<Rightarrow> 's server \<times> answer" where
  "handleStopAck s r =
     (if \<not> ReplanEnabled (srv_engine s) then (s, notFound)
      else if rq_Method r \<noteq> ''POST'' then (s, usePost)
      else case decodeBody (storeStruct False stopAckFields) noNames r of
        Inl refusal \<Rightarrow> (s, refusal)
      | Inr q \<Rightarrow>
          if nq_RobotID q = [] \<or> nq_JobID q = []
          then (s, refuse 400 (Text ''robotId and jobId are required''))
          else case AckStop (nq_RobotID q) (nq_JobID q) (srv_engine s) of
            (e, Some err) \<Rightarrow> (withEngine s e, refuse (stopAckStatus err) (EngineError err))
          | (e, None) \<Rightarrow> (withEngine s e, reply 200 (PRequeued [nq_JobID q])))"

subsection \<open>The configuration\<close>

definition handleReloadConfig :: "'s server \<Rightarrow> outside \<Rightarrow> request \<Rightarrow> 's server \<times> answer" where
  "handleReloadConfig s out r =
     (case srv_reloader s of
        None \<Rightarrow> (s, notFound)
      | Some rl \<Rightarrow>
          if rq_Method r \<noteq> ''POST'' then (s, usePost)
          else if (case rq_RemoteHost r of None \<Rightarrow> True | Some h \<Rightarrow> \<not> net_Loopback (out_net out) h)
          then (s, refuse 403 (Text ''the configuration is reloaded only on request from this machine''))
          else
            (case Reload (out_net out) (out_getenv out) (out_file out) rl (srv_engine s) (srv_maintenance s) of
               (e, board, result) \<Rightarrow>
                 (s\<lparr>srv_engine := e, srv_maintenance := board\<rparr>,
                  (case result of
                     Inl err \<Rightarrow> refuse 422 (ReloadError err)
                   | Inr summary \<Rightarrow> reply 200 (PReloaded summary)))))"

subsection \<open>Maintenance proposals\<close>

definition proposalFields :: "ProposalInput fields" where
  "proposalFields =
     [field ''source'' storeString in_Source in_Source_update,
      field ''reason'' storeString in_Reason in_Reason_update,
      field ''score'' storeFloat in_Score in_Score_update,
      field ''drift'' storeFloat in_Drift in_Drift_update]"

definition maintenanceErrorStatus :: "boardError \<Rightarrow> nat" where
  "maintenanceErrorStatus err =
     (case err of
        ErrInvalidProposal _ \<Rightarrow> 400 | ErrSubmit (ErrInvalidJob _) \<Rightarrow> 400
      | ErrUnknownProposal \<Rightarrow> 404 | ErrMaintenanceOff \<Rightarrow> 404 | _ \<Rightarrow> 409)"

text \<open>The board, when the server has one and it is switched on.\<close>

definition openBoard :: "'s server \<Rightarrow> MaintenanceBoard option" where
  "openBoard s =
     (case srv_maintenance s of
        None \<Rightarrow> None | Some b \<Rightarrow> if MaintenanceEnabled b then Some b else None)"

definition handleMaintenanceProposals ::
  "'s server \<Rightarrow> outside \<Rightarrow> request \<Rightarrow> 's server \<times> answer" where
  "handleMaintenanceProposals s out r =
     (case openBoard s of
        None \<Rightarrow> (s, notFound)
      | Some b \<Rightarrow>
          if rq_Method r = ''GET'' then
            (case ListProposals (queryGet r ''status'') (out_now out) b of
               (b', ps) \<Rightarrow> (s\<lparr>srv_maintenance := Some b'\<rparr>, reply 200 (PProposals ps)))
          else if rq_Method r = ''POST'' then
            (case decodeBody (storeStruct True proposalFields)
                    \<lparr>in_Source = [], in_Reason = [], in_Score = Fin 0, in_Drift = Fin 0\<rparr> r of
               Inl refusal \<Rightarrow> (s, refusal)
             | Inr i \<Rightarrow>
                 (case Propose i (out_now out) b of
                    (b', Inl err) \<Rightarrow>
                      (s\<lparr>srv_maintenance := Some b'\<rparr>, refuse (maintenanceErrorStatus err) (BoardError err))
                  | (b', Inr (p, created)) \<Rightarrow>
                      (s\<lparr>srv_maintenance := Some b'\<rparr>,
                       reply (if created then 201 else 200) (PProposed p created))))
          else (s, notAllowed ''GET, POST'' ''use GET or POST''))"

definition decisionFields :: "namedRequest fields" where
  "decisionFields =
     [field ''id'' storeString nq_ID nq_ID_update,
      field ''by'' storeString nq_By nq_By_update,
      field ''reason'' storeString nq_Reason nq_Reason_update]"

definition approveAnswer ::
  "'s server \<Rightarrow> (MaintenanceBoard \<times> 's engine \<times> (boardError + (Proposal \<times> job))) option \<Rightarrow>
   ('s server \<times> answer) option" where
  "approveAnswer s a =
     (case a of
        None \<Rightarrow> None
      | Some (b, e, Inl err) \<Rightarrow>
          if err = ErrSubmit NilDereference then None
          else Some (s\<lparr>srv_engine := e, srv_maintenance := Some b\<rparr>,
            refuse (maintenanceErrorStatus err) (BoardError err))
      | Some (b, e, Inr (p, j)) \<Rightarrow>
          Some (s\<lparr>srv_engine := e, srv_maintenance := Some b\<rparr>, reply 200 (PApproved p j)))"

definition handleMaintenanceDecision ::
  "'s server \<Rightarrow> outside \<Rightarrow> request \<Rightarrow> ('s server \<times> answer) option" where
  "handleMaintenanceDecision s out r =
     (case openBoard s of
        None \<Rightarrow> Some (s, notFound)
      | Some b \<Rightarrow>
          if rq_Method r \<noteq> ''POST'' then Some (s, usePost)
          else case decodeBody (storeStruct True decisionFields) noNames r of
            Inl refusal \<Rightarrow> Some (s, refusal)
          | Inr q \<Rightarrow>
              if nq_ID q = [] \<or> 128 < length (nq_By q) \<or> 500 < length (nq_Reason q)
              then Some (s, refuse 400 (Text ''id is required''))
              else if suffix ''/approve'' (pathOf r) then
                approveAnswer s
                  (Approve (nq_ID q) (nq_By q) (out_now out) (out_later out) b (srv_engine s))
              else
                (case Reject (nq_ID q) (nq_By q) (nq_Reason q) (out_now out) b of
                   (b', Inl err) \<Rightarrow>
                     Some (s\<lparr>srv_maintenance := Some b'\<rparr>,
                       refuse (maintenanceErrorStatus err) (BoardError err))
                 | (b', Inr p) \<Rightarrow> Some (s\<lparr>srv_maintenance := Some b'\<rparr>, reply 200 (PRejected p))))"

subsection \<open>The stream of events\<close>

text \<open>
  Up to the subscription: the answer carries the events of the replay that the client asked for and
  the channel that the rest of the stream is read from. The types are split at the commas.
\<close>

definition wantedTypes :: "request \<Rightarrow> string list option" where
  "wantedTypes r =
     (let raw = queryGet r ''types''; types = map trimSpace (splitOn CHR '','' raw)
      in if raw = [] then Some []
         else if list_all ValidEventType types then Some types else None)"

definition sinceOf :: "request \<Rightarrow> int" where
  "sinceOf r =
     (if rq_LastEventID r \<noteq> [] then fst (parseInt64 (rq_LastEventID r))
      else if queryGet r ''since'' \<noteq> [] then fst (parseInt64 (queryGet r ''since'')) else 0)"

definition isWanted :: "string list \<Rightarrow> Event \<Rightarrow> bool" where
  "isWanted wanted ev \<longleftrightarrow> wanted = [] \<or> eventText (ev_Type ev) \<in> set wanted"

definition handleEvents :: "'s server \<Rightarrow> request \<Rightarrow> 's server \<times> answer" where
  "handleEvents s r =
     (case eng_events (srv_engine s) of
        None \<Rightarrow> (s, notFound)
      | Some hub \<Rightarrow>
          if \<not> SSEEnabled (Some hub) then (s, notFound)
          else if rq_Method r \<noteq> ''GET'' then (s, useGet)
          else case wantedTypes r of
            None \<Rightarrow> (s, refuse 400 (Text ''unknown event type''))
          | Some wanted \<Rightarrow>
              (case Subscribe (sinceOf r) hub of
                 (replay, ch, hub') \<Rightarrow>
                   (withEngine s (SetEvents (Some hub') (srv_engine s)),
                    reply 200 (PStream (filter (isWanted wanted) replay) ch))))"

subsection \<open>Who may ask\<close>

definition bearer :: "request \<Rightarrow> string option" where
  "bearer r =
     (let h = rq_Authorization r
      in if prefix ''Bearer '' h then Some (trimSpace (drop (length ''Bearer '') h)) else None)"

definition authorized :: "'s server \<Rightarrow> request \<Rightarrow> bool" where
  "authorized s r \<longleftrightarrow> bearer r = Some (srv_token s)"

definition readsOnly :: "string \<Rightarrow> bool" where
  "readsOnly m \<longleftrightarrow> m = ''GET'' \<or> m = ''HEAD'' \<or> m = ''OPTIONS''"

definition identityAllowed :: "'s server \<Rightarrow> outside \<Rightarrow> string \<Rightarrow> request \<Rightarrow> bool" where
  "identityAllowed s out key r =
     (case bearer r of
        None \<Rightarrow> False
      | Some given \<Rightarrow>
          if srv_token s \<noteq> [] \<and> given = srv_token s then True
          else case VerifyServerToken (out_crypto out) given key (out_now out) of
            Inl _ \<Rightarrow> False
          | Inr identity \<Rightarrow> readsOnly (rq_Method r) \<or> CanWrite identity)"

definition metricsAllowed :: "'s server \<Rightarrow> outside \<Rightarrow> request \<Rightarrow> bool" where
  "metricsAllowed s out r =
     (case srv_identityKey s of
        Some key \<Rightarrow> identityAllowed s out key r
      | None \<Rightarrow>
          if srv_token s \<noteq> [] then authorized s r
          else case rq_RemoteHost r of None \<Rightarrow> False | Some h \<Rightarrow> net_Loopback (out_net out) h)"

subsection \<open>Routes\<close>

definition total :: "'s server \<times> answer \<Rightarrow> ('s server \<times> answer) option" where
  "total a = Some a"

definition routeJobs ::
  "'s server \<Rightarrow> outside \<Rightarrow> request \<Rightarrow> string list \<Rightarrow> ('s server \<times> answer) option" where
  "routeJobs s out r rest =
     (if rest = [] then total (handleJobs s out r)
      else if rest = [''submit''] then handleSubmitJob s out r
      else if rest = [''complete''] then handleCompleteJob s out r
      else if rest = [''cancel''] then handleCancelJob s out r
      else if rest = [''requeue''] then total (handleRequeueJob s r)
      else if rest = [''replan''] then total (handleReplan s r)
      else if rest = [''stop-requests''] then total (handleStopRequests s r)
      else if rest = [''stop-ack''] then total (handleStopAck s r)
      else if rest = [''detect-stale''] then total (handleDetectStale s out r)
      else total (handleJobByID s r))"

definition routeDispatch :: "'s server \<Rightarrow> outside \<Rightarrow> request \<Rightarrow> string list \<Rightarrow> 's server \<times> answer" where
  "routeDispatch s out r rest =
     (if rest = [] then handleDispatch s out r
      else if rest = [''waiting''] then handleWaiting s out r
      else if rest = [''state''] then handleState s r
      else if rest = [''eta''] then handleETA s out r
      else (s, notFound))"

definition routeMaintenance ::
  "'s server \<Rightarrow> outside \<Rightarrow> request \<Rightarrow> string list \<Rightarrow> ('s server \<times> answer) option" where
  "routeMaintenance s out r rest =
     (if rest = [''proposals''] then total (handleMaintenanceProposals s out r)
      else if rest = [''proposals'', ''approve''] \<or> rest = [''proposals'', ''reject'']
      then handleMaintenanceDecision s out r
      else total (s, notFound))"

definition mux :: "'s server \<Rightarrow> outside \<Rightarrow> request \<Rightarrow> ('s server \<times> answer) option" where
  "mux s out r =
     (case rq_Segments r of
        [] \<Rightarrow> total (s, notFound)
      | topic # rest \<Rightarrow>
          if topic = ''jobs'' then routeJobs s out r rest
          else if topic = ''robots'' then
            total (if rest = [] then handleRobots s out r else handleRobotByID s r)
          else if topic = ''dispatch'' then total (routeDispatch s out r rest)
          else if topic = ''maintenance'' then routeMaintenance s out r rest
          else if rq_Segments r = [''admin'', ''reload-config''] then total (handleReloadConfig s out r)
          else if rq_Segments r = [''events''] then total (handleEvents s r)
          else if rq_Segments r = [''health''] then total (handleHealth s r)
          else total (s, notFound))"

definition unauthorized :: "string \<Rightarrow> answer" where
  "unauthorized msg = (refuse 401 (Text msg))\<lparr>an_Authenticate := True\<rparr>"

definition serveRoutes :: "'s server \<Rightarrow> outside \<Rightarrow> request \<Rightarrow> ('s server \<times> answer) option" where
  "serveRoutes s out r =
     (case srv_identityKey s of
        Some key \<Rightarrow>
          if \<not> identityAllowed s out key r then Some (s, unauthorized ''a valid identity is required'')
          else mux s out r
      | None \<Rightarrow>
          if srv_token s \<noteq> [] \<and> rq_Segments r \<noteq> [''health''] \<and> \<not> authorized s r
          then Some (s, unauthorized ''a valid Authorization: Bearer token is required'')
          else mux s out r)"

subsection \<open>Counting the answers\<close>

definition Count :: "nat \<Rightarrow> 's server \<Rightarrow> 's server" where
  "Count status s =
     s\<lparr>srv_responses := (case srv_responses s of (a, b, c, d) \<Rightarrow>
         if status div 100 = 2 then (a + 1, b, c, d)
         else if status div 100 = 3 then (a, b + 1, c, d)
         else if status div 100 = 4 then (a, b, c + 1, d) else (a, b, c, d + 1))\<rparr>"

definition counted :: "'s server \<times> answer \<Rightarrow> 's server \<times> answer" where
  "counted sa = (case sa of (s, a) \<Rightarrow> (Count (an_Status a) s, a))"

definition ServeHTTP :: "'s server \<Rightarrow> outside \<Rightarrow> request \<Rightarrow> ('s server \<times> answer) option" where
  "ServeHTTP s out r =
     (if rq_Method r = ''GET'' \<and> rq_Segments r = [''metrics''] then
        Some (counted (s,
          (if \<not> srv_metricsOn s then refuse 404 (Text ''not found'')
           else if \<not> metricsAllowed s out r then unauthorized ''unauthorized''
           else reply 200 PMetrics)))
      else map_option counted (serveRoutes s out r))"

end
