(* ===== verification/Serving.thy ===== *)
theory Serving
  imports Api
begin

section \<open>What a request does to the engine\<close>

text \<open>
  The contract that every handler keeps and the router passes on: on an engine in order a request
  is always answered, the engine takes steps of its own state machine only, a request that is
  refused or only reads leaves every job and every robot as it was, and no request changes who may
  ask. The locale states it for any handler; it is interpreted on the whole server.
\<close>

subsection \<open>The contract\<close>

definition sameQueue :: "'s engine \<Rightarrow> 's engine \<Rightarrow> bool" where
  "sameQueue e e' \<longleftrightarrow> getJob e' = getJob e \<and> getRobot e' = getRobot e"

definition sameAccess :: "'s server \<Rightarrow> 's server \<Rightarrow> bool" where
  "sameAccess s s' \<longleftrightarrow> srv_token s' = srv_token s \<and> srv_identityKey s' = srv_identityKey s
     \<and> srv_metricsOn s' = srv_metricsOn s \<and> srv_proposals s' = srv_proposals s
     \<and> srv_reloader s' = srv_reloader s"

lemma sameQueue_refl [simp]: "sameQueue e e"
  by (simp add: sameQueue_def)

lemma sameQueue_trans: "sameQueue a b \<Longrightarrow> sameQueue b c \<Longrightarrow> sameQueue a c"
  by (simp add: sameQueue_def)

lemma sameAccess_refl [simp]: "sameAccess s s"
  by (simp add: sameAccess_def)

lemma sameAccess_trans: "sameAccess a b \<Longrightarrow> sameAccess b c \<Longrightarrow> sameAccess a c"
  by (simp add: sameAccess_def)

lemma sameAccess_updates [simp]:
  "sameAccess s (withEngine s' e) = sameAccess s s'"
  "sameAccess s (s'\<lparr>srv_maintenance := b\<rparr>) = sameAccess s s'"
  "sameAccess s (s'\<lparr>srv_engine := e\<rparr>) = sameAccess s s'"
  "sameAccess s (Count n s') = sameAccess s s'"
  by (simp_all add: sameAccess_def withEngine_def Count_def)

lemma srv_engine_updates [simp]:
  "srv_engine (withEngine s e) = e" "srv_engine (Count n s) = srv_engine s"
  by (simp_all add: withEngine_def Count_def)

text \<open>\<open>proper s r res\<close>: the result of handling the request \<open>r\<close> on the server \<open>s\<close> keeps the contract.\<close>

definition proper :: "'s server \<Rightarrow> request \<Rightarrow> ('s server \<times> answer) option \<Rightarrow> bool" where
  "proper s r res \<longleftrightarrow>
     (case res of None \<Rightarrow> False
      | Some (s', a) \<Rightarrow>
          reachable (srv_engine s) (srv_engine s') \<and> sameAccess s s'
          \<and> (400 \<le> an_Status a \<or> rq_Method r = ''GET'' \<longrightarrow> sameQueue (srv_engine s) (srv_engine s')))"

lemma reachable_one: "engine_step e e' \<Longrightarrow> reachable e e'"
  by (rule reachable.step [OF reachable.start])

lemma reachable_trans:
  assumes "reachable a b" and "reachable b c"
  shows "reachable a c"
  using assms(2,1) by (induction rule: reachable.induct) (auto intro: reachable.step)

named_theorems proper_intro

lemma proper_same [proper_intro]: "proper s r (Some (s, a))"
  by (simp add: proper_def reachable.start)

lemma proper_total [proper_intro]: "proper s r (Some x) \<Longrightarrow> proper s r (total x)"
  by (simp add: total_def)

lemma proper_if [proper_intro]:
  "(b \<Longrightarrow> proper s r x) \<Longrightarrow> (\<not> b \<Longrightarrow> proper s r y) \<Longrightarrow> proper s r (if b then x else y)"
  by simp

lemma proper_step:
  assumes "engine_step (srv_engine s) e" and "rq_Method r \<noteq> ''GET''"
    and "400 \<le> an_Status a \<Longrightarrow> sameQueue (srv_engine s) e"
  shows "proper s r (Some (withEngine s e, a))"
  using assms by (auto simp: proper_def intro: reachable_one)

lemma proper_done:
  assumes "engine_step (srv_engine s) e" and "rq_Method r \<noteq> ''GET''" and "an_Status a < 400"
  shows "proper s r (Some (withEngine s e, a))"
  using assms by (intro proper_step) simp_all

lemma proper_refused:
  assumes "engine_step (srv_engine s) e" and "rq_Method r \<noteq> ''GET''" and "sameQueue (srv_engine s) e"
  shows "proper s r (Some (withEngine s e, a))"
  using assms by (intro proper_step) simp_all

lemma proper_board:
  assumes "srv_engine s' = srv_engine s" and "sameAccess s s'"
  shows "proper s r (Some (s', a))"
  using assms by (simp add: proper_def reachable.start)

lemma proper_decode:
  assumes "\<And>x. decodeBody rd zero r = Inr x \<Longrightarrow> proper s r (f x)"
  shows "proper s r (case decodeBody rd zero r of Inl refusal \<Rightarrow> Some (s, refusal) | Inr x \<Rightarrow> f x)"
  using assms by (auto split: sum.splits intro: proper_same)

locale handler =
  fixes h :: "'s server \<Rightarrow> outside \<Rightarrow> request \<Rightarrow> ('s server \<times> answer) option"
  assumes handles: "engine_ok (srv_engine s) \<Longrightarrow> proper s r (h s out r)"
begin

lemma answers:
  assumes "engine_ok (srv_engine s)"
  obtains s' a where "h s out r = Some (s', a)" "engine_ok (srv_engine s')"
    "reachable (srv_engine s) (srv_engine s')"
  using handles [OF assms, of r out] reachable_ok [OF _ assms]
  by (auto simp: proper_def split: option.splits prod.splits)

lemma refusal_frame:
  assumes "engine_ok (srv_engine s)" and "h s out r = Some (s', a)" and "400 \<le> an_Status a"
  shows "sameQueue (srv_engine s) (srv_engine s')"
  using handles [OF assms(1), of r out] assms(2,3) by (simp add: proper_def)

lemma reading_frame:
  assumes "engine_ok (srv_engine s)" and "h s out r = Some (s', a)" and "rq_Method r = ''GET''"
  shows "sameQueue (srv_engine s) (srv_engine s')"
  using handles [OF assms(1), of r out] assms(2,3) by (simp add: proper_def)

lemma access_frame:
  assumes "engine_ok (srv_engine s)" and "h s out r = Some (s', a)"
  shows "sameAccess s s'"
  using handles [OF assms(1), of r out] assms(2) by (simp add: proper_def)

end

subsection \<open>The engine refuses without a change\<close>

lemma AddJob_refused:
  assumes "AddJob j now e = (e', Some err)"
  shows "sameQueue e e'"
  using assms addJobLocked_Inl(1,2) [of j now e]
  by (auto simp: AddJob_def sameQueue_def split: prod.splits sum.splits)

lemma SubmitJob_refused:
  assumes ok: "engine_ok e" and s: "SubmitJob j now e = Some (e', Inl err)"
  shows "sameQueue e e'"
proof (cases rule: SubmitJob_cases [OF ok, of j now])
  case 1
  then have "submitNew j now e = (e', Inl err)" using s by simp
  then obtain x where "addJobLocked j now e = (e', Inl x)"
    by (auto simp: submitNew_def split: prod.splits sum.splits)
  then show ?thesis using addJobLocked_Inl(1,2) [of j now e] by (simp add: sameQueue_def)
next
  case (2 x)
  then show ?thesis using s by simp
next
  case (3 x)
  then show ?thesis using s retryJob_effect [OF ok 3(3,5), of j now] by (auto split: if_splits)
qed

lemma CompleteJob_refusal:
  "CompleteJobAttempt jid success rid attempt now e = Some (e', Some err, ev) \<Longrightarrow> e' = e"
  by (auto simp: CompleteJobAttempt_def Let_def case_prod_unfold split: option.splits if_splits)

lemma CancelJob_refusal: "CancelJob jid now e = Some (e', Some err) \<Longrightarrow> e' = e"
  by (auto simp: CancelJob_def Let_def case_prod_unfold split: option.splits if_splits)

lemma RequeueJob_refusal: "RequeueJob jid rid e = (e', Some err) \<Longrightarrow> e' = e"
  by (auto simp: RequeueJob_def Let_def case_prod_unfold split: option.splits if_splits)

lemma ReplanRobot_refusal: "ReplanRobot rid e = (e', Inl err) \<Longrightarrow> e' = e"
  by (auto simp: ReplanRobot_def Let_def case_prod_unfold split: option.splits if_splits)

lemma AckStop_refusal: "AckStop rid jid e = (e', Some err) \<Longrightarrow> e' = e"
  by (auto simp: AckStop_def Let_def case_prod_unfold split: option.splits if_splits)

lemma RemoveRobot_refused:
  assumes "engine_ok e" and "RemoveRobot rid e = (e', Some err)"
  shows "sameQueue e e'"
  using RemoveRobot_effect [OF assms] by (auto simp: sameQueue_def)

lemma JobsPageFor_frame: "sameQueue e (snd (JobsPageFor robot status offset limit e))"
  by (auto simp: JobsPageFor_def jobsHeldByLocked_def sameQueue_def Let_def)

subsection \<open>Every handler keeps the contract\<close>

lemma proper_engine:
  assumes "reachable (srv_engine s) e" and "sameQueue (srv_engine s) e"
  shows "proper s r (Some (withEngine s e, a))"
  using assms by (simp add: proper_def)

lemma proper_listJobs: "proper s r (Some (handleListJobs s r))"
proof -
  have step: "proper s r (Some (withEngine s (snd (JobsPageFor robot status offset limit (srv_engine s))), a))"
    for robot status offset limit a
    by (rule proper_engine [OF reachable_one [OF engine_step.page] JobsPageFor_frame])
  have "proper s r (Some (case JobsPageFor robot status offset limit (srv_engine s) of
      (page, e) \<Rightarrow> (withEngine s e, listAnswer page)))" for robot status offset limit
    using step by (simp add: case_prod_unfold)
  then show ?thesis
    by (simp add: handleListJobs_def Let_def proper_same split: option.split)
qed

lemma proper_postJob:
  assumes "rq_Method r \<noteq> ''GET''"
  shows "proper s r (Some (postJob s out q))"
proof -
  have add: "engine_step (srv_engine s) (fst (AddJob (jobOf q) (out_now out) (srv_engine s)))"
    by (rule engine_step.add)
  show ?thesis
    using add AddJob_refused [of "jobOf q" "out_now out" "srv_engine s"] assms
    by (auto simp: postJob_def proper_same reply_def intro!: proper_step split: option.split prod.split)
qed

lemma proper_jobs: "proper s r (Some (handleJobs s out r))"
  by (auto simp: handleJobs_def proper_listJobs proper_same proper_postJob split: sum.split)

lemma proper_submit:
  assumes ok: "engine_ok (srv_engine s)"
  shows "proper s r (handleSubmitJob s out r)"
proof -
  have submitted: "proper s r
      (case SubmitJob (jobOf q) (out_now out) (srv_engine s) of
         None \<Rightarrow> None
       | Some (e, Inl err) \<Rightarrow>
           (if err = NilDereference then None
            else Some (withEngine s e, refuse (submitStatus err) (EngineError err)))
       | Some (e, Inr (stored, result)) \<Rightarrow>
           Some (withEngine s e, reply (if result = SubmitCreated then 201 else 200) (PSubmitted stored result)))"
    if post: "rq_Method r \<noteq> ''GET''" for q
  proof -
    obtain e' res where sub: "SubmitJob (jobOf q) (out_now out) (srv_engine s) = Some (e', res)"
        "res \<noteq> Inl NilDereference"
      using SubmitJob_ok [OF ok] by blast
    note step = engine_step.submit [OF sub(1)]
    show ?thesis
    proof (cases res)
      case (Inl err)
      then show ?thesis
        using sub proper_refused [OF step post SubmitJob_refused [OF ok sub(1) [unfolded Inl]]] by simp
    next
      case (Inr p)
      then show ?thesis using sub proper_done [OF step post] by (cases p) (simp add: reply_def)
    qed
  qed
  show ?thesis
    using submitted
    by (auto simp: handleSubmitJob_def proper_same split: requestBody.split sum.split option.split)
qed

lemma proper_complete:
  assumes ok: "engine_ok (srv_engine s)"
  shows "proper s r (handleCompleteJob s out r)"
proof -
  have reported: "proper s r
      (case CompleteJobAttempt jid success rid attempt (out_now out) (srv_engine s) of
         None \<Rightarrow> None
       | Some (e, Some err, _) \<Rightarrow>
           Some (withEngine s e, refuse (completeJobErrorStatus err) (EngineError err))
       | Some (e, None, _) \<Rightarrow> Some (withEngine s e, reply 200 (PJob (jobNow jid e))))"
    if post: "rq_Method r \<noteq> ''GET''" for jid success rid attempt
  proof -
    obtain e' err ev where c:
        "CompleteJobAttempt jid success rid attempt (out_now out) (srv_engine s) = Some (e', err, ev)"
      using CompleteJob_ok [OF ok] by blast
    note step = engine_step.complete [OF c]
    show ?thesis
      using c CompleteJob_refusal [of jid success rid attempt "out_now out" "srv_engine s" e' _ ev]
        proper_done [OF step post] proper_refused [OF step post]
      by (cases err) (simp_all add: reply_def)
  qed
  show ?thesis
    unfolding handleCompleteJob_def
    by (intro proper_if proper_same proper_decode) (simp_all add: reported)
qed

lemma proper_cancel:
  assumes ok: "engine_ok (srv_engine s)"
  shows "proper s r (handleCancelJob s out r)"
proof -
  have cancelled: "proper s r
      (case CancelJob jid (out_now out) (srv_engine s) of
         None \<Rightarrow> None
       | Some (e, Some err) \<Rightarrow> Some (withEngine s e, refuse (cancelStatus err) (EngineError err))
       | Some (e, None) \<Rightarrow> Some (withEngine s e, reply 200 (PJob (jobNow jid e))))"
    if post: "rq_Method r \<noteq> ''GET''" for jid
  proof -
    obtain e' err where c: "CancelJob jid (out_now out) (srv_engine s) = Some (e', err)"
      using CancelJob_ok [OF ok] by blast
    note step = engine_step.cancel [OF c]
    show ?thesis
      using c CancelJob_refusal [of jid "out_now out" "srv_engine s" e']
        proper_done [OF step post] proper_refused [OF step post]
      by (cases err) (simp_all add: reply_def)
  qed
  show ?thesis
    unfolding handleCancelJob_def
    by (intro proper_if proper_same proper_decode) (simp_all add: cancelled)
qed

text \<open>The operations that answer a new engine and an error or none.\<close>

lemma proper_operation:
  assumes "engine_step (srv_engine s) (fst p)" and "rq_Method r \<noteq> ''GET''"
    and "\<And>err. snd p = Some err \<Longrightarrow> sameQueue (srv_engine s) (fst p)"
    and "\<And>e. an_Status (good e) < 400"
  shows "proper s r (Some (case p of
      (e, Some err) \<Rightarrow> (withEngine s e, refuse (status err) (EngineError err))
    | (e, None) \<Rightarrow> (withEngine s e, good e)))"
  using assms proper_done [OF assms(1,2)] proper_refused [OF assms(1,2)]
  by (cases p; cases "snd p") simp_all

lemma proper_decoded:
  assumes "\<And>x. decodeBody rd zero r = Inr x \<Longrightarrow> proper s r (Some (f x))"
  shows "proper s r (Some (case decodeBody rd zero r of Inl refusal \<Rightarrow> (s, refusal) | Inr x \<Rightarrow> f x))"
  using assms by (auto split: sum.splits intro: proper_same)

lemma proper_Some_if [proper_intro]:
  "(b \<Longrightarrow> proper s r (Some x)) \<Longrightarrow> (\<not> b \<Longrightarrow> proper s r (Some y)) \<Longrightarrow>
   proper s r (Some (if b then x else y))"
  by simp

lemma reply_status [simp]: "an_Status (reply n p) = n" "an_Status (refuse n err) = n"
  by (simp_all add: reply_def refuse_def)

lemma proper_requeue: "proper s r (Some (handleRequeueJob s r))"
  unfolding handleRequeueJob_def
  by (intro proper_Some_if proper_same proper_decoded proper_operation engine_step.requeue)
    (use RequeueJob_refusal in \<open>fastforce simp: prod_eq_iff\<close>)+

lemma proper_stopAck: "proper s r (Some (handleStopAck s r))"
  unfolding handleStopAck_def
  by (intro proper_Some_if proper_same proper_decoded proper_operation engine_step.ackStop)
    (use AckStop_refusal in \<open>fastforce simp: prod_eq_iff\<close>)+

lemma proper_removeRobot:
  assumes ok: "engine_ok (srv_engine s)"
  shows "proper s r (Some (handleRobotByID s r))"
proof -
  have removed: "proper s r (Some (case RemoveRobot rid (srv_engine s) of
      (e, Some err) \<Rightarrow> (withEngine s e, refuse (removeStatus err) (EngineError err))
    | (e, None) \<Rightarrow> (withEngine s e, reply 200 (PRobots (Robots e)))))"
    if "rq_Method r \<noteq> ''GET''" for rid
    using that RemoveRobot_refused [OF ok, of rid]
    by (intro proper_operation engine_step.remove) (simp_all add: prod_eq_iff)
  show ?thesis
    by (auto simp: handleRobotByID_def proper_same removed split: option.split)
qed

lemma proper_replan: "proper s r (Some (handleReplan s r))"
proof -
  have replanned: "proper s r (Some (case ReplanRobot rid (srv_engine s) of
      (e, Inl err) \<Rightarrow> (withEngine s e, refuse (replanStatus err) (EngineError err))
    | (e, Inr ids) \<Rightarrow> (withEngine s e, reply 200 (PRequeued ids))))"
    if post: "rq_Method r \<noteq> ''GET''" for rid
  proof -
    have step: "engine_step (srv_engine s) (fst (ReplanRobot rid (srv_engine s)))"
      by (rule engine_step.replan)
    show ?thesis
      using proper_done [OF step post] proper_refused [OF step post]
        ReplanRobot_refusal [of rid "srv_engine s" "fst (ReplanRobot rid (srv_engine s))"]
      by (cases "ReplanRobot rid (srv_engine s)"; cases "snd (ReplanRobot rid (srv_engine s))") simp_all
  qed
  show ?thesis
    unfolding handleReplan_def
    by (intro proper_Some_if proper_same proper_decoded) (simp_all add: replanned)
qed

lemma proper_stopRequests: "proper s r (Some (handleStopRequests s r))"
  unfolding handleStopRequests_def by (intro proper_Some_if proper_same)

lemma proper_robots: "proper s r (Some (handleRobots s out r))"
  unfolding handleRobots_def Let_def
  by (intro proper_Some_if proper_same proper_decoded proper_done engine_step.heartbeat) simp_all

lemma proper_detectStale: "proper s r (Some (handleDetectStale s out r))"
proof -
  have swept: "proper s r (Some (case DetectStaleAssignmentsStop timeout (out_now out) (srv_engine s) of
      (e, result) \<Rightarrow> (withEngine s e, reply 200 (f e result))))"
    if "rq_Method r \<noteq> ''GET''" for timeout f
    using proper_done [OF engine_step.sweep [of "srv_engine s" timeout "out_now out"] that]
    by (simp add: case_prod_unfold)
  show ?thesis
    unfolding handleDetectStale_def
    by (intro proper_Some_if proper_same proper_decoded swept) simp
qed

lemma proper_readers:
  "proper s r (Some (handleJobByID s r))" "proper s r (Some (handleState s r))"
  "proper s r (Some (handleHealth s r))" "proper s r (Some (handleWaiting s out r))"
  "proper s r (Some (handleETA s out r))"
  by (simp_all add: handleJobByID_def handleState_def handleHealth_def handleWaiting_def
      handleETA_def Let_def proper_same split: option.split)

text \<open>A pass asks the controllers first: two steps of the engine.\<close>

lemma ConfirmTools_reachable: "reachable e (fst (ConfirmTools fetch id now e))"
  by (simp add: ConfirmTools_def reachable.start reachable_one [OF engine_step.confirm])

lemma proper_dispatch: "proper s r (Some (handleDispatch s out r))"
proof -
  let ?e = "fst (ConfirmTools (out_fetch out) id (out_now out) (srv_engine s))"
  have "reachable (srv_engine s) (fst (DispatchOnce (out_clock out) ?e))"
    by (rule reachable_trans [OF ConfirmTools_reachable reachable_one [OF engine_step.dispatch]])
  then show ?thesis
    by (simp add: handleDispatch_def proper_same case_prod_unfold Let_def)
      (simp add: proper_def)
qed

text \<open>A reload installs settings only, one step each, or leaves everything as it was.\<close>

lemma applyConfig_steps:
  assumes "applyConfig rl cfg e board = (e', board', err)"
  shows "reachable e e'" and "sameQueue e e'"
proof -
  let ?e1 = "fst (SetLocationCosts (LocationSetting cfg) e)"
  let ?eta = "SetETA \<lparr>eta_Enabled = True, eta_DefaultDuration = cr_EtaDefault rl,
    eta_Window = cr_EtaWindow rl, eta_Interval = IntervalSetting cfg\<rparr> ?e1"
  have costs: "reachable e ?e1" by (rule reachable_one [OF engine_step.setCosts])
  have eta: "reachable e (if cr_EtaOn rl then ?eta else ?e1)"
    using costs reachable.step [OF costs engine_step.setETA] by simp
  have replan: "reachable e (SetReplan (ReplanSetting cfg) (if cr_EtaOn rl then ?eta else ?e1))"
    by (rule reachable.step [OF eta engine_step.setReplan])
  show "reachable e e'"
    using assms costs replan
    by (auto simp: applyConfig_def Let_def split: prod.splits option.splits)
  have "sameQueue e ?e1" by (auto simp: SetLocationCosts_def sameQueue_def split: option.splits)
  then show "sameQueue e e'"
    using assms
    by (auto simp: applyConfig_def Let_def sameQueue_def SetReplan_def SetETA_def
        split: prod.splits option.splits if_splits)
qed

lemma Reload_steps:
  assumes "Reload net getenv file rl e board = (e', board', res)"
  shows "reachable e e' \<and> sameQueue e e'"
proof (cases "LoadConfigFile net getenv file")
  case (Inl err)
  then show ?thesis using assms by (simp add: Reload_def reachable.start)
next
  case (Inr cfg)
  then show ?thesis
    using assms applyConfig_steps [of rl cfg e board]
    by (auto simp: Reload_def reachable.start split: if_splits prod.splits option.splits)
qed

lemma proper_reload: "proper s r (Some (handleReloadConfig s out r))"
proof -
  have "proper s r (Some (case Reload net getenv doc rl (srv_engine s) (srv_maintenance s) of
      (e, board, result) \<Rightarrow> (s\<lparr>srv_engine := e, srv_maintenance := board\<rparr>, f result)))"
    for net getenv doc rl f
    using Reload_steps [of net getenv doc rl "srv_engine s" "srv_maintenance s"]
    by (auto simp: proper_def sameAccess_def split: prod.split)
  then show ?thesis
    by (auto simp: handleReloadConfig_def proper_same split: option.split)
qed

lemma proper_proposals: "proper s r (Some (handleMaintenanceProposals s out r))"
  by (auto simp: handleMaintenanceProposals_def proper_same proper_board
      split: option.split prod.split sum.split)

lemma Approve_result:
  assumes ok: "engine_ok e"
  obtains b' e' res where "Approve pid who now later b e = Some (b', e', res)"
    "res \<noteq> Inl (ErrSubmit NilDereference)" "reachable e e'"
    "\<And>err. res = Inl err \<Longrightarrow> sameQueue e e'"
proof (cases "mc_Enabled (mb_cfg b) \<and> (\<exists>p. openLocked pid (expireLocked now b) = Inr p)")
  case False
  then have "\<exists>b' err. Approve pid who now later b e = Some (b', e, Inl err) \<and> err \<noteq> ErrSubmit NilDereference"
    by (auto simp: Approve_def Let_def openLocked_def split: option.splits)
  then show thesis using that reachable.start [of e] by (metis Inl_inject sameQueue_refl)
next
  case True
  then obtain p where p: "openLocked pid (expireLocked now b) = Inr p" by blast
  let ?j = "maintenanceJob (mb_cfg (expireLocked now b)) p"
  obtain e' res where sub: "SubmitJob ?j later e = Some (e', res)" "res \<noteq> Inl NilDereference"
    using SubmitJob_ok [OF ok] by blast
  note step = reachable_one [OF engine_step.submit [OF sub(1)]]
  show thesis
  proof (cases res)
    case (Inl err)
    then have "Approve pid who now later b e = Some (expireLocked now b, e', Inl (ErrSubmit err))"
      using True p sub by (simp add: Approve_def Let_def)
    then show thesis using that step sub(2) Inl SubmitJob_refused [OF ok sub(1) [unfolded Inl]] by blast
  next
    case (Inr x)
    then show thesis using that [OF _ _ step] True p sub
      by (cases x) (simp add: Approve_def Let_def)
  qed
qed

lemma proper_approve:
  assumes "engine_ok (srv_engine s)" and "rq_Method r \<noteq> ''GET''"
  shows "proper s r (approveAnswer s (Approve pid who now later b (srv_engine s)))"
proof -
  obtain b' e' res where a: "Approve pid who now later b (srv_engine s) = Some (b', e', res)"
    "res \<noteq> Inl (ErrSubmit NilDereference)" "reachable (srv_engine s) e'"
    "\<And>err. res = Inl err \<Longrightarrow> sameQueue (srv_engine s) e'"
    using Approve_result [OF assms(1)] by blast
  then show ?thesis
    using assms(2) by (cases res) (auto simp: approveAnswer_def proper_def sameAccess_def)
qed

lemma proper_decision:
  assumes ok: "engine_ok (srv_engine s)"
  shows "proper s r (handleMaintenanceDecision s out r)"
  by (cases "openBoard s")
    (auto simp: handleMaintenanceDecision_def proper_same proper_board
      intro!: proper_decode proper_if proper_approve [OF ok]
      split: sum.split prod.split)

lemma proper_events: "proper s r (Some (handleEvents s r))"
proof -
  have "reachable (srv_engine s) (SetEvents h (srv_engine s))" for h
    by (rule reachable_one [OF engine_step.setEvents])
  then have "proper s r (Some (withEngine s (SetEvents h (srv_engine s)), a))" for h a
    by (rule proper_engine) (simp add: sameQueue_def SetEvents_def)
  then show ?thesis
    by (simp add: handleEvents_def proper_same split: option.split prod.split)
qed

subsection \<open>The router and the server\<close>

lemmas proper_handlers = proper_jobs proper_requeue proper_replan proper_stopRequests proper_stopAck
  proper_detectStale proper_readers proper_robots proper_dispatch proper_reload proper_proposals
  proper_events proper_same

lemma proper_mux:
  assumes ok: "engine_ok (srv_engine s)"
  shows "proper s r (mux s out r)"
proof -
  note strong = proper_submit [OF ok] proper_complete [OF ok] proper_cancel [OF ok]
    proper_removeRobot [OF ok] proper_decision [OF ok]
  have "proper s r (routeJobs s out r rest)" "proper s r (Some (routeDispatch s out r rest))"
    "proper s r (routeMaintenance s out r rest)" for rest
    by (simp_all add: routeJobs_def routeDispatch_def routeMaintenance_def total_def
        proper_handlers strong)
  then show ?thesis
    by (simp add: mux_def total_def proper_handlers strong split: list.split)
qed

lemma proper_serveRoutes:
  assumes "engine_ok (srv_engine s)"
  shows "proper s r (serveRoutes s out r)"
  using proper_mux [OF assms] by (simp add: serveRoutes_def proper_same split: option.split)

lemma proper_counted: "proper s r res \<Longrightarrow> proper s r (map_option counted res)"
  by (auto simp: proper_def counted_def split: option.splits prod.splits)

interpretation api: handler ServeHTTP
proof
  fix s :: "'a server" and r out
  assume "engine_ok (srv_engine s)"
  then show "proper s r (ServeHTTP s out r)"
    using proper_counted [OF proper_serveRoutes, of s r out] proper_counted [OF proper_same]
    by (auto simp: ServeHTTP_def)
qed

end
