(* ===== verification/ApiTheorems.thy ===== *)
theory ApiTheorems
  imports Serving Demo
begin

section \<open>Theorems on the HTTP API\<close>

subsection \<open>A server in operation\<close>

text \<open>
  A server is in operation when its engine is one the service can have and it went through any
  requests, with any steps of the engine between them (the sweep and the archive run on timers, and
  handlers of other requests interleave).
\<close>

inductive serving :: "'s server \<Rightarrow> bool" where
  start: "running (srv_engine s) \<Longrightarrow> serving s"
| request: "serving s \<Longrightarrow> ServeHTTP s out r = Some (s', a) \<Longrightarrow> serving s'"
| background: "serving s \<Longrightarrow> engine_step (srv_engine s) e \<Longrightarrow> serving (withEngine s e)"

lemma serving_running: "serving s \<Longrightarrow> running (srv_engine s)"
proof (induction rule: serving.induct)
  case (request s out r s' a)
  obtain s2 a2 where "ServeHTTP s out r = Some (s2, a2)" "reachable (srv_engine s) (srv_engine s2)"
    using api.answers [OF running_ok [OF request.IH], of out r] by metis
  then show ?case using request reachable_running by auto
qed (auto intro: running.step)

lemma serving_ok: "serving s \<Longrightarrow> engine_ok (srv_engine s)"
  by (rule running_ok [OF serving_running])

lemma serving_NewServer: "serving (NewServer NewEngine)"
  by (rule serving.start) (simp add: NewServer_def running_NewEngine)



subsection \<open>A small server\<close>

text \<open>The world outside, and a server on the plant of the demonstration.\<close>

definition aWorld :: outside where
  "aWorld =
     \<lparr>out_now = 50, out_later = 51, out_clock = (\<lambda>_. 50), out_fetch = (\<lambda>_. None),
      out_post = (\<lambda>_ _ _. None), out_readFile = (\<lambda>_. None),
      out_crypto = \<lparr>cry_Base64 = Some,
        cry_JSON = (\<lambda>s. if s = ''h'' then Some (JObject [(''alg'', JString ''HS256'')])
          else if s = ''c'' then Some (JObject [(''exp'', JNumber (Whole 9)),
            (''username'', JString ''ana''), (''role'', JString ''operator'')]) else None),
        cry_HMAC = (\<lambda>key msg. key @ ''sum''), cry_Encode = id, cry_Marshal = (\<lambda>_. [])\<rparr>,
      out_net = \<lparr>net_Parse = (\<lambda>_. None), net_Loopback = (\<lambda>h. h = ''127.0.0.1'')\<rparr>,
      out_getenv = (\<lambda>_. []), out_file = None\<rparr>"

definition aRequest :: "string \<Rightarrow> string list \<Rightarrow> requestBody \<Rightarrow> request" where
  "aRequest m segs b = \<lparr>rq_Method = m, rq_Segments = segs, rq_Query = [], rq_Authorization = [],
     rq_LastEventID = [], rq_RemoteHost = None, rq_Body = b\<rparr>"

definition plantServer :: "unit server" where
  "plantServer = NewServer plant2"

lemma serving_plant: "serving plantServer"
  by (rule serving.start) (simp add: plantServer_def NewServer_def plants_running)



subsection \<open>Who may ask\<close>

text \<open>
  C24: with the identity of HYDRA-UMC-SERVER on, nobody gets in without one. Every request but the
  reading of the metrics is answered 401 and changes nothing but the counter of the answers, unless
  it carries the token of the API or a token of three parts whose last is the keyed hash of the
  other two, not expired, with a known role; and a role that only reads gets no further than GET,
  HEAD and OPTIONS.
\<close>

theorem identity_required:
  assumes key: "srv_identityKey s = Some key" and h: "ServeHTTP s out r = Some (s', a)"
    and route: "rq_Segments r \<noteq> [''metrics'']"
  shows "an_Status a = 401 \<and> s' = Count 401 s
    \<or> (srv_token s \<noteq> [] \<and> bearer r = Some (srv_token s))
    \<or> (\<exists>head body signed claims expiry role.
        bearer r = Some (head @ CHR ''.'' # body @ CHR ''.'' # signed)
        \<and> decodeBase64 (out_crypto out) signed = Some (cry_HMAC (out_crypto out) key (head @ ''.'' @ body))
        \<and> decodeTokenPart (out_crypto out) body = Some claims
        \<and> finiteSeconds claims ''exp'' = Seconds expiry \<and> momentOf (out_now out) < expiry
        \<and> asText (go_get claims ''role'') = role
        \<and> (role \<in> {''admin'', ''operator''} \<or> role = ''viewer'' \<and> readsOnly (rq_Method r)))"
proof (cases "identityAllowed s out key r")
  case False
  then show ?thesis
    using key h route by (auto simp: ServeHTTP_def serveRoutes_def counted_def unauthorized_def)
next
  case True
  show ?thesis
  proof (cases "srv_token s \<noteq> [] \<and> bearer r = Some (srv_token s)")
    case False
    then obtain given i where g: "bearer r = Some given"
      "VerifyServerToken (out_crypto out) given key (out_now out) = Inr i"
      "readsOnly (rq_Method r) \<or> CanWrite i"
      using True by (auto simp: identityAllowed_def split: option.splits sum.splits if_splits)
    obtain head body signed claims expiry where t:
      "given = head @ CHR ''.'' # body @ CHR ''.'' # signed"
      "decodeBase64 (out_crypto out) signed = Some (cry_HMAC (out_crypto out) key (head @ ''.'' @ body))"
      "decodeTokenPart (out_crypto out) body = Some claims"
      "finiteSeconds claims ''exp'' = Seconds expiry" "momentOf (out_now out) < expiry"
      "asText (go_get claims ''role'') = id_Role i" "id_Role i \<in> {''admin'', ''operator'', ''viewer''}"
      using VerifyServerToken_accepted [OF g(2)] by metis
    have "id_Role i \<in> {''admin'', ''operator''} \<or> id_Role i = ''viewer'' \<and> readsOnly (rq_Method r)"
      using g(3) t(7) by (auto simp: CanWrite_def)
    then show ?thesis using g(1) t by blast
  qed simp
qed

text \<open>The operator's token of the small world lets a heartbeat through.\<close>

definition identityServer :: "unit server" where
  "identityServer = plantServer\<lparr>srv_identityKey := Some ''k''\<rparr>"

definition aHeartbeat :: request where
  "aHeartbeat = (aRequest ''POST'' [''health''] Unreadable)\<lparr>rq_Authorization := ''Bearer h.c.ksum''\<rparr>"

lemma aHeartbeat_bearer: "bearer aHeartbeat = Some ''h.c.ksum''"
  by code_simp

lemma aMoment: "momentOf 50 < 9"
  using rnd64_le_int [of "rnd64 50 / 1000000000" 1] rnd64_int [of 50] by (simp add: momentOf_def)

lemma aHeartbeat_allowed: "identityAllowed identityServer aWorld ''k'' aHeartbeat"
proof -
  have nine: "readFloat (Whole 9) = Some (Fin 9)"
    using rnd64_int [of 9] by (simp add: readFloat_def numberValue_def)
  have "VerifyServerToken (out_crypto aWorld) ''h.c.ksum'' ''k'' (out_now aWorld)
      = Inr \<lparr>id_Username = ''ana'', id_Role = ''operator''\<rparr>"
    using aMoment nine
    by (simp add: VerifyServerToken_def maxIdentityTokenChars_def decodeTokenPart_def decodeBase64_def
        trimRightChar_def storeAnyMap_def aWorld_def asText_def checkClaims_def finiteSeconds_def Let_def)
  then show ?thesis
    using aHeartbeat_bearer
    by (simp add: identityAllowed_def identityServer_def plantServer_def NewServer_def CanWrite_def)
qed

lemma identity_required_witness:
  "\<exists>s' a. ServeHTTP identityServer aWorld aHeartbeat = Some (s', a) \<and> an_Status a = 405
     \<and> (\<exists>head body signed. bearer aHeartbeat = Some (head @ CHR ''.'' # body @ CHR ''.'' # signed)
        \<and> decodeBase64 (out_crypto aWorld) signed = Some (''k'' @ ''sum''))"
proof -
  have h: "ServeHTTP identityServer aWorld aHeartbeat = Some (counted (identityServer, useGet))"
    using aHeartbeat_allowed
    by (simp add: ServeHTTP_def serveRoutes_def mux_def handleHealth_def aHeartbeat_def aRequest_def
        identityServer_def total_def)
  have c: "srv_identityKey identityServer = Some ''k''" "srv_token identityServer = []"
    "rq_Segments aHeartbeat \<noteq> [''metrics'']"
    by (simp_all add: identityServer_def plantServer_def NewServer_def aHeartbeat_def aRequest_def)
  have w: "cry_HMAC (out_crypto aWorld) ''k'' m = ''k'' @ ''sum''" for m by (simp add: aWorld_def)
  show ?thesis
    using identity_required [OF c(1) _ c(3), of aWorld] h c(2) w
    by (simp add: counted_def notAllowed_def) metis
qed

subsection \<open>Operations and reports\<close>

lemma fromOperation_fields:
  assumes "fromOperation op = Inr q"
  shows "jq_DedupKey q = jq_ID q" "jq_ID q \<noteq> []" "jq_Proposal q = None"
  using assms
  by (auto simp: fromOperation_def noJobRequest_def split: if_splits option.splits)

lemma checkProposal_none:
  "srv_proposals s' = srv_proposals s \<Longrightarrow> checkProposal s' out' None robot = checkProposal s out None robot"
  by (simp add: checkProposal_def split: option.split)


definition anOperation :: "(string \<times> json) list" where
  "anOperation = [(''schema_version'', JString ''1.0''), (''operation_id'', JString ''op''),
     (''status'', JString ''received''), (''params'', JObject [(''location'', JString ''dock'')])]"

definition opRequest :: request where
  "opRequest = aRequest ''POST'' [''jobs'', ''submit''] (Body (JObject anOperation) False)"

definition opResult :: "unit server \<times> answer" where
  "opResult = the (handleSubmitJob plantServer aWorld opRequest)"

lemma opRequest_created: "handleSubmitJob plantServer aWorld opRequest \<noteq> None
    \<and> (case an_Body (snd opResult) of PSubmitted j res \<Rightarrow> job_Location j = ''dock'' \<and> res = SubmitCreated
        | _ \<Rightarrow> False)"
  by code_simp



definition reportRequest :: request where
  "reportRequest = aRequest ''POST'' [''jobs'', ''complete'']
     (Body (JObject [(''id'', JString ''a''), (''robotId'', JString ''m''), (''success'', JBool True),
        (''attempt'', JNumber (Whole 1))]) False)"

definition aReport :: completeRequest where
  "aReport = \<lparr>cq_ID = ''a'', cq_Success = True, cq_RobotID = ''m'', cq_Attempt = 1\<rparr>"


subsection \<open>The timeout of a sweep\<close>

lemma silent_minDuration: "silentRobot minDuration now b \<longleftrightarrow> rob_LastHeartbeat b \<noteq> None"
  by (auto simp: silentRobot_def time_sub_def split: option.splits)

lemma exact_2_63: "rnd64 (2 ^ 63) = 2 ^ 63"
  by code_simp

lemma readFloat_whole:
  assumes "0 \<le> n" and "n < 2 ^ 53"
  shows "readFloat (Whole n) = Some (Fin (of_int n))"
proof -
  have "(of_int n :: rat) < of_int (2 ^ 53)" using assms(2) by (simp only: of_int_less_iff)
  also have "\<dots> < 2 ^ 1024" by simp
  finally show ?thesis using rnd64_int [OF assms] assms(1) by (simp add: readFloat_def numberValue_def)
qed

lemma duration_in_range:
  assumes "0 \<le> n" and "n \<le> 9007199"
  shows "durationOf (Fin (of_int n)) second = n * second"
proof -
  have lt: "n * 1000000000 < 2 ^ 53"
    using assms(2) by (rule le_less_trans [OF mult_right_mono]) simp_all
  have r: "rnd64 (of_int (n * 1000000000)) = of_int (n * 1000000000)"
    using assms(1) lt by (intro rnd64_int) simp_all
  have "(of_int (n * 1000000000) :: rat) < of_int (2 ^ 53)" using lt by (simp only: of_int_less_iff)
  also have "\<dots> < 2 ^ 1024" by simp
  finally have "floatTimes (Fin (of_int n)) (of_int second) = Fin (of_int (n * 1000000000))"
    using r assms(1) by (simp add: floatTimes_def second_def Let_def)
  then show ?thesis
    using assms by (simp add: durationOf_def toDuration_def second_def minDuration_def maxDuration_def
        del: of_int_mult)
qed

lemma duration_beyond:
  assumes "9223372037 \<le> n"
  shows "durationOf (Fin (of_int n)) second = minDuration"
proof -
  let ?w = "rnd64 (of_int n * of_int second)"
  have "(9223372037 :: rat) \<le> of_int n" using assms by simp
  then have "(2 ^ 63 :: rat) \<le> of_int n * of_int second" by (simp add: second_def)
  then have w: "2 ^ 63 \<le> ?w" using rnd64_mono [of "2 ^ 63" "of_int n * of_int second"] exact_2_63 by simp
  have "(2 ^ 63 :: int) \<le> toInt ?w" using toInt_mono [OF _ w] toInt_int [of "2 ^ 63"] by simp
  then show ?thesis
    by (simp add: durationOf_def floatTimes_def toDuration_def Let_def maxDuration_def)
qed

text \<open>The seconds of a sweep as the engine gets them, and the robots that counts as silent.\<close>

definition sweepSilent :: "int \<Rightarrow> instant \<Rightarrow> robot \<Rightarrow> bool" where
  "sweepSilent n now b \<longleftrightarrow>
     (if n \<le> 9007199 then silentRobot (n * second) now b else rob_LastHeartbeat b \<noteq> None)"


definition sweepRequest :: request where
  "sweepRequest = aRequest ''POST'' [''jobs'', ''detect-stale'']
     (Body (JObject [(''timeoutSeconds'', JNumber (Whole 9223372037))]) False)"


end
