(* ===== verification/ConfigTheorems.thy ===== *)
theory ConfigTheorems
  imports Reload
begin

section \<open>Theorems on the configuration\<close>

text \<open>
  A file that is accepted gives settings the service can work with: no number of seconds, minutes
  or days of it leaves the range of a duration, so no conversion wraps around. A reload that is
  refused changes nothing.
\<close>

subsection \<open>A small file\<close>

text \<open>A file with one section, read step by step.\<close>

definition aFile :: fileText where
  "aFile = DocumentText (JObject [(''archive'', JObject [(''days'', JNumber (Whole 7))])]) False"

definition noNet :: netlib where
  "noNet = \<lparr>net_Parse = (\<lambda>_. None), net_Loopback = (\<lambda>h. h = ''127.0.0.1'')\<rparr>"

definition aConfig :: FileConfig where
  "aConfig = noConfig\<lparr>fc_Archive := Some \<lparr>as_Days = Some (Fin 7), as_EveryMinutes = None\<rparr>\<rparr>"

lemma findField_exact: "map_of fs k = Some st \<Longrightarrow> findField fs k = Some st"
  by (simp add: findField_def)

lemma days_field: "findField archiveFields ''days'' =
    Some (\<lambda>v r. map_option (\<lambda>x. as_Days_update (\<lambda>_. x) r) (optFloat v (as_Days r)))"
  by (rule findField_exact) (simp add: archiveFields_def field_def)

lemma archive_field: "findField configFields ''archive'' =
    Some (\<lambda>v r. map_option (\<lambda>x. fc_Archive_update (\<lambda>_. x) r)
      (sectionOf \<lparr>as_Days = None, as_EveryMinutes = None\<rparr> archiveFields v (fc_Archive r)))"
  by (rule findField_exact)
    (simp only: configFields_def field_def map_of.simps fst_conv snd_conv fun_upd_def, simp)

lemma reads_seven: "readFloat (Whole 7) = Some (Fin 7)"
  using rnd64_int [of 7] by (simp add: readFloat_def numberValue_def)

lemma reads_days:
  "storeStruct True archiveFields (JObject [(''days'', JNumber (Whole 7))])
     \<lparr>as_Days = None, as_EveryMinutes = None\<rparr> = Some \<lparr>as_Days = Some (Fin 7), as_EveryMinutes = None\<rparr>"
  by (simp add: days_field storePointer_def reads_seven)

lemma reads_file:
  "storeStruct True configFields (JObject [(''archive'', JObject [(''days'', JNumber (Whole 7))])]) noConfig
   = Some aConfig"
  by (simp add: archive_field sectionOf_def storePointer_def reads_days aConfig_def noConfig_def
      del: storeStruct.simps(2) add: storeStruct.simps(2) [of True configFields])

subsection \<open>From seconds to durations\<close>

lemma Fin_within: "floatWithin lo hi x \<Longrightarrow> \<exists>v. x = Fin v \<and> lo \<le> v \<and> v \<le> hi"
  by (cases x) (auto simp: floatWithin_def float_le_def float_eq_def)

lemma rnd64_le_fixed: "0 \<le> x \<Longrightarrow> x \<le> b \<Longrightarrow> rnd64 b = b \<Longrightarrow> rnd64 x \<le> b"
  using rnd64_mono by metis

lemma rnd64_ge_fixed: "0 \<le> b \<Longrightarrow> b \<le> x \<Longrightarrow> rnd64 b = b \<Longrightarrow> b \<le> rnd64 x"
  using rnd64_mono by metis

text \<open>A value between two bounds whose products with the unit are exact stays between them.\<close>

lemma durationOf_within:
  assumes v: "of_int lo \<le> v" "v \<le> of_int hi" and lo: "0 \<le> lo" and u: "0 < u"
    and exact: "rnd64 (of_int (lo * u)) = of_int (lo * u)" "rnd64 (of_int (hi * u)) = of_int (hi * u)"
    and big: "hi * u \<le> maxDuration"
  shows "lo * u \<le> durationOf (Fin v) u \<and> durationOf (Fin v) u \<le> hi * u"
proof -
  let ?w = "rnd64 (v * of_int u)"
  have a: "0 \<le> lo * u" using lo u by simp
  have p: "of_int (lo * u) \<le> v * of_int u" "v * of_int u \<le> of_int (hi * u)"
    using v u by (simp_all add: mult_right_mono)
  have nonneg: "0 \<le> v * of_int u" using p(1) a by (meson of_int_0_le_iff order_trans)
  have w: "of_int (lo * u) \<le> ?w" "?w \<le> of_int (hi * u)"
    using rnd64_mono [of "of_int (lo * u)" "v * of_int u"] rnd64_mono [OF nonneg p(2)] p(1) a exact
    by (simp_all del: of_int_mult)
  have w0: "0 \<le> ?w" using nonneg by (rule rnd64_nonneg)
  have t: "lo * u \<le> toInt ?w" "toInt ?w \<le> hi * u"
    using toInt_mono [OF _ w(1)] toInt_mono [OF w0 w(2)] a by (simp_all del: of_int_mult)
  have "?w \<le> of_int maxDuration" using w(2) big by (meson of_int_le_iff order_trans)
  moreover have "(of_int maxDuration :: rat) < 2 ^ 1024" by (simp add: maxDuration_def)
  ultimately have "?w < 2 ^ 1024" by (rule order_le_less_trans)
  moreover have "- (2 ^ 1024) < ?w" using w0 by (rule order_less_le_trans [rotated]) simp
  moreover have "minDuration \<le> lo * u" using a by (simp add: minDuration_def)
  ultimately show ?thesis
    using t big by (simp add: durationOf_def floatTimes_def toDuration_def Let_def)
qed

lemma exact_year: "rnd64 31536000000000000 = 31536000000000000"
  by code_simp

lemma exact_decade: "rnd64 315360000000000000 = 315360000000000000"
  by code_simp

subsection \<open>The checks one by one\<close>

lemma firstError_None: "firstError check xs = None \<longleftrightarrow> (\<forall>x \<in> set xs. check x = None)"
  by (induction xs) (auto split: option.splits)

lemma optionally_Some [simp]: "optionally P (Some v) = P v" "optionally P None = True"
  by (simp_all add: optionally_def)

lemma Validate_checks:
  assumes "Validate net getenv c = None"
  shows "LocationValidate (LocationSetting c) = None" "checkReplan (fc_Replan c) = None"
    "checkMaintenance (fc_Maintenance c) = None" "EventsValidate net (EventsSetting c) = None"
    "MissionStateValidate net (MissionStateSetting getenv c) = None"
    "ToolConfirmValidate (ToolConfirmSetting c) = None"
    "ProposalVerifyValidate net (ProposalVerifySetting c) = None"
    "archiveValid (fc_Archive c)" "checkInterval c = None"
  using assms unfolding Validate_def firstError_None by (auto split: if_splits)

lemma seconds_within:
  assumes "optionally (\<lambda>x. \<exists>v. x = Fin v \<and> 0 \<le> v \<and> v \<le> of_int hi) p"
    and "rnd64 (of_int (hi * second)) = of_int (hi * second)" and "0 \<le> hi" and "hi * second \<le> maxDuration"
    and "0 \<le> def" and "def \<le> hi * second"
  shows "0 \<le> seconds p def \<and> seconds p def \<le> hi * second"
proof (cases p)
  case (Some x)
  then obtain v where "x = Fin v" "0 \<le> v" "v \<le> of_int hi" using assms(1) by auto
  then show ?thesis
    using durationOf_within [of 0 v hi second] assms Some by (simp add: seconds_def second_def)
qed (use assms in \<open>simp add: seconds_def\<close>)

lemma replan_in_range:
  assumes "checkReplan (fc_Replan c) = None"
  shows "0 \<le> rp_StopAckTimeout (ReplanSetting c) \<and> rp_StopAckTimeout (ReplanSetting c) \<le> 86400 * second"
proof (cases "fc_Replan c")
  case (Some s)
  have "optionally (\<lambda>x. \<exists>v. x = Fin v \<and> 0 \<le> v \<and> v \<le> of_int 86400) (rs_StopAckTimeoutSeconds s)"
    using assms Some
    by (cases "rs_StopAckTimeoutSeconds s"; cases "the (rs_StopAckTimeoutSeconds s)")
      (auto simp: checkReplan_def split: if_splits)
  moreover have "rnd64 (of_int (86400 * second)) = of_int (86400 * second)"
    by (rule rnd64_int) (simp_all add: second_def)
  ultimately have "0 \<le> seconds (rs_StopAckTimeoutSeconds s) 0
      \<and> seconds (rs_StopAckTimeoutSeconds s) 0 \<le> 86400 * second"
    by (rule seconds_within) (simp_all add: second_def maxDuration_def)
  then show ?thesis using Some by (simp add: ReplanSetting_def noReplan_def second_def)
qed (simp add: ReplanSetting_def noReplan_def second_def)

lemma maintenance_in_range:
  assumes "checkMaintenance (fc_Maintenance c) = None"
  shows "0 \<le> mc_Priority (MaintenanceSetting c) \<and> mc_Priority (MaintenanceSetting c) \<le> 1000"
    and "0 \<le> mc_MaxOpen (MaintenanceSetting c) \<and> mc_MaxOpen (MaintenanceSetting c) \<le> 10000"
    and "0 \<le> mc_Cooldown (MaintenanceSetting c) \<and> mc_Cooldown (MaintenanceSetting c) \<le> 31536000 * second"
    and "0 \<le> mc_ExpireAfter (MaintenanceSetting c)
      \<and> mc_ExpireAfter (MaintenanceSetting c) \<le> 31536000 * second"
proof -
  have range: "0 \<le> seconds p def \<and> seconds p def \<le> 31536000 * second"
    if p: "optionally (\<lambda>v. float_le (Fin 0) v \<and> \<not> float_less (Fin 31536000) v) p"
      and d: "0 \<le> def" "def \<le> 31536000 * second" for p def
  proof (rule seconds_within [OF _ _ _ _ d])
    show "optionally (\<lambda>x. \<exists>v. x = Fin v \<and> 0 \<le> v \<and> v \<le> of_int 31536000) p"
      using p by (cases p; cases "the p") (auto simp: float_le_def float_eq_def)
    show "rnd64 (of_int (31536000 * second)) = of_int (31536000 * second)"
      using exact_year by (simp add: second_def)
  qed (simp_all add: second_def maxDuration_def)
  have defaults: "0 \<le> (24 * hour :: int)" "24 * hour \<le> 31536000 * second"
    "0 \<le> (7 * 24 * hour :: int)" "7 * 24 * hour \<le> 31536000 * second"
    by (simp_all add: hour_def minute_def second_def)
  note sets = MaintenanceSetting_def noMaintenance_def DefaultMaintenanceConfig_def Let_def
  show "0 \<le> mc_Priority (MaintenanceSetting c) \<and> mc_Priority (MaintenanceSetting c) \<le> 1000"
    and "0 \<le> mc_MaxOpen (MaintenanceSetting c) \<and> mc_MaxOpen (MaintenanceSetting c) \<le> 10000"
    using assms
    by (auto simp: sets checkMaintenance_def optionally_def split: option.splits if_splits)
  show "0 \<le> mc_Cooldown (MaintenanceSetting c) \<and> mc_Cooldown (MaintenanceSetting c) \<le> 31536000 * second"
    using assms range [OF _ defaults(1,2)]
    by (auto simp: sets checkMaintenance_def second_def split: option.splits if_splits)
  show "0 \<le> mc_ExpireAfter (MaintenanceSetting c)
      \<and> mc_ExpireAfter (MaintenanceSetting c) \<le> 31536000 * second"
    using assms range [OF _ defaults(3,4)]
    by (auto simp: sets checkMaintenance_def second_def split: option.splits if_splits)
qed

lemma archive_in_range:
  assumes "archiveValid (fc_Archive c)"
  shows "0 \<le> ac_After (ArchiveSetting c) \<and> ac_After (ArchiveSetting c) \<le> 3650 * 24 * hour"
    and "minute \<le> ac_Every (ArchiveSetting c) \<and> ac_Every (ArchiveSetting c) \<le> 24 * hour"
proof -
  have days: "0 \<le> durationOf (floatTimes d 24) hour \<and> durationOf (floatTimes d 24) hour \<le> 3650 * 24 * hour"
    if d: "floatWithin 0 3650 d" for d
  proof -
    obtain v where v: "d = Fin v" "0 \<le> v" "v \<le> 3650" using Fin_within [OF d] by blast
    let ?w = "rnd64 (v * 24)"
    have w: "0 \<le> ?w" "?w \<le> of_int 87600"
      using rnd64_nonneg [of "v * 24"] rnd64_le_int [of "v * 24" 87600] v by simp_all
    have "?w < 2 ^ 1024" "- (2 ^ 1024) < ?w"
      by (rule order_le_less_trans [OF w(2)], simp) (rule order_less_le_trans [OF _ w(1)], simp)
    then have "floatTimes d 24 = Fin ?w" by (simp add: floatTimes_def v(1) Let_def)
    moreover have "0 * hour \<le> durationOf (Fin ?w) hour \<and> durationOf (Fin ?w) hour \<le> 87600 * hour"
      by (rule durationOf_within)
        (use w exact_decade in \<open>simp_all add: hour_def minute_def second_def maxDuration_def\<close>)
    ultimately show ?thesis by (simp add: hour_def minute_def second_def)
  qed
  have minutes: "minute \<le> durationOf m minute \<and> durationOf m minute \<le> 24 * hour"
    if m: "floatWithin 1 1440 m" for m
  proof -
    obtain v where v: "m = Fin v" "1 \<le> v" "v \<le> 1440" using Fin_within [OF m] by blast
    have "1 * minute \<le> durationOf (Fin v) minute \<and> durationOf (Fin v) minute \<le> 1440 * minute"
      by (rule durationOf_within)
        (use v rnd64_int [of "1 * minute"] rnd64_int [of "1440 * minute"]
          in \<open>simp_all add: minute_def second_def maxDuration_def\<close>)
    then show ?thesis by (simp add: v(1) hour_def)
  qed
  show "0 \<le> ac_After (ArchiveSetting c) \<and> ac_After (ArchiveSetting c) \<le> 3650 * 24 * hour"
    using assms days
    by (auto simp: ArchiveSetting_def archiveValid_def DefaultArchiveAfter_def hour_def minute_def
        second_def split: option.splits)
  show "minute \<le> ac_Every (ArchiveSetting c) \<and> ac_Every (ArchiveSetting c) \<le> 24 * hour"
    using assms minutes
    by (auto simp: ArchiveSetting_def archiveValid_def DefaultArchiveEvery_def hour_def minute_def
        second_def split: option.splits)
qed

lemma ParseConfig_Validate:
  assumes "ParseConfig net getenv doc = Inr c"
  shows "Validate net getenv c = None"
proof (cases doc)
  case BlankText
  have "Validate net getenv noConfig = None"
    by (simp add: Validate_def noConfig_def LocationSetting_def noLocation_def LocationValidate_def
        checkReplan_def checkMaintenance_def EventsSetting_def noEvents_def
        EventsValidate_def MissionStateSetting_def noMission_def MissionStateValidate_def
        ToolConfirmSetting_def noToolConfirmation_def ToolConfirmValidate_def checkTemplate_def
        ProposalVerifySetting_def noVerify_def ProposalVerifyValidate_def healthValid_def
        archiveValid_def checkInterval_def)
  then show ?thesis using assms BlankText by (simp add: ParseConfig_def)
next
  case (DocumentText v trailing)
  then show ?thesis
    using assms by (auto simp: ParseConfig_def split: option.splits if_splits)
qed (use assms in \<open>simp add: ParseConfig_def\<close>)


lemma aFile_accepted: "ParseConfig noNet (\<lambda>_. []) aFile = Inr aConfig"
proof -
  have "Validate noNet (\<lambda>_. []) aConfig = None"
    by (simp add: aConfig_def Validate_def noConfig_def LocationSetting_def noLocation_def
        LocationValidate_def checkReplan_def checkMaintenance_def EventsSetting_def noEvents_def
        EventsValidate_def MissionStateSetting_def noMission_def MissionStateValidate_def
        ToolConfirmSetting_def noToolConfirmation_def ToolConfirmValidate_def checkTemplate_def
        ProposalVerifySetting_def noVerify_def ProposalVerifyValidate_def healthValid_def
        archiveValid_def checkInterval_def floatWithin_def float_le_def float_eq_def)
  then show ?thesis by (simp add: ParseConfig_def aFile_def reads_file del: storeStruct.simps)
qed


subsection \<open>Reloading\<close>

lemma applyConfig_valid:
  assumes "LocationValidate (LocationSetting c) = None" and "applyConfig r c e board = (e', board', err)"
  shows "err = None" "board' = map_option (SetConfig (MaintenanceSetting c)) board"
    "eng_location e' = LocationSetting c" "eng_replan e' = ReplanSetting c"
    "eng_jobs e' = eng_jobs e" "eng_robots e' = eng_robots e"
  using assms(2)
  by (auto simp: applyConfig_def SetLocationCosts_def assms(1) SetReplan_def SetETA_def Let_def)


definition aReloader :: configReloader where
  "aReloader = \<lparr>cr_EtaOn = False, cr_EtaDefault = 0, cr_EtaWindow = 20\<rparr>"


end
