(* ===== verification/Start.thy ===== *)
theory Start
  imports Api
begin

section \<open>Starting the service\<close>

text \<open>
  \<open>src/main.go\<close> with \<open>src/server_limits.go\<close>, \<open>src/health_grpc.go\<close> and the reader of a tool catalog
  of \<open>src/src/dispatcher/tools.go\<close>: from the flags and what the machine answers (files, environment,
  addresses, the database) to the service that listens, or to the reason it refuses to start. A
  message for the log is left out; \<open>log.Fatalf\<close> is the left of a sum.
\<close>

subsection \<open>The flags and the machine\<close>

record serverLimits =
  lim_ReadHeaderTimeout :: duration
  lim_ReadTimeout :: duration
  lim_WriteTimeout :: duration
  lim_IdleTimeout :: duration

definition defaultServerLimits :: serverLimits where
  "defaultServerLimits = \<lparr>lim_ReadHeaderTimeout = 5 * second, lim_ReadTimeout = 15 * second,
     lim_WriteTimeout = 30 * second, lim_IdleTimeout = 60 * second\<rparr>"

record flags =
  fl_Addr :: string
  fl_Token :: string
  fl_IdentityKeyFile :: string
  fl_AllowAnonymous :: bool
  fl_RobotTimeout :: duration
  fl_DB :: string
  fl_ToolsFile :: string
  fl_Tools :: string
  fl_MaxBody :: int
  fl_Limits :: serverLimits
  fl_Eta :: bool
  fl_EtaDefault :: duration
  fl_EtaWindow :: int
  fl_Production :: bool
  fl_ProductionFile :: string
  fl_ProductionURL :: string
  fl_ProductionKeyFile :: string
  fl_Config :: string

text \<open>
  \<open>mach_hostOf\<close> is \<open>net.SplitHostPort\<close> (the host, \<open>None\<close> for an error); a document is what the JSON
  decoder makes of the bytes of a file.
\<close>

record 's machine =
  mach_net :: netlib
  mach_hostOf :: "string \<Rightarrow> string option"
  mach_getenv :: "string \<Rightarrow> string"
  mach_readFile :: "string \<Rightarrow> string option"
  mach_config :: "string \<Rightarrow> fileText option"
  mach_document :: "string \<Rightarrow> json option option"
  mach_open :: "string \<Rightarrow> 's store_value option"
  mach_clock :: "int \<Rightarrow> instant"

subsection \<open>The checks of the flags\<close>

definition isLoopbackAddr :: "'s machine \<Rightarrow> string \<Rightarrow> bool" where
  "isLoopbackAddr m addr =
     (case mach_hostOf m addr of None \<Rightarrow> False | Some host \<Rightarrow> isLoopbackHost (mach_net m) host)"

definition startupProblem :: "'s machine \<Rightarrow> string \<Rightarrow> string \<Rightarrow> bool \<Rightarrow> bool" where
  "startupProblem m addr token allowAnonymous \<longleftrightarrow>
     token = [] \<and> \<not> allowAnonymous \<and> \<not> isLoopbackAddr m addr"

definition productionEventsProblem :: "bool \<Rightarrow> string \<Rightarrow> string \<Rightarrow> bool" where
  "productionEventsProblem on path url \<longleftrightarrow> on \<and> path = [] \<and> url = []"

definition limitsProblem :: "serverLimits \<Rightarrow> int \<Rightarrow> bool" where
  "limitsProblem l maxBody \<longleftrightarrow>
     lim_ReadHeaderTimeout l \<le> 0 \<or> lim_ReadTimeout l \<le> 0 \<or> lim_WriteTimeout l \<le> 0
     \<or> lim_IdleTimeout l \<le> 0 \<or> maxBody \<le> 0"

subsection \<open>The settings of the health service\<close>

datatype listenProblem = BadListen | OpenListen

definition ListenProblem :: "'s machine \<Rightarrow> string \<Rightarrow> string \<Rightarrow> listenProblem option" where
  "ListenProblem m listen token =
     (case mach_hostOf m listen of
        None \<Rightarrow> Some BadListen
      | Some host \<Rightarrow>
          if token \<noteq> [] \<or> equalFold host ''localhost'' then None
          else if net_Loopback (mach_net m) host then None else Some OpenListen)"

text \<open>The settings of \<open>healthgrpc.Config\<close>; the check of a token of the server is its key.\<close>

record healthConfig =
  hc_Listen :: string
  hc_Token :: string
  hc_Identity :: "string option"
  hc_MaxConnections :: int
  hc_MaxWatchers :: int
  hc_WatchInterval :: duration
  hc_Keepalive :: duration

datatype healthProblem = EmptyHealthToken string | BadHealthListen listenProblem

definition DefaultListen :: string where
  "DefaultListen = ''127.0.0.1:50090''"

definition healthListen :: "HealthGRPCSection \<Rightarrow> string" where
  "healthListen h = (if hs_Listen h = [] then DefaultListen else hs_Listen h)"

text \<open>The token of the HTTP API stands in only for an address reachable from the network.\<close>

definition healthToken :: "'s machine \<Rightarrow> string \<Rightarrow> HealthGRPCSection \<Rightarrow> healthProblem + string" where
  "healthToken m apiToken h =
     (let listen = healthListen h;
          fallback = (if ListenProblem m listen ''x'' = None \<and> ListenProblem m listen [] \<noteq> None
            then apiToken else [])
      in if hs_TokenEnv h = [] then Inr fallback
         else if mach_getenv m (hs_TokenEnv h) = [] then Inl (EmptyHealthToken (hs_TokenEnv h))
         else Inr (mach_getenv m (hs_TokenEnv h)))"

definition healthGRPCSettings ::
  "'s machine \<Rightarrow> HealthGRPCSection option \<Rightarrow> string \<Rightarrow> string option \<Rightarrow>
   healthProblem + healthConfig option" where
  "healthGRPCSettings m section apiToken identityKey =
     (case section of
        None \<Rightarrow> Inr None
      | Some h \<Rightarrow>
          if \<not> hs_Enabled h then Inr None
          else case healthToken m apiToken h of
            Inl problem \<Rightarrow> Inl problem
          | Inr token \<Rightarrow>
              (case (ListenProblem m (healthListen h) token, identityKey) of
                 (Some problem, None) \<Rightarrow> Inl (BadHealthListen problem)
               | _ \<Rightarrow>
                   Inr (Some \<lparr>hc_Listen = healthListen h, hc_Token = token, hc_Identity = identityKey,
                     hc_MaxConnections = (case hs_MaxConnections h of None \<Rightarrow> 0 | Some n \<Rightarrow> n),
                     hc_MaxWatchers = (case hs_MaxWatchers h of None \<Rightarrow> 0 | Some n \<Rightarrow> n),
                     hc_WatchInterval = seconds (hs_WatchIntervalSeconds h) 0,
                     hc_Keepalive = seconds (hs_KeepaliveSeconds h) 0\<rparr>)))"

subsection \<open>The catalog of tools\<close>

datatype toolsError = CannotReadTools | ToolsNotJSON | NotAList | NamelessItem nat | WrongItem nat

text \<open>A value of kind \<open>any\<close>, looked up in an object: the last of two fields with one name counts.\<close>

definition lastField :: "(string \<times> json) list \<Rightarrow> string \<Rightarrow> json option" where
  "lastField kvs name = map_of (rev kvs) name"

definition toolItemName :: "(string \<times> json) list \<Rightarrow> string option" where
  "toolItemName kvs =
     find (\<lambda>s. trimSpace s \<noteq> [])
       (map (\<lambda>name. asText (lastField kvs name)) [''name'', ''id'', ''tool'', ''profile''])"

fun toolNames :: "nat \<Rightarrow> json list \<Rightarrow> toolsError + string list" where
  "toolNames i [] = Inr []"
| "toolNames i (v # vs) =
     (case (case v of
              JString s \<Rightarrow> Inr s
            | JObject kvs \<Rightarrow>
                (case toolItemName kvs of None \<Rightarrow> Inl (NamelessItem i) | Some s \<Rightarrow> Inr s)
            | _ \<Rightarrow> Inl (WrongItem i)) of
        Inl err \<Rightarrow> Inl err
      | Inr s \<Rightarrow> map_sum id (Cons s) (toolNames (i + 1) vs))"

definition ParseToolNames :: "json option \<Rightarrow> toolsError + string list" where
  "ParseToolNames doc =
     (case doc of
        None \<Rightarrow> Inl ToolsNotJSON
      | Some v \<Rightarrow>
          if \<not> storable v then Inl ToolsNotJSON
          else case (case v of JObject kvs \<Rightarrow> lastField kvs ''tools'' | _ \<Rightarrow> Some v) of
            Some (JArray vs) \<Rightarrow> toolNames 0 vs
          | _ \<Rightarrow> Inl NotAList)"

definition LoadToolCatalogFile :: "'s machine \<Rightarrow> string \<Rightarrow> toolsError + ToolCatalog" where
  "LoadToolCatalogFile m path =
     (case mach_document m path of
        None \<Rightarrow> Inl CannotReadTools
      | Some doc \<Rightarrow> map_sum id NewToolCatalog (ParseToolNames doc))"

definition buildToolCatalog :: "'s machine \<Rightarrow> string \<Rightarrow> string \<Rightarrow> toolsError + ToolCatalog option" where
  "buildToolCatalog m path names =
     (if path = [] \<and> trimSpace names = [] then Inr None
      else if path = [] then Inr (Some (NewToolCatalog (splitOn CHR '','' names)))
      else case LoadToolCatalogFile m path of
        Inl err \<Rightarrow> Inl err
      | Inr c \<Rightarrow> Inr (Some (NewToolCatalog (Names (Some c) @ splitOn CHR '','' names))))"

subsection \<open>The order of the start\<close>

datatype startProblem =
    ConfigRefused reloadError | EtaOff | NoProductionSink | BadLimits
  | BadIdentityKey keyError | OpenAddress | HealthRefused healthProblem
  | CannotOpen | CannotLoad serror | CostsRefused "string \<times> string \<times> float64"
  | BadProductionKey keyError | ToolsRefused toolsError | EventsRefused hubError
  | MirrorRefused missionError | ConfirmRefused confirmError | VerifierRefused verifierError

text \<open>A check, and a step that can refuse, before the rest of the start.\<close>

definition refuseIf :: "bool \<Rightarrow> 'e \<Rightarrow> 'e + 'a \<Rightarrow> 'e + 'a" where
  "refuseIf bad err next = (if bad then Inl err else next)"

definition andThen :: "('x + 'a) \<Rightarrow> ('x \<Rightarrow> 'e) \<Rightarrow> ('a \<Rightarrow> 'e + 'b) \<Rightarrow> 'e + 'b" where
  "andThen r wrap next = (case r of Inl x \<Rightarrow> Inl (wrap x) | Inr a \<Rightarrow> next a)"

definition orKey :: "(string \<Rightarrow> string option) \<Rightarrow> string \<Rightarrow> keyError + string option" where
  "orKey readFile path = (if path = [] then Inr None else map_sum id Some (LoadIdentityKey readFile path))"

definition readConfig :: "'s machine \<Rightarrow> flags \<Rightarrow> startProblem + FileConfig" where
  "readConfig m fl =
     (if fl_Config fl = [] then Inr noConfig
      else andThen (LoadConfigFile (mach_net m) (mach_getenv m) (mach_config m (fl_Config fl))) ConfigRefused
        (\<lambda>c. refuseIf (configProblem c (fl_Eta fl)) EtaOff (Inr c)))"

text \<open>The key of the family, once the flags are in order.\<close>

definition checkFlags :: "'s machine \<Rightarrow> flags \<Rightarrow> startProblem + string option" where
  "checkFlags m fl =
     refuseIf (productionEventsProblem (fl_Production fl) (fl_ProductionFile fl) (fl_ProductionURL fl))
       NoProductionSink
     (refuseIf (limitsProblem (fl_Limits fl) (fl_MaxBody fl)) BadLimits
       (andThen (orKey (mach_readFile m) (fl_IdentityKeyFile fl)) BadIdentityKey (\<lambda>key.
         refuseIf (startupProblem m (fl_Addr fl) (fl_Token fl) (fl_AllowAnonymous fl \<or> key \<noteq> None))
           OpenAddress (Inr key))))"

definition openEngine :: "'s machine \<Rightarrow> flags \<Rightarrow> startProblem + 's engine" where
  "openEngine m fl =
     (if fl_DB fl = [] then Inr NewEngine
      else case mach_open m (fl_DB fl) of
        None \<Rightarrow> Inl CannotOpen
      | Some sv \<Rightarrow> andThen (NewEngineWithStore sv) CannotLoad Inr)"

definition costsSet :: "FileConfig \<Rightarrow> 's engine \<Rightarrow> startProblem + 's engine" where
  "costsSet c e =
     (case SetLocationCosts (LocationSetting c) e of
        (_, Some bad) \<Rightarrow> Inl (CostsRefused bad) | (e', None) \<Rightarrow> Inr e')"

definition etaSet :: "flags \<Rightarrow> FileConfig \<Rightarrow> 's engine \<Rightarrow> 's engine" where
  "etaSet fl c e =
     (if fl_Eta fl then SetETA \<lparr>eta_Enabled = True, eta_DefaultDuration = fl_EtaDefault fl,
        eta_Window = fl_EtaWindow fl, eta_Interval = IntervalSetting c\<rparr> e else e)"

definition productionSet :: "'s machine \<Rightarrow> flags \<Rightarrow> 's engine \<Rightarrow> startProblem + 's engine" where
  "productionSet m fl e =
     (if \<not> fl_Production fl then Inr e
      else andThen (orKey (mach_readFile m) (fl_ProductionKeyFile fl)) BadProductionKey
        (\<lambda>_. Inr (SetProductionEvents True e)))"

definition toolsSet :: "'s machine \<Rightarrow> flags \<Rightarrow> 's engine \<Rightarrow> startProblem + 's engine" where
  "toolsSet m fl e =
     andThen (buildToolCatalog m (fl_ToolsFile fl) (fl_Tools fl)) ToolsRefused
       (\<lambda>catalog. Inr (if catalog = None then e else SetToolCatalog catalog e))"

definition eventsSet :: "'s machine \<Rightarrow> FileConfig \<Rightarrow> 's engine \<Rightarrow> startProblem + 's engine" where
  "eventsSet m c e =
     (if \<not> evs_Enabled (EventsSetting c) then Inr e
      else andThen (OpenEventHub (mach_net m) (mach_getenv m) (mach_clock m) (EventsSetting c)) EventsRefused
        (\<lambda>hub. Inr (SetEvents (Some hub) e)))"

definition mirrorOf :: "'s machine \<Rightarrow> FileConfig \<Rightarrow> startProblem + MissionStateConfig option" where
  "mirrorOf m c =
     (let ms = MissionStateSetting (mach_getenv m) c
      in if \<not> msc_Enabled ms then Inr None
         else case MissionStateValidate (mach_net m) ms of
           Some err \<Rightarrow> Inl (MirrorRefused err) | None \<Rightarrow> Inr (Some ms))"

definition confirmSet :: "FileConfig \<Rightarrow> 's engine \<Rightarrow> startProblem + 's engine" where
  "confirmSet c e =
     (if \<not> tc_Enabled (ToolConfirmSetting c) then Inr e
      else case SetToolConfirmation (ToolConfirmSetting c) True e of
        (_, Some err) \<Rightarrow> Inl (ConfirmRefused err) | (e', None) \<Rightarrow> Inr e')"

definition verifierOf :: "'s machine \<Rightarrow> FileConfig \<Rightarrow> startProblem + ProposalVerifier option" where
  "verifierOf m c =
     (if \<not> pvc_Enabled (ProposalVerifySetting c) then Inr None
      else andThen (NewProposalVerifier (mach_net m) (mach_readFile m) (ProposalVerifySetting c))
        VerifierRefused (\<lambda>v. Inr (Some v)))"

text \<open>The settings of the engine from \<open>SetRobotFreshness\<close> to the catalog of tools.\<close>

definition setUpEngine :: "'s machine \<Rightarrow> flags \<Rightarrow> FileConfig \<Rightarrow> 's engine \<Rightarrow> startProblem + 's engine" where
  "setUpEngine m fl c e =
     andThen (costsSet c (etaSet fl c (SetArchiveAfter (ac_After (ArchiveSetting c))
       (SetRobotFreshness (fl_RobotTimeout fl) e)))) id (\<lambda>e1.
     andThen (productionSet m fl (SetReplan (ReplanSetting c) e1)) id (toolsSet m fl))"

record 's service =
  svc_server :: "'s server"
  svc_health :: "healthConfig option"
  svc_mirror :: "MissionStateConfig option"
  svc_sweepEvery :: "duration option"
  svc_archiveEvery :: "duration option"

definition buildServer :: "flags \<Rightarrow> FileConfig \<Rightarrow> string option \<Rightarrow> ProposalVerifier option \<Rightarrow> 's engine \<Rightarrow> 's server" where
  "buildServer fl c key verifier e =
     (NewServer e)\<lparr>srv_proposals := verifier,
       srv_maintenance := Some (SetConfig (MaintenanceSetting c) NewMaintenanceBoard),
       srv_metricsOn := (case fc_Metrics c of None \<Rightarrow> False | Some s \<Rightarrow> mes_Enabled s),
       srv_reloader := (if fl_Config fl = [] then None
         else Some \<lparr>cr_EtaOn = fl_Eta fl, cr_EtaDefault = fl_EtaDefault fl, cr_EtaWindow = fl_EtaWindow fl\<rparr>),
       srv_identityKey := key, srv_token := fl_Token fl\<rparr>"

definition startService :: "'s machine \<Rightarrow> flags \<Rightarrow> startProblem + 's service" where
  "startService m fl =
     andThen (readConfig m fl) id (\<lambda>c.
     andThen (checkFlags m fl) id (\<lambda>key.
     andThen (healthGRPCSettings m (fc_HealthGRPC c) (fl_Token fl) key) HealthRefused (\<lambda>health.
     andThen (openEngine m fl) id (\<lambda>e0.
     andThen (setUpEngine m fl c e0) id (\<lambda>e1.
     andThen (eventsSet m c e1) id (\<lambda>e2.
     andThen (mirrorOf m c) id (\<lambda>mirror.
     andThen (confirmSet c e2) id (\<lambda>e3.
     andThen (verifierOf m c) id (\<lambda>verifier.
       Inr \<lparr>svc_server = buildServer fl c key verifier e3, svc_health = health, svc_mirror = mirror,
         svc_sweepEvery = (if 0 < fl_RobotTimeout fl then Some (fl_RobotTimeout fl div 2) else None),
         svc_archiveEvery = (if fl_DB fl \<noteq> [] \<and> 0 < ac_After (ArchiveSetting c)
           then Some (ac_Every (ArchiveSetting c)) else None)\<rparr>)))))))))"

subsection \<open>In the background\<close>

text \<open>The two goroutines of main: the sweep at half the timeout and the archive at its own pace.\<close>

definition sweepTick :: "flags \<Rightarrow> 's service \<Rightarrow> instant \<Rightarrow> 's engine \<Rightarrow> 's engine" where
  "sweepTick fl svc now e =
     (if svc_sweepEvery svc = None then e else fst (DetectStaleAssignmentsStop (fl_RobotTimeout fl) now e))"

definition archiveTick :: "'s service \<Rightarrow> instant \<Rightarrow> 's engine \<Rightarrow> 's engine" where
  "archiveTick svc now e = (if svc_archiveEvery svc = None then e else fst (ArchiveFinished now e))"

text \<open>The server of HTTP: its timeouts are those of the flags, and its headers are bounded.\<close>

definition maxHeaderBytes :: int where
  "maxHeaderBytes = 16 * 1024"

record httpServer =
  hts_Addr :: string
  hts_Limits :: serverLimits
  hts_MaxHeaderBytes :: int

definition newHTTPServer :: "string \<Rightarrow> serverLimits \<Rightarrow> httpServer" where
  "newHTTPServer addr l = \<lparr>hts_Addr = addr, hts_Limits = l, hts_MaxHeaderBytes = maxHeaderBytes\<rparr>"

end
