(* ===== verification/StartTheorems.thy ===== *)
theory StartTheorems
  imports Start ApiTheorems
begin

section \<open>Theorems on the start of the service\<close>

subsection \<open>What a start gives\<close>

lemma andThen_Inr: "andThen r wrap next = Inr b \<longleftrightarrow> (\<exists>a. r = Inr a \<and> next a = Inr b)"
  by (cases r) (simp_all add: andThen_def)

lemma refuseIf_Inr: "refuseIf bad err next = Inr b \<longleftrightarrow> \<not> bad \<and> next = Inr b"
  by (simp add: refuseIf_def)

lemmas start_Inr = andThen_Inr refuseIf_Inr

text \<open>The database, when there is one, holds what an engine wrote.\<close>

definition goodDatabase :: "'s machine \<Rightarrow> flags \<Rightarrow> bool" where
  "goodDatabase m fl \<longleftrightarrow>
     (\<forall>sv records robots. mach_open m (fl_DB fl) = Some sv \<longrightarrow>
        sv_LoadAll sv (sv_state sv) = Inr (records, robots) \<longrightarrow> consistent records robots)"

lemma startService_parts:
  assumes "startService m fl = Inr svc"
  obtains c key health e0 e1 e2 e3 mirror verifier where
    "readConfig m fl = Inr c" "checkFlags m fl = Inr key"
    "healthGRPCSettings m (fc_HealthGRPC c) (fl_Token fl) key = Inr health"
    "openEngine m fl = Inr e0" "setUpEngine m fl c e0 = Inr e1" "eventsSet m c e1 = Inr e2"
    "mirrorOf m c = Inr mirror" "confirmSet c e2 = Inr e3" "verifierOf m c = Inr verifier"
    "svc_server svc = buildServer fl c key verifier e3" "svc_health svc = health" "svc_mirror svc = mirror"
  using assms by (auto simp: startService_def start_Inr)

lemma openEngine_running:
  assumes "openEngine m fl = Inr e" and "goodDatabase m fl"
  shows "running e"
proof (cases "fl_DB fl = []")
  case True
  then show ?thesis using assms(1) by (simp add: openEngine_def running_NewEngine)
next
  case False
  then obtain sv where sv: "mach_open m (fl_DB fl) = Some sv" "NewEngineWithStore sv = Inr e"
    using assms(1) by (auto simp: openEngine_def start_Inr split: option.splits)
  then obtain records robots where r: "sv_LoadAll sv (sv_state sv) = Inr (records, robots)"
    by (auto simp: NewEngineWithStore_def split: sum.splits)
  then have "consistent records robots" using assms(2) sv(1) by (auto simp: goodDatabase_def)
  then show ?thesis using running.start serviceStart.loaded r sv(2) by metis
qed

lemma set_reachable:
  "reachable e (SetArchiveAfter d (SetRobotFreshness t e))" "reachable e (etaSet fl c e)"
  "costsSet c e = Inr e' \<Longrightarrow> reachable e e'" "productionSet m fl e = Inr e' \<Longrightarrow> reachable e e'"
  "toolsSet m fl e = Inr e' \<Longrightarrow> reachable e e'" "eventsSet m c e = Inr e' \<Longrightarrow> reachable e e'"
  "confirmSet c e = Inr e' \<Longrightarrow> reachable e e'"
proof -
  show "reachable e (SetArchiveAfter d (SetRobotFreshness t e))"
    by (intro reachable.step [OF _ setArchive] reachable.step [OF _ setFreshness] reachable.start)
  show "reachable e (etaSet fl c e)"
    by (simp add: etaSet_def reachable.start reachable_one setETA)
  show "costsSet c e = Inr e' \<Longrightarrow> reachable e e'"
    using reachable_one [OF setCosts [of e "LocationSetting c"]]
    by (auto simp: costsSet_def split: prod.splits option.splits)
  show "productionSet m fl e = Inr e' \<Longrightarrow> reachable e e'"
    by (auto simp: productionSet_def start_Inr reachable.start reachable_one setSink split: if_splits)
  show "toolsSet m fl e = Inr e' \<Longrightarrow> reachable e e'"
    by (auto simp: toolsSet_def start_Inr reachable.start reachable_one [OF engine_step.setTools] split: if_splits)
  show "eventsSet m c e = Inr e' \<Longrightarrow> reachable e e'"
    by (auto simp: eventsSet_def start_Inr reachable.start reachable_one engine_step.setEvents split: if_splits)
  show "confirmSet c e = Inr e' \<Longrightarrow> reachable e e'"
    using reachable_one [OF setConfirm [of e "ToolConfirmSetting c" True]]
    by (auto simp: confirmSet_def reachable.start split: if_splits prod.splits option.splits)
qed

lemma setUpEngine_reachable:
  assumes "setUpEngine m fl c e = Inr e'"
  shows "reachable e e'"
proof -
  let ?e0 = "SetArchiveAfter (ac_After (ArchiveSetting c)) (SetRobotFreshness (fl_RobotTimeout fl) e)"
  obtain e1 e2 where p: "costsSet c (etaSet fl c ?e0) = Inr e1"
    "productionSet m fl (SetReplan (ReplanSetting c) e1) = Inr e2" "toolsSet m fl e2 = Inr e'"
    using assms by (auto simp: setUpEngine_def start_Inr)
  have "reachable e e1"
    using set_reachable(1,2) set_reachable(3) [OF p(1)] by (blast intro: reachable_trans)
  moreover have "reachable e1 e2"
    using reachable_one [OF engine_step.setReplan] set_reachable(4) [OF p(2)] by (blast intro: reachable_trans)
  ultimately show ?thesis using set_reachable(5) [OF p(3)] by (blast intro: reachable_trans)
qed

lemma startService_running:
  assumes "startService m fl = Inr svc" and "goodDatabase m fl"
  shows "running (srv_engine (svc_server svc))"
proof (rule startService_parts [OF assms(1)])
  fix c key health e0 e1 e2 e3 mirror verifier
  assume p: "openEngine m fl = Inr e0" "setUpEngine m fl c e0 = Inr e1" "eventsSet m c e1 = Inr e2"
    "confirmSet c e2 = Inr e3" "svc_server svc = buildServer fl c key verifier e3"
  have "reachable e0 e3"
    using setUpEngine_reachable [OF p(2)] set_reachable(6) [OF p(3)] set_reachable(7) [OF p(4)]
    by (blast intro: reachable_trans)
  then have "running e3" using openEngine_running [OF p(1) assms(2)] reachable_running by blast
  then show ?thesis using p(5) by (simp add: buildServer_def NewServer_def)
qed

lemma startService_access:
  assumes "startService m fl = Inr svc"
  shows "srv_token (svc_server svc) = fl_Token fl"
    "fl_Token fl = [] \<Longrightarrow> srv_identityKey (svc_server svc) = None \<Longrightarrow>
     fl_AllowAnonymous fl \<or> isLoopbackAddr m (fl_Addr fl)"
    "srv_identityKey (svc_server svc) = Some key \<Longrightarrow> MinIdentityKeyLength \<le> length key"
proof -
  obtain c key' e3 verifier where p: "checkFlags m fl = Inr key'"
      "svc_server svc = buildServer fl c key' verifier e3"
    using startService_parts [OF assms] by metis
  have f: "srv_identityKey (svc_server svc) = key'" "srv_token (svc_server svc) = fl_Token fl"
    using p(2) by (simp_all add: buildServer_def)
  have g: "\<not> startupProblem m (fl_Addr fl) (fl_Token fl) (fl_AllowAnonymous fl \<or> key' \<noteq> None)"
    "orKey (mach_readFile m) (fl_IdentityKeyFile fl) = Inr key'"
    using p(1) by (auto simp: checkFlags_def start_Inr)
  show "srv_token (svc_server svc) = fl_Token fl" by (rule f(2))
  show "fl_Token fl = [] \<Longrightarrow> srv_identityKey (svc_server svc) = None \<Longrightarrow>
     fl_AllowAnonymous fl \<or> isLoopbackAddr m (fl_Addr fl)"
    using g(1) f(1) by (simp add: startupProblem_def)
  show "srv_identityKey (svc_server svc) = Some key \<Longrightarrow> MinIdentityKeyLength \<le> length key"
    using g(2) f(1)
    by (cases "LoadIdentityKey (mach_readFile m) (fl_IdentityKeyFile fl)")
      (auto simp: orKey_def LoadIdentityKey_def Let_def split: option.splits if_splits)
qed

subsection \<open>A service in operation\<close>

text \<open>\<open>served s0 s\<close>: the server \<open>s0\<close> has become \<open>s\<close> by requests and steps of its engine.\<close>

inductive served :: "'s server \<Rightarrow> 's server \<Rightarrow> bool" for s0 where
  start: "served s0 s0"
| request: "served s0 s \<Longrightarrow> ServeHTTP s out r = Some (s', a) \<Longrightarrow> served s0 s'"
| background: "served s0 s \<Longrightarrow> engine_step (srv_engine s) e \<Longrightarrow> served s0 (withEngine s e)"

lemma served_serving: "served s0 s \<Longrightarrow> serving s0 \<Longrightarrow> serving s"
  by (induction rule: served.induct) (auto intro: serving.request serving.background)

lemma served_access: "served s0 s \<Longrightarrow> serving s0 \<Longrightarrow> sameAccess s0 s"
proof (induction rule: served.induct)
  case (request s out r s' a)
  have "engine_ok (srv_engine s)" using served_serving [OF request(1,4)] by (rule serving_ok)
  then show ?case using api.access_frame request.hyps(2) request.IH request.prems sameAccess_trans by blast
qed simp_all

text \<open>
  The process in operation: requests, and the two goroutines of main. Whatever order they come in,
  the engine behind them keeps its invariant.
\<close>

inductive operating :: "flags \<Rightarrow> 's service \<Rightarrow> 's server \<Rightarrow> bool" for fl svc where
  start: "operating fl svc (svc_server svc)"
| request: "operating fl svc s \<Longrightarrow> ServeHTTP s out r = Some (s', a) \<Longrightarrow> operating fl svc s'"
| sweeping: "operating fl svc s \<Longrightarrow> operating fl svc (withEngine s (sweepTick fl svc now (srv_engine s)))"
| archiving: "operating fl svc s \<Longrightarrow> operating fl svc (withEngine s (archiveTick svc now (srv_engine s)))"

lemma withEngine_same: "withEngine s (srv_engine s) = s"
  by (simp add: withEngine_def)

lemma operating_served: "operating fl svc s \<Longrightarrow> served (svc_server svc) s"
proof (induction rule: operating.induct)
  case (sweeping s now)
  then show ?case using served.background [OF sweeping.IH engine_step.sweep [of _ "fl_RobotTimeout fl" now]]
    by (simp add: sweepTick_def withEngine_same)
next
  case (archiving s now)
  then show ?case using served.background [OF archiving.IH engine_step.archive [of _ now]]
    by (simp add: archiveTick_def withEngine_same)
qed (auto intro: served.start served.request)

lemma operating_ok:
  assumes "startService m fl = Inr svc" and "goodDatabase m fl" and "operating fl svc s"
  shows "engine_ok (srv_engine s)"
  using served_serving [OF operating_served [OF assms(3)] serving.start [OF startService_running [OF assms(1,2)]]]
  by (rule serving_ok)

text \<open>No credential: no token, or one that is neither the API's nor signed by the server.\<close>

definition uncredentialed :: "'s server \<Rightarrow> outside \<Rightarrow> request \<Rightarrow> bool" where
  "uncredentialed s out r \<longleftrightarrow>
     (case bearer r of
        None \<Rightarrow> True
      | Some t \<Rightarrow> (srv_token s = [] \<or> t \<noteq> srv_token s)
          \<and> (case srv_identityKey s of None \<Rightarrow> True
             | Some key \<Rightarrow> isl (VerifyServerToken (out_crypto out) t key (out_now out))))"

lemma uncredentialed_refused:
  assumes "uncredentialed s out r" and "srv_token s \<noteq> [] \<or> srv_identityKey s \<noteq> None"
  shows "srv_identityKey s = Some key \<Longrightarrow> \<not> identityAllowed s out key r"
    "srv_token s \<noteq> [] \<Longrightarrow> \<not> authorized s r" "\<not> metricsAllowed s out r"
  using assms
  by (auto simp: uncredentialed_def identityAllowed_def authorized_def metricsAllowed_def
      split: option.splits sum.splits)


text \<open>A service on the network with a token, and a request without one.\<close>

definition aMachine :: "unit machine" where
  "aMachine = \<lparr>mach_net = out_net aWorld, mach_hostOf = Some, mach_getenv = (\<lambda>_. []),
     mach_readFile = (\<lambda>_. None), mach_config = (\<lambda>_. None), mach_document = (\<lambda>_. None),
     mach_open = (\<lambda>_. None), mach_clock = (\<lambda>_. 0)\<rparr>"

definition someFlags :: flags where
  "someFlags = \<lparr>fl_Addr = ''0.0.0.0'', fl_Token = ''t'', fl_IdentityKeyFile = [],
     fl_AllowAnonymous = False, fl_RobotTimeout = 120 * second, fl_DB = [], fl_ToolsFile = [],
     fl_Tools = [], fl_MaxBody = 65536, fl_Limits = defaultServerLimits, fl_Eta = False,
     fl_EtaDefault = minute, fl_EtaWindow = 20, fl_Production = False, fl_ProductionFile = [],
     fl_ProductionURL = [], fl_ProductionKeyFile = [], fl_Config = []\<rparr>"

lemma someFlags_start: "\<exists>svc. startService aMachine someFlags = Inr svc"
proof -
  have "\<not> isl (startService aMachine someFlags)" by code_simp
  then show ?thesis by (cases "startService aMachine someFlags") auto
qed


end
