(* ===== verification/Health.thy ===== *)
theory Health
  imports Start "HOL-Library.Word"
begin

section \<open>The health service\<close>

text \<open>
  \<open>src/src/healthgrpc/server.go\<close> and \<open>queue.go\<close>: who may call, the report and its cache, the
  stream of a Watch, and the bounds on streams and connections. A call that several goroutines run
  at once is a step relation with one step for each atomic operation.
\<close>

subsection \<open>Settings\<close>

definition DefaultMaxConnections :: int where "DefaultMaxConnections = 16"
definition DefaultMaxWatchers :: int where "DefaultMaxWatchers = 8"
definition DefaultWatchInterval :: duration where "DefaultWatchInterval = 5 * second"
definition DefaultKeepalive :: duration where "DefaultKeepalive = 30 * second"

definition orDefault :: "int \<Rightarrow> int \<Rightarrow> int" where
  "orDefault x d = (if x \<le> 0 then d else x)"

definition healthDefaults :: "healthConfig \<Rightarrow> healthConfig" where
  "healthDefaults c = c\<lparr>
     hc_Listen := (if hc_Listen c = [] then DefaultListen else hc_Listen c),
     hc_MaxConnections := orDefault (hc_MaxConnections c) DefaultMaxConnections,
     hc_MaxWatchers := orDefault (hc_MaxWatchers c) DefaultMaxWatchers,
     hc_WatchInterval := orDefault (hc_WatchInterval c) DefaultWatchInterval,
     hc_Keepalive := orDefault (hc_Keepalive c) DefaultKeepalive\<rparr>"

text \<open>Whether \<open>Start\<close> goes on to open the port, and the settings it serves with.\<close>

definition startHealth :: "'s machine \<Rightarrow> healthConfig \<Rightarrow> listenProblem + healthConfig" where
  "startHealth m cfg =
     (let c = healthDefaults cfg;
          credential = (if hc_Token c = [] \<and> hc_Identity c \<noteq> None then ''identity'' else hc_Token c)
      in case ListenProblem m (hc_Listen c) credential of
           Some problem \<Rightarrow> Inl problem | None \<Rightarrow> Inr c)"

subsection \<open>Who may call\<close>

text \<open>The comparison of two byte strings that never stops early.\<close>

definition byteOf :: "char \<Rightarrow> 8 word" where
  "byteOf c = word_of_nat (of_char c)"

fun diffBytes :: "string \<Rightarrow> string \<Rightarrow> 8 word \<Rightarrow> 8 word" where
  "diffBytes (x # xs) (y # ys) d = diffBytes xs ys (or d (xor (byteOf x) (byteOf y)))"
| "diffBytes _ _ d = d"

definition constantTimeEqual :: "string \<Rightarrow> string \<Rightarrow> bool" where
  "constantTimeEqual a b \<longleftrightarrow> length a = length b \<and> diffBytes a b 0 = 0"

definition presentsCredential :: "crypto \<Rightarrow> instant \<Rightarrow> healthConfig \<Rightarrow> string \<Rightarrow> bool" where
  "presentsCredential cry now c v \<longleftrightarrow>
     prefix ''Bearer '' v \<and>
     (let presented = drop (length ''Bearer '') v
      in hc_Token c \<noteq> [] \<and> constantTimeEqual presented (hc_Token c)
       \<or> presented \<noteq> [] \<and>
         (case hc_Identity c of None \<Rightarrow> False
          | Some key \<Rightarrow> \<not> isl (VerifyServerToken cry presented key now)))"

text \<open>\<open>authorizer.check\<close>: the values of the metadata \<open>authorization\<close> of a call.\<close>

definition callAllowed :: "crypto \<Rightarrow> instant \<Rightarrow> healthConfig \<Rightarrow> string list \<Rightarrow> bool" where
  "callAllowed cry now c metadata \<longleftrightarrow>
     hc_Token c = [] \<and> hc_Identity c = None \<or> list_ex (presentsCredential cry now c) metadata"

subsection \<open>The report\<close>

datatype healthState = HealthOK | HealthDegraded | HealthUnhealthy

datatype healthDetail = Ready | NotAnsweredYet | DoesNotAnswer | StoreFailed

record queueCounts =
  qc_Pending :: int
  qc_Assigned :: int
  qc_Unknown :: int

record HealthReport =
  hr_State :: healthState
  hr_Detail :: healthDetail
  hr_Persistent :: bool
  hr_Counts :: "queueCounts option"

record reportSource =
  src_cached :: "(HealthReport \<times> instant) option"
  src_probing :: bool

definition reportCacheTTL :: duration where
  "reportCacheTTL = second"

definition countJobs :: "string \<Rightarrow> 's engine \<Rightarrow> int" where
  "countJobs status e = snd (fst (JobsPage status 0 1 e))"

definition probeCounts :: "'s engine \<Rightarrow> queueCounts" where
  "probeCounts e = \<lparr>qc_Pending = countJobs (statusText StatusPending) e,
     qc_Assigned = countJobs (statusText StatusAssigned) e,
     qc_Unknown = countJobs (statusText StatusUnknown) e\<rparr>"

text \<open>
  \<open>build\<close>: a probe that is still out, a probe that answers before the time is up, or one that does
  not and stays out (until the queue answers it after all, which is \<open>probeEnds\<close>).
\<close>

definition build :: "bool \<Rightarrow> bool \<Rightarrow> 's engine \<Rightarrow> reportSource \<Rightarrow> HealthReport \<times> reportSource" where
  "build persistent answers e s =
     (let report = \<lparr>hr_State = HealthOK, hr_Detail = Ready, hr_Persistent = persistent, hr_Counts = None\<rparr>
      in if src_probing s then
           (report\<lparr>hr_State := HealthUnhealthy, hr_Detail := NotAnsweredYet\<rparr>, s)
         else if \<not> answers then
           (report\<lparr>hr_State := HealthUnhealthy, hr_Detail := DoesNotAnswer\<rparr>, s\<lparr>src_probing := True\<rparr>)
         else
           let counted = report\<lparr>hr_Counts := Some (probeCounts e)\<rparr>
           in (if LastPersistError e = None then counted
               else counted\<lparr>hr_State := HealthDegraded, hr_Detail := StoreFailed\<rparr>, s))"

definition probeEnds :: "reportSource \<Rightarrow> reportSource" where
  "probeEnds s = s\<lparr>src_probing := False\<rparr>"

text \<open>The report at \<open>now\<close>; \<open>built\<close> is the time after building one.\<close>

definition QueueSource ::
  "bool \<Rightarrow> bool \<Rightarrow> 's engine \<Rightarrow> instant \<Rightarrow> instant \<Rightarrow> reportSource \<Rightarrow> HealthReport \<times> reportSource" where
  "QueueSource persistent answers e now built s =
     (case src_cached s of
        Some (report, at') \<Rightarrow>
          if reportCacheTTL \<le> time_sub now at' then
            (case build persistent answers e s of (r, s') \<Rightarrow> (r, s'\<lparr>src_cached := Some (r, built)\<rparr>))
          else (report, s)
      | None \<Rightarrow>
          (case build persistent answers e s of (r, s') \<Rightarrow> (r, s'\<lparr>src_cached := Some (r, built)\<rparr>)))"

subsection \<open>The stream of a Watch\<close>

text \<open>One turn of the loop: what is sent, and what was sent before and when.\<close>

definition watchTurn ::
  "duration \<Rightarrow> HealthReport \<Rightarrow> instant \<Rightarrow> (HealthReport \<times> instant) option \<Rightarrow>
   HealthReport option \<times> (HealthReport \<times> instant) option" where
  "watchTurn interval report now prev =
     (case prev of
        None \<Rightarrow> (Some report, Some (report, now))
      | Some (l, sentAt) \<Rightarrow>
          if hr_State report \<noteq> hr_State l \<or> hr_Detail report \<noteq> hr_Detail l \<or> interval \<le> time_sub now sentAt
          then (Some report, Some (report, now)) else (None, prev))"

definition watchTick :: "duration \<Rightarrow> duration" where
  "watchTick interval = (if interval < second then interval else second)"

text \<open>
  The stream: each turn has its report, its time, whether the report could be sent, and what ended
  the wait after it (the next tick, the client, or the end of the service).
\<close>

datatype watchWake = NextTick | ClientGone | ServiceStops

datatype watchEnd = SendFailed | Cancelled | Unavailable

fun watchRun ::
  "duration \<Rightarrow> (HealthReport \<times> instant \<times> bool \<times> watchWake) list \<Rightarrow> (HealthReport \<times> instant) option \<Rightarrow>
   HealthReport list \<times> watchEnd option" where
  "watchRun interval [] prev = ([], None)"
| "watchRun interval ((r, now, ok, wake) # turns) prev =
     (case watchTurn interval r now prev of
        (out, prev') \<Rightarrow>
          if out \<noteq> None \<and> \<not> ok then ([], Some SendFailed)
          else
            let reports = (case out of None \<Rightarrow> [] | Some m \<Rightarrow> [m])
            in case wake of
                 ClientGone \<Rightarrow> (reports, Some Cancelled)
               | ServiceStops \<Rightarrow> (reports, Some Unavailable)
               | NextTick \<Rightarrow> (case watchRun interval turns prev' of (rs, fin) \<Rightarrow> (reports @ rs, fin)))"

subsection \<open>The end of the service\<close>

text \<open>
  \<open>Stop\<close> works once: it tells the streams to end, waits for the calls in flight (at most
  \<open>stopGrace\<close>) and closes the port. A second call does nothing.
\<close>

record healthServer =
  hsv_Stopped :: bool
  hsv_Watchers :: nat
  hsv_Listening :: bool

definition stopGrace :: duration where
  "stopGrace = 2 * second"

definition StopHealth :: "healthServer \<Rightarrow> healthServer" where
  "StopHealth s =
     (if hsv_Stopped s then s else s\<lparr>hsv_Stopped := True, hsv_Watchers := 0, hsv_Listening := False\<rparr>)"

text \<open>The interceptors: a call or a stream runs only for a caller that may call.\<close>

definition intercepted :: "crypto \<Rightarrow> instant \<Rightarrow> healthConfig \<Rightarrow> string list \<Rightarrow> 'a \<Rightarrow> 'a option" where
  "intercepted cry now c metadata answer = (if callAllowed cry now c metadata then Some answer else None)"

subsection \<open>The bounds\<close>

text \<open>
  The counter of the streams: a call adds one, and takes it back when the sum is over the bound
  (another call can come in between); a stream that ends takes its own back.
\<close>

record watchers =
  wt_Counter :: int
  wt_Open :: nat
  wt_Refusing :: nat

definition enterWatch :: "int \<Rightarrow> watchers \<Rightarrow> watchers" where
  "enterWatch bound w =
     (let n = wt_Counter w + 1
      in if bound < n then w\<lparr>wt_Counter := n, wt_Refusing := wt_Refusing w + 1\<rparr>
         else w\<lparr>wt_Counter := n, wt_Open := wt_Open w + 1\<rparr>)"

definition backOut :: "watchers \<Rightarrow> watchers" where
  "backOut w = w\<lparr>wt_Counter := wt_Counter w - 1, wt_Refusing := wt_Refusing w - 1\<rparr>"

definition leaveWatch :: "watchers \<Rightarrow> watchers" where
  "leaveWatch w = w\<lparr>wt_Counter := wt_Counter w - 1, wt_Open := wt_Open w - 1\<rparr>"

inductive watching :: "int \<Rightarrow> watchers \<Rightarrow> bool" for bound where
  none: "watching bound \<lparr>wt_Counter = 0, wt_Open = 0, wt_Refusing = 0\<rparr>"
| enter: "watching bound w \<Longrightarrow> watching bound (enterWatch bound w)"
| backOut: "watching bound w \<Longrightarrow> 0 < wt_Refusing w \<Longrightarrow> watching bound (backOut w)"
| leave: "watching bound w \<Longrightarrow> 0 < wt_Open w \<Longrightarrow> watching bound (leaveWatch w)"

text \<open>\<open>limitedListener\<close>: a connection takes a slot or is closed; closing it twice gives one back.\<close>

record slots =
  sl_Used :: nat
  sl_Conns :: "nat list"
  sl_Next :: nat

definition acceptConn :: "int \<Rightarrow> slots \<Rightarrow> nat option \<times> slots" where
  "acceptConn cap s =
     (if int (sl_Used s) < cap
      then (Some (sl_Next s),
        s\<lparr>sl_Used := sl_Used s + 1, sl_Conns := sl_Next s # sl_Conns s, sl_Next := sl_Next s + 1\<rparr>)
      else (None, s))"

definition closeConn :: "nat \<Rightarrow> slots \<Rightarrow> slots" where
  "closeConn c s =
     (if c \<in> set (sl_Conns s)
      then s\<lparr>sl_Used := sl_Used s - 1, sl_Conns := removeAll c (sl_Conns s)\<rparr> else s)"

definition slots_ok :: "int \<Rightarrow> slots \<Rightarrow> bool" where
  "slots_ok cap s \<longleftrightarrow> sl_Used s = length (sl_Conns s) \<and> distinct (sl_Conns s)
     \<and> int (sl_Used s) \<le> cap \<and> (\<forall>c \<in> set (sl_Conns s). c < sl_Next s)"

subsection \<open>Lemmas\<close>

lemma byteOf_inj: "byteOf x = byteOf y \<longleftrightarrow> x = y"
proof
  assume "byteOf x = byteOf y"
  then have "unat (byteOf x) = unat (byteOf y)" by simp
  then have "(of_char x :: nat) = of_char y"
    by (simp add: byteOf_def unat_of_nat take_bit_nat_def)
  then show "x = y" by simp
qed simp

lemma xor_zero: "xor u v = 0 \<longleftrightarrow> u = v" for u v :: "8 word"
  by (metis xor.assoc xor.left_neutral xor.right_neutral xor_self_eq)

lemma diffBytes_zero: "length a = length b \<Longrightarrow> diffBytes a b d = 0 \<longleftrightarrow> d = 0 \<and> a = b"
proof (induction a b arbitrary: d rule: list_induct2)
  case (Cons x xs y ys)
  have "or d (xor (byteOf x) (byteOf y)) = 0 \<longleftrightarrow> d = 0 \<and> x = y"
    by (simp add: or_eq_0_iff xor_zero byteOf_inj)
  then show ?case using Cons.IH by auto
qed simp

lemma constantTimeEqual_eq: "constantTimeEqual a b \<longleftrightarrow> a = b"
  using diffBytes_zero [of a b 0] by (auto simp: constantTimeEqual_def)

lemma slots_ok_accept: "slots_ok cap s \<Longrightarrow> slots_ok cap (snd (acceptConn cap s))"
  by (auto simp: slots_ok_def acceptConn_def)

lemma slots_ok_close: "slots_ok cap s \<Longrightarrow> slots_ok cap (closeConn c s)"
  by (auto simp: slots_ok_def closeConn_def distinct_remove1_removeAll [symmetric] length_remove1)

lemma watching_bounded:
  assumes "watching bound w" and "0 \<le> bound"
  shows "int (wt_Open w) \<le> bound \<and> wt_Counter w = int (wt_Open w) + int (wt_Refusing w)"
  using assms by (induction rule: watching.induct)
    (auto simp: enterWatch_def backOut_def leaveWatch_def Let_def)

text \<open>The stream never shows anything but the present: after each turn the latest message has its state and detail.\<close>

lemma watchTurn_current:
  assumes "watchTurn interval report now prev = (sent, prev')"
  shows "\<exists>l t. prev' = Some (l, t) \<and> hr_State l = hr_State report \<and> hr_Detail l = hr_Detail report
    \<and> (interval \<le> time_sub now t \<longrightarrow> t = now)"
  using assms by (auto simp: watchTurn_def split: option.splits if_splits)

lemma countJobs_eq:
  assumes "engine_ok e"
  shows "countJobs (statusText st) e = int (length (filter (\<lambda>j. job_Status j = st) (Jobs e)))"
proof -
  have ne: "statusText st \<noteq> []" by (cases st) simp_all
  have "listing [] (statusText st) e = filter (\<lambda>j. job_Status j = st) (Jobs e)"
    using ne by (auto simp: listing_def statusText_inj intro!: filter_cong)
  then show ?thesis
    using JobsPageFor_listing [OF engine_okD(1) [OF assms], of "[]" "statusText st" 0 1]
    by (simp add: countJobs_def JobsPage_def)
qed

text \<open>
  A stream never waits past a wake-up that ends it, and with reports that can be sent it shows every
  change: the first report, and each one whose state or detail differs from the one before.
\<close>

lemma watchRun_ends:
  "(r, now, ok, wake) \<in> set turns \<Longrightarrow> wake \<noteq> NextTick \<Longrightarrow> snd (watchRun interval turns prev) \<noteq> None"
  by (induction interval turns prev rule: watchRun.induct)
    (auto simp: Let_def split: prod.splits option.splits watchWake.splits if_splits)

lemma watchRun_first:
  "fst (watchRun interval ((r, now, True, wake) # turns) None) \<noteq> []"
  by (auto simp: watchTurn_def Let_def split: watchWake.splits prod.splits)

lemma watchRun_change:
  assumes "hr_State r \<noteq> hr_State l \<or> hr_Detail r \<noteq> hr_Detail l"
  shows "\<exists>rs. fst (watchRun interval ((r, now, True, wake) # turns) (Some (l, t))) = r # rs"
  using assms by (auto simp: watchTurn_def Let_def split: watchWake.splits prod.splits)

lemma StopHealth_once: "StopHealth (StopHealth s) = StopHealth s"
  by (simp add: StopHealth_def)

end
