(* ===== verification/HealthTheorems.thy ===== *)
theory HealthTheorems
  imports Health StartTheorems ConfigTheorems
begin

section \<open>Theorems on the health service\<close>

text \<open>
  C17: the health service on a network address serves nobody without a credential. Whatever
  the flags and the file of a service that started, a call on an address other than this machine
  is served only when one of its authorization values is a bearer token that is the one the
  service was given, or that the identity key of the same process accepts.
\<close>

theorem health_needs_credential:
  assumes start: "startService m fl = Inr svc" and cfg: "svc_health svc = Some cfg"
    and c: "startHealth m cfg = Inr c" and host: "mach_hostOf m (hc_Listen c) = Some host"
    and network: "\<not> isLoopbackHost (mach_net m) host" and call: "callAllowed cry now c metadata"
  shows "\<exists>v \<in> set metadata. \<exists>t. v = ''Bearer '' @ t
    \<and> (t = hc_Token c \<and> t \<noteq> []
       \<or> (\<exists>key i. srv_identityKey (svc_server svc) = Some key \<and> VerifyServerToken cry t key now = Inr i))"
proof -
  obtain fc key e3 verifier where p: "healthGRPCSettings m (fc_HealthGRPC fc) (fl_Token fl) key = Inr (Some cfg)"
      "svc_server svc = buildServer fl fc key verifier e3"
    using startService_parts [OF start] cfg by metis
  have "hc_Identity cfg = key"
    using p(1) by (auto simp: healthGRPCSettings_def split: option.splits if_splits sum.splits)
  then have identity: "hc_Identity c = srv_identityKey (svc_server svc)" "hc_Token c = hc_Token cfg"
    using c p(2) by (auto simp: startHealth_def healthDefaults_def buildServer_def Let_def split: option.splits)
  have "hc_Token c \<noteq> [] \<or> hc_Identity c \<noteq> None"
    using c host network identity(2)
    by (auto simp: startHealth_def Let_def ListenProblem_def isLoopbackHost_def healthDefaults_def
        split: option.splits if_splits)
  then obtain v where v: "v \<in> set metadata" "presentsCredential cry now c v"
    using call by (auto simp: callAllowed_def list_ex_iff)
  then obtain t where t: "v = ''Bearer '' @ t" by (auto simp: presentsCredential_def prefix_def)
  then have "hc_Token c \<noteq> [] \<and> t = hc_Token c
      \<or> (\<exists>key i. hc_Identity c = Some key \<and> VerifyServerToken cry t key now = Inr i)"
    using v(2) by (auto simp: presentsCredential_def constantTimeEqual_eq Let_def isl_def
        split: option.splits) (meson sum.exhaust_sel)+
  then show ?thesis using v(1) t identity(1) by auto
qed

text \<open>A service that its file tells to serve its health at an address of the network.\<close>

definition healthMachine :: "unit machine" where
  "healthMachine = aMachine\<lparr>mach_config := (\<lambda>_. Some (DocumentText
     (JObject [(''health_grpc'', JObject [(''enabled'', JBool True), (''listen'', JString ''0.0.0.0'')])]) False))\<rparr>"

definition healthFlags :: flags where
  "healthFlags = someFlags\<lparr>fl_Config := ''config''\<rparr>"

definition servedHealth :: healthConfig where
  "servedHealth = \<lparr>hc_Listen = ''0.0.0.0'', hc_Token = ''t'', hc_Identity = None, hc_MaxConnections = 0,
     hc_MaxWatchers = 0, hc_WatchInterval = 0, hc_Keepalive = 0\<rparr>"

definition healthSection :: HealthGRPCSection where
  "healthSection = \<lparr>hs_Enabled = True, hs_Listen = ''0.0.0.0'', hs_TokenEnv = [], hs_MaxConnections = None,
     hs_MaxWatchers = None, hs_WatchIntervalSeconds = None, hs_KeepaliveSeconds = None\<rparr>"

definition healthFile :: FileConfig where
  "healthFile = noConfig\<lparr>fc_HealthGRPC := Some healthSection\<rparr>"

lemma health_field: "findField configFields ''health_grpc'' =
    Some (\<lambda>v r. map_option (\<lambda>x. fc_HealthGRPC_update (\<lambda>_. x) r)
      (sectionOf \<lparr>hs_Enabled = False, hs_Listen = [], hs_TokenEnv = [], hs_MaxConnections = None,
          hs_MaxWatchers = None, hs_WatchIntervalSeconds = None, hs_KeepaliveSeconds = None\<rparr>
        healthFields v (fc_HealthGRPC r)))"
  by (rule findField_exact)
    (simp only: configFields_def field_def map_of.simps fst_conv snd_conv fun_upd_def, simp)

lemma health_fields:
  "findField healthFields ''enabled'' = Some (\<lambda>v r. map_option (\<lambda>x. hs_Enabled_update (\<lambda>_. x) r) (storeBool v (hs_Enabled r)))"
  "findField healthFields ''listen'' = Some (\<lambda>v r. map_option (\<lambda>x. hs_Listen_update (\<lambda>_. x) r) (storeString v (hs_Listen r)))"
  by (rule findField_exact, simp add: healthFields_def field_def)+

lemma reads_health:
  "storeStruct True configFields
     (JObject [(''health_grpc'', JObject [(''enabled'', JBool True), (''listen'', JString ''0.0.0.0'')])]) noConfig
   = Some healthFile"
  by (simp add: health_field health_fields sectionOf_def storePointer_def healthFile_def healthSection_def noConfig_def)

lemma healthFile_valid: "Validate net getenv healthFile = None"
  by (simp add: healthFile_def healthSection_def Validate_def noConfig_def LocationSetting_def noLocation_def
      LocationValidate_def checkReplan_def checkMaintenance_def EventsSetting_def noEvents_def
      EventsValidate_def MissionStateSetting_def noMission_def MissionStateValidate_def
      ToolConfirmSetting_def noToolConfirmation_def ToolConfirmValidate_def checkTemplate_def
      ProposalVerifySetting_def noVerify_def ProposalVerifyValidate_def healthValid_def
      archiveValid_def checkInterval_def)

lemma healthService_start:
  "\<exists>svc. startService healthMachine healthFlags = Inr svc \<and> svc_health svc = Some servedHealth"
proof -
  have r: "readConfig healthMachine healthFlags = Inr healthFile"
    using reads_health healthFile_valid
    by (simp add: readConfig_def healthFlags_def healthMachine_def andThen_def LoadConfigFile_def ParseConfig_def
        refuseIf_def configProblem_def IntervalSetting_def healthFile_def noConfig_def noETA_def
        del: storeStruct.simps)
  have f: "checkFlags healthMachine healthFlags = Inr None" by code_simp
  have h: "healthGRPCSettings healthMachine (Some healthSection) ''t'' None = Inr (Some servedHealth)" by code_simp
  have o: "openEngine healthMachine healthFlags = Inr NewEngine"
    by (simp add: openEngine_def healthFlags_def someFlags_def)
  have "\<not> isl (setUpEngine healthMachine healthFlags healthFile NewEngine)" by code_simp
  then obtain e1 where s: "setUpEngine healthMachine healthFlags healthFile NewEngine = Inr e1"
    by (cases "setUpEngine healthMachine healthFlags healthFile NewEngine") auto
  have off: "eventsSet m healthFile e = Inr e" "mirrorOf m healthFile = Inr None"
    "confirmSet healthFile e = Inr e" "verifierOf m healthFile = Inr None" for m and e :: "unit engine"
    by (simp_all add: healthFile_def noConfig_def eventsSet_def EventsSetting_def noEvents_def mirrorOf_def
        MissionStateSetting_def noMission_def confirmSet_def ToolConfirmSetting_def noToolConfirmation_def
        verifierOf_def ProposalVerifySetting_def noVerify_def)
  have g: "fc_HealthGRPC healthFile = Some healthSection" "fl_Token healthFlags = ''t''"
    by (simp_all add: healthFile_def healthFlags_def someFlags_def)
  show ?thesis by (simp add: startService_def andThen_def r f h o s off g)
qed

lemma health_needs_credential_witness:
  "\<exists>svc. startService healthMachine healthFlags = Inr svc \<and> (\<exists>t. ''Bearer t'' = ''Bearer '' @ t
    \<and> (t = ''t'' \<and> t \<noteq> [] \<or> (\<exists>key i. srv_identityKey (svc_server svc) = Some key
       \<and> VerifyServerToken (out_crypto aWorld) t key 0 = Inr i)))"
proof -
  obtain svc where svc: "startService healthMachine healthFlags = Inr svc" "svc_health svc = Some servedHealth"
    using healthService_start by blast
  have c: "startHealth healthMachine servedHealth = Inr (healthDefaults servedHealth)" by code_simp
  have h: "mach_hostOf healthMachine (hc_Listen (healthDefaults servedHealth)) = Some ''0.0.0.0''" by code_simp
  have n: "\<not> isLoopbackHost (mach_net healthMachine) ''0.0.0.0''" by code_simp
  have k: "callAllowed (out_crypto aWorld) 0 (healthDefaults servedHealth) [''Bearer t'']" by code_simp
  have t: "hc_Token (healthDefaults servedHealth) = ''t''" by code_simp
  obtain v where v: "v \<in> set [''Bearer t'']" and used: "\<exists>t. v = ''Bearer '' @ t \<and> (t = ''t'' \<and> t \<noteq> []
      \<or> (\<exists>key i. srv_identityKey (svc_server svc) = Some key \<and> VerifyServerToken (out_crypto aWorld) t key 0 = Inr i))"
    using health_needs_credential [OF svc c h n k] unfolding t by blast
  have "v = ''Bearer t''" using v by simp
  from used [unfolded this] show ?thesis by (intro exI [of _ svc] conjI svc(1))
qed

end
