(* ===== verification/Outgoing.thy ===== *)
theory Outgoing
  imports Verifier Maintenance Completion Queries Mqtt
begin

section \<open>What the service sends\<close>

text \<open>
  The deliveries: the webhooks of \<open>src/src/dispatcher/events.go\<close>, the sinks of
  \<open>production_event.go\<close> with the one \<open>src/main.go\<close> builds, and the mirror of the state of
  \<open>mqttstate.go\<close>. The connections are parameters that answer, for the attempt or the packet of a
  number, what the other side said; the text of a document is the JSON writer's.
\<close>

subsection \<open>Webhooks\<close>

definition hexDigit :: "nat \<Rightarrow> char" where
  "hexDigit n = (if n < 10 then char_of (48 + n) else char_of (87 + n))"

definition hexText :: "string \<Rightarrow> string" where
  "hexText s = concat (map (\<lambda>c. let n = (of_char c :: nat) in [hexDigit (n div 16), hexDigit (n mod 16)]) s)"

definition Sign :: "crypto \<Rightarrow> string \<Rightarrow> string \<Rightarrow> string \<Rightarrow> string" where
  "Sign cry secret timestamp body = hexText (cry_HMAC cry secret (timestamp @ ''.'' @ body))"

definition eventDocument :: "Event \<Rightarrow> json" where
  "eventDocument ev = JObject
     ([(''id'', JNumber (Whole (ev_ID ev))), (''type'', JString (eventText (ev_Type ev))),
       (''jobId'', JString (ev_JobID ev))]
      @ (if ev_RobotID ev = [] then [] else [(''robotId'', JString (ev_RobotID ev))])
      @ (if ev_Attempt ev = 0 then [] else [(''attempt'', JNumber (Whole (ev_Attempt ev)))])
      @ [(''atMs'', JNumber (Whole (ev_AtMs ev)))])"

text \<open>A request of a delivery: its stamp, its signature, and the wait after it (none after a success).\<close>

record webhookPost =
  wp_Timestamp :: string
  wp_Signature :: string
  wp_Wait :: duration

datatype deliveryEnd = Delivered | GaveUp | HubClosed

record receiver =
  rc_Clock :: "int \<Rightarrow> instant"
  rc_Answer :: "int \<Rightarrow> nat option"
  rc_Closed :: "int \<Rightarrow> bool"

fun deliverFrom ::
  "nat \<Rightarrow> int \<Rightarrow> crypto \<Rightarrow> eventSettings \<Rightarrow> string \<Rightarrow> receiver \<Rightarrow> string \<Rightarrow> webhookPost list \<times> deliveryEnd" where
  "deliverFrom 0 attempt cry cfg secret rc body = ([], GaveUp)"
| "deliverFrom (Suc n) attempt cry cfg secret rc body =
     (let ts = showInt (unixSeconds (rc_Clock rc attempt));
          post = \<lparr>wp_Timestamp = ts, wp_Signature = ''sha256='' @ Sign cry secret ts body, wp_Wait = 0\<rparr>
      in if (case rc_Answer rc attempt of None \<Rightarrow> False | Some status \<Rightarrow> status div 100 = 2)
         then ([post], Delivered)
         else if rc_Closed rc attempt then ([post], HubClosed)
         else
           (case deliverFrom n (attempt + 1) cry cfg secret rc body of
              (posts, end') \<Rightarrow> (post\<lparr>wp_Wait := evs_RetryDelay cfg * attempt\<rparr> # posts, end')))"

definition deliver ::
  "crypto \<Rightarrow> eventSettings \<Rightarrow> string \<Rightarrow> receiver \<Rightarrow> Event \<Rightarrow> webhookPost list \<times> deliveryEnd" where
  "deliver cry cfg secret rc ev =
     deliverFrom (nat (evs_MaxAttempts cfg)) 1 cry cfg secret rc (cry_Marshal cry (eventDocument ev))"

text \<open>
  One turn of the goroutine of a webhook: an event to deliver or to skip, a channel that was closed
  (the webhook fell behind and subscribes again), or nothing yet.
\<close>

datatype webhookTurn = Nothing_yet | Deliver Event | Skip Event | SubscribeAgain

definition webhookTurn :: "string list \<Rightarrow> nat \<Rightarrow> EventHub \<Rightarrow> webhookTurn \<times> nat \<times> EventHub" where
  "webhookTurn wanted c h =
     (case receive c h of
        (Some ev, h') \<Rightarrow>
          (if wanted \<noteq> [] \<and> eventText (ev_Type ev) \<notin> set wanted then Skip ev else Deliver ev, c, h')
      | (None, h') \<Rightarrow>
          if (case go_get (hub_chans h) c of None \<Rightarrow> False | Some ch \<Rightarrow> ch_closed ch)
          then (case Subscribe (2 ^ 62) h' of (_, c', h'') \<Rightarrow> (SubscribeAgain, c', h''))
          else (Nothing_yet, c, h'))"

text \<open>A delivery makes at least one request and at most \<open>max_attempts\<close>; only the last can succeed.\<close>

lemma deliverFrom_posts:
  assumes "deliverFrom n attempt cry cfg secret rc body = (posts, fin)"
  shows "length posts \<le> n" "n \<noteq> 0 \<Longrightarrow> posts \<noteq> []"
    "fin = Delivered \<longleftrightarrow> posts \<noteq> [] \<and>
       (case rc_Answer rc (attempt + int (length posts) - 1) of
          None \<Rightarrow> False | Some status \<Rightarrow> status div 100 = 2)"
proof -
  have "length posts \<le> n \<and> (n \<noteq> 0 \<longrightarrow> posts \<noteq> []) \<and> (fin = Delivered \<longleftrightarrow> posts \<noteq> [] \<and>
       (case rc_Answer rc (attempt + int (length posts) - 1) of
          None \<Rightarrow> False | Some status \<Rightarrow> status div 100 = 2))"
    using assms
  proof (induction n arbitrary: attempt posts fin)
    case (Suc n)
    obtain posts' fin' where r: "deliverFrom n (attempt + 1) cry cfg secret rc body = (posts', fin')" by fastforce
    show ?case using Suc.IH [OF r] Suc.prems r
      by (cases "rc_Answer rc attempt"; cases n)
        (auto simp: Let_def add.commute add.left_commute split: if_splits prod.splits)
  qed simp
  then show "length posts \<le> n" "n \<noteq> 0 \<Longrightarrow> posts \<noteq> []"
    "fin = Delivered \<longleftrightarrow> posts \<noteq> [] \<and>
       (case rc_Answer rc (attempt + int (length posts) - 1) of
          None \<Rightarrow> False | Some status \<Rightarrow> status div 100 = 2)" by blast+
qed

subsection \<open>Production events\<close>

text \<open>The statuses with which a receiver takes an event.\<close>

definition receiverTook :: "nat \<Rightarrow> bool" where
  "receiverTook status \<longleftrightarrow> 200 \<le> status \<and> status \<le> 299"

datatype sinkError = SinkClosed | QueueFull

text \<open>The queue of \<open>AsyncSink\<close>, with the events its goroutine has handed over.\<close>

record sinkQueue =
  sq_Cap :: nat
  sq_Events :: "ProductionEvent list"
  sq_Stopped :: bool
  sq_Handed :: "ProductionEvent list"

definition AsyncSink :: "int \<Rightarrow> sinkQueue" where
  "AsyncSink queue = \<lparr>sq_Cap = nat (if queue < 1 then 1 else queue), sq_Events = [],
     sq_Stopped = False, sq_Handed = []\<rparr>"

definition enqueue :: "ProductionEvent \<Rightarrow> sinkQueue \<Rightarrow> sinkError option \<times> sinkQueue" where
  "enqueue event q =
     (if sq_Stopped q then (Some SinkClosed, q)
      else if length (sq_Events q) < sq_Cap q then (None, q\<lparr>sq_Events := sq_Events q @ [event]\<rparr>)
      else (Some QueueFull, q))"

definition handOver :: "sinkQueue \<Rightarrow> sinkQueue" where
  "handOver q =
     (case sq_Events q of [] \<Rightarrow> q
      | event # events \<Rightarrow> q\<lparr>sq_Events := events, sq_Handed := sq_Handed q @ [event]\<rparr>)"

definition stopSink :: "sinkQueue \<Rightarrow> sinkQueue" where
  "stopSink q = q\<lparr>sq_Stopped := True\<rparr>"

datatype sinkStep = Offer ProductionEvent | HandOver | StopSink

fun sinkRun :: "sinkStep list \<Rightarrow> sinkQueue \<Rightarrow> ProductionEvent list \<times> sinkQueue" where
  "sinkRun [] q = ([], q)"
| "sinkRun (Offer event # steps) q =
     (case enqueue event q of
        (None, q') \<Rightarrow> (case sinkRun steps q' of (taken, q'') \<Rightarrow> (event # taken, q''))
      | (Some _, q') \<Rightarrow> sinkRun steps q')"
| "sinkRun (HandOver # steps) q = sinkRun steps (handOver q)"
| "sinkRun (StopSink # steps) q = sinkRun steps (stopSink q)"

text \<open>What the queue took is handed over in order: what was handed over and what waits is what was taken.\<close>

lemma sinkRun_order:
  "sinkRun steps q = (taken, q') \<Longrightarrow>
   sq_Handed q' @ sq_Events q' = sq_Handed q @ sq_Events q @ taken
   \<and> (length (sq_Events q) \<le> sq_Cap q \<longrightarrow> length (sq_Events q') \<le> sq_Cap q')"
  by (induction steps q arbitrary: taken rule: sinkRun.induct)
    (auto simp: enqueue_def handOver_def stopSink_def split: if_splits list.splits prod.splits)

subsection \<open>The mirror of the state\<close>

text \<open>
  A connection to the broker: whether it opens, which of the packets can be written, and the four
  bytes that answer the first one. A packet that is written reaches the broker.
\<close>

record wire =
  wi_Dial :: bool
  wi_Writes :: "nat \<Rightarrow> bool"
  wi_Ack :: "byte list option"

datatype publishError = NoAddress | NoConnection | WriteFailed | NoAck | RefusedByBroker byte

definition brokerAddress :: "url \<Rightarrow> string" where
  "brokerAddress u =
     (if url_Port u \<noteq> [] then url_Host u
      else (if CHR '':'' \<in> set (url_Hostname u) then ''['' @ url_Hostname u @ '']'' else url_Hostname u)
        @ (if url_Scheme u = ''mqtts'' then '':8883'' else '':1883''))"

text \<open>The packets that were written, and the error; \<open>wires\<close> is the network, by address.\<close>

definition publishOnce ::
  "netlib \<Rightarrow> MissionStateConfig \<Rightarrow> byte list \<Rightarrow> (string \<Rightarrow> wire) \<Rightarrow> byte list list \<times> publishError option" where
  "publishOnce net cfg payload wires =
     (case net_Parse net (msc_URL cfg) of
        None \<Rightarrow> ([], Some NoAddress)
      | Some u \<Rightarrow>
          let w = wires (brokerAddress u);
              first = mqttConnectPacket ''hydra-umc-job-dispatcher'' (msc_User cfg) (msc_Password cfg);
              second = mqttPublishPacket (msc_Topic cfg) payload
          in if \<not> wi_Dial w then ([], Some NoConnection)
             else if \<not> wi_Writes w 0 then ([], Some WriteFailed)
             else (case wi_Ack w of
                 Some [a0, a1, a2, a3] \<Rightarrow>
                   if a0 \<noteq> 0x20 \<or> a1 \<noteq> 0x02 \<or> a3 \<noteq> 0 then ([first], Some (RefusedByBroker a3))
                   else if \<not> wi_Writes w 1 then ([first], Some WriteFailed)
                   else if \<not> wi_Writes w 2 then ([first, second], Some WriteFailed)
                   else ([first, second, [0xe0, 0x00]], None)
               | _ \<Rightarrow> ([first], Some NoAck)))"

text \<open>The publisher between two ticks: what it published last and when (\<open>None\<close> is the zero time).\<close>

record publisher =
  pub_Last :: string
  pub_LastAt :: "instant option"

definition sinceLast :: "instant \<Rightarrow> instant option \<Rightarrow> duration" where
  "sinceLast now t = (case t of None \<Rightarrow> maxDuration | Some s \<Rightarrow> time_sub now s)"

definition Tick ::
  "(QueueState \<Rightarrow> string) \<Rightarrow> MissionStateConfig \<Rightarrow> (byte list \<Rightarrow> byte list list \<times> publishError option) \<Rightarrow>
   's engine \<Rightarrow> instant \<Rightarrow> publisher \<Rightarrow> byte list list \<times> publisher" where
  "Tick encode cfg publish e now p =
     (let payload = encode (State e)
      in if payload = pub_Last p \<and> sinceLast now (pub_LastAt p) < msc_Refresh cfg then ([], p)
         else
           (case publish (bytesOf payload) of
              (packets, Some _) \<Rightarrow> (packets, p)
            | (packets, None) \<Rightarrow> (packets, \<lparr>pub_Last = payload, pub_LastAt = Some now\<rparr>)))"

text \<open>What a broker keeps of the packets of a connection: the last retained message of the topic.\<close>

definition brokerKeeps :: "string \<Rightarrow> byte list list \<Rightarrow> byte list option \<Rightarrow> byte list option" where
  "brokerKeeps topic packets retained =
     fold (\<lambda>p k. case readPublish p of Some (t, payload, _) \<Rightarrow> if t = topic then Some payload else k
                 | None \<Rightarrow> k) packets retained"

text \<open>A run of ticks, each at its time on the engine of the moment, over the network of the moment.\<close>

type_synonym 's tick = "'s engine \<times> instant \<times> (string \<Rightarrow> wire)"

fun mirrorRun ::
  "netlib \<Rightarrow> (QueueState \<Rightarrow> string) \<Rightarrow> MissionStateConfig \<Rightarrow> 's tick list \<Rightarrow>
   publisher \<times> byte list option \<Rightarrow> publisher \<times> byte list option" where
  "mirrorRun net encode cfg [] s = s"
| "mirrorRun net encode cfg ((e, now, wires) # ticks) (p, retained) =
     (case Tick encode cfg (\<lambda>payload. publishOnce net cfg payload wires) e now p of
        (packets, p') \<Rightarrow> mirrorRun net encode cfg ticks (p', brokerKeeps (msc_Topic cfg) packets retained))"

definition publisherStart :: "publisher \<times> byte list option" where
  "publisherStart = (\<lparr>pub_Last = [], pub_LastAt = None\<rparr>, None)"

subsection \<open>Packets at the broker\<close>

lemma readPublish_connect: "readPublish (mqttConnectPacket c u p) = None"
  by (simp add: readPublish_def mqttConnectPacket_def Let_def split: prod.split)

lemma readPublish_disconnect: "readPublish [0xe0, 0x00] = None"
  by (simp add: readPublish_def)

lemma brokerKeeps_published:
  assumes "length (msc_Topic cfg) < 2 ^ 16" and "publishOnce net cfg payload wires = (packets, err)"
  shows "err = None \<Longrightarrow> brokerKeeps (msc_Topic cfg) packets retained = Some payload"
    "brokerKeeps (msc_Topic cfg) packets retained = Some payload \<or> brokerKeeps (msc_Topic cfg) packets retained = retained"
  using assms(2) readPublish_encoded [OF assms(1), of payload "[]"]
  by (auto simp: publishOnce_def Let_def brokerKeeps_def readPublish_connect readPublish_disconnect
      split: option.splits if_splits list.splits)

lemma published_cut:
  assumes "publishOnce net cfg payload wires = (packets, Some err)"
    and "\<And>a. wi_Writes (wires a) 1 \<Longrightarrow> wi_Writes (wires a) 2"
  shows "brokerKeeps topic packets retained = retained"
  using assms
  by (auto simp: publishOnce_def Let_def brokerKeeps_def readPublish_connect
      split: option.splits if_splits list.splits)

end
