(* ===== verification/OutgoingTheorems.thy ===== *)
theory OutgoingTheorems
  imports Outgoing Demo
begin

section \<open>Theorems on the mirror of the state\<close>

lemma mirrorRun_append:
  "mirrorRun net encode cfg (xs @ ys) s = mirrorRun net encode cfg ys (mirrorRun net encode cfg xs s)"
  by (induction net encode cfg xs s rule: mirrorRun.induct) (simp_all split: prod.split)

text \<open>A connection that can write the state can write its end too.\<close>

definition wholeWires :: "'s tick list \<Rightarrow> bool" where
  "wholeWires ticks \<longleftrightarrow>
     (\<forall>e now wires. (e, now, wires) \<in> set ticks \<longrightarrow>
        (\<forall>a. wi_Writes (wires a) 1 \<longrightarrow> wi_Writes (wires a) 2))"

lemma mirrorRun_retained:
  assumes "length (msc_Topic cfg) < 2 ^ 16" and "wholeWires ticks"
    and "mirrorRun net encode cfg ticks (p0, r0) = (p, r)"
    and "pub_Last p0 \<noteq> [] \<Longrightarrow> r0 = Some (bytesOf (pub_Last p0))" and "pub_Last p \<noteq> []"
  shows "r = Some (bytesOf (pub_Last p))"
  using assms
proof (induction ticks arbitrary: p0 r0)
  case (Cons tick ticks)
  obtain e now wires where tick: "tick = (e, now, wires)" by (metis prod_cases3)
  let ?payload = "encode (State e)"
  obtain packets p1 where t: "Tick encode cfg (\<lambda>b. publishOnce net cfg b wires) e now p0 = (packets, p1)"
    by fastforce
  obtain sent err where o: "publishOnce net cfg (bytesOf ?payload) wires = (sent, err)" by fastforce
  have whole: "wi_Writes (wires a) 1 \<Longrightarrow> wi_Writes (wires a) 2" for a
    using Cons.prems(2) tick by (auto simp: wholeWires_def)
  have "brokerKeeps (msc_Topic cfg) packets r0 = Some (bytesOf (pub_Last p1))" if "pub_Last p1 \<noteq> []"
    using t o that Cons.prems(4) brokerKeeps_published(1) [OF Cons.prems(1) o, of r0]
      published_cut [of net cfg "bytesOf ?payload" wires sent _ "msc_Topic cfg" r0, OF _ whole]
    by (auto simp: Tick_def Let_def brokerKeeps_def split: if_splits option.splits)
  moreover have "wholeWires ticks" using Cons.prems(2) by (auto simp: wholeWires_def)
  moreover have "mirrorRun net encode cfg ticks (p1, brokerKeeps (msc_Topic cfg) packets r0) = (p, r)"
    using Cons.prems(3) tick t by simp
  ultimately show ?case using Cons.IH [OF Cons.prems(1)] Cons.prems(5) by blast
qed simp


text \<open>A broker on this machine, and the queue with and without jobs.\<close>

definition localNet :: netlib where
  "localNet = \<lparr>net_Parse = (\<lambda>_. Some \<lparr>url_Scheme = ''mqtt'', url_Host = ''localhost'',
     url_Hostname = ''localhost'', url_Port = [], url_User = False\<rparr>), net_Loopback = (\<lambda>_. False)\<rparr>"

definition someMirror :: MissionStateConfig where
  "someMirror = \<lparr>msc_Enabled = True, msc_URL = ''mqtt://localhost'', msc_Topic = StateTopic,
     msc_User = [], msc_Password = [], msc_Interval = second, msc_Refresh = 60 * second\<rparr>"

definition emptyOrNot :: "QueueState \<Rightarrow> string" where
  "emptyOrNot s = (if st_Counts s = [] then ''a'' else ''b'')"

definition wireUpTo :: "nat \<Rightarrow> string \<Rightarrow> wire" where
  "wireUpTo n a = \<lparr>wi_Dial = True, wi_Writes = (\<lambda>i. i < n), wi_Ack = Some [0x20, 2, 0, 0]\<rparr>"

lemma someMirror_valid: "MissionStateValidate localNet someMirror = None"
  by code_simp


text \<open>
  When the state reaches the broker but the end of the connection cannot be written, the publisher
  does not know: a queue that goes back to the state before is not published again, and the broker
  keeps the state in between until the refresh.
\<close>

lemma half_reported_stays:
  "snd (mirrorRun localNet emptyOrNot someMirror
     [(NewEngine :: unit engine, 5, wireUpTo 3), (plant1, second + 5, wireUpTo 2), (NewEngine, 2 * second + 5, wireUpTo 3)]
     publisherStart) = Some [98]"
  by code_simp

end
