(* ===== verification/TokenTheorems.thy ===== *)
theory TokenTheorems
  imports Verifier
begin

section \<open>Theorems on the tokens of the family\<close>

lemma storeAnyMap_head: "storeAnyMap tokenHead = Some [(''alg'', JString ''HS256''), (''typ'', JString ''JWT'')]"
  by (simp add: storeAnyMap_def tokenHead_def)

lemma storeAnyMap_claims:
  assumes "0 \<le> now" and "now \<le> 3999999900 * second"
  shows "storeAnyMap (tokenClaims username role now) =
    Some [(''exp'', JNumber (Whole (unixSeconds (now + identityTokenLifetime)))), (''role'', JString role),
      (''username'', JString username)]"
    and "finiteSeconds [(''exp'', JNumber (Whole (unixSeconds (now + identityTokenLifetime)))),
        (''role'', JString role), (''username'', JString username)] ''exp''
      = Seconds (of_int (unixSeconds (now + identityTokenLifetime)))"
proof -
  let ?n = "unixSeconds (now + identityTokenLifetime)"
  have n: "0 \<le> ?n" "?n \<le> 4000000000"
    using assms by (simp_all add: unixSeconds_def identityTokenLifetime_def second_def)
  then have small: "?n < 2 ^ 53" by (intro le_less_trans [OF n(2)]) simp
  have "(of_int ?n :: rat) \<le> of_int 4000000000" using n(2) by (simp only: of_int_le_iff)
  also have "\<dots> < 2 ^ 1024" by simp
  finally have f: "readFloat (Whole ?n) = Some (Fin (of_int ?n))"
    using rnd64_int [OF n(1) small] n(1) by (simp add: readFloat_def numberValue_def)
  show "storeAnyMap (tokenClaims username role now) = Some [(''exp'', JNumber (Whole ?n)), (''role'', JString role),
      (''username'', JString username)]"
    using f by (simp add: storeAnyMap_def tokenClaims_def)
  show "finiteSeconds [(''exp'', JNumber (Whole ?n)), (''role'', JString role), (''username'', JString username)] ''exp''
      = Seconds (of_int ?n)"
    using f by (simp add: finiteSeconds_def)
qed

text \<open>How a token that was signed is read, under any key.\<close>

lemma VerifyServerToken_signed:
  assumes cry: "crypto_ok cry [tokenHead, tokenClaims username role now]"
    and len: "length (SignIdentityToken cry key username role now) \<le> maxIdentityTokenChars"
    and now: "0 \<le> now" "now \<le> 3999999900 * second"
  defines "msg \<equiv> tokenPart cry tokenHead @ ''.'' @ tokenPart cry (tokenClaims username role now)"
  shows "VerifyServerToken cry (SignIdentityToken cry key username role now) key' t =
    (if cry_HMAC cry key' msg \<noteq> cry_HMAC cry key msg then Inl TokenSignature
     else checkClaims [(''exp'', JNumber (Whole (unixSeconds (now + identityTokenLifetime)))),
       (''role'', JString role), (''username'', JString username)] (momentOf t))"
proof -
  let ?h = "tokenPart cry tokenHead" and ?b = "tokenPart cry (tokenClaims username role now)"
  let ?s = "cry_Encode cry (cry_HMAC cry key msg)"
  note c = crypto_okD [OF cry]
  have tok: "SignIdentityToken cry key username role now = ?h @ ''.'' @ ?b @ ''.'' @ ?s"
    by (simp add: SignIdentityToken_def msg_def Let_def)
  have free: "CHR ''.'' \<notin> set ?h" "CHR ''.'' \<notin> set ?b" "CHR ''.'' \<notin> set ?s"
    using c(2) by (simp_all add: tokenPart_def)
  have split: "splitOn CHR ''.'' (SignIdentityToken cry key username role now) = [?h, ?b, ?s]"
    unfolding tok by (rule splitOn_token [OF free])
  have ne: "?h \<noteq> []" "?b \<noteq> []" "?s \<noteq> []" "SignIdentityToken cry key username role now \<noteq> []"
    using c(4,6,7) tok by (simp_all add: tokenPart_def)
  have dec: "decodeTokenPart cry ?h = storeAnyMap tokenHead"
    "decodeTokenPart cry ?b = storeAnyMap (tokenClaims username role now)"
    "decodeBase64 cry ?s = Some (cry_HMAC cry key msg)"
    using decodeTokenPart_part [OF cry] decodeBase64_encoded [OF cry] by simp_all
  have m: "?h @ CHR ''.'' # ?b = msg" by (simp add: msg_def)
  show ?thesis
    using len ne storeAnyMap_claims(1) [OF now, of username role]
    by (simp add: VerifyServerToken_def split dec storeAnyMap_head asText_def m)
qed


text \<open>An encoding by two letters for each byte, and a JSON for the two documents.\<close>

definition letters :: "char \<Rightarrow> string" where
  "letters c = (let n = (of_char c :: nat) in [char_of (97 + n div 16), char_of (97 + n mod 16)])"

fun unletters :: "string \<Rightarrow> string" where
  "unletters (a # b # s) = char_of (16 * (of_char a - 97) + (of_char b - 97) :: nat) # unletters s"
| "unletters _ = []"

definition plainCrypto :: crypto where
  "plainCrypto = \<lparr>cry_Base64 = (\<lambda>s. Some (unletters s)),
     cry_JSON = (\<lambda>s. if s = ''h'' then Some tokenHead
       else if s = ''c'' then Some (tokenClaims ''ana'' ''viewer'' 0) else None),
     cry_HMAC = (\<lambda>key msg. key @ ''sum''), cry_Encode = (\<lambda>d. concat (map letters d)),
     cry_Marshal = (\<lambda>v. if v = tokenHead then ''h'' else ''c'')\<rparr>"

lemma nibbles: "(of_char (c :: char) :: nat) div 16 < 16" "(of_char c :: nat) mod 16 < 16"
proof -
  have "(of_char c :: nat) < 16 * 16" by simp
  then show "(of_char c :: nat) div 16 < 16" by (rule less_mult_imp_div_less)
qed simp

lemma of_letter: "n < 16 \<Longrightarrow> (of_char (char_of (97 + n)) :: nat) = 97 + n"
  by simp

lemma unletters_letters: "unletters (letters c @ s) = c # unletters s"
  by (simp add: letters_def Let_def of_letter nibbles mult.commute [of 16] del: of_char_of)

lemma unletters_encoded: "unletters (concat (map letters d)) = d"
  by (induction d) (simp_all add: unletters_letters)

lemma letters_free: "x \<in> set (concat (map letters d)) \<Longrightarrow> 97 \<le> (of_char x :: nat)"
proof (induction d)
  case (Cons c d)
  then show ?case using nibbles [of c] by (auto simp: letters_def Let_def of_letter simp del: of_char_of)
qed simp

lemma plainCrypto_ok: "crypto_ok plainCrypto [tokenHead, tokenClaims ''ana'' ''viewer'' 0]"
proof -
  have "CHR ''.'' \<notin> set (concat (map letters d))" "CHR ''='' \<notin> set (concat (map letters d))" for d
    using letters_free [of "CHR ''.''" d] letters_free [of "CHR ''=''" d] by auto
  moreover have "concat (map letters d) \<noteq> []" if "d \<noteq> []" for d
    using that by (cases d) (auto simp: letters_def Let_def)
  moreover have "tokenClaims ''ana'' ''viewer'' 0 \<noteq> tokenHead"
    by (simp add: tokenClaims_def tokenHead_def)
  ultimately show ?thesis
    by (simp add: crypto_ok_def plainCrypto_def unletters_encoded)
qed


end
