(* ===== verification/Stream.thy ===== *)
theory Stream
  imports Api Outgoing "HOL-Library.Sublist"
begin

section \<open>The stream of events over HTTP\<close>

text \<open>
  The loop of \<open>handleEvents\<close> of \<open>src/src/api/events.go\<close> after the checks and the subscription (which
  \<open>Api\<close> models): the events of the replay, then those of the channel, written to the connection with
  what keeps it alive in between. What is written reaches the client after a while, or is lost when
  the connection breaks; the client then connects again with the number of the last event it read.
\<close>

subsection \<open>What is written\<close>

definition lineEnd :: char where
  "lineEnd = CHR 0x0A"

text \<open>An event with the document \<open>doc\<close>, and the comment that keeps a connection open.\<close>

definition chunkText :: "(json \<Rightarrow> string) \<Rightarrow> Event \<Rightarrow> string" where
  "chunkText marshal ev =
     ''id: '' @ showInt (ev_ID ev) @ [lineEnd] @ ''event: '' @ eventText (ev_Type ev) @ [lineEnd]
     @ ''data: '' @ marshal (eventDocument ev) @ [lineEnd, lineEnd]"

definition keepAliveText :: string where
  "keepAliveText = '': keepalive'' @ [lineEnd, lineEnd]"

text \<open>
  The reader of a client, by the rules of the format: a line that begins with a colon is a comment,
  the fields of an event come one in a line, and an empty line ends an event that has data.
\<close>

record message =
  msg_ID :: string
  msg_Event :: string
  msg_Data :: string

definition noMessage :: message where
  "noMessage = \<lparr>msg_ID = [], msg_Event = [], msg_Data = []\<rparr>"

definition lineField :: "string \<Rightarrow> message \<Rightarrow> message" where
  "lineField l m =
     (if prefix ''id: '' l then m\<lparr>msg_ID := drop 4 l\<rparr>
      else if prefix ''event: '' l then m\<lparr>msg_Event := drop 7 l\<rparr>
      else if prefix ''data: '' l then m\<lparr>msg_Data := drop 6 l\<rparr> else m)"

fun readMessages :: "string list \<Rightarrow> message \<Rightarrow> message list" where
  "readMessages [] m = []"
| "readMessages (l # ls) m =
     (if l = [] then
        (if msg_Data m = [] then readMessages ls noMessage else m # readMessages ls noMessage)
      else readMessages ls (lineField l m))"

definition messageOf :: "(json \<Rightarrow> string) \<Rightarrow> Event \<Rightarrow> message" where
  "messageOf marshal ev = \<lparr>msg_ID = showInt (ev_ID ev), msg_Event = eventText (ev_Type ev),
     msg_Data = marshal (eventDocument ev)\<rparr>"

text \<open>A client reads exactly the events that were written, whatever comments are between them.\<close>

datatype chunk = EventChunk Event | KeepAlive

fun chunkBytes :: "(json \<Rightarrow> string) \<Rightarrow> chunk \<Rightarrow> string" where
  "chunkBytes marshal (EventChunk ev) = chunkText marshal ev"
| "chunkBytes marshal KeepAlive = keepAliveText"

fun eventsOf :: "chunk list \<Rightarrow> Event list" where
  "eventsOf [] = []"
| "eventsOf (EventChunk ev # cs) = ev # eventsOf cs"
| "eventsOf (KeepAlive # cs) = eventsOf cs"

lemma splitOn_line: "lineEnd \<notin> set s \<Longrightarrow> splitOn lineEnd (s @ lineEnd # t) = s # splitOn lineEnd t"
  by (rule splitOn_append)

lemma digit_line: "d < 10 \<Longrightarrow> char_of (48 + d) \<noteq> lineEnd" for d :: nat
proof
  assume d: "d < 10" "char_of (48 + d) = lineEnd"
  then have "(of_char (char_of (48 + d)) :: nat) = of_char lineEnd" by simp
  then show False using d(1) by (simp add: lineEnd_def)
qed

lemma showNat_line: "lineEnd \<notin> set (showNat n)"
proof (induction n rule: showNat.induct)
  case (1 n)
  then show ?case using digit_line [of n] digit_line [of "n mod 10"]
    by (subst showNat.simps) (auto simp del: char_of_nat)
qed

lemma showInt_line: "lineEnd \<notin> set (showInt i)"
  by (auto simp: showInt_def showNat_line) (simp add: lineEnd_def)

lemma eventText_line: "lineEnd \<notin> set (eventText t)"
  by (cases t) (simp_all add: lineEnd_def)

lemma readMessages_written:
  assumes "\<And>v. lineEnd \<notin> set (marshal v) \<and> marshal v \<noteq> []"
  shows "readMessages (splitOn lineEnd (concat (map (chunkBytes marshal) cs))) noMessage
    = map (messageOf marshal) (eventsOf cs)"
proof (induction cs rule: eventsOf.induct)
  case (2 ev cs)
  have l: "lineEnd \<notin> set (''id: '' @ showInt (ev_ID ev))" "lineEnd \<notin> set (''event: '' @ eventText (ev_Type ev))"
    "lineEnd \<notin> set (''data: '' @ marshal (eventDocument ev))" "lineEnd \<notin> set []"
    using showInt_line eventText_line assms by (auto simp: lineEnd_def)
  have "splitOn lineEnd (concat (map (chunkBytes marshal) (EventChunk ev # cs)))
      = (''id: '' @ showInt (ev_ID ev)) # (''event: '' @ eventText (ev_Type ev))
        # (''data: '' @ marshal (eventDocument ev)) # [] # splitOn lineEnd (concat (map (chunkBytes marshal) cs))"
    using splitOn_line [OF l(1)] splitOn_line [OF l(2)] splitOn_line [OF l(3)] splitOn_line [OF l(4)]
    by (simp add: chunkText_def)
  then show ?case using 2 assms by (simp add: lineField_def messageOf_def noMessage_def)
next
  case (3 cs)
  have "splitOn lineEnd (concat (map (chunkBytes marshal) (KeepAlive # cs)))
      = '': keepalive'' # [] # splitOn lineEnd (concat (map (chunkBytes marshal) cs))"
    using splitOn_line [of "'': keepalive''"] splitOn_line [of "[]"] by (simp add: keepAliveText_def lineEnd_def)
  then show ?case using 3 by (simp add: lineField_def noMessage_def)
qed (simp add: noMessage_def)

subsection \<open>One connection\<close>

text \<open>The stream of the server: the channel it reads and the events of the replay still to be written.\<close>

record connection =
  cn_Chan :: nat
  cn_Replay :: "Event list"

definition openStream :: "int \<Rightarrow> EventHub \<Rightarrow> connection \<times> EventHub" where
  "openStream since h =
     (case Subscribe since h of (replay, c, h') \<Rightarrow> (\<lparr>cn_Chan = c, cn_Replay = replay\<rparr>, h'))"

definition writeEvent :: "string list \<Rightarrow> Event \<Rightarrow> Event list" where
  "writeEvent wanted ev = (if isWanted wanted ev then [ev] else [])"

text \<open>
  One turn, with what is written: an event of the replay, or what the channel gives: an event,
  nothing yet, or the end when it was closed because the client fell behind. \<open>None\<close> is a stream that
  ended.
\<close>

definition streamTurn :: "string list \<Rightarrow> connection \<Rightarrow> EventHub \<Rightarrow> Event list \<times> connection option \<times> EventHub" where
  "streamTurn wanted cn h =
     (case cn_Replay cn of
        ev # rest \<Rightarrow> (writeEvent wanted ev, Some (cn\<lparr>cn_Replay := rest\<rparr>), h)
      | [] \<Rightarrow>
          (case receive (cn_Chan cn) h of
             (Some ev, h') \<Rightarrow> (writeEvent wanted ev, Some cn, h')
           | (None, h') \<Rightarrow>
               if (case go_get (hub_chans h) (cn_Chan cn) of None \<Rightarrow> False | Some ch \<Rightarrow> ch_closed ch)
               then ([], None, cancelSubscription (cn_Chan cn) h') else ([], Some cn, h')))"

text \<open>
  A stream that the client leaves or that cannot be written to ends with the subscription; the event
  of a write that failed is lost (\<open>taken\<close> says that the channel had given it).
\<close>

definition breakStream :: "bool \<Rightarrow> connection \<Rightarrow> EventHub \<Rightarrow> EventHub" where
  "breakStream taken cn h =
     cancelSubscription (cn_Chan cn) (if taken then snd (receive (cn_Chan cn) h) else h)"

text \<open>The stream that \<open>handleEvents\<close> opens for a request is the one that the turns go on with.\<close>

lemma handleEvents_opens:
  assumes "handleEvents s r = (s', a)" and "an_Status a = 200"
  shows "\<exists>hub wanted cn hub'. eng_events (srv_engine s) = Some hub \<and> wantedTypes r = Some wanted
    \<and> openStream (sinceOf r) hub = (cn, hub') \<and> eng_events (srv_engine s') = Some hub'
    \<and> an_Body a = PStream (filter (isWanted wanted) (cn_Replay cn)) (cn_Chan cn)"
  using assms
  by (auto simp: handleEvents_def openStream_def reply_def refuse_def notFound_def notAllowed_def
      SetEvents_def withEngine_def split: option.splits if_splits prod.splits)

text \<open>A client that sends back the number of an event is understood.\<close>

lemma decimal_snoc: "decimal (ds @ [c]) = 10 * decimal ds + (of_char c - 48)"
  by (simp add: decimal_def)

lemma digit_value: "d < 10 \<Longrightarrow> of_char (char_of (48 + d)) = 48 + int d" for d :: nat
  by (subst of_nat_of_char [symmetric]) simp

lemma showNat_decimal: "decimal (showNat n) = int n \<and> list_all isDigit (showNat n) \<and> showNat n \<noteq> []"
proof (induction n rule: showNat.induct)
  case (1 n)
  show ?case
  proof (cases "n < 10")
    case True
    then have "decimal [char_of (48 + n)] = int n" "isDigit (char_of (48 + n))"
      by (simp_all add: decimal_def isDigit_def digit_value)
    then show ?thesis using True by (subst (1 2 3) showNat.simps) simp
  next
    case False
    have "int n = 10 * int (n div 10) + int (n mod 10)" by (simp add: zdiv_int zmod_int)
    moreover have "isDigit (char_of (48 + n mod 10))" by (simp add: isDigit_def)
    ultimately show ?thesis using 1 False by (subst (1 2 3) showNat.simps) (simp add: decimal_snoc digit_value)
  qed
qed


lemma sinceOf_lastRead:
  assumes "rq_LastEventID r = showInt n" and "0 \<le> n" and "n < 2 ^ 63"
  shows "sinceOf r = n"
proof -
  note d = showNat_decimal [of "nat n"]
  have "isDigit (hd (showNat (nat n)))" using d by (cases "showNat (nat n)") auto
  then have "hd (showNat (nat n)) \<noteq> CHR ''-''" "hd (showNat (nat n)) \<noteq> CHR ''+''" by (auto simp: isDigit_def)
  then show ?thesis using assms d by (simp add: sinceOf_def parseInt64_def showInt_def Let_def)
qed

subsection \<open>A client over its connections\<close>

text \<open>
  The client of a stream of the types \<open>wanted\<close> from the number \<open>begun\<close> on: the stream that serves
  it, if one does, what is on the wire, and the events it has read. A broken wire loses its end. The
  client may connect again at any time, with the number of the last event it read; it is in time
  when the hub still keeps what follows it, and the old stream is then one of the others. \<open>events\<close>
  are all the events of the hub since it started.
\<close>

record client =
  cl_Hub :: EventHub
  cl_Conn :: "connection option"
  cl_Wire :: "Event list"
  cl_Got :: "Event list"

definition lastRead :: "int \<Rightarrow> Event list \<Rightarrow> int" where
  "lastRead begun got = (if got = [] then begun else ev_ID (last got))"

definition inTime :: "int \<Rightarrow> EventHub \<Rightarrow> bool" where
  "inTime since h \<longleftrightarrow> hub_next h - int (length (hub_ring h)) \<le> since \<and> since \<le> hub_next h"

definition mine :: "client \<Rightarrow> nat \<Rightarrow> bool" where
  "mine s c \<longleftrightarrow> (case cl_Conn s of None \<Rightarrow> False | Some cn \<Rightarrow> cn_Chan cn = c)"

inductive session :: "EventsConfig \<Rightarrow> (int \<Rightarrow> instant) \<Rightarrow> string list \<Rightarrow> int \<Rightarrow> Event list \<Rightarrow> client \<Rightarrow> bool"
  for cfg clock wanted begun where
  starts: "session cfg clock wanted begun []
    \<lparr>cl_Hub = NewEventHub cfg clock, cl_Conn = None, cl_Wire = [], cl_Got = []\<rparr>"
| publishes: "session cfg clock wanted begun events s \<Longrightarrow>
    Publish kind jid rid att (Some (cl_Hub s)) = Some h \<Longrightarrow> evc_Enabled (hub_cfg (cl_Hub s)) \<Longrightarrow>
    session cfg clock wanted begun (events @ [published kind jid rid att (cl_Hub s)]) (s\<lparr>cl_Hub := h\<rparr>)"
| subscribes: "session cfg clock wanted begun events s \<Longrightarrow> Subscribe since (cl_Hub s) = (replay, c, h) \<Longrightarrow>
    session cfg clock wanted begun events (s\<lparr>cl_Hub := h\<rparr>)"
| cancels: "session cfg clock wanted begun events s \<Longrightarrow> \<not> mine s c \<Longrightarrow>
    session cfg clock wanted begun events (s\<lparr>cl_Hub := cancelSubscription c (cl_Hub s)\<rparr>)"
| receives: "session cfg clock wanted begun events s \<Longrightarrow> \<not> mine s c \<Longrightarrow> receive c (cl_Hub s) = (got, h) \<Longrightarrow>
    session cfg clock wanted begun events (s\<lparr>cl_Hub := h\<rparr>)"
| connects: "session cfg clock wanted begun events s \<Longrightarrow> inTime (lastRead begun (cl_Got s)) (cl_Hub s) \<Longrightarrow>
    openStream (lastRead begun (cl_Got s)) (cl_Hub s) = (cn, h) \<Longrightarrow>
    session cfg clock wanted begun events (s\<lparr>cl_Hub := h, cl_Conn := Some cn, cl_Wire := []\<rparr>)"
| turns: "session cfg clock wanted begun events s \<Longrightarrow> cl_Conn s = Some cn \<Longrightarrow>
    streamTurn wanted cn (cl_Hub s) = (out, conn, h) \<Longrightarrow>
    session cfg clock wanted begun events (s\<lparr>cl_Hub := h, cl_Conn := conn, cl_Wire := cl_Wire s @ out\<rparr>)"
| reads: "session cfg clock wanted begun events s \<Longrightarrow> cl_Wire s = ev # rest \<Longrightarrow>
    session cfg clock wanted begun events (s\<lparr>cl_Wire := rest, cl_Got := cl_Got s @ [ev]\<rparr>)"
| breaks: "session cfg clock wanted begun events s \<Longrightarrow> cl_Conn s = Some cn \<Longrightarrow>
    session cfg clock wanted begun events
      (s\<lparr>cl_Hub := breakStream taken cn (cl_Hub s), cl_Conn := None, cl_Wire := take k (cl_Wire s)\<rparr>)"

subsection \<open>The hub and its events\<close>

definition logged :: "Event list \<Rightarrow> EventHub \<Rightarrow> bool" where
  "logged events h \<longleftrightarrow> hub_ok h \<and> hub_next h = int (length events)
     \<and> (\<forall>i < length events. ev_ID (events ! i) = int i + 1) \<and> suffix (hub_ring h) events"

lemma loggedD:
  assumes "logged events h"
  shows "hub_ok h" "hub_next h = int (length events)" "i < length events \<Longrightarrow> ev_ID (events ! i) = int i + 1"
    "suffix (hub_ring h) events"
  using assms by (auto simp: logged_def)

lemma logged_New: "logged [] (NewEventHub cfg clock)"
  using hub_ok_New [of cfg clock] by (simp add: logged_def NewEventHub_def)

lemma logged_same:
  "logged events h \<Longrightarrow> hub_ok h' \<Longrightarrow> hub_next h' = hub_next h \<Longrightarrow> hub_ring h' = hub_ring h \<Longrightarrow> logged events h'"
  by (simp add: logged_def)

lemma suffix_keepLast: "suffix xs ys \<Longrightarrow> suffix (keepLast n xs) ys"
  unfolding keepLast_def using suffix_drop suffix_order.trans by blast

lemma logged_publish:
  assumes l: "logged events h" and p: "Publish kind jid rid att (Some h) = Some h'" and on: "evc_Enabled (hub_cfg h)"
  shows "logged (events @ [published kind jid rid att h]) h'"
proof -
  let ?ev = "published kind jid rid att h"
  note L = loggedD [OF l]
  have e: "hub_ok h'" "hub_next h' = hub_next h + 1"
    "hub_ring h' = keepLast (evc_Buffer (hub_cfg h)) (hub_ring h @ [?ev])"
    using Publish_effect [OF L(1) on, of kind jid rid att] p by auto
  have "suffix (hub_ring h') (events @ [?ev])" unfolding e(3) using L(4) by (intro suffix_keepLast) simp
  then show ?thesis using e(1,2) L(2,3) by (auto simp: logged_def nth_append less_Suc_eq)
qed

lemma ring_kept:
  "hub_ring (cancelSubscription c h) = hub_ring h"
  "receive c h = (out, h') \<Longrightarrow> hub_ring h' = hub_ring h"
  "Subscribe since h = (replay, c, h') \<Longrightarrow> hub_ring h' = hub_ring h"
  by (auto simp: cancelSubscription_def receive_def Subscribe_def Let_def split: option.splits list.splits)

lemma logged_steps:
  assumes "logged events h"
  shows "logged events (cancelSubscription c h)"
    "receive c h = (out, h') \<Longrightarrow> logged events h'"
    "Subscribe since h = (replay, c, h') \<Longrightarrow> logged events h'"
  using logged_same [OF assms] loggedD(1) [OF assms] cancel_ok receive_ok(1,2) Subscribe_ok(1,5) ring_kept by metis+

text \<open>The replay is what was published after the number given.\<close>

lemma replay_exact:
  assumes l: "logged events h" and t: "inTime since h" and s: "Subscribe since h = (replay, c, h')"
  shows "replay = drop (nat since) events"
proof -
  note L = loggedD [OF l]
  let ?P = "\<lambda>ev. since < ev_ID ev"
  obtain old where old: "events = old @ hub_ring h" using L(4) by (auto simp: suffix_def)
  then have len: "int (length old) \<le> since" "since \<le> int (length events)" "0 \<le> since"
    using t L(2) by (auto simp: inTime_def)
  have k: "nat since \<le> length events" using len by simp
  have "\<not> ?P ev" if "ev \<in> set (take (nat since) events)" for ev
    using that L(3) k by (fastforce simp: in_set_conv_nth)
  moreover have "?P ev" if ev: "ev \<in> set (drop (nat since) events)" for ev
  proof -
    obtain i where i: "i < length events - nat since" "ev = events ! (nat since + i)"
      using ev by (auto simp: in_set_conv_nth)
    then have "ev_ID ev = int (nat since + i) + 1" using L(3) by simp
    then show ?thesis using len(3) by simp
  qed
  ultimately have all: "filter ?P events = drop (nat since) events"
    using filter_append [of ?P "take (nat since) events" "drop (nat since) events"]
    by (simp add: filter_id_conv filter_empty_conv)
  have "\<not> ?P ev" if "ev \<in> set old" for ev
  proof -
    obtain i where i: "i < length old" "ev = old ! i" using \<open>ev \<in> set old\<close> by (auto simp: in_set_conv_nth)
    then have "ev_ID ev = int i + 1" using L(3) [of i] by (simp add: old nth_append)
    then show ?thesis using i(1) len(1) by simp
  qed
  then have "filter ?P events = filter ?P (hub_ring h)" by (simp add: old filter_empty_conv)
  then show ?thesis using s all by (simp add: Subscribe_def Let_def)
qed

subsection \<open>What a stream still has to write\<close>

text \<open>
  The stream with channel \<open>c\<close> has written up to number \<open>n\<close>: its replay and its channel hold a run of
  the events after it, all of them while the subscription is open.
\<close>

definition carries :: "nat \<Rightarrow> Event list \<Rightarrow> nat \<Rightarrow> Event list \<Rightarrow> EventHub \<Rightarrow> bool" where
  "carries c replay n events h \<longleftrightarrow>
     n \<le> length events \<and> (\<exists>ch. go_get (hub_chans h) c = Some ch
       \<and> prefix (replay @ ch_buf ch) (drop n events)
       \<and> (c \<in> set (hub_subs h) \<longrightarrow> replay @ ch_buf ch = drop n events))"

lemma carries_same:
  assumes "carries c replay n events h"
    and "map_option ch_buf (go_get (hub_chans h') c) = map_option ch_buf (go_get (hub_chans h) c)"
    and "c \<in> set (hub_subs h') \<Longrightarrow> c \<in> set (hub_subs h)"
  shows "carries c replay n events h'"
  using assms unfolding carries_def by (cases "go_get (hub_chans h') c") auto

lemma carries_publish:
  assumes l: "logged events h" and c: "carries c replay n events h"
    and p: "Publish kind jid rid att (Some h) = Some h'" and on: "evc_Enabled (hub_cfg h)"
  shows "carries c replay n (events @ [published kind jid rid att h]) h'"
proof -
  let ?ev = "published kind jid rid att h"
  have e: "hub_subs h' = filter (hasRoom h) (hub_subs h)"
    "go_get (hub_chans h') c = (if c \<in> set (hub_subs h)
       then map_option (offered ?ev) (go_get (hub_chans h) c) else go_get (hub_chans h) c)"
    using Publish_effect [OF loggedD(1) [OF l] on, of kind jid rid att] p by auto
  obtain ch where ch: "go_get (hub_chans h) c = Some ch" "prefix (replay @ ch_buf ch) (drop n events)"
    "c \<in> set (hub_subs h) \<longrightarrow> replay @ ch_buf ch = drop n events" "n \<le> length events"
    using c unfolding carries_def by blast
  have drop: "drop n (events @ [?ev]) = drop n events @ [?ev]" using ch(4) by simp
  show ?thesis
  proof (cases "c \<in> set (hub_subs h) \<and> length (ch_buf ch) < ch_cap ch")
    case True
    then have "(replay @ ch_buf ch) @ [?ev] = drop n events @ [?ev]" using ch(3) by simp
    then show ?thesis unfolding carries_def drop using True ch(1,4) e(2) by (simp add: offered_def)
  next
    case False
    have "\<exists>ch'. go_get (hub_chans h') c = Some ch' \<and> ch_buf ch' = ch_buf ch"
      using False ch(1) e(2) by (auto simp: offered_def)
    moreover have "c \<notin> set (hub_subs h')" using False ch(1) e(1) by (auto simp: hasRoom_def)
    moreover have "prefix (replay @ ch_buf ch) (drop n events @ [?ev])" using ch(2) by (rule prefix_prefix)
    ultimately show ?thesis unfolding carries_def drop using ch(4) by force
  qed
qed

lemma carries_other:
  assumes ok: "hub_ok h" and c: "carries c replay n events h"
  shows "Subscribe since h = (replay', c', h') \<Longrightarrow> carries c replay n events h'"
    "carries c replay n events (cancelSubscription c' h)"
    "c' \<noteq> c \<Longrightarrow> receive c' h = (out, h') \<Longrightarrow> carries c replay n events h'"
proof -
  obtain ch where ch: "go_get (hub_chans h) c = Some ch" using c unfolding carries_def by blast
  show "carries c replay n events h'" if s: "Subscribe since h = (replay', c', h')"
  proof -
    have "c \<noteq> c'" using Subscribe_ok(3) [OF ok s] ch go_get_key by metis
    then show ?thesis using s by (intro carries_same [OF c]) (auto simp: Subscribe_def Let_def)
  qed
  show "carries c replay n events (cancelSubscription c' h)"
    using cancel_ok(4) [OF ok] by (intro carries_same [OF c]) (auto simp: cancelSubscription_def split: if_splits)
  show "carries c replay n events h'" if "c' \<noteq> c" "receive c' h = (out, h')"
    using receive_ok(3,4) [OF ok that(2)] that(1) by (intro carries_same [OF c]) auto
qed

lemma carries_replay:
  assumes "carries c (ev # rest) n events h"
  shows "carries c rest (n + 1) events h \<and> n < length events \<and> events ! n = ev"
proof -
  obtain ch where ch: "go_get (hub_chans h) c = Some ch" "prefix (ev # rest @ ch_buf ch) (drop n events)"
    "c \<in> set (hub_subs h) \<longrightarrow> ev # rest @ ch_buf ch = drop n events"
    using assms unfolding carries_def by auto
  have n: "n < length events" using ch(2) by (cases "n < length events") auto
  then have "drop n events = events ! n # drop (n + 1) events" by (simp add: Cons_nth_drop_Suc)
  then show ?thesis using ch n by (auto simp: carries_def)
qed

lemma carries_receive:
  assumes ok: "hub_ok h" and c: "carries c [] n events h" and r: "receive c h = (Some ev, h')"
  shows "carries c [] (n + 1) events h' \<and> n < length events \<and> events ! n = ev"
proof -
  obtain ch where ch: "go_get (hub_chans h) c = Some ch" using c unfolding carries_def by blast
  obtain ch' where ch': "go_get (hub_chans h') c = Some ch'" "ch_buf ch = ev # ch_buf ch'"
    using receive_ok(5) [OF ok r ch] by auto
  have "carries c [ev] n events h'"
    using c ch ch' receive_ok(3) [OF ok r] by (auto simp: carries_def)
  then show ?thesis by (rule carries_replay)
qed

end
