(* ===== verification/Told.thy ===== *)
theory Told
  imports Demo
begin

section \<open>What the hub is told\<close>

text \<open>
  The engine and its event hub together. \<open>news e e'\<close> is what a subscriber ought to hear when the
  engine goes from \<open>e\<close> to \<open>e'\<close>: one notice for every job that now is assigned, done, failed or
  unknown and was not in that status before. Every step of the engine publishes exactly its news.
\<close>

type_synonym notice = "eventType \<times> string \<times> string \<times> int"

fun eventOf :: "JobStatus \<Rightarrow> eventType option" where
  "eventOf StatusAssigned = Some EventAssigned"
| "eventOf StatusDone = Some EventDone"
| "eventOf StatusFailed = Some EventFailed"
| "eventOf StatusUnknown = Some EventUnknown"
| "eventOf _ = None"

definition news :: "'s engine \<Rightarrow> 's engine \<Rightarrow> notice set" where
  "news e e' = {(kind, jid, rid, att). \<exists>j. getJob e' jid = Some j \<and> eventOf (job_Status j) = Some kind
     \<and> rid = job_AssignedRobot j \<and> att = job_Attempt j
     \<and> map_option job_Status (getJob e jid) \<noteq> Some (job_Status j)}"

definition tell :: "notice \<Rightarrow> EventHub option \<Rightarrow> EventHub option" where
  "tell n = (case n of (kind, jid, rid, att) \<Rightarrow> Publish kind jid rid att)"

definition told :: "'s engine \<Rightarrow> 's engine \<Rightarrow> bool" where
  "told e e' \<longleftrightarrow> (\<exists>ns. distinct (map (fst \<circ> snd) ns) \<and> set ns = news e e'
     \<and> eng_events e' = fold tell ns (eng_events e))"

lemma told_cong:
  "eng_jobs a = eng_jobs b \<Longrightarrow> eng_jobs a' = eng_jobs b' \<Longrightarrow> eng_events a = eng_events b \<Longrightarrow>
   eng_events a' = eng_events b' \<Longrightarrow> told a a' = told b b'"
  by (simp only: told_def news_def)

lemma emitLocked_tell:
  "eng_events (emitLocked kind j e) =
     tell (kind, job_ID j, job_AssignedRobot j, job_Attempt j) (eng_events e)"
  by (simp add: emitLocked_def tell_def)

subsection \<open>Steps with nothing to tell\<close>

text \<open>
  \<open>dull j j'\<close>: the new record of a job is in a status nobody is told of, or in the one it had.
\<close>

definition dull :: "job option \<Rightarrow> job option \<Rightarrow> bool" where
  "dull a b \<longleftrightarrow> (\<forall>j'. b = Some j' \<longrightarrow> eventOf (job_Status j') = None \<or>
     map_option job_Status a = Some (job_Status j'))"

lemma dull_same [simp]: "dull a a" "dull a None"
  by (simp_all add: dull_def)

lemma dull_waiting: "waiting (job_Status j') \<Longrightarrow> dull a (Some j')"
  by (cases "job_Status j'") (simp_all add: dull_def)

lemma dull_pendingAgain [simp]: "dull a (map_option pendingAgain b)"
  by (cases b) (simp_all add: dull_def)

lemma dull_statusOnly: "rel_option statusOnly a b \<Longrightarrow> dull a b"
proof (cases a; cases b)
  fix j j' assume "rel_option statusOnly a b" "a = Some j" "b = Some j'"
  then have s: "statusOnly j j'" by simp
  show ?thesis
  proof (cases "waiting (job_Status j)")
    case True
    then have "waiting (job_Status j')" using statusOnly_fields [OF s] by blast
    then show ?thesis using \<open>b = Some j'\<close> dull_waiting by simp
  next
    case False
    then show ?thesis using statusOnly_fields(8) [OF s] \<open>a = Some j\<close> \<open>b = Some j'\<close> by simp
  qed
qed simp_all

lemma news_dull: "(\<And>x. dull (getJob e x) (getJob e' x)) \<Longrightarrow> news e e' = {}"
  unfolding news_def dull_def by fastforce

lemma told_dull:
  "eng_events e' = eng_events e \<Longrightarrow> (\<And>x. dull (getJob e x) (getJob e' x)) \<Longrightarrow> told e e'"
  unfolding told_def by (rule exI [of _ "[]"]) (simp add: news_dull)

lemma told_same: "eng_events e' = eng_events e \<Longrightarrow> eng_jobs e' = eng_jobs e \<Longrightarrow> told e e'"
  by (rule told_dull) simp_all

lemma told_backIn: "backIn e jids e' \<Longrightarrow> eng_events e' = eng_events e \<Longrightarrow> told e e'"
  by (rule told_dull) (auto simp: backIn_def)

lemma told_requeueAll:
  assumes "engine_ok e" and "distinct jids" and "allInFlight e jids"
  shows "told e (fst (requeueAllLocked jids extra e))"
  by (rule told_backIn [OF requeueAll_ok(2) [OF assms] requeueAll_events])

subsection \<open>Submission, robots, requests\<close>

lemma addJob_events: "addJobLocked j now e = (e', r) \<Longrightarrow> eng_events e' = eng_events e"
  by (auto simp: addJobLocked_def Let_def case_prod_unfold split: if_splits option.splits)

lemma add_told:
  assumes a: "addJobLocked j now e = (e', r)"
  shows "told e e'"
proof (cases r)
  case (Inl err)
  show ?thesis by (rule told_same [OF addJob_events [OF a] addJobLocked_Inl(1) [OF a [unfolded Inl]]])
next
  case (Inr stored)
  note s = addJobLocked_Inr(5,6) [OF a [unfolded Inr]]
  have "waiting (job_Status stored)" by (simp add: s)
  then have "dull (getJob e x) (getJob e' x)" for x
    using s(2) dull_waiting by simp
  then show ?thesis by (rule told_dull [OF addJob_events [OF a]])
qed

lemma submitNew_told: "told e (fst (submitNew j now e))"
  using add_told [of j now e] by (simp add: submitNew_def split: prod.splits sum.splits)

lemma refreshLoop_events:
  assumes "refreshLoop e pe = Some r"
  shows "eng_events (fst r) = eng_events e"
proof (rule refreshLoop.raw_induct [where P = "\<lambda>e pe r. eng_events (fst r) = eng_events e", OF _ assms])
  fix loop and e :: "'a engine" and pe r
  assume IH: "\<And>e pe r. loop e pe = Some r \<Longrightarrow> eng_events (fst r) = eng_events e"
    and r: "(case refreshPass (go_keys (eng_jobs e)) e False pe of (e', changed, pe') \<Rightarrow>
        if changed then loop e' pe' else Some (e', pe')) = Some r"
  obtain e' changed pe' where p: "refreshPass (go_keys (eng_jobs e)) e False pe = (e', changed, pe')"
    by (metis prod_cases3)
  have "eng_events e' = eng_events e"
    using onlyJobs_fields(14) [OF refreshPass_onlyJobs [of e "go_keys (eng_jobs e)" False pe]] p by simp
  then show "eng_events (fst r) = eng_events e" using r p IH by (auto split: if_splits)
qed

lemma refresh_events: "refreshBlocked e = Some (e', err) \<Longrightarrow> eng_events e' = eng_events e"
  using refreshLoop_events [of e None "(e', err)"] by (simp add: refreshBlocked_def)

lemma retry_events: "retryJob x j now e = Some (e', r) \<Longrightarrow> eng_events e' = eng_events e"
  by (auto simp: retryJob_def Let_def case_prod_unfold dest!: refresh_events split: option.splits if_splits)

lemma submit_told:
  assumes ok: "engine_ok e" and s: "SubmitJob j now e = Some (e', r)"
  shows "told e e'"
proof (rule SubmitJob_cases [OF ok, of j now])
  assume "SubmitJob j now e = Some (submitNew j now e)"
  then show ?thesis using s submitNew_told [of e j now] by (metis fst_conv option.inject)
next
  fix x assume "SubmitJob j now e = Some (e, Inr (x, SubmitDuplicate))"
  then show ?thesis using s by (simp add: told_same)
next
  fix x
  assume x: "getJob e (job_ID x) = Some x" "job_Status x = StatusFailed \<or> job_Status x = StatusCancelled"
    "SubmitJob j now e = retryJob x j now e"
  have ev: "eng_events e' = eng_events e" using x(3) s retry_events by metis
  show ?thesis
  proof (cases "retryable x j e")
    case True
    then obtain j' where j': "getJob e' (job_ID x) = Some j'" "statusOnly (retried x j now (eng_jobs e)) j'"
      "\<forall>y. y \<noteq> job_ID x \<longrightarrow> rel_option statusOnly (getJob e y) (getJob e' y)"
      using retryJob_effect [OF ok x(1,2), of j now] x(3) s by auto
    have "waiting (job_Status j')" using statusOnly_fields(7) [OF j'(2)] by simp
    then have "dull (getJob e y) (getJob e' y)" for y
      using j'(1,3) dull_waiting dull_statusOnly by (cases "y = job_ID x") simp_all
    then show ?thesis by (rule told_dull [OF ev])
  next
    case False
    then show ?thesis using retryJob_effect [OF ok x(1,2), of j now] x(3) s
      by (auto intro: told_same)
  qed
qed

lemma upsert_events: "eng_events (upsertRobotLocked r given now e) = eng_events e"
  by (simp add: upsertRobotLocked_def persistCurrent_def applyAvailability_def jobsOfRobotLocked_def
      case_prod_unfold Let_def split: option.splits)

lemma upsert_told:
  assumes ok: "engine_ok e"
  shows "told e (upsertRobotLocked r given now e)"
proof (cases "getRobot e (rob_ID r)")
  case None
  show ?thesis by (rule told_same [OF upsert_events upsertRobot_new(2) [OF None]])
next
  case (Some x)
  show ?thesis
  proof (cases "faulted r given e \<and> rp_Enabled (eng_replan e) \<and> rp_OnFault (eng_replan e)")
    case False
    show ?thesis by (rule told_same [OF upsert_events upsertRobot_known(2) [OF ok Some False]])
  next
    case True
    obtain jids where
      "\<forall>y. getJob (upsertRobotLocked r given now e) y =
         (if y \<in> set jids then map_option pendingAgain (getJob e y) else getJob e y)"
      using upsertRobot_fault [OF ok Some] True by blast
    then show ?thesis by (intro told_dull [OF upsert_events]) simp
  qed
qed

lemma remove_told: "told e (fst (RemoveRobot rid e))"
  by (rule told_same)
     (auto simp: RemoveRobot_def deleteFromStore_def case_prod_unfold Let_def split: option.splits)

lemma requeue_told: "engine_ok e \<Longrightarrow> told e (fst (RequeueJob jid rid e))"
  using RequeueJob_effect [of e jid rid]
  by (auto simp: RequeueJob_def case_prod_unfold Let_def split: option.splits if_splits
      intro: told_backIn told_same)

lemma ackStop_told:
  assumes ok: "engine_ok e"
  shows "told e (fst (AckStop rid jid e))"
proof (cases "snd (AckStop rid jid e)")
  case None
  then have "backIn e [jid] (fst (AckStop rid jid e))" using AckStop_effect [OF ok, of rid jid] by auto
  then show ?thesis by (rule told_backIn) (simp add: AckStop_def Let_def split: option.splits)
next
  case (Some x)
  then show ?thesis using AckStop_effect [OF ok, of rid jid] by (auto intro: told_same)
qed

lemma replan_told:
  assumes ok: "engine_ok e"
  shows "told e (fst (ReplanRobot rid e))"
proof -
  have ev: "eng_events (fst (ReplanRobot rid e)) = eng_events e"
    by (simp add: ReplanRobot_def jobsOfRobotLocked_def case_prod_unfold Let_def split: option.splits)
  show ?thesis
  proof (cases "rp_Enabled (eng_replan e) \<and> getRobot e rid \<noteq> None")
    case True
    then obtain r where r: "getRobot e rid = Some r" by blast
    obtain e' ids where "ReplanRobot rid e = (e', Inr ids)"
      "\<forall>x. getJob e' x = (if x \<in> set ids then map_option pendingAgain (getJob e x) else getJob e x)"
      using ReplanRobot_effect [OF ok conjunct1 [OF True] r] by blast
    then show ?thesis by (intro told_dull [OF ev]) simp
  next
    case False
    then show ?thesis by (auto simp: ReplanRobot_def intro: told_same)
  qed
qed

lemma archive_told:
  assumes ok: "engine_ok e"
  shows "told e (fst (ArchiveFinished now e))"
proof -
  obtain e' r where d: "ArchiveFinished now e = (e', r)" by fastforce
  have ev: "eng_events (fold archiveRemove ids e0) = eng_events e0" for ids and e0 :: "'a engine"
    by (induction ids arbitrary: e0) (simp_all add: archiveRemove_def split: option.splits)
  have "getJob e' x = getJob e x \<or> getJob e' x = None" for x
  proof (cases r)
    case (Inl err)
    then show ?thesis using ArchiveFinished_effect(2) [OF ok d Inl] by simp
  next
    case (Inr ids)
    then show ?thesis using ArchiveFinished_effect(3) [OF ok d Inr, of x] by simp
  qed
  then have "dull (getJob e x) (getJob e' x)" for x by (metis dull_same)
  moreover have "eng_events e' = eng_events e"
    using d by (auto simp: ArchiveFinished_def Let_def case_prod_unfold ev split: option.splits if_splits)
  ultimately show ?thesis unfolding d fst_conv by (intro told_dull)
qed

lemma settings_events:
  "eng_events (SetToolCatalog c e) = eng_events e" "eng_events (SetRobotFreshness d e) = eng_events e"
  "eng_events (SetReplan rc e) = eng_events e" "eng_events (SetArchiveAfter d e) = eng_events e"
  "eng_events (SetProductionEvents on e) = eng_events e"
  "eng_events (fst (SetLocationCosts lc e)) = eng_events e"
  "eng_events (fst (SetToolConfirmation cfg hf e)) = eng_events e"
  "eng_events (fst (confirmRecord fetch ids now e)) = eng_events e"
  "eng_events (snd (JobsPageFor rid status offset limit e)) = eng_events e"
  "eng_events (SetETA ec e) = eng_events e"
  by (auto simp: SetETA_def SetToolCatalog_def SetRobotFreshness_def SetReplan_def SetArchiveAfter_def
      SetProductionEvents_def SetLocationCosts_def SetToolConfirmation_def
      confirmRecord_def JobsPageFor_def Let_def case_prod_unfold split: option.splits)

subsection \<open>The notices of a step\<close>

text \<open>The notice of a job as it now is. A step that notifies the jobs it changed has told all.\<close>

definition noticeOf :: "'s engine \<Rightarrow> string \<Rightarrow> notice" where
  "noticeOf e jid = (let j = the (getJob e jid) in
     (the (eventOf (job_Status j)), jid, job_AssignedRobot j, job_Attempt j))"

lemma noticeOf_cong: "getJob e' x = getJob e x \<Longrightarrow> noticeOf e' x = noticeOf e x"
  by (simp add: noticeOf_def)

definition newlyAt :: "'s engine \<Rightarrow> 's engine \<Rightarrow> string \<Rightarrow> bool" where
  "newlyAt e e' x \<longleftrightarrow> (\<exists>j'. getJob e' x = Some j' \<and> eventOf (job_Status j') \<noteq> None
     \<and> map_option job_Status (getJob e x) \<noteq> Some (job_Status j'))"

lemma newlyAt_dull: "newlyAt e e' x \<longleftrightarrow> \<not> dull (getJob e x) (getJob e' x)"
  by (auto simp: newlyAt_def dull_def)

lemma news_notices: "news e e' = noticeOf e' ` {x. newlyAt e e' x}"
  unfolding news_def newlyAt_def noticeOf_def Let_def
  by (rule set_eqI) (force simp: image_iff)

lemma told_list:
  assumes "distinct jids" and "\<And>x. x \<in> set jids \<longleftrightarrow> newlyAt e e' x"
    and "eng_events e' = fold tell (map (noticeOf e') jids) (eng_events e)"
  shows "told e e'"
proof -
  have ids: "map (fst \<circ> snd) (map (noticeOf e') jids) = jids"
    by (simp add: noticeOf_def Let_def map_idI)
  have "distinct (map (fst \<circ> snd) (map (noticeOf e') jids))" unfolding ids by (rule assms(1))
  moreover have "set (map (noticeOf e') jids) = news e e'"
    unfolding news_notices assms(2) [symmetric] by simp
  ultimately show ?thesis using assms(3) unfolding told_def by blast
qed

subsection \<open>Completion and cancellation\<close>

lemma complete_events:
  assumes "CompleteJobAttempt jid success rid att now e = Some (e', None, ev)"
    and "getJob e jid = Some j" and "job_ID j = jid"
  shows "eng_events e' = tell (if success then EventDone else EventFailed, jid, job_AssignedRobot j, job_Attempt j)
     (eng_events e)"
  using assms
  by (auto simp: CompleteJobAttempt_def Let_def case_prod_unfold emitLocked_tell dest!: refresh_events
      split: option.splits if_splits)

lemma complete_told:
  assumes ok: "engine_ok e" and c: "CompleteJobAttempt jid success rid attempt now e = Some (e', err, ev)"
  shows "told e e'"
proof (cases "reportError jid rid attempt e")
  case (Some x)
  then show ?thesis using CompleteJob_refused [OF ok Some] c by (auto intro: told_same)
next
  case None
  obtain j r where j: "getJob e jid = Some j" "inFlight (job_Status j)" "job_AssignedRobot j = rid"
    "getRobot e rid = Some r"
    using report_robot [OF ok None] by blast
  have e': "err = None" "getJob e' jid = Some (completed success now j)"
    "\<And>x. x \<noteq> jid \<Longrightarrow> rel_option statusOnly (getJob e x) (getJob e' x)"
    using CompleteJob_accepted [OF ok None j(1,4), of success now] c by auto
  have "x \<in> set [jid] \<longleftrightarrow> newlyAt e e' x" for x
  proof (cases "x = jid")
    case True
    then show ?thesis using e'(2) j(1,2) by (auto simp: newlyAt_def inFlight_def)
  next
    case False
    then show ?thesis using dull_statusOnly [OF e'(3)] by (simp add: newlyAt_dull)
  qed
  moreover have "job_ID j = jid" using engine_okD(1) [OF ok] j(1) by (rule base_job_ID)
  then have "eng_events e' = fold tell (map (noticeOf e') [jid]) (eng_events e)"
    using complete_events [OF c [unfolded e'(1)] j(1)] e'(2) by (simp add: noticeOf_def Let_def)
  ultimately show ?thesis by (intro told_list [of "[jid]"]) auto
qed

lemma cancel_events: "CancelJob jid now e = Some (e', err) \<Longrightarrow> eng_events e' = eng_events e"
  by (auto simp: CancelJob_def Let_def case_prod_unfold dest!: refresh_events split: option.splits if_splits)

lemma cancel_told:
  assumes ok: "engine_ok e" and c: "CancelJob jid now e = Some (e', err)"
  shows "told e e'"
proof (rule told_dull [OF cancel_events [OF c]])
  fix x
  show "dull (getJob e x) (getJob e' x)"
  proof (cases "\<exists>j. getJob e jid = Some j \<and> waiting (job_Status j)")
    case True
    then obtain j where j: "getJob e jid = Some j" "waiting (job_Status j)" by blast
    have "getJob e' jid = Some (cancelled now j)"
      "x \<noteq> jid \<Longrightarrow> rel_option statusOnly (getJob e x) (getJob e' x)"
      using CancelJob_accepted [OF ok j, of now] c by auto
    then show ?thesis using dull_statusOnly by (cases "x = jid") (simp_all add: dull_def)
  next
    case False
    then have "e' = e"
      using c by (cases "getJob e jid"; cases "job_Status (the (getJob e jid))") (auto simp: CancelJob_def)
    then show ?thesis by simp
  qed
qed

subsection \<open>The sweep\<close>

lemma markEach_events:
  assumes "\<And>x j. getJob e x = Some j \<Longrightarrow> job_ID j = x" and "distinct jids"
    and "\<And>x. x \<in> set jids \<Longrightarrow> getJob e x \<noteq> None" and "markEach jids e err = (e', err')"
  shows "(\<forall>x. x \<notin> set jids \<longrightarrow> getJob e' x = getJob e x)
    \<and> eng_events e' = fold tell (map (noticeOf e') jids) (eng_events e)"
  using assms
proof (induction jids arbitrary: e err)
  case (Cons jid jids)
  obtain j where j: "getJob e jid = Some j" using Cons.prems(3) by fastforce
  have jid: "job_ID j = jid" using Cons.prems(1) j by blast
  let ?j = "j\<lparr>job_Status := StatusUnknown\<rparr>"
  define e1 where "e1 = fst (persistJobLocked ?j (emitLocked EventUnknown ?j (setJob ?j e)))"
  have g: "getJob e1 = (getJob e)(jid \<mapsto> ?j)" using jid by (simp add: e1_def)
  have ev: "eng_events e1 = tell (EventUnknown, jid, job_AssignedRobot j, job_Attempt j) (eng_events e)"
    using jid by (simp add: e1_def emitLocked_tell)
  obtain err1 where m: "markEach jids e1 err1 = (e', err')"
    using Cons.prems(4) j by (auto simp: e1_def case_prod_unfold Let_def)
  have d: "distinct jids" "jid \<notin> set jids" using Cons.prems(2) by simp_all
  have IH: "(\<forall>x. x \<notin> set jids \<longrightarrow> getJob e' x = getJob e1 x)
      \<and> eng_events e' = fold tell (map (noticeOf e') jids) (eng_events e1)"
  proof (rule Cons.IH [OF _ d(1) _ m])
    show "job_ID i = x" if "getJob e1 x = Some i" for x i
      using that Cons.prems(1) jid unfolding g by (auto split: if_splits)
    show "getJob e1 x \<noteq> None" if "x \<in> set jids" for x
      using that Cons.prems(3) unfolding g by simp
  qed
  have "getJob e' jid = Some ?j" using IH d(2) unfolding g by simp
  then have n: "noticeOf e' jid = (EventUnknown, jid, job_AssignedRobot j, job_Attempt j)"
    by (simp add: noticeOf_def Let_def)
  have "\<forall>x. x \<notin> set (jid # jids) \<longrightarrow> getJob e' x = getJob e x" using IH unfolding g by simp
  moreover have "eng_events e' = fold tell (map (noticeOf e') (jid # jids)) (eng_events e)"
    using conjunct2 [OF IH] unfolding ev by (simp add: n)
  ultimately show ?case by blast
qed simp

lemma markUnknown_events:
  assumes k: "\<And>x j. getJob e x = Some j \<Longrightarrow> job_ID j = x" and d: "distinct jids"
    and a: "\<And>x. x \<in> set jids \<Longrightarrow> getJob e x \<noteq> None"
  shows "eng_events (markUnknownLocked jids e) =
    fold tell (map (noticeOf (markUnknownLocked jids e)) jids) (eng_events e)"
proof (cases "jids = []")
  case True
  then show ?thesis by (simp add: markUnknownLocked_def)
next
  case False
  obtain e1 err where m: "markEach jids (beginBatchLocked e) None = (e1, err)" by fastforce
  have "eng_events e1 = fold tell (map (noticeOf e1) jids) (eng_events e)"
    using markEach_events [OF _ d _ m] k a by simp
  moreover have u: "getJob (markUnknownLocked jids e) = getJob e1"
    "eng_events (markUnknownLocked jids e) = eng_events e1"
    using False m by (simp_all add: markUnknownLocked_def case_prod_unfold Let_def)
  moreover have "noticeOf (markUnknownLocked jids e) = noticeOf e1"
    using u(1) by (simp add: noticeOf_def fun_eq_iff)
  ultimately show ?thesis by simp
qed

lemma marks_told:
  assumes ok: "engine_ok e" and ev: "eng_events e3 = eng_events e" and d: "distinct jids"
    and g3: "\<And>x. getJob e3 x = (if x \<in> set again then map_option pendingAgain (getJob e x) else getJob e x)"
    and g: "\<And>x. getJob (markUnknownLocked jids e3) x =
      (if x \<in> set jids then map_option unknownAgain (getJob e3 x) else getJob e3 x)"
    and a: "\<And>x. x \<in> set jids \<Longrightarrow> x \<notin> set again \<and> (\<exists>j. getJob e x = Some j \<and> job_Status j = StatusAssigned)"
  shows "told e (markUnknownLocked jids e3)"
proof (rule told_list [OF d])
  show "x \<in> set jids \<longleftrightarrow> newlyAt e (markUnknownLocked jids e3) x" for x
  proof (cases "x \<in> set jids")
    case True
    then obtain j where j: "getJob e x = Some j" "job_Status j = StatusAssigned" "x \<notin> set again"
      using a by blast
    then have "getJob (markUnknownLocked jids e3) x = Some (unknownAgain j)" using True g g3 by simp
    then show ?thesis using True j by (simp add: newlyAt_def unknownAgain_def)
  next
    case False
    then have "getJob (markUnknownLocked jids e3) x =
        (if x \<in> set again then map_option pendingAgain (getJob e x) else getJob e x)"
      using g g3 by simp
    then show ?thesis using False by (simp add: newlyAt_dull)
  qed
  have "job_ID j = x" if "getJob e3 x = Some j" for x j
    using that base_job_ID [OF engine_okD(1) [OF ok]] g3 by (auto split: if_splits)
  moreover have "getJob e3 x \<noteq> None" if "x \<in> set jids" for x using a [OF that] g3 by auto
  ultimately show "eng_events (markUnknownLocked jids e3) =
      fold tell (map (noticeOf (markUnknownLocked jids e3)) jids) (eng_events e)"
    using markUnknown_events [OF _ d, of e3] ev by metis
qed

lemma sweep_told:
  assumes ok: "engine_ok e"
  shows "told e (fst (DetectStaleAssignmentsStop timeout now e))"
proof -
  let ?js = "silentJobs timeout now e"
  obtain e' r where d: "DetectStaleAssignmentsStop timeout now e = (e', r)" by fastforce
  note mem = mem_silentJobs [OF engine_okD(1) [OF ok]]
  note dj = distinct_silentJobs [OF engine_okD(1) [OF ok], of timeout now]
  show ?thesis
  proof (cases "rp_Enabled (eng_replan e) \<and> rp_OnStale (eng_replan e)")
    case False
    note off = DetectStale_off [OF ok False d]
    obtain e1 where e1: "eng_jobs e1 = eng_jobs e" "eng_events e1 = eng_events e"
      "e' = markUnknownLocked (map job_ID ?js) e1" using off(6) by blast
    have "told e (markUnknownLocked (map job_ID ?js) e1)"
    proof (rule marks_told [OF ok e1(2) dj, where again = "[]"])
      show "getJob (markUnknownLocked (map job_ID ?js) e1) x = (if x \<in> set (map job_ID ?js)
          then map_option unknownAgain (getJob e1 x) else getJob e1 x)" for x
        using off(2) e1 unfolding marked_def by metis
      show "x \<notin> set [] \<and> (\<exists>j. getJob e x = Some j \<and> job_Status j = StatusAssigned)"
        if "x \<in> set (map job_ID ?js)" for x
        using that by (auto simp: mem silentJob_def)
    qed (simp add: e1)
    then show ?thesis by (simp add: d e1(3))
  next
    case True
    note on = DetectStale_on [OF ok conjunct1 [OF True] conjunct2 [OF True] d]
    obtain e3 where e3: "backIn e (res_Requeued r) e3" "marked e3 (res_Unknown r) e'"
      "eng_events e3 = eng_events e" "e' = markUnknownLocked (res_Unknown r) e3" using on(5) by blast
    have sub: "\<exists>j. getJob e x = Some j \<and> job_Status j = StatusAssigned
        \<and> snd (stopDecisionLocked j now e) = dd" if "x \<in> set (decided now e dd ?js)" for x dd
      using that by (auto simp: decided_def mem silentJob_def)
    have "told e (markUnknownLocked (res_Unknown r) e3)"
    proof (rule marks_told [OF ok e3(3)])
      show "getJob e3 x = (if x \<in> set (res_Requeued r) then map_option pendingAgain (getJob e x)
          else getJob e x)" for x
        using e3(1) unfolding backIn_def by blast
      show "getJob (markUnknownLocked (res_Unknown r) e3) x = (if x \<in> set (res_Unknown r)
          then map_option unknownAgain (getJob e3 x) else getJob e3 x)" for x
        using e3(2,4) unfolding marked_def by blast
      show "distinct (res_Unknown r)" using distinct_map_filter [OF dj] by (simp add: on decided_def)
      show "x \<notin> set (res_Requeued r) \<and> (\<exists>j. getJob e x = Some j \<and> job_Status j = StatusAssigned)"
        if "x \<in> set (res_Unknown r)" for x
        using that sub [of x stopUnknown] sub [of x stopRequeue] by (auto simp: on)
    qed
    then show ?thesis by (simp add: d e3(4))
  qed
qed

subsection \<open>A scheduling pass\<close>

lemma dispatchStep_events:
  assumes "dispatchStep clk k jid e = (e', res)" and "\<And>j. getJob e jid = Some j \<Longrightarrow> job_ID j = jid"
  shows "eng_events e' = (case res of Given a \<Rightarrow> tell (noticeOf e' jid) (eng_events e) | _ \<Rightarrow> eng_events e)"
  using assms
  by (auto simp: dispatchStep_def Let_def case_prod_unfold emitLocked_tell noticeOf_def
      split: option.splits)

lemma dispatchLoop_events:
  assumes "engine_ok e" and "distinct jids" and "allPending e jids"
    and "dispatchLoop clk k jids e out p err = (e', out', p', err')"
  shows "\<exists>new. out' = out @ new \<and> eng_events e' = fold tell (map (\<lambda>a. noticeOf e' (asg_JobID a)) new) (eng_events e)"
  using assms
proof (induction jids arbitrary: k e out p err)
  case (Cons jid jids)
  obtain j where j: "getJob e jid = Some j" "job_Status j = StatusPending"
    using Cons.prems(3) by (auto simp: allPending_def)
  obtain e1 res where s: "dispatchStep clk k jid e = (e1, res)" by fastforce
  note st = dispatchStep_ok [OF Cons.prems(1) j s]
  have d: "jid \<notin> set jids" "distinct jids" using Cons.prems(2) by simp_all
  have ap: "allPending e1 jids"
    using allPending_other [OF _ st(3) d(1)] Cons.prems(3) by (simp add: allPending_def)
  note ev = dispatchStep_events [OF s base_job_ID [OF engine_okD(1) [OF Cons.prems(1)]]]
  show ?case
  proof (cases res)
    case NoRobot
    then have "dispatchLoop clk (Suc k) jids e1 out p err = (e', out', p', err')"
      using Cons.prems(4) s by simp
    then show ?thesis using Cons.IH [OF st(1) d(2) ap] ev NoRobot by simp
  next
    case (WriteFailed x)
    then have "dispatchLoop clk (Suc k) jids e1 out True (Some x) = (e', out', p', err')"
      using Cons.prems(4) s by simp
    then show ?thesis using Cons.IH [OF st(1) d(2) ap] ev WriteFailed by simp
  next
    case (Given a)
    then have l: "dispatchLoop clk (Suc k) jids e1 (out @ [a]) True err = (e', out', p', err')"
      using Cons.prems(4) s by simp
    obtain new where n: "out' = (out @ [a]) @ new"
      "eng_events e' = fold tell (map (\<lambda>a. noticeOf e' (asg_JobID a)) new) (eng_events e1)"
      using Cons.IH [OF st(1) d(2) ap l] by blast
    have "getJob e' jid = getJob e1 jid"
      using dispatchLoop_pass [OF st(1) d(2) ap l] d(1) by (auto simp: passOf_def)
    then have "noticeOf e' jid = noticeOf e1 jid" by (rule noticeOf_cong)
    then show ?thesis using n ev Given st(6) [OF Given] by (intro exI [where x = "a # new"]) simp
  qed
qed simp

lemma dispatch_told:
  assumes ok: "engine_ok e" and d: "DispatchOnce clk e = (e', out)"
  shows "told e e'"
proof -
  note b = engine_okD(1) [OF ok]
  let ?jids = "map job_ID (dispatchOrder e)"
  obtain e1 out1 p err where l: "dispatchLoop clk 0 ?jids e [] False None = (e1, out1, p, err)"
    by (metis prod_cases4)
  then have e': "e' = (if p then recordPersistOutcome [err] e1 else e1)" "out = out1"
    using d by (auto simp: DispatchOnce_def)
  note pre = ok distinct_dispatchOrder [OF b] allPending_dispatchOrder [OF b] l
  have ps: "passOf clk ?jids e e1 out" using dispatchLoop_pass [OF pre] e'(2) by simp
  have "told e e1"
  proof (rule told_list [where jids = "map asg_JobID out"])
    have "subseq (map asg_JobID out) ?jids" using ps by (simp add: passOf_def)
    then show "distinct (map asg_JobID out)" using pre(2) by (rule subseq_distinct)
    show "eng_events e1 = fold tell (map (noticeOf e1) (map asg_JobID out)) (eng_events e)"
      using dispatchLoop_events [OF pre] e'(2) by (simp add: comp_def)
    show "x \<in> set (map asg_JobID out) \<longleftrightarrow> newlyAt e e1 x" for x
    proof (cases "x \<in> asg_JobID ` set out")
      case True
      then obtain a where a: "a \<in> set out" "x = asg_JobID a" by blast
      then have "givenBy clk e e1 a" using ps by (simp add: passOf_def)
      then show ?thesis using True a(2) by (auto simp: givenBy_def newlyAt_def)
    next
      case False
      then have "untouched e e1 x" using ps by (simp add: passOf_def)
      then show ?thesis using False by (auto simp: newlyAt_dull untouched_def dull_def)
    qed
  qed
  then show ?thesis using e'(1) told_cong [of e e e1 e'] by simp
qed

subsection \<open>Every step\<close>

lemma engine_step_told:
  assumes "engine_step e e'" and ok: "engine_ok e"
  shows "told e e' \<or> (\<exists>h. e' = SetEvents h e)"
  using assms(1)
proof cases
  case (add j now)
  then show ?thesis using add_told [of j now e] by (simp add: AddJob_def split: prod.splits sum.splits)
next
  case (submit j now r)
  then show ?thesis using submit_told [OF ok] by simp
next
  case (heartbeat u now)
  then show ?thesis using upsert_told [OF ok] by (simp add: UpdateRobot_def)
next
  case (upsert r now)
  then show ?thesis using upsert_told [OF ok] by (simp add: UpsertRobot_def)
next
  case (remove rid)
  then show ?thesis using remove_told [of e rid] by blast
next
  case (dispatch clk)
  then show ?thesis using dispatch_told [OF ok] by (metis prod.collapse)
next
  case (complete jid success rid attempt now err ev)
  then show ?thesis using complete_told [OF ok] by simp
next
  case (cancel jid now err)
  then show ?thesis using cancel_told [OF ok] by simp
next
  case (requeue jid rid)
  then show ?thesis using requeue_told [OF ok] by simp
next
  case (replan rid)
  then show ?thesis using replan_told [OF ok] by simp
next
  case (ackStop rid jid)
  then show ?thesis using ackStop_told [OF ok] by simp
next
  case (sweep timeout now)
  then show ?thesis using sweep_told [OF ok] by simp
next
  case (archive now)
  then show ?thesis using archive_told [OF ok] by simp
next
  case (setEvents h)
  then show ?thesis by blast
qed (intro disjI1 told_same; simp add: settings_jobs settings_events)+

end
