(* ===== verification/StreamTheorems.thy ===== *)
theory StreamTheorems
  imports Stream Told
begin

section \<open>Theorems on the stream of events\<close>

lemma filter_upto:
  "prefix (xs @ [x]) (filter P ys) \<Longrightarrow> \<exists>i < length ys. ys ! i = x \<and> filter P (take (Suc i) ys) = xs @ [x]"
proof (induction ys arbitrary: xs)
  case (Cons y ys)
  show ?case
  proof (cases "P y \<and> xs = []")
    case True
    then show ?thesis using Cons.prems by (intro exI [where x = 0]) auto
  next
    case False
    define xs' where "xs' = (if P y then tl xs else xs)"
    have "prefix (xs' @ [x]) (filter P ys)" and e: "xs @ [x] = (if P y then [y] else []) @ xs' @ [x]"
      using Cons.prems False by (cases xs; auto simp: xs'_def split: if_splits)+
    then obtain i where "i < length ys" "ys ! i = x" "filter P (take (Suc i) ys) = xs' @ [x]"
      using Cons.IH by blast
    then show ?thesis using e by (intro exI [where x = "Suc i"]) auto
  qed
qed simp

text \<open>What the client has read is all it wanted up to the number of the last event it read.\<close>

lemma lastRead_exact:
  assumes l: "logged events h" and begun: "0 \<le> begun" and t: "inTime (lastRead begun got) h"
    and p: "prefix got (filter P (drop (nat begun) events))"
  shows "nat begun \<le> nat (lastRead begun got) \<and> nat (lastRead begun got) \<le> length events
    \<and> got = filter P (drop (nat begun) (take (nat (lastRead begun got)) events))"
proof (cases got rule: rev_cases)
  case Nil
  then show ?thesis using t loggedD(2) [OF l] by (auto simp: lastRead_def inTime_def)
next
  case (snoc xs x)
  obtain i where i: "i < length (drop (nat begun) events)" "drop (nat begun) events ! i = x"
    "filter P (take (Suc i) (drop (nat begun) events)) = xs @ [x]"
    using filter_upto [OF p [unfolded snoc]] by blast
  have "ev_ID x = int (nat begun + i) + 1" using i(1,2) loggedD(3) [OF l, of "nat begun + i"] by auto
  then have k: "nat (lastRead begun got) = nat begun + Suc i" using snoc begun by (simp add: lastRead_def nat_add_distrib)
  show ?thesis unfolding k using i snoc by (simp add: drop_take)
qed

definition onTrack :: "string list \<Rightarrow> nat \<Rightarrow> Event list \<Rightarrow> client \<Rightarrow> bool" where
  "onTrack wanted b events s \<longleftrightarrow>
     logged events (cl_Hub s)
   \<and> prefix (cl_Got s @ cl_Wire s) (filter (isWanted wanted) (drop b events))
   \<and> (\<forall>cn. cl_Conn s = Some cn \<longrightarrow> (\<exists>n \<ge> b. cl_Got s @ cl_Wire s = filter (isWanted wanted) (drop b (take n events))
        \<and> carries (cn_Chan cn) (cn_Replay cn) n events (cl_Hub s)))"

lemma onTrackI:
  assumes "logged events (cl_Hub s)"
    and "cl_Conn s = None \<Longrightarrow> prefix (cl_Got s @ cl_Wire s) (filter (isWanted wanted) (drop b events))"
    and "\<And>cn. cl_Conn s = Some cn \<Longrightarrow> \<exists>n \<ge> b. cl_Got s @ cl_Wire s = filter (isWanted wanted) (drop b (take n events))
        \<and> carries (cn_Chan cn) (cn_Replay cn) n events (cl_Hub s)"
  shows "onTrack wanted b events s"
proof -
  have "prefix (filter P (drop b (take n events))) (filter P (drop b events))" for P n
    by (metis append_take_drop_id drop_append filter_append prefix_def)
  then show ?thesis using assms unfolding onTrack_def by (cases "cl_Conn s") metis+
qed

lemma onTrackD:
  assumes "onTrack wanted b events s"
  shows "logged events (cl_Hub s)"
    "prefix (cl_Got s @ cl_Wire s) (filter (isWanted wanted) (drop b events))"
    "cl_Conn s = Some cn \<Longrightarrow> \<exists>n \<ge> b. cl_Got s @ cl_Wire s = filter (isWanted wanted) (drop b (take n events))
        \<and> carries (cn_Chan cn) (cn_Replay cn) n events (cl_Hub s)"
  using assms unfolding onTrack_def by blast+

lemma onTrack_hub:
  assumes t: "onTrack wanted b events s" and l: "logged events h"
    and c: "\<And>cn n. cl_Conn s = Some cn \<Longrightarrow> carries (cn_Chan cn) (cn_Replay cn) n events (cl_Hub s) \<Longrightarrow>
      carries (cn_Chan cn) (cn_Replay cn) n events h"
  shows "onTrack wanted b events (s\<lparr>cl_Hub := h\<rparr>)"
  by (rule onTrackI) (use onTrackD [OF t] l c in \<open>fastforce+\<close>)

lemma written:
  assumes "n < length events" and "b \<le> n"
  shows "filter (isWanted wanted) (drop b (take n events)) @ writeEvent wanted (events ! n)
    = filter (isWanted wanted) (drop b (take (n + 1) events))"
  using assms by (simp add: writeEvent_def take_Suc_conv_app_nth)

lemma onTrack_turn:
  assumes t: "onTrack wanted b events s" and cn: "cl_Conn s = Some cn"
    and turn: "streamTurn wanted cn (cl_Hub s) = (out, conn, h)"
  shows "onTrack wanted b events (s\<lparr>cl_Hub := h, cl_Conn := conn, cl_Wire := cl_Wire s @ out\<rparr>)"
proof -
  note l = onTrackD(1) [OF t]
  note ok = loggedD(1) [OF l]
  obtain n where n: "b \<le> n" "cl_Got s @ cl_Wire s = filter (isWanted wanted) (drop b (take n events))"
    "carries (cn_Chan cn) (cn_Replay cn) n events (cl_Hub s)"
    using onTrackD(3) [OF t cn] by blast
  have sent: "onTrack wanted b events (s\<lparr>cl_Hub := h', cl_Conn := Some cn', cl_Wire := cl_Wire s @ writeEvent wanted ev\<rparr>)"
    if "carries (cn_Chan cn') (cn_Replay cn') (n + 1) events h' \<and> n < length events \<and> events ! n = ev"
      "logged events h'" for cn' h' ev
  proof -
    have "cl_Got s @ cl_Wire s @ writeEvent wanted ev = filter (isWanted wanted) (drop b (take (n + 1) events))"
      using that(1) n(1) written [of n events b wanted] by (metis append.assoc n(2))
    then show ?thesis using that n(1) by (intro onTrackI) (auto intro!: exI [where x = "n + 1"])
  qed
  show ?thesis
  proof (cases "cn_Replay cn")
    case (Cons ev rest)
    then have "out = writeEvent wanted ev" "conn = Some (cn\<lparr>cn_Replay := rest\<rparr>)" "h = cl_Hub s"
      using turn by (simp_all add: streamTurn_def)
    then show ?thesis using sent [of "cn\<lparr>cn_Replay := rest\<rparr>" h ev] carries_replay n(3) Cons l by simp
  next
    case Nil
    obtain got h' where r: "receive (cn_Chan cn) (cl_Hub s) = (got, h')" by fastforce
    show ?thesis
    proof (cases got)
      case (Some ev)
      then have "out = writeEvent wanted ev" "conn = Some cn" "h = h'"
        using turn r Nil by (simp_all add: streamTurn_def)
      then show ?thesis
        using sent [of cn h' ev] carries_receive [OF ok _ r [unfolded Some]] n(3) Nil logged_steps(2) [OF l r] by simp
    next
      case None
      then have same: "h' = cl_Hub s" using r by (auto simp: receive_def split: option.splits list.splits)
      show ?thesis
      proof (cases conn)
        case None
        then have "out = []" "h = cancelSubscription (cn_Chan cn) (cl_Hub s)"
          using turn r Nil \<open>got = None\<close> same by (auto simp: streamTurn_def split: if_splits)
        then show ?thesis using None onTrackD(2) [OF t] logged_steps(1) [OF l] by (intro onTrackI) simp_all
      next
        case (Some cn')
        then have "out = []" "h = cl_Hub s" "cn' = cn"
          using turn r Nil \<open>got = None\<close> same by (auto simp: streamTurn_def split: if_splits)
        then have "s\<lparr>cl_Hub := h, cl_Conn := conn, cl_Wire := cl_Wire s @ out\<rparr> = s" using Some cn by simp
        then show ?thesis using t by simp
      qed
    qed
  qed
qed

lemma onTrack_connect:
  assumes t: "onTrack wanted (nat begun) events s" and begun: "0 \<le> begun"
    and time: "inTime (lastRead begun (cl_Got s)) (cl_Hub s)"
    and o: "openStream (lastRead begun (cl_Got s)) (cl_Hub s) = (cn, h)"
  shows "onTrack wanted (nat begun) events (s\<lparr>cl_Hub := h, cl_Conn := Some cn, cl_Wire := []\<rparr>)"
proof -
  note l = onTrackD(1) [OF t]
  let ?k = "nat (lastRead begun (cl_Got s))"
  have s: "Subscribe (lastRead begun (cl_Got s)) (cl_Hub s) = (cn_Replay cn, cn_Chan cn, h)"
    using o by (auto simp: openStream_def split: prod.splits)
  have k: "nat begun \<le> ?k" "?k \<le> length events"
    "cl_Got s = filter (isWanted wanted) (drop (nat begun) (take ?k events))"
    using lastRead_exact [OF l begun time append_prefixD [OF onTrackD(2) [OF t]]] by blast+
  have "carries (cn_Chan cn) (cn_Replay cn) ?k events h"
    using Subscribe_ok(4) [OF loggedD(1) [OF l] s] replay_exact [OF l time s] k(2) by (simp add: carries_def)
  then show ?thesis using k logged_steps(3) [OF l s] by (intro onTrackI) auto
qed

lemma session_onTrack:
  assumes "session cfg clock wanted begun events s" and begun: "0 \<le> begun"
  shows "onTrack wanted (nat begun) events s"
  using assms(1)
proof (induction rule: session.induct)
  case starts
  show ?case using logged_New by (intro onTrackI) simp_all
next
  case (publishes events s kind jid rid att h)
  note T = onTrackD [OF publishes.IH]
  have p: "prefix xs (filter P (drop b es)) \<Longrightarrow> prefix xs (filter P (drop b (es @ [e])))" for xs b P es and e :: Event
    by simp
  show ?case
  proof (rule onTrackI)
    fix cn assume "cl_Conn (s\<lparr>cl_Hub := h\<rparr>) = Some cn"
    then obtain n where n: "nat begun \<le> n" "n \<le> length events"
      "cl_Got s @ cl_Wire s = filter (isWanted wanted) (drop (nat begun) (take n events))"
      "carries (cn_Chan cn) (cn_Replay cn) n events (cl_Hub s)"
      using T(3) [of cn] by (auto simp: carries_def)
    then show "\<exists>n \<ge> nat begun. cl_Got (s\<lparr>cl_Hub := h\<rparr>) @ cl_Wire (s\<lparr>cl_Hub := h\<rparr>)
        = filter (isWanted wanted) (drop (nat begun) (take n (events @ [published kind jid rid att (cl_Hub s)])))
        \<and> carries (cn_Chan cn) (cn_Replay cn) n (events @ [published kind jid rid att (cl_Hub s)]) (cl_Hub (s\<lparr>cl_Hub := h\<rparr>))"
      using carries_publish [OF T(1) n(4) publishes.hyps(2,3)] by (intro exI [where x = n]) simp
  qed (use T(2) p logged_publish [OF T(1) publishes.hyps(2,3)] in simp_all)
next
  case (subscribes events s since replay c h)
  note l = onTrackD(1) [OF subscribes.IH]
  show ?case
    using logged_steps(3) [OF l subscribes.hyps(2)] carries_other(1) [OF loggedD(1) [OF l] _ subscribes.hyps(2)]
    by (intro onTrack_hub [OF subscribes.IH])
next
  case (cancels events s c)
  note l = onTrackD(1) [OF cancels.IH]
  show ?case using logged_steps(1) [OF l] carries_other(2) [OF loggedD(1) [OF l]]
    by (intro onTrack_hub [OF cancels.IH])
next
  case (receives events s c got h)
  note l = onTrackD(1) [OF receives.IH]
  have "c \<noteq> cn_Chan cn" if "cl_Conn s = Some cn" for cn using receives.hyps(2) that by (auto simp: mine_def)
  then show ?case
    using logged_steps(2) [OF l receives.hyps(3)] carries_other(3) [OF loggedD(1) [OF l] _ _ receives.hyps(3)]
    by (intro onTrack_hub [OF receives.IH]) auto
next
  case (connects events s cn h)
  then show ?case by (intro onTrack_connect [OF _ begun])
next
  case (turns events s cn out conn h)
  then show ?case by (intro onTrack_turn)
next
  case (reads events s ev rest)
  then show ?case using onTrackD [OF reads.IH] by (intro onTrackI) auto
next
  case (breaks events s cn k taken)
  note T = onTrackD [OF breaks.IH]
  have "prefix (cl_Got s @ take k (cl_Wire s)) (cl_Got s @ cl_Wire s)" by (simp add: take_is_prefix)
  then have "prefix (cl_Got s @ take k (cl_Wire s)) (filter (isWanted wanted) (drop (nat begun) events))"
    using T(2) prefix_order.trans by blast
  moreover have "logged events (breakStream taken cn (cl_Hub s))"
    using logged_steps(1) [OF logged_steps(2) [OF T(1) prod.collapse [symmetric]]] logged_steps(1) [OF T(1)]
    by (simp add: breakStream_def)
  ultimately show ?case by (intro onTrackI) simp_all
qed

text \<open>
  C34: a client of the live stream receives every event it asked for exactly once and in order, over
  any number of broken connections. Whatever the hub, its other subscribers and the network do, what
  it has read is always a beginning of the events of its types that were published after the number
  it began with; and while a stream serves it that was not dropped, the rest of them is on its way:
  on the wire, in the replay or in the channel. It connects again with the number of the last event
  it read, in time for the hub to still keep what follows.
\<close>

theorem stream_exactly_once:
  assumes "session cfg clock wanted begun events s" and "0 \<le> begun"
  shows "prefix (cl_Got s) (filter (isWanted wanted) (drop (nat begun) events))
    \<and> (\<forall>cn. cl_Conn s = Some cn \<longrightarrow> cn_Chan cn \<in> set (hub_subs (cl_Hub s)) \<longrightarrow>
         (\<exists>ch. go_get (hub_chans (cl_Hub s)) (cn_Chan cn) = Some ch
           \<and> cl_Got s @ cl_Wire s @ filter (isWanted wanted) (cn_Replay cn @ ch_buf ch)
             = filter (isWanted wanted) (drop (nat begun) events)))"
proof -
  note T = onTrackD [OF session_onTrack [OF assms]]
  have "\<exists>ch. go_get (hub_chans (cl_Hub s)) (cn_Chan cn) = Some ch
       \<and> cl_Got s @ cl_Wire s @ filter (isWanted wanted) (cn_Replay cn @ ch_buf ch)
         = filter (isWanted wanted) (drop (nat begun) events)"
    if cn: "cl_Conn s = Some cn" and subscribed: "cn_Chan cn \<in> set (hub_subs (cl_Hub s))" for cn
  proof -
    obtain n where n: "nat begun \<le> n" "n \<le> length events"
      "cl_Got s @ cl_Wire s = filter (isWanted wanted) (drop (nat begun) (take n events))"
      "carries (cn_Chan cn) (cn_Replay cn) n events (cl_Hub s)"
      using T(3) [OF cn] by (auto simp: carries_def)
    obtain ch where ch: "go_get (hub_chans (cl_Hub s)) (cn_Chan cn) = Some ch" "cn_Replay cn @ ch_buf ch = drop n events"
      using n(4) subscribed by (auto simp: carries_def)
    have "drop (nat begun) (take n events) @ drop n events = drop (nat begun) events"
      using n(1,2) by (metis append_take_drop_id drop_append drop_eq_Nil drop0 length_take min.absorb2 diff_is_0_eq)
    then show ?thesis using ch n(3) by (metis append.assoc filter_append)
  qed
  then show ?thesis using append_prefixD [OF T(2)] by blast
qed

text \<open>A hub with an assignment and a completion, and a client that asks for completions.\<close>

definition streamConfig :: EventsConfig where
  "streamConfig = \<lparr>evc_Enabled = True, evc_SSE = True, evc_Buffer = 10, evc_SubscriberSize = 4\<rparr>"

definition streamHub1 :: EventHub where
  "streamHub1 = the (Publish EventAssigned ''a'' ''m'' 1 (Some (NewEventHub streamConfig (\<lambda>_. 0))))"

definition streamHub2 :: EventHub where
  "streamHub2 = the (Publish EventDone ''a'' ''m'' 1 (Some streamHub1))"

lemma stream_exactly_once_witness:
  "\<exists>events s. session streamConfig (\<lambda>_. 0) [''done''] 0 events s
     \<and> map ev_ID (cl_Got s) = [2] \<and> prefix (cl_Got s) (filter (isWanted [''done'']) events)"
proof -
  let ?W = "[''done'']" and ?run = "session streamConfig (\<lambda>_. 0) [''done''] 0"
  let ?s0 = "\<lparr>cl_Hub = NewEventHub streamConfig (\<lambda>_. 0), cl_Conn = None, cl_Wire = [], cl_Got = []\<rparr>"
  have on: "evc_Enabled (hub_cfg (NewEventHub streamConfig (\<lambda>_. 0)))" "evc_Enabled (hub_cfg streamHub1)" by code_simp+
  have p: "Publish EventAssigned ''a'' ''m'' 1 (Some (NewEventHub streamConfig (\<lambda>_. 0))) = Some streamHub1"
    "Publish EventDone ''a'' ''m'' 1 (Some streamHub1) = Some streamHub2"
    using on by (simp_all add: streamHub1_def streamHub2_def Publish_def Let_def)
  have r1: "?run ([] @ [published EventAssigned ''a'' ''m'' 1 (cl_Hub ?s0)]) (?s0\<lparr>cl_Hub := streamHub1\<rparr>)"
    using p(1) on(1) by (intro session.publishes [OF session.starts]) simp_all
  obtain es where r2: "?run es (?s0\<lparr>cl_Hub := streamHub2\<rparr>)"
    using session.publishes [OF r1, of EventDone "''a''" "''m''" 1 streamHub2] p(2) on(2) by auto
  obtain cn h where o: "openStream 0 streamHub2 = (cn, h)" by fastforce
  have r3: "?run es (?s0\<lparr>cl_Hub := h, cl_Conn := Some cn\<rparr>)"
  proof -
    have "inTime 0 streamHub2" by code_simp
    then show ?thesis using session.connects [OF r2, of cn h] o by (simp add: lastRead_def)
  qed
  obtain out1 c1 h1 where t1: "streamTurn ?W cn h = (out1, c1, h1)" by (metis prod_cases3)
  have "fst (streamTurn ?W (fst (openStream 0 streamHub2)) (snd (openStream 0 streamHub2))) = []"
    "fst (snd (streamTurn ?W (fst (openStream 0 streamHub2)) (snd (openStream 0 streamHub2)))) \<noteq> None" by code_simp+
  then obtain cn1 where c1: "out1 = []" "c1 = Some cn1" using o t1 by auto
  have r4: "?run es (?s0\<lparr>cl_Hub := h1, cl_Conn := Some cn1\<rparr>)"
    using session.turns [OF r3, of cn out1 c1 h1] t1 c1 by simp
  obtain out2 c2 h2 where t2: "streamTurn ?W cn1 h1 = (out2, c2, h2)" by (metis prod_cases3)
  have "map ev_ID (fst (streamTurn ?W
      (the (fst (snd (streamTurn ?W (fst (openStream 0 streamHub2)) (snd (openStream 0 streamHub2))))))
      (snd (snd (streamTurn ?W (fst (openStream 0 streamHub2)) (snd (openStream 0 streamHub2))))))) = [2]"
    by code_simp
  then obtain ev where ev: "out2 = [ev]" "ev_ID ev = 2" using o t1 t2 c1(2) by auto
  have r5: "?run es (?s0\<lparr>cl_Hub := h2, cl_Conn := c2, cl_Wire := [ev]\<rparr>)"
    using session.turns [OF r4, of cn1 out2 c2 h2] t2 ev(1) by simp
  let ?s = "?s0\<lparr>cl_Hub := h2, cl_Conn := c2, cl_Got := [ev]\<rparr>"
  have r6: "?run es ?s" using session.reads [OF r5, of ev "[]"] by simp
  have "prefix (cl_Got ?s) (filter (isWanted ?W) es)" using stream_exactly_once [OF r6] by simp
  then show ?thesis using r6 ev(2) by (intro exI [where x = es] exI [where x = ?s]) simp
qed

subsection \<open>From the queue to the client\<close>

definition noticeIn :: "Event \<Rightarrow> notice" where
  "noticeIn ev = (ev_Type ev, ev_JobID ev, ev_RobotID ev, ev_Attempt ev)"

lemma noticeIn_published [simp]: "noticeIn (published kind jid rid att h) = (kind, jid, rid, att)"
  by (simp add: noticeIn_def published_def)

lemma session_tells:
  assumes "session cfg clock wanted begun events s" and "evc_Enabled (hub_cfg (cl_Hub s))"
  shows "\<exists>h evs. fold tell ns (Some (cl_Hub s)) = Some h \<and> map noticeIn evs = ns
    \<and> session cfg clock wanted begun (events @ evs) (s\<lparr>cl_Hub := h\<rparr>)"
  using assms
proof (induction ns arbitrary: events s)
  case Nil
  then show ?case by (intro exI [where x = "cl_Hub s"] exI [where x = "[]"]) simp
next
  case (Cons n ns)
  obtain kind jid rid att where n: "n = (kind, jid, rid, att)" by (metis prod_cases4)
  obtain h where p: "Publish kind jid rid att (Some (cl_Hub s)) = Some h" "hub_cfg h = hub_cfg (cl_Hub s)"
    using Cons.prems(2) by (auto simp: Publish_def Let_def)
  let ?ev = "published kind jid rid att (cl_Hub s)"
  have "session cfg clock wanted begun (events @ [?ev]) (s\<lparr>cl_Hub := h\<rparr>)"
    by (rule session.publishes [OF Cons.prems(1) p(1) Cons.prems(2)])
  then obtain h' evs where "fold tell ns (Some h) = Some h'" "map noticeIn evs = ns"
    "session cfg clock wanted begun ((events @ [?ev]) @ evs) (s\<lparr>cl_Hub := h'\<rparr>)"
    using Cons.IH [of "events @ [?ev]" "s\<lparr>cl_Hub := h\<rparr>"] p(2) Cons.prems(2) by auto
  moreover have "tell n (Some (cl_Hub s)) = Some h" by (simp add: n tell_def p(1))
  ultimately show ?case
    by (intro exI [where x = h'] exI [where x = "?ev # evs"]) (simp add: n)
qed



end
