(* ===== verification/Sinks.thy ===== *)
theory Sinks
  imports Outgoing Api
begin

section \<open>Sinks of production events, and the controllers of the robots\<close>

text \<open>
  The sinks of \<open>src/src/dispatcher/production_event.go\<close> and \<open>production_identity.go\<close> as \<open>src/main.go\<close>
  joins them, and \<open>HTTPToolFetcher\<close> of \<open>src/src/dispatcher/toolconfirm.go\<close>, which asks the controller
  of a robot what tool it holds. The text of an event is the JSON writer's (\<open>marshal\<close>); the network
  answers a request (address, token, body) with a status, or \<open>None\<close> when there is no answer.
\<close>

subsection \<open>The file of events\<close>

text \<open>
  A file takes the line of an event at its end. \<open>written\<close> is how many bytes the system wrote, \<open>None\<close>
  when the file could not be opened; a short write is an error.
\<close>

definition JSONLinesSink ::
  "(ProductionEvent \<Rightarrow> string) \<Rightarrow> nat option \<Rightarrow> ProductionEvent \<Rightarrow> string \<Rightarrow> bool \<times> string" where
  "JSONLinesSink marshal written event contents =
     (let text = marshal event @ [CHR 0x0A]
      in case written of
           None \<Rightarrow> (False, contents)
         | Some n \<Rightarrow> (length text \<le> n, contents @ take n text))"

subsection \<open>The receiver over HTTP\<close>

datatype sendError = NotSent | Answered nat

definition httpSink ::
  "(string \<Rightarrow> string option \<Rightarrow> string \<Rightarrow> nat option) \<Rightarrow> (ProductionEvent \<Rightarrow> string) \<Rightarrow> string \<Rightarrow> string \<Rightarrow>
   ProductionEvent \<Rightarrow> sendError option" where
  "httpSink post marshal url token event =
     (case post url (if token = [] then None else Some (''Bearer '' @ token)) (marshal event) of
        None \<Rightarrow> Some NotSent
      | Some status \<Rightarrow> if receiverTook status then None else Some (Answered status))"

definition signedBearer :: "crypto \<Rightarrow> instant \<Rightarrow> string \<Rightarrow> string" where
  "signedBearer cry now key = SignIdentityToken cry key ''job-dispatcher'' ''operator'' now"

text \<open>The bearer of the sink that main chooses: a signed token made for each request, or the given one.\<close>

definition sinkBearer :: "crypto \<Rightarrow> instant \<Rightarrow> string option \<Rightarrow> string \<Rightarrow> string" where
  "sinkBearer cry now key given = (case key of None \<Rightarrow> given | Some k \<Rightarrow> signedBearer cry now k)"

subsection \<open>The sink of the process\<close>

text \<open>What a sink has to write to: the file when one is named, the queue when an address is.\<close>

record processSink =
  ps_File :: "string option"
  ps_Queue :: "sinkQueue option"

datatype sinkFailure = FileFailed | NotQueued sinkError

definition buildProductionSink :: "string \<Rightarrow> string \<Rightarrow> processSink" where
  "buildProductionSink path url =
     \<lparr>ps_File = (if path = [] then None else Some []),
      ps_Queue = (if url = [] then None else Some (AsyncSink 256))\<rparr>"

definition firstOf :: "'e option \<Rightarrow> 'e option \<Rightarrow> 'e option" where
  "firstOf x y = (case x of None \<Rightarrow> y | Some err \<Rightarrow> Some err)"

definition processEvent ::
  "(ProductionEvent \<Rightarrow> string) \<Rightarrow> nat option \<Rightarrow> ProductionEvent \<Rightarrow> processSink \<Rightarrow> sinkFailure option \<times> processSink" where
  "processEvent marshal written event s =
     (let (err1, file') =
            (case ps_File s of
               None \<Rightarrow> (None, None)
             | Some contents \<Rightarrow>
                 (case JSONLinesSink marshal written event contents of
                    (ok, contents') \<Rightarrow> (if ok then None else Some FileFailed, Some contents')));
          (err2, queue') =
            (case ps_Queue s of
               None \<Rightarrow> (None, None)
             | Some q \<Rightarrow> (case enqueue event q of (err, q') \<Rightarrow> (map_option NotQueued err, Some q')))
      in (firstOf err1 err2, \<lparr>ps_File = file', ps_Queue = queue'\<rparr>))"

text \<open>
  A sink that fails keeps no other sink from the event: with room in the queue the event is queued
  whatever the file did, and a write that succeeds adds the line whatever the queue did.
\<close>

lemma processEvent_independent:
  assumes "processEvent marshal written event s = (err, s')"
  shows "ps_Queue s = Some q \<Longrightarrow> ps_Queue s' = Some (snd (enqueue event q))"
    "ps_File s = Some contents \<Longrightarrow> written = Some (length (marshal event) + 1) \<Longrightarrow>
       ps_File s' = Some (contents @ marshal event @ [CHR 0x0A])"
  using assms by (auto simp: processEvent_def JSONLinesSink_def Let_def split: prod.splits option.splits)

text \<open>A file whose writes all succeed is read back line by line, as long as no text has an end of line in it.\<close>

lemma JSONLinesSink_lines:
  assumes "\<And>ev. CHR 0x0A \<notin> set (marshal ev)"
  shows "splitOn (CHR 0x0A) (fold (\<lambda>ev c. snd (JSONLinesSink marshal (Some (length (marshal ev) + 1)) ev c)) evs [])
    = map marshal evs @ [[]]"
proof -
  have "fold (\<lambda>ev c. snd (JSONLinesSink marshal (Some (length (marshal ev) + 1)) ev c)) evs c
      = c @ concat (map (\<lambda>ev. marshal ev @ [CHR 0x0A]) evs)" for c
    by (induction evs arbitrary: c) (simp_all add: JSONLinesSink_def Let_def)
  moreover have "splitOn (CHR 0x0A) (concat (map (\<lambda>ev. marshal ev @ [CHR 0x0A]) evs)) = map marshal evs @ [[]]"
    by (induction evs) (simp_all add: splitOn_append assms)
  ultimately show ?thesis by simp
qed

subsection \<open>Asking a controller\<close>

text \<open>\<open>url.PathEscape\<close>: what may not stand in a segment of a path is written as its two digits.\<close>

definition segmentChar :: "char \<Rightarrow> bool" where
  "segmentChar c \<longleftrightarrow>
     (let n = (of_char c :: nat)
      in 65 \<le> n \<and> n \<le> 90 \<or> 97 \<le> n \<and> n \<le> 122 \<or> 48 \<le> n \<and> n \<le> 57 \<or> c \<in> set ''-_.~$&+:=@'')"

definition upperHex :: "nat \<Rightarrow> char" where
  "upperHex n = (if n < 10 then char_of (48 + n) else char_of (55 + n))"

definition escapeChar :: "char \<Rightarrow> string" where
  "escapeChar c =
     (if segmentChar c then [c]
      else let n = (of_char c :: nat) in [CHR ''%'', upperHex (n div 16), upperHex (n mod 16)])"

definition PathEscape :: "string \<Rightarrow> string" where
  "PathEscape s = concat (map escapeChar s)"

text \<open>\<open>strings.ReplaceAll\<close> of a text that is not empty.\<close>

function replaceAll :: "string \<Rightarrow> string \<Rightarrow> string \<Rightarrow> string" where
  "replaceAll old new s =
     (case s of [] \<Rightarrow> []
      | c # t \<Rightarrow>
          if old \<noteq> [] \<and> prefix old s then new @ replaceAll old new (drop (length old) s)
          else c # replaceAll old new t)"
  by pat_completeness auto
termination
  by (relation "measure (\<lambda>(_, _, s). length s)") (auto simp: Suc_diff_le split: nat.split)

declare replaceAll.simps [simp del]

record toolAnswer =
  ta_ToolID :: string
  ta_Tool :: string

definition toolAnswerFields :: "toolAnswer fields" where
  "toolAnswerFields =
     [field ''tool_id'' storeString ta_ToolID ta_ToolID_update,
      field ''tool'' storeString ta_Tool ta_Tool_update]"

text \<open>The network answers the address and the bearer with the status and what the JSON reader makes of the body.\<close>

definition HTTPToolFetcher ::
  "(string \<Rightarrow> string option \<Rightarrow> (nat \<times> json option) option) \<Rightarrow> string \<Rightarrow> string \<Rightarrow> string \<Rightarrow> string option" where
  "HTTPToolFetcher get template token robotID =
     (case get (replaceAll ''{robot}'' (PathEscape robotID) template)
             (if token = [] then None else Some (''Bearer '' @ token)) of
        Some (status, Some v) \<Rightarrow>
          if status \<noteq> 200 then None
          else (case storeStruct False toolAnswerFields v \<lparr>ta_ToolID = [], ta_Tool = []\<rparr> of
            None \<Rightarrow> None
          | Some a \<Rightarrow> Some (if ta_ToolID a \<noteq> [] then ta_ToolID a else ta_Tool a))
      | _ \<Rightarrow> None)"

subsection \<open>Each robot at its own address\<close>

lemma hexValue_upperHex: "n < 16 \<Longrightarrow> hexValue (upperHex n) = Some n"
  by (auto simp: hexValue_def upperHex_def Let_def)

lemma pathUnescape_escapeChar: "pathUnescape (escapeChar c @ s) = map_option (Cons c) (pathUnescape s)"
proof (cases "segmentChar c")
  case True
  then have "c \<noteq> CHR ''%''" by (auto simp: segmentChar_def)
  then show ?thesis using True by (subst pathUnescape.simps) (simp add: escapeChar_def)
next
  case False
  let ?n = "of_char c :: nat"
  have "?n div 16 < 16" using nat_of_char_less_256 [of c] by (intro less_mult_imp_div_less) simp
  then have "hexValue (upperHex (?n div 16)) = Some (?n div 16)" "hexValue (upperHex (?n mod 16)) = Some (?n mod 16)"
    by (simp_all add: hexValue_upperHex)
  moreover have "char_of (16 * (?n div 16) + ?n mod 16) = c" by simp
  ultimately show ?thesis using False by (subst pathUnescape.simps) (simp add: escapeChar_def Let_def)
qed

lemma pathUnescape_PathEscape: "pathUnescape (PathEscape s) = Some s"
  by (induction s) (simp_all add: PathEscape_def pathUnescape_escapeChar pathUnescape.simps [of "[]"])

text \<open>Two robots are never asked at one address, whatever their names.\<close>

lemma replaceAll_prefix:
  assumes "\<not> containsText a ''{''"
  shows "replaceAll ''{robot}'' new (a @ ''{robot}'' @ b) = a @ new @ replaceAll ''{robot}'' new b"
  using assms
proof (induction a)
  case Nil
  show ?case by (subst replaceAll.simps) simp
next
  case (Cons c a)
  then have "c \<noteq> CHR ''{''" "\<not> containsText a ''{''" by (auto simp: containsText_def)
  then show ?case using Cons.IH by (subst replaceAll.simps) simp
qed

lemma replaceAll_none: "\<not> containsText b ''{'' \<Longrightarrow> replaceAll ''{robot}'' new b = b"
proof (induction b)
  case (Cons c b)
  then have "c \<noteq> CHR ''{''" "\<not> containsText b ''{''" by (auto simp: containsText_def)
  then show ?case using Cons.IH by (subst replaceAll.simps) simp
qed (simp add: replaceAll.simps)

lemma asked_apart:
  assumes "\<not> containsText a ''{''" and "\<not> containsText b ''{''"
    and "replaceAll ''{robot}'' (PathEscape r1) (a @ ''{robot}'' @ b)
       = replaceAll ''{robot}'' (PathEscape r2) (a @ ''{robot}'' @ b)"
  shows "r1 = r2"
proof -
  have "PathEscape r1 = PathEscape r2"
    using assms(3) by (simp only: replaceAll_prefix [OF assms(1)] replaceAll_none [OF assms(2)]
        append_same_eq same_append_eq)
  then show ?thesis using pathUnescape_PathEscape by (metis option.inject)
qed

end
