(* ===== verification/Metrics.thy ===== *)
theory Metrics
  imports Api
begin

section \<open>The text of the metrics\<close>

text \<open>
  \<open>src/src/api/service_metrics.go\<close>: the text that \<open>GET /metrics\<close> answers (the body of \<open>PMetrics\<close>) and
  the names and labels in it. The reader of a label below is not in the program: it is the rule of
  the text format, a label value ends at the first quote that no backslash precedes.
\<close>

definition newline :: char where
  "newline = CHR 0x0A"

definition backslash :: char where
  "backslash = CHR 0x5C"

definition quoteMark :: char where
  "quoteMark = CHR 0x22"

subsection \<open>Names and labels\<close>

definition checkChar :: "char \<Rightarrow> bool" where
  "checkChar c \<longleftrightarrow> (let n = (of_char c :: nat) in 97 \<le> n \<and> n \<le> 122 \<or> 48 \<le> n \<and> n \<le> 57 \<or> c = CHR ''_'')"

text \<open>A run of other characters becomes one underscore.\<close>

fun squeeze :: "bool \<Rightarrow> string \<Rightarrow> string" where
  "squeeze inRun [] = []"
| "squeeze inRun (c # s) =
     (if checkChar c then c # squeeze False s
      else if inRun then squeeze True s else CHR ''_'' # squeeze True s)"

definition CheckName :: "string \<Rightarrow> string" where
  "CheckName name =
     (let trimmed = dropWhile (\<lambda>c. c = CHR ''_'') (trimRightChar CHR ''_'' (squeeze False (toLower name)))
      in if trimmed = [] then ''check'' else trimmed)"

definition labelChar :: "char \<Rightarrow> string" where
  "labelChar c =
     (if c = backslash then [backslash, backslash] else if c = quoteMark then [backslash, quoteMark]
      else if c = newline then '' '' else [c])"

definition metricsLabel :: "string \<Rightarrow> string" where
  "metricsLabel s = concat (map labelChar s)"

fun readLabel :: "string \<Rightarrow> (string \<times> string) option" where
  "readLabel [] = None"
| "readLabel (c # s) =
     (if c = quoteMark then Some ([], s)
      else if c = backslash then
        (case s of [] \<Rightarrow> None | d # t \<Rightarrow> map_option (\<lambda>(v, rest). (d # v, rest)) (readLabel t))
      else map_option (\<lambda>(v, rest). (c # v, rest)) (readLabel s))"

subsection \<open>The text\<close>

definition line :: "string list \<Rightarrow> string" where
  "line parts = concat parts @ [newline]"

definition label :: "string \<Rightarrow> string \<Rightarrow> string" where
  "label name value = name @ ''='' @ [quoteMark] @ value @ [quoteMark]"

definition statusClasses :: "string list" where
  "statusClasses = [''2xx'', ''3xx'', ''4xx'', ''5xx'']"

definition countsOf :: "nat \<times> nat \<times> nat \<times> nat \<Rightarrow> nat list" where
  "countsOf r = (case r of (a, b, c, d) \<Rightarrow> [a, b, c, d])"

text \<open>\<open>int64(time.Since(started).Seconds())\<close>, with the rounding of \<open>Seconds\<close>.\<close>

definition uptimeSeconds :: "instant \<Rightarrow> instant \<Rightarrow> int" where
  "uptimeSeconds since now =
     (let d = time_sub now since
      in toInt (rnd64 (rnd64 (of_int (d div second)) + rnd64 (of_int (d mod second) / 1000000000))))"

definition boolToInt :: "bool \<Rightarrow> string" where
  "boolToInt ok = (if ok then ''1'' else ''0'')"

definition Render ::
  "string \<Rightarrow> string \<Rightarrow> int \<Rightarrow> nat list \<Rightarrow> (string \<times> bool) list \<Rightarrow> string" where
  "Render name version uptime responses checks =
     (let service = label ''service'' (metricsLabel name);
          results = fold (\<lambda>(n, ok) m. go_put (CheckName n) ok m) checks [];
          healthy = list_all snd checks
      in line [''# HELP hydra_umc_service_info The version of the running service.'']
       @ line [''# TYPE hydra_umc_service_info gauge'']
       @ line [''hydra_umc_service_info{'', service, '','', label ''version'' (metricsLabel version), ''} 1'']
       @ line [''# HELP hydra_umc_service_uptime_seconds Seconds since the process started.'']
       @ line [''# TYPE hydra_umc_service_uptime_seconds gauge'']
       @ line [''hydra_umc_service_uptime_seconds{'', service, ''} '', showInt uptime]
       @ line [''# HELP hydra_umc_service_http_responses_total Responses given, by the class of the status.'']
       @ line [''# TYPE hydra_umc_service_http_responses_total counter'']
       @ concat (map (\<lambda>(class, n). line [''hydra_umc_service_http_responses_total{'', service, '','',
            label ''class'' class, ''} '', showNat n]) (zip statusClasses responses))
       @ line [''# HELP hydra_umc_service_health 1 when every check of the service passes (or it declares none), 0 when one fails.'']
       @ line [''# TYPE hydra_umc_service_health gauge'']
       @ line [''hydra_umc_service_health{'', service, ''} '', boolToInt healthy]
       @ (if results = [] then []
          else line [''# HELP hydra_umc_service_health_check 1 when one check of the service passes.'']
            @ line [''# TYPE hydra_umc_service_health_check gauge'']
            @ concat (map (\<lambda>n. line [''hydra_umc_service_health_check{'', service, '','', label ''check'' n, ''} '',
                 boolToInt (go_get results n = Some True)]) (sort (map fst results)))))"

text \<open>What a server answers: its one check is that the last write to the store worked.\<close>

definition metricsText :: "string \<Rightarrow> instant \<Rightarrow> instant \<Rightarrow> 's server \<Rightarrow> string" where
  "metricsText version since now s =
     Render ''hydra-umc-job-dispatcher'' version (uptimeSeconds since now) (countsOf (srv_responses s))
       [(''persistence'', LastPersistError (srv_engine s) = None)]"

subsection \<open>Counting behind a writer\<close>

text \<open>
  What a handler does with its writer. The recorder keeps the first status (a body without one is
  200), and an answer that writes nothing counts as 200.
\<close>

datatype writerCall = WriteHeader nat | WriteBytes string

definition recordCall :: "writerCall \<Rightarrow> nat \<Rightarrow> nat" where
  "recordCall call status =
     (if status \<noteq> 0 then status else case call of WriteHeader n \<Rightarrow> n | WriteBytes _ \<Rightarrow> 200)"

definition recordedStatus :: "writerCall list \<Rightarrow> nat" where
  "recordedStatus calls = (let status = fold recordCall calls 0 in if status = 0 then 200 else status)"

definition Middleware :: "bool \<Rightarrow> string \<Rightarrow> request \<Rightarrow> writerCall list \<Rightarrow> writerCall list" where
  "Middleware allowed rendered r next =
     (if rq_Method r = ''GET'' \<and> rq_Segments r = [''metrics''] then
        (if \<not> allowed
         then [WriteHeader 401, WriteBytes (''{'' @ [quoteMark] @ ''error'' @ [quoteMark] @ '': ''
           @ [quoteMark] @ ''unauthorized'' @ [quoteMark] @ ''}'')]
         else [WriteBytes rendered])
      else next)"

text \<open>\<open>writeJSON\<close>: the status, and the body in one or more pieces.\<close>

definition answerCalls :: "answer \<Rightarrow> string list \<Rightarrow> writerCall list" where
  "answerCalls a pieces = WriteHeader (an_Status a) # map WriteBytes pieces"

lemma fold_recordCall: "status \<noteq> 0 \<Longrightarrow> fold recordCall calls status = status"
  by (induction calls) (simp_all add: recordCall_def)

lemma recordedStatus_answer: "an_Status a \<noteq> 0 \<Longrightarrow> recordedStatus (answerCalls a pieces) = an_Status a"
  by (simp add: recordedStatus_def answerCalls_def recordCall_def fold_recordCall)

text \<open>The status counted for a request is the one the handlers or the metrics answered it with.\<close>

lemma Middleware_counts:
  assumes "serveRoutes s out r = Some (s1, a1)" and "an_Status a1 \<noteq> 0" and "srv_metricsOn s"
  shows "\<exists>s' a. ServeHTTP s out r = Some (s', a)
    \<and> an_Status a = recordedStatus (Middleware (metricsAllowed s out r) rendered r (answerCalls a1 pieces))"
proof (cases "rq_Method r = ''GET'' \<and> rq_Segments r = [''metrics'']")
  case True
  then show ?thesis using assms(3)
    by (simp add: ServeHTTP_def counted_def Middleware_def recordedStatus_def recordCall_def unauthorized_def
        refuse_def reply_def)
next
  case False
  then have "Middleware (metricsAllowed s out r) rendered r (answerCalls a1 pieces) = answerCalls a1 pieces"
    by (auto simp: Middleware_def)
  then show ?thesis using False assms recordedStatus_answer [OF assms(2)] by (auto simp: ServeHTTP_def counted_def)
qed

subsection \<open>Lemmas\<close>

text \<open>A label is read back as the value it was made from, with spaces for the ends of lines.\<close>

lemma readLabel_metricsLabel:
  "readLabel (metricsLabel v @ quoteMark # rest) = Some (map (\<lambda>c. if c = newline then CHR '' '' else c) v, rest)"
proof (induction v)
  case (Cons c v)
  then show ?case
    by (auto simp: metricsLabel_def labelChar_def newline_def backslash_def quoteMark_def)
qed (simp add: metricsLabel_def)

lemma squeeze_chars: "c \<in> set (squeeze inRun s) \<Longrightarrow> checkChar c"
  by (induction inRun s rule: squeeze.induct) (auto simp: checkChar_def split: if_splits)

text \<open>A name of a check never carries free text, and is never empty.\<close>

lemma CheckName_chars: "list_all checkChar (CheckName name) \<and> CheckName name \<noteq> []"
proof -
  have "set (dropWhile P (trimRightChar d s)) \<subseteq> set s" for P d and s :: string
    by (auto simp: trimRightChar_def dest!: set_dropWhileD)
  then have "checkChar c" if "c \<in> set (dropWhile (\<lambda>c. c = CHR ''_'') (trimRightChar CHR ''_'' (squeeze False (toLower name))))" for c
    using that squeeze_chars by blast
  moreover have "list_all checkChar ''check''" by (simp add: checkChar_def)
  ultimately show ?thesis by (auto simp: CheckName_def list_all_iff Let_def)
qed

end
