(* ===== verification/Migrate.thy ===== *)
theory Migrate
  imports SqliteStore "HOL-Library.Sublist"
begin

section \<open>Opening the database\<close>

text \<open>
  \<open>Open\<close> and \<open>migrate\<close> of \<open>src/src/sqlitestore/sqlitestore.go\<close>: the columns that a table created by an
  older version lacks are added one by one, with the default its declaration names for the rows
  that are there. A table is its columns and its rows (a row gives each column a value); the driver
  is an oracle that says which of its calls, by number, fail, and a call that fails changes nothing.
\<close>

datatype cell = TextCell string | IntCell int

record table =
  tb_columns :: "string list"
  tb_rows :: "(string, cell) gomap list"

type_synonym database = "(string, table) gomap"

definition jobColumns :: "string list" where
  "jobColumns = [''id'', ''priority'', ''required_tool'', ''depends_on'', ''status'', ''assigned_robot'',
     ''dedup_key'', ''seq'', ''location'', ''submitted_at_ms'', ''assigned_at_ms'', ''completed_at_ms'',
     ''attempt'', ''archived_at_ms'']"

definition robotColumns :: "string list" where
  "robotColumns = [''id'', ''location'', ''tool'', ''available'', ''load'', ''last_heartbeat_ns'']"

text \<open>\<open>CREATE TABLE IF NOT EXISTS\<close>.\<close>

definition createTable :: "string \<Rightarrow> string list \<Rightarrow> database \<Rightarrow> database" where
  "createTable name columns db =
     (if go_get db name = None then go_put name \<lparr>tb_columns = columns, tb_rows = []\<rparr> db else db)"

definition createSchema :: "database \<Rightarrow> database" where
  "createSchema db = createTable ''robots'' robotColumns (createTable ''jobs'' jobColumns db)"

record migration =
  mg_table :: string
  mg_column :: string
  mg_default :: cell

definition migrations :: "migration list" where
  "migrations =
     [\<lparr>mg_table = ''jobs'', mg_column = ''location'', mg_default = TextCell []\<rparr>,
      \<lparr>mg_table = ''robots'', mg_column = ''last_heartbeat_ns'', mg_default = IntCell 0\<rparr>,
      \<lparr>mg_table = ''jobs'', mg_column = ''submitted_at_ms'', mg_default = IntCell 0\<rparr>,
      \<lparr>mg_table = ''jobs'', mg_column = ''assigned_at_ms'', mg_default = IntCell 0\<rparr>,
      \<lparr>mg_table = ''jobs'', mg_column = ''completed_at_ms'', mg_default = IntCell 0\<rparr>,
      \<lparr>mg_table = ''jobs'', mg_column = ''attempt'', mg_default = IntCell 0\<rparr>,
      \<lparr>mg_table = ''jobs'', mg_column = ''archived_at_ms'', mg_default = IntCell 0\<rparr>]"

definition addColumn :: "migration \<Rightarrow> table \<Rightarrow> table" where
  "addColumn m t =
     \<lparr>tb_columns = tb_columns t @ [mg_column m],
      tb_rows = map (go_put (mg_column m) (mg_default m)) (tb_rows t)\<rparr>"

datatype migrateError = CannotReadColumns string | CannotAddColumn string string

text \<open>The calls of the driver are numbered from \<open>n\<close>; a table that is not there has no columns, and nothing can be added to it.\<close>

fun migrate :: "(nat \<Rightarrow> bool) \<Rightarrow> nat \<Rightarrow> migration list \<Rightarrow> database \<Rightarrow> migrateError option \<times> database" where
  "migrate fails n [] db = (None, db)"
| "migrate fails n (m # ms) db =
     (if fails n then (Some (CannotReadColumns (mg_table m)), db)
      else
        (case go_get db (mg_table m) of
           None \<Rightarrow> (Some (CannotAddColumn (mg_table m) (mg_column m)), db)
         | Some t \<Rightarrow>
             if mg_column m \<in> set (tb_columns t) then migrate fails (n + 1) ms db
             else if fails (n + 1) then (Some (CannotAddColumn (mg_table m) (mg_column m)), db)
             else migrate fails (n + 2) ms (go_put (mg_table m) (addColumn m t) db)))"

datatype openError = CannotConfigure | CannotCreate | CannotMigrate migrateError

text \<open>\<open>Open\<close>: three settings for a database in a file, the schema, and the columns.\<close>

definition OpenDatabase :: "(nat \<Rightarrow> bool) \<Rightarrow> bool \<Rightarrow> database \<Rightarrow> openError option \<times> database" where
  "OpenDatabase fails inFile db =
     (let n = (if inFile then 3 else 0)
      in if list_ex fails [0..<n] then (Some CannotConfigure, db)
         else if fails n then (Some CannotCreate, db)
         else
           (case migrate fails (n + 1) migrations (createSchema db) of
              (None, db') \<Rightarrow> (None, db') | (Some err, db') \<Rightarrow> (Some (CannotMigrate err), db')))"

subsection \<open>What it leaves\<close>

text \<open>A database grows: its tables keep their columns and their rows the values they had.\<close>

definition grownTable :: "table \<Rightarrow> table \<Rightarrow> bool" where
  "grownTable t t' \<longleftrightarrow> prefix (tb_columns t) (tb_columns t')
     \<and> list_all2 (\<lambda>r r'. \<forall>c \<in> set (tb_columns t). go_get r' c = go_get r c) (tb_rows t) (tb_rows t')"

definition grown :: "database \<Rightarrow> database \<Rightarrow> bool" where
  "grown db db' \<longleftrightarrow> (\<forall>name t. go_get db name = Some t \<longrightarrow>
     (\<exists>t'. go_get db' name = Some t' \<and> grownTable t t'))"

lemma grownTable_refl: "grownTable t t"
  by (simp add: grownTable_def list_all2_refl)

lemma grownTable_trans:
  assumes "grownTable a b" and "grownTable b c"
  shows "grownTable a c"
proof -
  have "set (tb_columns a) \<subseteq> set (tb_columns b)"
    using assms(1) set_mono_prefix by (auto simp: grownTable_def)
  then have "list_all2 (\<lambda>r r'. \<forall>c \<in> set (tb_columns a). go_get r' c = go_get r c) (tb_rows a) (tb_rows c)"
    using assms unfolding grownTable_def
    by (elim conjE) (rule list_all2_trans [where bs = "tb_rows b"], auto)
  moreover have "prefix (tb_columns a) (tb_columns c)"
    using assms by (auto simp: grownTable_def intro: prefix_order.trans)
  ultimately show ?thesis by (simp add: grownTable_def)
qed

lemma grownTable_add: "mg_column m \<notin> set (tb_columns t) \<Longrightarrow> grownTable t (addColumn m t)"
  by (auto simp: grownTable_def addColumn_def list_all2_conv_all_nth)

lemma grown_refl: "grown db db"
  using grownTable_refl by (auto simp: grown_def)

lemma grown_trans: "grown a b \<Longrightarrow> grown b c \<Longrightarrow> grown a c"
  unfolding grown_def using grownTable_trans by meson

lemma grown_add:
  assumes "go_get db (mg_table m) = Some t" and "mg_column m \<notin> set (tb_columns t)"
  shows "grown db (go_put (mg_table m) (addColumn m t) db)"
  using assms grownTable_refl grownTable_add [OF assms(2)] by (auto simp: grown_def)

lemma migrate_grown: "migrate fails n ms db = (err, db') \<Longrightarrow> grown db db'"
proof (induction fails n ms db rule: migrate.induct)
  case (2 fails n m ms db)
  show ?case
  proof (cases "go_get db (mg_table m)")
    case (Some t)
    then show ?thesis using 2 grown_refl grown_add [OF Some] grown_trans
      by (auto split: if_splits)
  qed (use 2 grown_refl in \<open>auto split: if_splits\<close>)
qed (simp add: grown_refl)

definition hasColumn :: "database \<Rightarrow> migration \<Rightarrow> bool" where
  "hasColumn db m \<longleftrightarrow> (\<exists>t. go_get db (mg_table m) = Some t \<and> mg_column m \<in> set (tb_columns t))"

lemma hasColumn_grown: "hasColumn db m \<Longrightarrow> grown db db' \<Longrightarrow> hasColumn db' m"
  unfolding hasColumn_def grown_def grownTable_def using set_mono_prefix by fast

lemma migrate_complete: "migrate fails n ms db = (None, db') \<Longrightarrow> m \<in> set ms \<Longrightarrow> hasColumn db' m"
proof (induction fails n ms db arbitrary: m rule: migrate.induct)
  case (2 fails n m' ms db)
  obtain t where t: "go_get db (mg_table m') = Some t" using 2(3) by (auto split: if_splits option.splits)
  show ?case
  proof (cases "mg_column m' \<in> set (tb_columns t)")
    case True
    then have r: "migrate fails (n + 1) ms db = (None, db')" "hasColumn db m'"
      using 2(3) t by (auto simp: hasColumn_def split: if_splits)
    then show ?thesis using 2(1) [OF _ t True r(1)] 2(3,4) hasColumn_grown [OF r(2) migrate_grown [OF r(1)]]
      by (auto split: if_splits)
  next
    case False
    let ?db = "go_put (mg_table m') (addColumn m' t) db"
    have r: "migrate fails (n + 2) ms ?db = (None, db')" "hasColumn ?db m'"
      using 2(3) t False by (auto simp: hasColumn_def addColumn_def split: if_splits)
    then show ?thesis using 2(2) [OF _ t False _ r(1)] 2(3,4) t False hasColumn_grown [OF r(2) migrate_grown [OF r(1)]]
      by (auto split: if_splits)
  qed
qed simp

text \<open>A database that has every column is left as it is, and so is one that was opened before.\<close>

lemma migrate_again:
  "(\<And>m. m \<in> set ms \<Longrightarrow> hasColumn db m) \<Longrightarrow> snd (migrate fails n ms db) = db"
  by (induction fails n ms db rule: migrate.induct) (fastforce simp: hasColumn_def)+

end
