(* ===== verification/Spec2Isabelle.thy ===== *)
theory Spec2Isabelle
  imports DispatchTheorems QueueTheorems RobotTheorems StoreTheorems RecordTheorems EtaTheorems
    MaintenanceTheorems Mqtt ApiTheorems ConfigTheorems StartTheorems HealthTheorems OutgoingTheorems
    TokenTheorems StreamTheorems Sinks Metrics Migrate
begin

text \<open>
  A verification of the job dispatcher of the HYDRA plant (Go, \<open>src/src\<close> and \<open>src/main.go\<close>): a
  service that takes jobs over HTTP, orders them by priority and dependencies, gives each to a robot
  with the right tool, hears whether it succeeded, takes jobs back from robots that fall silent or
  fail, keeps everything in SQLite, and publishes events, estimates and a state document.

  The parts of the program and their theories.

  \<^item> \<open>dispatcher.go\<close>, the engine. Its data is in \<open>Model\<close> (jobs, robots, statuses, errors as values),
    its state and the helpers every operation uses (write-through, batches, the index from robots to
    jobs, loading) in \<open>Engine\<close>. \<open>Dependencies\<close> and \<open>Refresh\<close>: the dependency graph, the status of a
    waiting job and its re-evaluation to a fixed point. \<open>Submission\<close>: \<open>AddJob\<close> and \<open>SubmitJob\<close> with
    deduplication and retry. \<open>Selection\<close>: which robot may take a job and which one does (with
    \<open>location.go\<close> and \<open>toolconfirm.go\<close>), the order of the queue, and why a job waits (\<open>waiting.go\<close>).
    \<open>Dispatch\<close>: the scheduling pass. \<open>Completion\<close>: reports, cancellation and the production events
    (\<open>production_event.go\<close>). \<open>Robots\<close>: heartbeats, registration, removal. \<open>Requeue\<close> and \<open>Silence\<close>:
    taking jobs back (\<open>replan.go\<close>), the stop requests (\<open>stopconfirm.go\<close>) and the sweep over silent
    robots. \<open>Archive\<close> (\<open>archive.go\<close>) and \<open>Queries\<close> (listings and \<open>state.go\<close>).
  \<^item> \<open>sqlitestore.go\<close>: \<open>Store\<close> states the interfaces the engine calls and their contract as locales,
    \<open>SqliteStore\<close> models the tables and interprets them, \<open>Migrate\<close> opens a database of any version.
  \<^item> \<open>events.go\<close>: \<open>Events\<close>, the hub with its ring and its subscribers. \<open>tools.go\<close>: \<open>ToolCatalog\<close>.
  \<^item> \<open>eta.go\<close>: \<open>ETA\<close> on the floating point of \<open>Float64\<close>; \<open>Schedule\<close> and \<open>Percentile\<close> prove it.
  \<^item> \<open>maintenance.go\<close>: \<open>Maintenance\<close> and \<open>Proposals\<close>.
  \<^item> \<open>config.go\<close> and the settings of the other files: \<open>Config\<close>, over \<open>Json\<close>, which stores a document
    in the typed values of a program as \<open>encoding/json\<close> does. \<open>reload.go\<close>: \<open>Reload\<close>.
  \<^item> \<open>server_identity.go\<close>: \<open>Identity\<close>, the check of a token of the server. \<open>production_identity.go\<close>
    and \<open>proposal_verify.go\<close>: \<open>Verifier\<close>, signing a token and asking about a signed proposal.
  \<^item> \<open>src/src/api\<close>: \<open>Api\<close>, every route with its checks, its handler, its status and what it answers;
    \<open>Serving\<close>, what a request can do to the engine and the board; \<open>Stream\<close>, the loop and the text of
    the live events; \<open>Metrics\<close>, the counting of the answers and the text of the metrics.
  \<^item> \<open>src/main.go\<close>, \<open>server_limits.go\<close>, \<open>health_grpc.go\<close>: \<open>Start\<close>, from the flags and the files to the
    service that listens, and what it does in the background. \<open>src/src/healthgrpc\<close>: \<open>Health\<close>.
  \<^item> What the service sends: \<open>Mqtt\<close> (the packets of \<open>mqttstate.go\<close>), \<open>Outgoing\<close> (webhooks, the queue of
    production events, the mirror of the state) and \<open>Sinks\<close> (the file and the receiver of production
    events, the request to the controller of a robot).

  The interfaces between the parts are locales, interpreted on the code's own definitions: a store
  whose writes are atomic, with and without batches (\<open>Store\<close>, interpreted in \<open>SqliteStore\<close>), what a
  scheduling pass asks of it (\<open>Durability\<close>), a store that does what it is asked (\<open>Mirror\<close>,
  interpreted in \<open>SqliteRestart\<close>), the choice of a best element (\<open>Prelude\<close>, interpreted in
  \<open>Selection\<close>), and a handler of requests (\<open>Serving\<close>).

  What the lemmas show. \<open>Invariant\<close> states what holds between two calls of the engine, and the
  theory of each operation proves that it keeps it and what it does on every branch. \<open>Lifecycle\<close> is
  the service as a step relation, one step for each exported method (each holds the mutex of the
  engine throughout), and \<open>Restart\<close> lets it start empty or from a store with consistent records.
  \<open>Durability\<close> follows the writes of a scheduling pass through any failure of the store; \<open>Mirror\<close> and
  \<open>MirrorSteps\<close> prove, over a contract for a store that does what it is asked, that every operation
  leaves the store with what the engine has, and \<open>SqliteRestart\<close> that the SQLite store keeps that
  contract and that a restart gives the engine back. \<open>Told\<close> proves that each step publishes to the
  hub exactly the changes it made to the jobs. \<open>Serving\<close> takes every request to steps of the
  engine, so that what holds of the engine holds behind the API. \<open>Demo\<close> is the concrete plant that
  the theorems are applied to. The properties are here (C1 to C4) and in \<open>DispatchTheorems\<close> (C5 to
  C9, C11), \<open>ApiTheorems\<close> (C10, C20, C22, C24, C25, C29), \<open>QueueTheorems\<close> (C12, C13, C15, C16, C18, C19),
  \<open>HealthTheorems\<close> (C17), \<open>TokenTheorems\<close> (C21), \<open>RobotTheorems\<close> (C23, C28), \<open>StartTheorems\<close> (C26),
  \<open>ConfigTheorems\<close> (C27, C37), \<open>StoreTheorems\<close> (C30, C31), \<open>RecordTheorems\<close> (C32, C33), \<open>StreamTheorems\<close> (C14, C34),
  \<open>EtaTheorems\<close> (C35), \<open>OutgoingTheorems\<close> (C36), \<open>MaintenanceTheorems\<close> (C38, C39) and \<open>Mqtt\<close> (C40);
  those theories hold further theorems of the same kind, such as what a cancellation and a
  confirmed stop do, when a new job is accepted, and the bounds of a percentile.

  How the code is rendered. A Go map is an association list whose order is the order a loop over it
  happens to visit; what must not depend on it is proved not to. Pointers that the engine shares
  (the jobs and robots of its maps) are entries of those maps, read again where the code reads them.
  Strings are byte lists. An instant is a number of nanoseconds, the zero time is \<open>None\<close>, and a
  clock is the sequence of its readings, so it may jump. Integers of Go are unbounded here except in
  the MQTT packets and the comparison of tokens, where bytes and lengths are words, and where a
  document is stored into a 64-bit integer; durations saturate as in the standard library, and the
  product of a number of seconds and a second is the float64 product with the conversion of amd64. A
  \<open>float64\<close> cost is a rational, an infinity or NaN, compared only; the arithmetic of a percentile and
  of a token's expiry is rounded after every operation, as on amd64, where operations are not fused.
  Errors are constructors with the values their texts are made of; a call that could dereference a
  nil pointer has a result for it, which C13 proves unreachable. Loops are structural recursion, or
  functions with a termination proof, except the re-evaluation of the queue
  (\<open>refreshLoop\<close>), which is a partial function proved to return on every queue without a cycle (C18).
  No fuel is used. The SQLite driver is a parameter, an oracle that says which statement fails; a
  failed statement and a transaction that is not committed change nothing. Queries do not count as
  statements of the oracle. The parsing of URLs and addresses, base64, the keyed hash, the reader
  and the writer of JSON text, files, the environment and the network are parameters too (records
  \<open>netlib\<close>, \<open>crypto\<close>, \<open>machine\<close>, \<open>outside\<close>, \<open>wire\<close>, \<open>receiver\<close>), with what a theorem needs of them in
  its hypotheses (\<open>crypto_ok\<close>, \<open>goodDatabase\<close>).

  Not modelled: the text of a JSON document and of an error; the redirects of \<open>net/http\<close> for unclean
  paths; listeners, timers, the parsing of flags and log lines; the gRPC framework with its
  keepalive; the WAL settings of the database; and the generated protobuf code. All of these are
  other people's code that the sources call, or text for people to read. A handler that calls the
  engine more than once (\<open>POST /dispatch\<close> and the listings after a change) is one step,
  as if no other request came in between; the two halves of \<open>ConfirmTools\<close>, which lets go of the
  lock while it asks, are modelled apart in \<open>Selection\<close>.
\<close>

section \<open>Properties: the state of the dispatcher\<close>

text \<open>
  C1: started empty or from a store whose records are consistent, and whatever sequence of
  operations the service then goes through, with any arguments and any answers of the store (errors
  included), the engine keeps its invariant: the maps are keyed by the IDs, dependencies exist
  and have no cycle, a started job has all its dependencies done, every waiting job carries the
  status its dependencies give it, an assigned job holds its robot alone, submission numbers are
  unique, and the indexes by deduplication key and by robot are right.
\<close>

theorem dispatcher_invariant: "running e \<Longrightarrow> engine_ok e"
  by (rule running_ok)

lemma dispatcher_invariant_witness: "engine_ok plant2"
  by (rule dispatcher_invariant [OF plants_running(2)])

text \<open>
  C2: at every moment an assigned job has a registered robot that is not available, and no other
  job is assigned to that robot.
\<close>

theorem robot_reserved_for_one_job:
  assumes "running e" and "getJob e a = Some ja" and "job_Status ja = StatusAssigned"
  shows "(\<exists>r. getRobot e (job_AssignedRobot ja) = Some r \<and> \<not> rob_Available r)
    \<and> (\<forall>b jb. getJob e b = Some jb \<longrightarrow> job_Status jb = StatusAssigned \<longrightarrow>
          job_AssignedRobot jb = job_AssignedRobot ja \<longrightarrow> b = a)"
proof -
  have r: "reserved_ok (eng_jobs e) (eng_robots e)"
    using running_ok [OF assms(1)] engine_okD(1) base_okD(3) by blast
  have f: "inFlight (job_Status ja)" using assms(3) by simp
  show ?thesis using reserved_robot(2) [OF r assms(2) f] reserved_one [OF r _ assms(2)] assms(3) by metis
qed

lemma robot_reserved_for_one_job_witness:
  "\<exists>r. getRobot plant2 ''w'' = Some r \<and> \<not> rob_Available r"
proof -
  have "map_option (\<lambda>j. (job_Status j, job_AssignedRobot j)) (getJob plant2 ''c'') = Some (StatusAssigned, ''w'')"
    by code_simp
  then obtain j where "getJob plant2 ''c'' = Some j" "job_Status j = StatusAssigned" "job_AssignedRobot j = ''w''"
    by auto
  then show ?thesis using robot_reserved_for_one_job [OF plants_running(2)] by metis
qed

text \<open>
  C3: in every reachable state a waiting job is pending exactly when all its dependencies are done,
  and unreachable exactly when a chain of waiting jobs leads from it to a failed or cancelled one.
\<close>

theorem waiting_status_exact:
  assumes "running e" and "getJob e jid = Some j" and "waiting (job_Status j)"
  shows "(job_Status j = StatusPending \<longleftrightarrow> (\<forall>d \<in> set (job_DependsOn j). depIs isDone (eng_jobs e) d))
    \<and> (job_Status j = StatusUnreachable \<longleftrightarrow> cutOff (eng_jobs e) jid)"
proof -
  note ok = running_ok [OF assms(1)]
  note q = base_okD(1) [OF engine_okD(1) [OF ok]]
  have s: "job_Status j = computeStatus (eng_jobs e) j"
    using engine_okD(2) [OF ok] assms(2,3) by (simp add: stable_def stableAt_def split: option.splits)
  have "depIs isDone (eng_jobs e) d \<longleftrightarrow> \<not> depIs notDone (eng_jobs e) d" if "d \<in> set (job_DependsOn j)" for d
    using deps_closedD [OF queue_okD(2) [OF q] assms(2) that] by (auto simp: depIs_def)
  then show ?thesis
    using s computeStatus_Pending [of "eng_jobs e" j]
      unreachable_iff_cutOff [OF engine_okD(2) [OF ok] queue_okD(3) [OF q] assms(2)] by metis
qed

lemma waiting_status_exact_witness: "\<not> depIs isDone (eng_jobs plant2) ''a''"
proof -
  have "map_option (\<lambda>j. (job_Status j, job_DependsOn j)) (getJob plant2 ''b'') = Some (StatusBlocked, [''a''])"
    by code_simp
  then obtain j where "getJob plant2 ''b'' = Some j" "job_Status j = StatusBlocked" "job_DependsOn j = [''a'']"
    by auto
  then show ?thesis using waiting_status_exact [OF plants_running(2), of "''b''" j] by simp
qed



end
